(* ===== verification/Manja_Prelude.thy ===== *)
theory Manja_Prelude
  imports Main "HOL-Library.List_Lexorder" "HOL-Library.Char_ord" "HOL-Library.Multiset"
    "HOL-Library.Product_Lexorder"
begin

text \<open>
  Shared vocabulary of the development: Go's error values, the sequencing of validations that
  return an error, slices (where nil and empty are different values), decimal numerals, and the
  comparator-based slice sort with the facts the components use about it. Go strings and byte
  slices are lists of 8-bit characters; Go compares strings bytewise, which is the lexicographic
  order of \<open>List_Lexorder\<close> over \<open>Char_ord\<close>.
\<close>

named_theorems go_err \<open>facts that read a successful validation\<close>

section \<open>Errors\<close>

text \<open>
  \<open>fmt.Errorf\<close> keeps its format and its arguments; \<open>%w\<close> wraps another error. No decision of the
  program looks into an error's text, so formats are not expanded.
\<close>

datatype go_error =
    Errorf string "string list"
  | Wrapf string "string list" go_error

type_synonym 'a result = "go_error + 'a"

text \<open>A function returning \<open>error\<close> is modelled by an option: \<open>None\<close> is nil.\<close>

type_synonym err = "go_error option"

definition fail_if :: "bool \<Rightarrow> go_error \<Rightarrow> err" where
  "fail_if b e = (if b then Some e else None)"

definition wrap_err :: "(go_error \<Rightarrow> go_error) \<Rightarrow> err \<Rightarrow> err" where
  "wrap_err w e = map_option w e"

text \<open>A sequence of \<open>if err := ...; err != nil { return err }\<close> statements: the first error wins.\<close>

fun first_error :: "err list \<Rightarrow> err" where
  "first_error [] = None"
| "first_error (e # es) = (case e of None \<Rightarrow> first_error es | Some x \<Rightarrow> Some x)"

text \<open>
  An error that returns early before the rest of a validation (\<open>and_then\<close>) or of a function with a
  result (\<open>require\<close>), and a call whose result the rest uses (\<open>bind_res\<close>).
\<close>

definition and_then :: "err \<Rightarrow> err \<Rightarrow> err" where
  "and_then e k = (case e of None \<Rightarrow> k | Some x \<Rightarrow> Some x)"

definition require :: "err \<Rightarrow> 'a result \<Rightarrow> 'a result" where
  "require e k = (case e of None \<Rightarrow> k | Some x \<Rightarrow> Inl x)"

definition bind_res :: "'a result \<Rightarrow> ('a \<Rightarrow> 'b result) \<Rightarrow> 'b result" where
  "bind_res r f = (case r of Inl e \<Rightarrow> Inl e | Inr x \<Rightarrow> f x)"

definition wrap_res :: "(go_error \<Rightarrow> go_error) \<Rightarrow> 'a result \<Rightarrow> 'a result" where
  "wrap_res w r = (case r of Inl e \<Rightarrow> Inl (w e) | Inr x \<Rightarrow> Inr x)"

text \<open>A loop over a slice with its index whose body may return an error.\<close>

definition each_index :: "(nat \<Rightarrow> 'a \<Rightarrow> err) \<Rightarrow> 'a list \<Rightarrow> err" where
  "each_index f xs = first_error (map (\<lambda>(i, x). f i x) (enumerate 0 xs))"

definition each :: "('a \<Rightarrow> err) \<Rightarrow> 'a list \<Rightarrow> err" where
  "each f xs = first_error (map f xs)"

definition to_err :: "'a result \<Rightarrow> err" where
  "to_err r = (case r of Inl e \<Rightarrow> Some e | Inr _ \<Rightarrow> None)"

lemma fail_if_None [simp, go_err]: "fail_if b e = None \<longleftrightarrow> \<not> b"
  by (simp add: fail_if_def)

lemma wrap_err_None [simp, go_err]: "wrap_err w e = None \<longleftrightarrow> e = None"
  by (simp add: wrap_err_def)

lemma first_error_None [simp, go_err]: "first_error es = None \<longleftrightarrow> (\<forall>e \<in> set es. e = None)"
  by (induction es) (auto split: option.splits)

declare first_error.simps [simp del]

lemma and_then_None [simp, go_err]: "and_then e k = None \<longleftrightarrow> e = None \<and> k = None"
  by (simp add: and_then_def split: option.split)

lemma require_Inr [simp, go_err]: "require e k = Inr v \<longleftrightarrow> e = None \<and> k = Inr v"
  by (simp add: require_def split: option.split)

lemma require_None [simp]: "e = None \<Longrightarrow> require e k = k"
  by (simp add: require_def)

lemma bind_res_Inr [simp, go_err]: "bind_res r f = Inr v \<longleftrightarrow> (\<exists>x. r = Inr x \<and> f x = Inr v)"
  by (simp add: bind_res_def split: sum.split)

lemma wrap_res_Inr [simp, go_err]: "wrap_res w r = Inr v \<longleftrightarrow> r = Inr v"
  by (simp add: wrap_res_def split: sum.split)

lemma if_Inl_Inr [simp, go_err]: "(if b then Inl e else k) = Inr v \<longleftrightarrow> \<not> b \<and> k = Inr v"
  by simp

lemma if_Some_None [simp, go_err]: "(if b then Some e else k) = None \<longleftrightarrow> \<not> b \<and> k = None"
  by simp

lemma each_None [simp, go_err]: "each f xs = None \<longleftrightarrow> (\<forall>x \<in> set xs. f x = None)"
  by (simp add: each_def)

lemma set_enumerate0: "set (enumerate 0 xs) = (\<lambda>i. (i, xs ! i)) ` {..<length xs}"
  by (force simp: enumerate_eq_zip set_zip image_def)

lemma ball_enumerate [simp]: "(\<forall>p \<in> set (enumerate 0 xs). P (snd p)) \<longleftrightarrow> (\<forall>x \<in> set xs. P x)"
  by (force simp: set_enumerate0 in_set_conv_nth)

lemma bex_enumerate [simp]: "(\<exists>p \<in> set (enumerate 0 xs). P (snd p)) \<longleftrightarrow> (\<exists>x \<in> set xs. P x)"
  using ball_enumerate [of xs "\<lambda>x. \<not> P x"] by blast

lemma each_index_None [simp, go_err]:
  "each_index f xs = None \<longleftrightarrow> (\<forall>i < length xs. f i (xs ! i) = None)"
  by (auto simp: each_index_def set_enumerate0)

lemma to_err_None [simp, go_err]: "to_err r = None \<longleftrightarrow> (\<exists>v. r = Inr v)"
  by (cases r) (simp_all add: to_err_def)

lemma each_index_Nil: "each_index f [] = None"
  by (simp add: each_index_def)

lemma first_error_append: "first_error (xs @ ys) = (case first_error xs of None \<Rightarrow> first_error ys | Some e \<Rightarrow> Some e)"
  by (induction xs) (simp_all add: first_error.simps split: option.split del: first_error_None)

section \<open>Slices\<close>

datatype 'a slice = NilSlice | Slice "'a list"

primrec elems :: "'a slice \<Rightarrow> 'a list" where
  "elems NilSlice = []"
| "elems (Slice xs) = xs"

text \<open>\<open>append(nil, xs...)\<close> and appending one by one to a nil slice: nil when nothing is appended.\<close>

definition nil_append :: "'a list \<Rightarrow> 'a slice" where
  "nil_append xs = (if xs = [] then NilSlice else Slice xs)"

definition map_slice :: "('a list \<Rightarrow> 'b list) \<Rightarrow> 'a slice \<Rightarrow> 'b slice" where
  "map_slice f s = (case s of NilSlice \<Rightarrow> NilSlice | Slice xs \<Rightarrow> Slice (f xs))"

lemma elems_nil_append [simp]: "elems (nil_append xs) = xs"
  by (simp add: nil_append_def)

lemma nil_append_inject [simp]: "nil_append xs = nil_append ys \<longleftrightarrow> xs = ys"
  by (auto simp: nil_append_def)

lemma elems_map_slice: "f [] = [] \<Longrightarrow> elems (map_slice f s) = f (elems s)"
  by (cases s) (simp_all add: map_slice_def)

section \<open>Decimal numerals\<close>

fun itoa :: "nat \<Rightarrow> string" where
  "itoa n = (if n < 10 then [char_of (48 + n)] else itoa (n div 10) @ [char_of (48 + n mod 10)])"

declare itoa.simps [simp del]

section \<open>Sorting a slice with a less function\<close>

text \<open>
  \<open>sort.Slice\<close> and \<open>sort.Strings\<close>: the insertion sort of package \<open>sort\<close>, which inserts each
  element into the sorted prefix from the right while \<open>less\<close> holds. The prefix is kept reversed.
\<close>

fun insert_right :: "('a \<Rightarrow> 'a \<Rightarrow> bool) \<Rightarrow> 'a \<Rightarrow> 'a list \<Rightarrow> 'a list" where
  "insert_right lt x [] = [x]"
| "insert_right lt x (y # ys) = (if lt x y then y # insert_right lt x ys else x # y # ys)"

definition sort_slice :: "('a \<Rightarrow> 'a \<Rightarrow> bool) \<Rightarrow> 'a list \<Rightarrow> 'a list" where
  "sort_slice lt xs = rev (fold (insert_right lt) xs [])"

abbreviation sort_strings :: "string list \<Rightarrow> string list" where
  "sort_strings \<equiv> sort_slice (<)"

lemma mset_insert_right: "mset (insert_right lt x ys) = add_mset x (mset ys)"
  by (induction ys) auto

lemma mset_fold_insert_right: "mset (fold (insert_right lt) xs acc) = mset xs + mset acc"
  by (induction xs arbitrary: acc) (auto simp: mset_insert_right)

lemma mset_sort_slice [simp]: "mset (sort_slice lt xs) = mset xs"
  by (simp add: sort_slice_def mset_fold_insert_right)

lemma set_sort_slice [simp]: "set (sort_slice lt xs) = set xs"
  by (metis mset_sort_slice set_mset_mset)

lemma length_sort_slice [simp]: "length (sort_slice lt xs) = length xs"
  by (metis mset_sort_slice size_mset)

lemma sort_slice_Nil [simp]: "sort_slice lt [] = []"
  by (simp add: sort_slice_def)

lemma sort_slice_eq_Nil [simp]: "sort_slice lt xs = [] \<longleftrightarrow> xs = []"
  by (metis length_0_conv length_sort_slice)

lemma distinct_sort_slice [simp]: "distinct (sort_slice lt xs) = distinct xs"
  by (metis mset_eq_imp_distinct_iff mset_sort_slice)

lemma distinct_map_sort_slice [simp]: "distinct (map f (sort_slice lt xs)) = distinct (map f xs)"
  by (metis mset_eq_imp_distinct_iff mset_map mset_sort_slice)

text \<open>
  The contract of a \<open>less\<close> function, as package \<open>sort\<close> documents it: a strict weak order. Under it
  the result is sorted, sorting a sorted slice changes nothing, and where equivalent elements are
  equal the result is the only sorted arrangement, so no choice of algorithm matters.
\<close>

locale slice_order =
  fixes lt :: "'a \<Rightarrow> 'a \<Rightarrow> bool"
  assumes less_asym: "lt x y \<Longrightarrow> \<not> lt y x"
    and less_ntrans: "\<not> lt x y \<Longrightarrow> \<not> lt y z \<Longrightarrow> \<not> lt x z"
begin

lemma insert_right_sorted:
  "sorted_wrt (\<lambda>x y. \<not> lt x y) ys \<Longrightarrow> sorted_wrt (\<lambda>x y. \<not> lt x y) (insert_right lt x ys)"
proof (induction ys)
  case (Cons y ys)
  have ins: "set (insert_right lt x ys) = insert x (set ys)"
    by (metis mset_insert_right set_mset_add_mset_insert set_mset_mset)
  show ?case
  proof (cases "lt x y")
    case True
    then have "\<not> lt y x" by (rule less_asym)
    with True Cons show ?thesis by (simp add: ins)
  next
    case False
    then have "\<forall>z \<in> set ys. \<not> lt x z"
      using Cons.prems less_ntrans by fastforce
    with False Cons.prems show ?thesis by simp
  qed
qed simp

lemma fold_insert_right_sorted:
  "sorted_wrt (\<lambda>x y. \<not> lt x y) acc \<Longrightarrow>
    sorted_wrt (\<lambda>x y. \<not> lt x y) (fold (insert_right lt) xs acc)"
  by (induction xs arbitrary: acc) (auto intro: insert_right_sorted)

lemma sorted_sort_slice: "sorted_wrt (\<lambda>x y. \<not> lt y x) (sort_slice lt xs)"
  by (simp add: sort_slice_def sorted_wrt_rev fold_insert_right_sorted)

lemma fold_insert_right_id:
  "sorted_wrt (\<lambda>x y. \<not> lt y x) (rev acc @ xs) \<Longrightarrow> fold (insert_right lt) xs acc = rev xs @ acc"
proof (induction xs arbitrary: acc)
  case (Cons x xs)
  have "insert_right lt x acc = x # acc"
    using Cons.prems by (cases acc) (auto simp: sorted_wrt_append)
  with Cons.IH [of "x # acc"] Cons.prems show ?case by simp
qed simp

lemma sort_slice_id: "sorted_wrt (\<lambda>x y. \<not> lt y x) xs \<Longrightarrow> sort_slice lt xs = xs"
  by (simp add: sort_slice_def fold_insert_right_id)

lemma sort_slice_idem: "sort_slice lt (sort_slice lt xs) = sort_slice lt xs"
  by (intro sort_slice_id sorted_sort_slice)

lemma sorted_unique:
  assumes "sorted_wrt (\<lambda>x y. \<not> lt y x) xs" and "sorted_wrt (\<lambda>x y. \<not> lt y x) ys"
    and "mset xs = mset ys"
    and "\<And>x y. x \<in> set xs \<Longrightarrow> y \<in> set xs \<Longrightarrow> \<not> lt x y \<Longrightarrow> \<not> lt y x \<Longrightarrow> x = y"
  shows "xs = ys"
  using assms
proof (induction xs arbitrary: ys)
  case (Cons x xs)
  then obtain y ys' where ys: "ys = y # ys'"
    by (cases ys) auto
  have sets: "insert x (set xs) = insert y (set ys')"
    using Cons.prems(3) ys by (metis list.simps(15) mset_eq_setD)
  have "x = y"
  proof (rule ccontr)
    assume ne: "x \<noteq> y"
    then have "y \<in> set xs" "x \<in> set ys'" using sets by auto
    then show False using Cons.prems ys ne by auto
  qed
  moreover have "xs = ys'"
    using Cons.prems ys \<open>x = y\<close> by (intro Cons.IH) auto
  ultimately show ?case by (simp add: ys)
qed simp

lemma sort_slice_perm:
  assumes "mset xs = mset ys"
    and "\<And>x y. x \<in> set xs \<Longrightarrow> y \<in> set xs \<Longrightarrow> \<not> lt x y \<Longrightarrow> \<not> lt y x \<Longrightarrow> x = y"
  shows "sort_slice lt xs = sort_slice lt ys"
  using assms by (intro sorted_unique sorted_sort_slice) auto

end

lemma slice_order_key: "slice_order (\<lambda>x y. (key x :: 'b::linorder) < key y)"
  by unfold_locales auto

interpretation string_order: slice_order "(<) :: string \<Rightarrow> string \<Rightarrow> bool"
  by unfold_locales auto

lemma sorted_sort_strings: "sorted (sort_strings xs)"
  using string_order.sorted_sort_slice [of xs] by (simp add: not_less)

lemma sort_strings_id: "sorted xs \<Longrightarrow> sort_strings xs = xs"
  by (intro string_order.sort_slice_id) (simp add: not_less)

lemma sort_strings_perm: "mset xs = mset ys \<Longrightarrow> sort_strings xs = sort_strings ys"
  by (rule string_order.sort_slice_perm) auto

section \<open>Detecting a duplicate key\<close>

text \<open>
  The loops that fill a map of seen keys and stop at the first key already present:
  the index and key of the first duplicate, if any.
\<close>

fun first_dup :: "nat \<Rightarrow> 'k list \<Rightarrow> 'k list \<Rightarrow> (nat \<times> 'k) option" where
  "first_dup i seen [] = None"
| "first_dup i seen (k # ks) = (if k \<in> set seen then Some (i, k) else first_dup (Suc i) (k # seen) ks)"

definition dup_error :: "(nat \<Rightarrow> 'k \<Rightarrow> go_error) \<Rightarrow> 'k list \<Rightarrow> err" where
  "dup_error mk ks = map_option (\<lambda>(i, k). mk i k) (first_dup 0 [] ks)"

lemma first_dup_None: "first_dup i seen ks = None \<longleftrightarrow> distinct ks \<and> set ks \<inter> set seen = {}"
  by (induction ks arbitrary: i seen) auto

lemma dup_error_None [simp, go_err]: "dup_error mk ks = None \<longleftrightarrow> distinct ks"
  by (simp add: dup_error_def first_dup_None)

section \<open>Go maps\<close>

text \<open>
  A Go map as an association list with distinct keys, in insertion order: writing an existing key
  replaces its value. Lookup is \<open>map_of\<close>.
\<close>

type_synonym ('k, 'v) go_map = "('k \<times> 'v) list"

fun map_put :: "'k \<Rightarrow> 'v \<Rightarrow> ('k, 'v) go_map \<Rightarrow> ('k, 'v) go_map" where
  "map_put k v [] = [(k, v)]"
| "map_put k v ((k', v') # m) = (if k = k' then (k, v) # m else (k', v') # map_put k v m)"

definition map_keys :: "('k, 'v) go_map \<Rightarrow> 'k list" where
  "map_keys m = map fst m"

definition map_from :: "('a \<Rightarrow> 'k) \<Rightarrow> ('a \<Rightarrow> 'v) \<Rightarrow> 'a list \<Rightarrow> ('k, 'v) go_map" where
  "map_from key val xs = fold (\<lambda>x. map_put (key x) (val x)) xs []"

lemma map_of_put [simp]: "map_of (map_put k v m) = (map_of m)(k \<mapsto> v)"
  by (induction m) auto

lemma map_of_snoc: "k \<notin> fst ` set m \<Longrightarrow> map_of (m @ [(k, v)]) = (map_of m)(k \<mapsto> v)"
  by (induction m) (auto simp: fun_eq_iff)

lemma set_keys_put: "set (map_keys (map_put k v m)) = insert k (set (map_keys m))"
  unfolding map_keys_def set_map by (induction m rule: map_put.induct) auto

lemma distinct_keys_put: "distinct (map_keys m) \<Longrightarrow> distinct (map_keys (map_put k v m))"
proof (induction m)
  case (Cons p m)
  then show ?case using set_keys_put [of k v m] by (cases p) (auto simp: map_keys_def)
qed (simp add: map_keys_def)

lemma map_from_props:
  "set (map_keys (map_from key val xs)) = key ` set xs"
  "distinct (map_keys (map_from key val xs))"
proof -
  have "set (map_keys (fold (\<lambda>x. map_put (key x) (val x)) xs m)) = key ` set xs \<union> set (map_keys m)" for m
    by (induction xs arbitrary: m) (auto simp: set_keys_put)
  then show "set (map_keys (map_from key val xs)) = key ` set xs" by (simp add: map_from_def map_keys_def)
  have "distinct (map_keys m) \<Longrightarrow> distinct (map_keys (fold (\<lambda>x. map_put (key x) (val x)) xs m))" for m
    by (induction xs arbitrary: m) (auto simp: distinct_keys_put)
  then show "distinct (map_keys (map_from key val xs))" by (simp add: map_from_def map_keys_def)
qed

lemma map_from_snoc: "map_from key val (xs @ [a]) = map_put (key a) (val a) (map_from key val xs)"
  by (simp add: map_from_def)

lemma map_from_None: "map_of (map_from key val xs) k = None \<longleftrightarrow> k \<notin> key ` set xs"
  by (induction xs rule: rev_induct) (auto simp: map_from_snoc, simp add: map_from_def)

lemma map_from_Some:
  "inj_on key (set xs) \<Longrightarrow>
     map_of (map_from key val xs) k = Some v \<longleftrightarrow> (\<exists>x \<in> set xs. key x = k \<and> val x = v)"
proof (induction xs rule: rev_induct)
  case Nil
  show ?case by (simp add: map_from_def)
next
  case (snoc a xs)
  then have "inj_on key (set xs)" by (auto intro: inj_on_subset)
  moreover have "\<forall>x \<in> set xs. key x = key a \<longrightarrow> x = a" using snoc.prems unfolding inj_on_def by auto
  ultimately show ?case using snoc.IH by (auto simp: map_from_snoc)
qed

text \<open>In any case a value found was put there under its key.\<close>

lemma map_from_SomeD: "map_of (map_from key val xs) k = Some v \<Longrightarrow> \<exists>x \<in> set xs. key x = k \<and> val x = v"
  by (induction xs rule: rev_induct) (auto simp: map_from_snoc split: if_splits, simp add: map_from_def)

section \<open>Transition systems\<close>

text \<open>
  The contract of a state whose mutations are a relation: every step keeps the invariant; in the
  ranked case it also raises a counter, so no state is ever revisited.
\<close>

locale invariant_system =
  fixes step :: "'s \<Rightarrow> 's \<Rightarrow> bool" and inv :: "'s \<Rightarrow> bool"
  assumes step_inv: "inv s \<Longrightarrow> step s s' \<Longrightarrow> inv s'"
begin

lemma reach_inv: "step\<^sup>*\<^sup>* s s' \<Longrightarrow> inv s \<Longrightarrow> inv s'"
  by (induction rule: rtranclp_induct) (auto intro: step_inv)

lemma reach_preserves:
  assumes "step\<^sup>*\<^sup>* s s'" and "inv s" and "\<And>u u'. inv u \<Longrightarrow> step u u' \<Longrightarrow> f u' = f u"
  shows "f s' = f s"
  using assms(1,2) by (induction rule: rtranclp_induct) (use assms(3) reach_inv in force)+

end

locale ranked_system = invariant_system step inv
  for step :: "'s \<Rightarrow> 's \<Rightarrow> bool" and inv :: "'s \<Rightarrow> bool" +
  fixes rank :: "'s \<Rightarrow> nat"
  assumes step_rank: "inv s \<Longrightarrow> step s s' \<Longrightarrow> rank s' = Suc (rank s)"
begin

lemma reach_rank:
  assumes "step\<^sup>*\<^sup>* s s'" and "inv s"
  shows "s' = s \<or> rank s < rank s'"
  using assms
proof (induction rule: rtranclp_induct)
  case (step y z)
  then show ?case using step_rank [of y z] reach_inv [of s y] by auto
qed simp

lemma reach_antisym: "step\<^sup>*\<^sup>* s s' \<Longrightarrow> step\<^sup>*\<^sup>* s' s \<Longrightarrow> inv s \<Longrightarrow> s' = s"
  using reach_rank [of s s'] reach_rank [of s' s] reach_inv [of s s'] by auto

end

end
