(* ===== verification/Go_Utf8.thy ===== *)
theory Go_Utf8
  imports Manja_Prelude
begin

text \<open>
  UTF-8 as Go's \<open>unicode/utf8\<close> decodes it, over strings as lists of bytes: the decoding of the
  first and of the last rune, the runes of a string as a \<open>range\<close> loop visits them, and
  \<open>utf8.ValidString\<close>. The lemmas show that encoding and decoding are inverse on scalar values
  and that a valid string is the concatenation of the encodings of its runes.
\<close>

abbreviation bv :: "char \<Rightarrow> nat" where
  "bv c \<equiv> of_char c"

definition RuneError :: nat where
  "RuneError = 65533"

lemma RuneError_not_ascii [simp]: "r < 128 \<Longrightarrow> RuneError \<noteq> r"
  by (simp add: RuneError_def)

definition is_cont :: "nat \<Rightarrow> bool" where
  "is_cont b \<longleftrightarrow> 128 \<le> b \<and> b \<le> 191"

text \<open>The length announced by a leading byte; 0 for a byte that cannot start a rune.\<close>

definition lead_len :: "nat \<Rightarrow> nat" where
  "lead_len b = (if b < 128 then 1 else if b < 194 then 0 else if b \<le> 223 then 2
     else if b \<le> 239 then 3 else if b \<le> 244 then 4 else 0)"

text \<open>The range of the second byte, narrower after E0, ED, F0 and F4.\<close>

definition second_ok :: "nat \<Rightarrow> nat \<Rightarrow> bool" where
  "second_ok b0 b1 \<longleftrightarrow>
     (if b0 = 224 then 160 else if b0 = 240 then 144 else 128) \<le> b1 \<and>
     b1 \<le> (if b0 = 237 then 159 else if b0 = 244 then 143 else 191)"

text \<open>Whether the bytes after the leading one are admissible, and the rune they spell.\<close>

fun seq_ok :: "nat list \<Rightarrow> bool" where
  "seq_ok [b0] = True"
| "seq_ok [b0, b1] = second_ok b0 b1"
| "seq_ok [b0, b1, b2] = (second_ok b0 b1 \<and> is_cont b2)"
| "seq_ok [b0, b1, b2, b3] = (second_ok b0 b1 \<and> is_cont b2 \<and> is_cont b3)"
| "seq_ok _ = False"

fun seq_rune :: "nat list \<Rightarrow> nat" where
  "seq_rune [b0] = b0"
| "seq_rune [b0, b1] = (b0 - 192) * 64 + (b1 - 128)"
| "seq_rune [b0, b1, b2] = (b0 - 224) * 4096 + (b1 - 128) * 64 + (b2 - 128)"
| "seq_rune [b0, b1, b2, b3] =
     (b0 - 240) * 262144 + (b1 - 128) * 4096 + (b2 - 128) * 64 + (b3 - 128)"
| "seq_rune _ = RuneError"

definition decode_rune :: "string \<Rightarrow> nat \<times> nat" where
  "decode_rune s =
     (case s of [] \<Rightarrow> (RuneError, 0)
      | c # _ \<Rightarrow>
        (let n = lead_len (bv c); bs = map bv (take n s) in
         if length s < n \<or> \<not> seq_ok bs then (RuneError, 1) else (seq_rune bs, n)))"

definition is_scalar :: "nat \<Rightarrow> bool" where
  "is_scalar r \<longleftrightarrow> r < 55296 \<or> (57344 \<le> r \<and> r \<le> 1114111)"

definition encode_bytes :: "nat \<Rightarrow> nat list" where
  "encode_bytes r =
     (if r < 128 then [r]
      else if r < 2048 then [192 + r div 64, 128 + r mod 64]
      else if r < 65536 then [224 + r div 4096, 128 + r div 64 mod 64, 128 + r mod 64]
      else [240 + r div 262144, 128 + r div 4096 mod 64, 128 + r div 64 mod 64, 128 + r mod 64])"

definition encode_rune :: "nat \<Rightarrow> string" where
  "encode_rune r = map char_of (encode_bytes (if is_scalar r then r else RuneError))"

fun runes :: "string \<Rightarrow> nat list" where
  "runes [] = []"
| "runes (c # r) = (case decode_rune (c # r) of (rn, n) \<Rightarrow> rn # runes (drop (n - 1) r))"

fun utf8_valid :: "string \<Rightarrow> bool" where
  "utf8_valid [] = True"
| "utf8_valid (c # r) =
     (case decode_rune (c # r) of (rn, n) \<Rightarrow>
        \<not> (rn = RuneError \<and> n = 1) \<and> utf8_valid (drop (n - 1) r))"

text \<open>The last rune: back up over at most three continuation bytes to a byte that can start one.\<close>

definition decode_last_rune :: "string \<Rightarrow> nat \<times> nat" where
  "decode_last_rune s =
     (if s = [] then (RuneError, 0)
      else if bv (last s) < 128 then (bv (last s), 1)
      else case find (\<lambda>k. k \<le> length s \<and> \<not> is_cont (bv (s ! (length s - k)))) [2, 3, 4] of
             None \<Rightarrow> (RuneError, 1)
           | Some k \<Rightarrow> (case decode_rune (drop (length s - k) s) of (r, m) \<Rightarrow>
               if m = k then (r, m) else (RuneError, 1)))"

section \<open>Decoding and encoding\<close>

lemma bv_less_256 [simp]: "bv c < 256"
  using of_char_mod_256 [of c] by (metis mod_less_divisor zero_less_numeral)

lemma bv_char_of: "b < 256 \<Longrightarrow> bv (char_of b) = b"
  by (simp add: of_char_of)

lemma char_of_bv [simp]: "char_of (bv c) = c"
  by simp

lemma lead_len_cases: "lead_len b \<in> {0, 1, 2, 3, 4}"
  by (simp add: lead_len_def)

lemma seq_ok_length: "seq_ok bs \<Longrightarrow> 1 \<le> length bs \<and> length bs \<le> 4"
  by (cases bs rule: seq_ok.cases) auto

lemma list_length_2: "length xs = 2 \<longleftrightarrow> (\<exists>a b. xs = [a, b])"
  and list_length_3: "length xs = 3 \<longleftrightarrow> (\<exists>a b c. xs = [a, b, c])"
  and list_length_4: "length xs = 4 \<longleftrightarrow> (\<exists>a b c d. xs = [a, b, c, d])"
  by (auto simp: numeral_eq_Suc length_Suc_conv)

lemma decode_rune_ok:
  "decode_rune (c # r) = (rn, n) \<Longrightarrow> \<not> (rn = RuneError \<and> n = 1) \<Longrightarrow>
     n = lead_len (bv c) \<and> n \<le> length (c # r) \<and> seq_ok (map bv (take n (c # r))) \<and>
     rn = seq_rune (map bv (take n (c # r)))"
  by (auto simp: decode_rune_def Let_def split: if_splits)

lemma decode_rune_size: "decode_rune (c # r) = (rn, n) \<Longrightarrow> 1 \<le> n \<and> n \<le> length (c # r)"
  using seq_ok_length by (fastforce simp: decode_rune_def Let_def split: if_splits)

lemma decode_ascii [simp]: "bv c < 128 \<Longrightarrow> decode_rune (c # r) = (bv c, 1)"
  by (simp add: decode_rune_def lead_len_def)

lemma split_base64: "(r::nat) = r div 4096 * 4096 + r div 64 mod 64 * 64 + r mod 64"
proof -
  have "r div 64 div 64 = r div 4096" by (simp add: div_mult2_eq [symmetric])
  then have "r div 64 = r div 4096 * 64 + r div 64 mod 64" by (metis div_mult_mod_eq)
  moreover have "r = r div 64 * 64 + r mod 64" by simp
  ultimately show ?thesis by linarith
qed

lemma split_base64': "(r::nat) div 4096 = r div 262144 * 64 + r div 4096 mod 64"
proof -
  have "r div 4096 div 64 = r div 262144" by (simp add: div_mult2_eq [symmetric])
  then show ?thesis by (metis div_mult_mod_eq)
qed

lemma encode_bytes_wf:
  assumes "is_scalar r"
  shows "seq_ok (encode_bytes r) \<and> lead_len (hd (encode_bytes r)) = length (encode_bytes r) \<and>
    seq_rune (encode_bytes r) = r \<and> (\<forall>b \<in> set (encode_bytes r). b < 256)"
proof -
  consider "r < 128" | "128 \<le> r" "r < 2048" | "2048 \<le> r" "r < 65536" | "65536 \<le> r"
    by linarith
  then show ?thesis
  proof cases
    case 1
    then show ?thesis by (simp add: encode_bytes_def lead_len_def)
  next
    case 2
    then have "r div 64 < 32" "2 \<le> r div 64" by auto
    moreover have "r mod 64 < 64" "r div 64 * 64 + r mod 64 = r" by auto
    ultimately show ?thesis
      using 2 by (auto simp: encode_bytes_def lead_len_def second_ok_def)
  next
    case 3
    define x y z where "x = r div 4096" and "y = r div 64 mod 64" and "z = r mod 64"
    have r: "r = x * 4096 + y * 64 + z" and lt: "y < 64" "z < 64"
      using split_base64 [of r] by (simp_all add: x_def y_def z_def)
    have "x < 16" "x = 0 \<longrightarrow> 32 \<le> y" using 3 r lt by linarith+
    moreover have "x = 13 \<longrightarrow> y < 32"
      using r lt assms unfolding is_scalar_def by linarith
    moreover have "encode_bytes r = [224 + x, 128 + y, 128 + z]"
      using 3 by (simp add: encode_bytes_def x_def y_def z_def)
    ultimately show ?thesis
      using lt by (auto simp: r [symmetric] lead_len_def second_ok_def is_cont_def)
  next
    case 4
    define w x y z where "w = r div 262144" and "x = r div 4096 mod 64"
      and "y = r div 64 mod 64" and "z = r mod 64"
    have r: "r = w * 262144 + x * 4096 + y * 64 + z" and lt: "x < 64" "y < 64" "z < 64"
      using split_base64 [of r] split_base64' [of r] by (simp_all add: w_def x_def y_def z_def)
    have "r \<le> 1114111" using 4 assms by (auto simp: is_scalar_def)
    then have "w < 5" "w = 0 \<longrightarrow> 16 \<le> x" "w = 4 \<longrightarrow> x < 16" using 4 r lt by linarith+
    moreover have "encode_bytes r = [240 + w, 128 + x, 128 + y, 128 + z]"
      using 4 by (simp add: encode_bytes_def w_def x_def y_def z_def)
    ultimately show ?thesis
      using lt by (auto simp: r [symmetric] lead_len_def second_ok_def is_cont_def)
  qed
qed

lemma join_base64:
  assumes "z < 64" and "y < 64" and "n = x * 4096 + y * 64 + z"
  shows "n div 4096 = (x::nat) \<and> n div 64 mod 64 = y \<and> n mod 64 = z"
proof -
  define k where "k = x * 64 + y"
  have n: "n = k * 64 + z" using assms by (simp add: k_def)
  have "n div 64 = k" "n mod 64 = z" using assms(1) unfolding n by auto
  then have "n div 64 = x * 64 + y" "n mod 64 = z" by (simp_all add: k_def)
  moreover have "n div 4096 = n div 64 div 64" by (simp add: div_mult2_eq [symmetric])
  ultimately show ?thesis using assms(2) by auto
qed

lemma encode_seq_rune:
  assumes ok: "seq_ok bs" and len: "lead_len (hd bs) = length bs"
  shows "encode_bytes (seq_rune bs) = bs \<and> is_scalar (seq_rune bs)"
  using ok
proof (cases bs rule: seq_ok.cases)
  case (1 b0)
  with len show ?thesis by (simp add: lead_len_def encode_bytes_def is_scalar_def split: if_splits)
next
  case (2 b0 b1)
  with len ok have b: "194 \<le> b0" "b0 \<le> 223" "128 \<le> b1" "b1 \<le> 191"
    by (auto simp: lead_len_def second_ok_def split: if_splits)
  define x y where "x = b0 - 192" and "y = b1 - 128"
  have e: "b0 = 192 + x" "b1 = 128 + y" and r: "2 \<le> x" "x < 32" "y < 64"
    using b by (auto simp: x_def y_def)
  have "(x * 64 + y) div 64 = x" "(x * 64 + y) mod 64 = y"
    using r by auto
  with r show ?thesis
    by (simp add: 2 e encode_bytes_def is_scalar_def)
next
  case (3 b0 b1 b2)
  with len ok have b: "224 \<le> b0" "b0 \<le> 239" "128 \<le> b1" "b1 \<le> 191" "128 \<le> b2" "b2 \<le> 191"
    "b0 = 224 \<longrightarrow> 160 \<le> b1" "b0 = 237 \<longrightarrow> b1 \<le> 159"
    by (auto simp: lead_len_def second_ok_def is_cont_def split: if_splits)
  define x y z where "x = b0 - 224" and "y = b1 - 128" and "z = b2 - 128"
  have e: "b0 = 224 + x" "b1 = 128 + y" "b2 = 128 + z" and r: "x < 16" "y < 64" "z < 64"
    "x = 0 \<longrightarrow> 32 \<le> y" "x = 13 \<longrightarrow> y < 32"
    using b unfolding x_def y_def z_def by linarith+
  define n where "n = x * 4096 + y * 64 + z"
  have "n div 4096 = x" "n div 64 mod 64 = y" "n mod 64 = z"
    using join_base64 [of z y n x] r unfolding n_def by auto
  moreover have "2048 \<le> n" "n < 65536"
    using r unfolding n_def by linarith+
  moreover have "x \<le> 13 \<Longrightarrow> n < 55296" "\<not> x \<le> 13 \<Longrightarrow> 57344 \<le> n"
    using r unfolding n_def by linarith+
  then have "is_scalar n"
    using \<open>n < 65536\<close> by (cases "x \<le> 13") (auto simp: is_scalar_def)
  ultimately show ?thesis
    by (simp add: 3 e encode_bytes_def n_def [symmetric])
next
  case (4 b0 b1 b2 b3)
  with len ok have b: "240 \<le> b0" "b0 \<le> 244" "128 \<le> b1" "b1 \<le> 191" "128 \<le> b2" "b2 \<le> 191"
    "128 \<le> b3" "b3 \<le> 191" "b0 = 240 \<longrightarrow> 144 \<le> b1" "b0 = 244 \<longrightarrow> b1 \<le> 143"
    by (auto simp: lead_len_def second_ok_def is_cont_def split: if_splits)
  define w x y z where "w = b0 - 240" and "x = b1 - 128" and "y = b2 - 128" and "z = b3 - 128"
  have e: "b0 = 240 + w" "b1 = 128 + x" "b2 = 128 + y" "b3 = 128 + z"
    and r: "w < 5" "x < 64" "y < 64" "z < 64" "w = 0 \<longrightarrow> 16 \<le> x" "w = 4 \<longrightarrow> x < 16"
    using b unfolding w_def x_def y_def z_def by linarith+
  define n where "n = w * 262144 + x * 4096 + y * 64 + z"
  have d: "n div 4096 = w * 64 + x" "n div 64 mod 64 = y" "n mod 64 = z"
    using join_base64 [of z y n "w * 64 + x"] r unfolding n_def by auto
  moreover have "n div 4096 div 64 = w" "n div 4096 mod 64 = x"
    unfolding d using r by auto
  then have "n div 262144 = w" "n div 4096 mod 64 = x"
    by (simp_all add: div_mult2_eq [symmetric])
  moreover have bounds: "65536 \<le> n" "n \<le> 1114111"
    using r unfolding n_def by linarith+
  moreover from bounds have "is_scalar n" by (simp add: is_scalar_def)
  ultimately show ?thesis
    by (simp add: 4 e encode_bytes_def n_def [symmetric])
qed auto

lemma map_bv_encode: "is_scalar r \<Longrightarrow> map bv (encode_rune r) = encode_bytes r"
  using encode_bytes_wf [of r] by (auto simp: encode_rune_def bv_char_of intro!: map_idI)

lemma encode_bytes_ne [simp]: "encode_bytes r \<noteq> []"
  by (simp add: encode_bytes_def)

lemma encode_rune_ne [simp]: "encode_rune r \<noteq> []"
  by (simp add: encode_rune_def)

lemma decode_encode:
  assumes "is_scalar r"
  shows "decode_rune (encode_rune r @ s) = (r, length (encode_rune r))"
proof -
  obtain c cs where e: "encode_rune r = c # cs"
    by (cases "encode_rune r") auto
  have len: "length (encode_bytes r) = length (encode_rune r)"
    by (metis assms length_map map_bv_encode)
  have "bv c = hd (encode_bytes r)"
    using map_bv_encode [OF assms] by (metis e list.sel(1) list.simps(9))
  then have "lead_len (bv c) = length (c # cs)"
    using encode_bytes_wf [OF assms] len e by simp
  then show ?thesis
    using encode_bytes_wf [OF assms] map_bv_encode [OF assms] e
    by (simp add: decode_rune_def Let_def)
qed

lemma decode_rune_encode:
  assumes "decode_rune (c # r) = (rn, n)" and "\<not> (rn = RuneError \<and> n = 1)"
  shows "is_scalar rn" and "encode_rune rn = take n (c # r)" and "n = length (encode_rune rn)"
proof -
  let ?bs = "map bv (take n (c # r))"
  have ok: "n = lead_len (bv c)" "n \<le> length (c # r)" "seq_ok ?bs" "rn = seq_rune ?bs"
    using decode_rune_ok [OF assms] by auto
  have "1 \<le> n" using decode_rune_size [OF assms(1)] by simp
  then have "hd ?bs = bv c" by (cases n) auto
  then have "encode_bytes rn = ?bs \<and> is_scalar rn"
    using encode_seq_rune [of ?bs] ok by auto
  then show "is_scalar rn" and enc: "encode_rune rn = take n (c # r)"
    by (auto simp: encode_rune_def)
  show "n = length (encode_rune rn)"
    unfolding enc using ok(2) by simp
qed

lemma runes_encode: "is_scalar r \<Longrightarrow> runes (encode_rune r @ s) = r # runes s"
  and utf8_valid_encode: "is_scalar r \<Longrightarrow> utf8_valid (encode_rune r @ s) = utf8_valid s"
proof -
  assume r: "is_scalar r"
  obtain c cs where e: "encode_rune r = c # cs"
    by (cases "encode_rune r") auto
  have d: "decode_rune (c # (cs @ s)) = (r, Suc (length cs))"
    using decode_encode [OF r, of s] e by simp
  show "runes (encode_rune r @ s) = r # runes s"
    by (simp add: e d)
  have "\<not> (r = RuneError \<and> Suc (length cs) = 1)"
    using e by (auto simp: encode_rune_def encode_bytes_def RuneError_def is_scalar_def)
  then show "utf8_valid (encode_rune r @ s) = utf8_valid s"
    by (simp add: e d)
qed

definition encode_runes :: "nat list \<Rightarrow> string" where
  "encode_runes rs = concat (map encode_rune rs)"

lemma encode_runes_simps [simp]:
  "encode_runes [] = []" "encode_runes (r # rs) = encode_rune r @ encode_runes rs"
  "encode_runes (rs @ rs') = encode_runes rs @ encode_runes rs'"
  by (simp_all add: encode_runes_def)

lemma runes_encode_runes: "\<forall>r \<in> set rs. is_scalar r \<Longrightarrow> runes (encode_runes rs) = rs"
  by (induction rs) (simp_all add: runes_encode)

lemma utf8_valid_encode_runes: "\<forall>r \<in> set rs. is_scalar r \<Longrightarrow> utf8_valid (encode_runes rs)"
  by (induction rs) (simp_all add: utf8_valid_encode)

lemma utf8_valid_runes:
  "utf8_valid s \<Longrightarrow> (\<forall>r \<in> set (runes s). is_scalar r) \<and> encode_runes (runes s) = s"
proof (induction s rule: utf8_valid.induct)
  case (2 c r)
  obtain rn n where d: "decode_rune (c # r) = (rn, n)"
    by (cases "decode_rune (c # r)")
  with "2.prems" have ok: "\<not> (rn = RuneError \<and> n = 1)" and v: "utf8_valid (drop (n - 1) r)"
    by auto
  have "1 \<le> n" using decode_rune_size [OF d] by simp
  then have split: "c # r = take n (c # r) @ drop (n - 1) r"
    by (cases n) auto
  have rs: "runes (c # r) = rn # runes (drop (n - 1) r)"
    by (simp add: d)
  have "encode_runes (runes (c # r)) = c # r"
    unfolding rs encode_runes_simps using "2.IH" [OF d [symmetric] v] decode_rune_encode(2) [OF d ok] split
    by metis
  moreover have "\<forall>r' \<in> set (runes (c # r)). is_scalar r'"
    unfolding rs using "2.IH" [OF d [symmetric] v] decode_rune_encode(1) [OF d ok] by simp
  ultimately show ?case by blast
qed simp

text \<open>A valid string is exactly a string that spells some scalar values.\<close>

lemma utf8_valid_iff: "utf8_valid s \<longleftrightarrow> (\<exists>rs. (\<forall>r \<in> set rs. is_scalar r) \<and> s = encode_runes rs)"
  using utf8_valid_runes utf8_valid_encode_runes by metis

lemma utf8_valid_append: "utf8_valid s \<Longrightarrow> utf8_valid t \<Longrightarrow> utf8_valid (s @ t)"
  and runes_append: "utf8_valid s \<Longrightarrow> runes (s @ t) = runes s @ runes t"
proof -
  have "\<And>rs. \<forall>r \<in> set rs. is_scalar r \<Longrightarrow> runes (encode_runes rs @ t) = rs @ runes t"
    subgoal for rs by (induction rs) (simp_all add: runes_encode)
    done
  then show "utf8_valid s \<Longrightarrow> runes (s @ t) = runes s @ runes t"
    using utf8_valid_runes by metis
  show "utf8_valid s \<Longrightarrow> utf8_valid t \<Longrightarrow> utf8_valid (s @ t)"
    unfolding utf8_valid_iff by (metis encode_runes_simps(3) set_append Un_iff)
qed

lemma ascii_encode: "c \<in> set (encode_rune r) \<Longrightarrow> bv c < 128 \<Longrightarrow> r = bv c"
  by (auto simp: encode_rune_def encode_bytes_def RuneError_def is_scalar_def of_char_of
      split: if_splits)

text \<open>Every ASCII byte of a valid string is one of its runes.\<close>

lemma ascii_byte_is_rune: "utf8_valid s \<Longrightarrow> c \<in> set s \<Longrightarrow> bv c < 128 \<Longrightarrow> bv c \<in> set (runes s)"
proof -
  assume v: "utf8_valid s" and c: "c \<in> set s" "bv c < 128"
  from v c(1) have "c \<in> set (encode_runes (runes s))"
    by (simp add: utf8_valid_runes)
  then obtain r where "r \<in> set (runes s)" "c \<in> set (encode_rune r)"
    by (auto simp: encode_runes_def)
  with ascii_encode c(2) show ?thesis by metis
qed

lemma runes_ascii: "\<forall>c \<in> set v. bv c < 128 \<Longrightarrow> runes v = map bv v"
  by (induction v) auto

lemma utf8_valid_ascii: "\<forall>c \<in> set v. bv c < 128 \<Longrightarrow> utf8_valid v"
  by (induction v) (auto simp: RuneError_def)

end
