(* ===== verification/Go_Strings.thy ===== *)
theory Go_Strings
  imports Go_Utf8
begin

text \<open>
  The functions of package \<open>strings\<close> (and the classes of package \<open>unicode\<close>) the program uses, over
  byte strings. \<open>TrimSpace\<close>, \<open>Fields\<close> and the case mappings work on decoded runes, as in Go. The
  case tables of package \<open>unicode\<close> beyond ASCII are data of the Go release: they are the record
  \<open>unicode_case\<close>, an argument of the functions that use them.
\<close>

section \<open>Rune classes\<close>

definition is_control :: "nat \<Rightarrow> bool" where
  "is_control r \<longleftrightarrow> r < 32 \<or> (127 \<le> r \<and> r < 160)"

definition is_space :: "nat \<Rightarrow> bool" where
  "is_space r \<longleftrightarrow> (9 \<le> r \<and> r \<le> 13) \<or> r = 32 \<or> r = 133 \<or> r = 160 \<or> r = 5760 \<or>
     (8192 \<le> r \<and> r \<le> 8202) \<or> r = 8232 \<or> r = 8233 \<or> r = 8239 \<or> r = 8287 \<or> r = 12288"

section \<open>Trimming and splitting at white space\<close>

fun trim_left :: "string \<Rightarrow> string" where
  "trim_left [] = []"
| "trim_left (c # r) =
     (case decode_rune (c # r) of (rn, n) \<Rightarrow>
        if is_space rn then trim_left (drop (n - 1) r) else c # r)"

lemma decode_last_size: "s \<noteq> [] \<Longrightarrow> 1 \<le> snd (decode_last_rune s)"
proof -
  have "\<And>k. find (\<lambda>k. k \<le> length s \<and> \<not> is_cont (bv (s ! (length s - k)))) [2, 3, 4] = Some k \<Longrightarrow> 1 \<le> k"
    by (auto split: if_splits)
  moreover assume "s \<noteq> []"
  ultimately show ?thesis
    by (fastforce simp: decode_last_rune_def split: option.split prod.split)
qed

lemma decode_last_pos: "decode_last_rune s = (rn, n) \<Longrightarrow> s \<noteq> [] \<Longrightarrow> 0 < n"
  using decode_last_size [of s] by simp

function trim_right :: "string \<Rightarrow> string" where
  "trim_right s =
     (if s = [] then []
      else case decode_last_rune s of (rn, n) \<Rightarrow>
        if is_space rn then trim_right (take (length s - n) s) else s)"
  by pat_completeness auto
termination
  by (relation "measure length") (auto dest!: sym [of _ "decode_last_rune _"] decode_last_pos)

declare trim_right.simps [simp del]

definition TrimSpace :: "string \<Rightarrow> string" where
  "TrimSpace s = trim_right (trim_left s)"

text \<open>\<open>strings.Fields\<close>: the maximal runs of non-space runes.\<close>

function fields_from :: "string \<Rightarrow> string \<Rightarrow> string list" where
  "fields_from cur [] = (if cur = [] then [] else [cur])"
| "fields_from cur (c # r) =
     (case decode_rune (c # r) of (rn, n) \<Rightarrow>
        if is_space rn then (if cur = [] then [] else [cur]) @ fields_from [] (drop (n - 1) r)
        else fields_from (cur @ take n (c # r)) (drop (n - 1) r))"
  by pat_completeness auto
termination
  by (relation "measure (\<lambda>(cur, s). length s)") auto

definition Fields :: "string \<Rightarrow> string list" where
  "Fields s = fields_from [] s"

section \<open>Prefixes, separators, joining\<close>

fun has_prefix :: "string \<Rightarrow> string \<Rightarrow> bool" where
  "has_prefix [] s = True"
| "has_prefix (p # ps) [] = False"
| "has_prefix (p # ps) (c # s) = (p = c \<and> has_prefix ps s)"

definition has_suffix :: "string \<Rightarrow> string \<Rightarrow> bool" where
  "has_suffix q s = has_prefix (rev q) (rev s)"

definition trim_prefix :: "string \<Rightarrow> string \<Rightarrow> string" where
  "trim_prefix p s = (if has_prefix p s then drop (length p) s else s)"

definition trim_suffix :: "string \<Rightarrow> string \<Rightarrow> string" where
  "trim_suffix q s = (if has_suffix q s then take (length s - length q) s else s)"

fun contains_str :: "string \<Rightarrow> string \<Rightarrow> bool" where
  "contains_str s [] = (s = [])"
| "contains_str s (c # t) = (has_prefix s (c # t) \<or> contains_str s t)"

definition contains_char :: "string \<Rightarrow> char \<Rightarrow> bool" where
  "contains_char s c \<longleftrightarrow> c \<in> set s"

definition contains_any :: "string \<Rightarrow> char list \<Rightarrow> bool" where
  "contains_any s cs \<longleftrightarrow> list_ex (\<lambda>c. c \<in> set cs) s"

text \<open>\<open>strings.Split\<close> with a one-byte separator.\<close>

fun split_char :: "char \<Rightarrow> string \<Rightarrow> string list" where
  "split_char d [] = [[]]"
| "split_char d (c # s) =
     (if c = d then [] # split_char d s
      else case split_char d s of [] \<Rightarrow> [[c]] | w # ws \<Rightarrow> (c # w) # ws)"

definition cut_char :: "char \<Rightarrow> string \<Rightarrow> string \<times> string \<times> bool" where
  "cut_char d s =
     (if d \<in> set s then (takeWhile (\<lambda>c. c \<noteq> d) s, tl (dropWhile (\<lambda>c. c \<noteq> d) s), True)
      else (s, [], False))"

fun join_with :: "string \<Rightarrow> string list \<Rightarrow> string" where
  "join_with sep [] = []"
| "join_with sep [w] = w"
| "join_with sep (w # ws) = w @ sep @ join_with sep ws"

definition compare_strings :: "string \<Rightarrow> string \<Rightarrow> int" where
  "compare_strings a b = (if a < b then - 1 else if a = b then 0 else 1)"

section \<open>Case mapping\<close>

record unicode_case =
  uc_upper :: "nat \<Rightarrow> nat"
  uc_lower :: "nat \<Rightarrow> nat"

definition upper_rune :: "unicode_case \<Rightarrow> nat \<Rightarrow> nat" where
  "upper_rune uc r = (if r < 128 then (if 97 \<le> r \<and> r \<le> 122 then r - 32 else r) else uc_upper uc r)"

definition lower_rune :: "unicode_case \<Rightarrow> nat \<Rightarrow> nat" where
  "lower_rune uc r = (if r < 128 then (if 65 \<le> r \<and> r \<le> 90 then r + 32 else r) else uc_lower uc r)"

definition ToUpper :: "unicode_case \<Rightarrow> string \<Rightarrow> string" where
  "ToUpper uc s = encode_runes (map (upper_rune uc) (runes s))"

definition ToLower :: "unicode_case \<Rightarrow> string \<Rightarrow> string" where
  "ToLower uc s = encode_runes (map (lower_rune uc) (runes s))"

text \<open>
  What the normalisation of contract surfaces relies on: a case mapping maps scalar values to
  scalar values, keeps white space and control characters apart from the rest, and a second
  application changes nothing.
\<close>

definition case_map_ok :: "(nat \<Rightarrow> nat) \<Rightarrow> bool" where
  "case_map_ok f \<longleftrightarrow> (\<forall>r. is_scalar r \<longrightarrow>
     is_scalar (f r) \<and> f (f r) = f r \<and>
     (is_space (f r) \<longrightarrow> is_space r) \<and> (is_control (f r) \<longrightarrow> is_control r))"

definition unicode_case_ok :: "unicode_case \<Rightarrow> bool" where
  "unicode_case_ok uc \<longleftrightarrow> case_map_ok (upper_rune uc) \<and> case_map_ok (lower_rune uc)"

text \<open>Tables without entries beyond ASCII.\<close>

definition ascii_case :: unicode_case where
  "ascii_case = \<lparr>uc_upper = (\<lambda>r. r), uc_lower = (\<lambda>r. r)\<rparr>"

lemma ascii_case_ok: "unicode_case_ok ascii_case"
  by (auto simp: unicode_case_ok_def case_map_ok_def ascii_case_def upper_rune_def lower_rune_def
      is_scalar_def is_space_def is_control_def)


section \<open>Trimming in terms of runes\<close>

definition trim_runes :: "nat list \<Rightarrow> nat list" where
  "trim_runes rs = rev (dropWhile is_space (rev (dropWhile is_space rs)))"

lemma trim_left_encode: "\<forall>r \<in> set rs. is_scalar r \<Longrightarrow> trim_left (encode_runes rs) = encode_runes (dropWhile is_space rs)"
proof (induction rs)
  case (Cons r rs)
  obtain c cs where e: "encode_rune r = c # cs"
    by (cases "encode_rune r") auto
  have d: "decode_rune (c # (cs @ encode_runes rs)) = (r, Suc (length cs))"
    using decode_encode [of r "encode_runes rs"] Cons.prems e by simp
  show ?case using Cons by (simp add: e d)
qed simp

lemma nth_append_back: "(pre @ xs) ! (length (pre @ xs) - k) = xs ! (length xs - k)" if "k \<le> length xs" "0 < k"
  using that by (auto simp: nth_append)

lemma is_cont_mod [simp]: "is_cont (128 + x mod 64)"
proof -
  have "x mod 64 < 64" by simp
  then show ?thesis unfolding is_cont_def by linarith
qed

lemma encode_bytes_shape:
  assumes "128 \<le> r"
  shows "length (encode_bytes r) \<in> {2, 3, 4}" and "\<not> is_cont (encode_bytes r ! 0)"
    and "list_all is_cont (tl (encode_bytes r))"
  using assms by (simp_all add: encode_bytes_def) (simp_all add: is_cont_def)

lemma decode_last_encode:
  assumes r: "is_scalar r"
  shows "decode_last_rune (pre @ encode_rune r) = (r, length (encode_rune r))"
proof -
  let ?s = "pre @ encode_rune r"
  let ?n = "length (encode_rune r)"
  have enc: "map bv (encode_rune r) = encode_bytes r" by (rule map_bv_encode [OF r])
  have n: "?n = length (encode_bytes r)" by (metis enc length_map)
  have nth: "\<And>i. i < ?n \<Longrightarrow> bv (encode_rune r ! i) = encode_bytes r ! i"
    by (metis enc nth_map)
  show ?thesis
  proof (cases "r < 128")
    case True
    then have "encode_rune r = [char_of r]"
      using r by (simp add: encode_rune_def encode_bytes_def)
    with True show ?thesis by (simp add: decode_last_rune_def bv_char_of)
  next
    case False
    have bk: "bv (?s ! (length ?s - k)) = encode_bytes r ! (length (encode_bytes r) - k)"
      if "0 < k" and "k \<le> ?n" for k
    proof -
      have "?s ! (length ?s - k) = encode_rune r ! (?n - k)"
        using that by (intro nth_append_back)
      moreover have "bv (encode_rune r ! (?n - k)) = encode_bytes r ! (?n - k)"
        using that by (intro nth) simp
      ultimately show ?thesis by (simp only: n)
    qed
    note shape = encode_bytes_shape
    have big: "128 \<le> r" using False by simp
    have c: "is_cont (bv (?s ! (length ?s - k)))" if "0 < k" and "k < ?n" for k
    proof -
      have "encode_bytes r ! (?n - k) \<in> set (tl (encode_bytes r))"
        using that n by (cases "encode_bytes r") (auto simp: nth_Cons' intro!: nth_mem)
      then show ?thesis
        using that bk [of k] shape(3) [OF big] by (simp add: n list_all_iff)
    qed
    have lead: "\<not> is_cont (bv (?s ! (length ?s - ?n)))"
      using bk [of ?n] shape(2) [OF big] by (simp add: n)
    have m: "?n = 2 \<or> ?n = 3 \<or> ?n = 4"
      using shape(1) [OF big] by (simp add: n)
    have lst: "\<not> bv (last ?s) < 128"
      using c [of 1] m by (auto simp: last_conv_nth is_cont_def)
    have le: "?n \<le> length ?s" by simp
    have "find (\<lambda>k. k \<le> length ?s \<and> \<not> is_cont (bv (?s ! (length ?s - k)))) [2, 3, 4] = Some ?n"
      using m c [of 2] c [of 3] lead le by (elim disjE) (simp_all only: find.simps, simp_all)
    moreover have "decode_rune (drop (length ?s - ?n) ?s) = (r, ?n)"
      using decode_encode [OF r, of "[]"] by simp
    ultimately show ?thesis using lst by (simp add: decode_last_rune_def)
  qed
qed

lemma trim_right_encode:
  "\<forall>r \<in> set rs. is_scalar r \<Longrightarrow> trim_right (encode_runes rs) = encode_runes (rev (dropWhile is_space (rev rs)))"
proof (induction rs rule: rev_induct)
  case Nil
  show ?case by (simp add: trim_right.simps)
next
  case (snoc r rs)
  then have d: "decode_last_rune (encode_runes rs @ encode_rune r) = (r, length (encode_rune r))"
    by (simp add: decode_last_encode)
  show ?case
    using snoc by (subst trim_right.simps) (simp add: d)
qed

lemma TrimSpace_encode:
  "\<forall>r \<in> set rs. is_scalar r \<Longrightarrow> TrimSpace (encode_runes rs) = encode_runes (trim_runes rs)"
  by (simp add: TrimSpace_def trim_left_encode trim_runes_def trim_right_encode dropWhile_eq_drop
      in_set_dropD)

lemma encode_runes_inject:
  "\<forall>r \<in> set rs. is_scalar r \<Longrightarrow> \<forall>r \<in> set rs'. is_scalar r \<Longrightarrow>
    encode_runes rs = encode_runes rs' \<longleftrightarrow> rs = rs'"
  by (metis runes_encode_runes)

lemma trim_runes_id: "trim_runes rs = rs \<longleftrightarrow> rs = [] \<or> \<not> is_space (hd rs) \<and> \<not> is_space (last rs)"
proof (cases "rs = []")
  case False
  have len: "length (trim_runes rs) \<le> length (dropWhile is_space rs)"
    by (simp add: trim_runes_def) (metis length_dropWhile_le length_rev)
  have hd: "dropWhile is_space rs = rs \<longleftrightarrow> \<not> is_space (hd rs)"
    using False by (metis dropWhile_eq_self_iff)
  have last: "rev (dropWhile is_space (rev rs)) = rs \<longleftrightarrow> \<not> is_space (last rs)"
    using False by (metis dropWhile_eq_self_iff hd_rev rev_is_Nil_conv rev_rev_ident)
  show ?thesis
  proof
    assume t: "trim_runes rs = rs"
    then have "dropWhile is_space rs = rs"
      using len by (metis dropWhile_eq_drop append_take_drop_id length_append length_drop
          le_antisym length_dropWhile_le append_self_conv2 length_0_conv add_diff_cancel_right' diff_self_eq_0
          takeWhile_dropWhile_id)
    with t last hd False show "rs = [] \<or> \<not> is_space (hd rs) \<and> \<not> is_space (last rs)"
      by (simp add: trim_runes_def)
  qed (use hd last False in \<open>simp add: trim_runes_def\<close>)
qed (simp add: trim_runes_def)

text \<open>A valid string that trimming leaves alone neither starts nor ends with a space.\<close>

lemma TrimSpace_id:
  assumes "utf8_valid s"
  shows "TrimSpace s = s \<longleftrightarrow> runes s = [] \<or> \<not> is_space (hd (runes s)) \<and> \<not> is_space (last (runes s))"
proof -
  have s: "encode_runes (runes s) = s" "\<forall>r \<in> set (runes s). is_scalar r"
    using utf8_valid_runes [OF assms] by auto
  have "set (trim_runes (runes s)) \<subseteq> set (runes s)"
    by (auto simp: trim_runes_def dest!: set_dropWhileD)
  then have "TrimSpace s = s \<longleftrightarrow> trim_runes (runes s) = runes s"
    using TrimSpace_encode [OF s(2)] encode_runes_inject [of "trim_runes (runes s)" "runes s"] s
    by auto
  then show ?thesis by (simp add: trim_runes_id)
qed

text \<open>ASCII text already in the requested case is unchanged.\<close>

lemma ToUpper_ascii: "\<forall>c \<in> set s. bv c < 128 \<and> \<not> (97 \<le> bv c \<and> bv c \<le> 122) \<Longrightarrow> ToUpper uc s = s"
proof -
  assume a: "\<forall>c \<in> set s. bv c < 128 \<and> \<not> (97 \<le> bv c \<and> bv c \<le> 122)"
  then have "map (upper_rune uc) (runes s) = runes s"
    by (intro map_idI) (auto simp: runes_ascii upper_rune_def)
  then show ?thesis using utf8_valid_runes [OF utf8_valid_ascii] a by (simp add: ToUpper_def)
qed

lemma ToLower_ascii: "\<forall>c \<in> set s. bv c < 128 \<and> \<not> (65 \<le> bv c \<and> bv c \<le> 90) \<Longrightarrow> ToLower uc s = s"
proof -
  assume a: "\<forall>c \<in> set s. bv c < 128 \<and> \<not> (65 \<le> bv c \<and> bv c \<le> 90)"
  then have "map (lower_rune uc) (runes s) = runes s"
    by (intro map_idI) (auto simp: runes_ascii lower_rune_def)
  then show ?thesis using utf8_valid_runes [OF utf8_valid_ascii] a by (simp add: ToLower_def)
qed

end
