(* ===== verification/Go_Path.thy ===== *)
theory Go_Path
  imports Go_Strings
begin

text \<open>
  \<open>path.Clean\<close> as a fold over the slash-separated elements with the stack of elements kept so far
  (most recent first), and \<open>url.QueryUnescape\<close>. The lemmas say what a path that equals its own
  cleaning looks like: no parent element in a rooted one, parent elements only at the start of a
  relative one.
\<close>

abbreviation slash :: char where
  "slash \<equiv> CHR ''/''"

fun clean_step :: "bool \<Rightarrow> string \<Rightarrow> string list \<Rightarrow> string list" where
  "clean_step rooted w st =
     (if w = [] \<or> w = ''.'' then st
      else if w = ''..'' then
        (case st of [] \<Rightarrow> (if rooted then [] else [''..''])
         | t # ts \<Rightarrow> if t = ''..'' then ''..'' # st else ts)
      else w # st)"

definition path_clean :: "string \<Rightarrow> string" where
  "path_clean p =
     (case p of [] \<Rightarrow> ''.''
      | c # _ \<Rightarrow>
        (let body = join_with [slash] (rev (fold (clean_step (c = slash)) (split_char slash p) [])) in
         if c = slash then slash # body else if body = [] then ''.'' else body))"

section \<open>Query unescaping\<close>

definition hex_val :: "char \<Rightarrow> nat option" where
  "hex_val c =
     (let b = bv c in
      if 48 \<le> b \<and> b \<le> 57 then Some (b - 48)
      else if 97 \<le> b \<and> b \<le> 102 then Some (b - 87)
      else if 65 \<le> b \<and> b \<le> 70 then Some (b - 55) else None)"

text \<open>\<open>None\<close> is the escape error.\<close>

fun query_unescape :: "string \<Rightarrow> string option" where
  "query_unescape [] = Some []"
| "query_unescape (c # s) =
     (if c = CHR ''%'' then
        (case s of a # b # s' \<Rightarrow>
           (case (hex_val a, hex_val b) of
              (Some x, Some y) \<Rightarrow> map_option ((#) (char_of (16 * x + y))) (query_unescape s')
            | _ \<Rightarrow> None)
         | _ \<Rightarrow> None)
      else map_option ((#) (if c = CHR ''+'' then CHR '' '' else c)) (query_unescape s))"

section \<open>Splitting and joining\<close>

lemma split_char_no_sep: "w \<in> set (split_char d s) \<Longrightarrow> d \<notin> set w"
  by (induction s arbitrary: w) (auto split: list.splits if_splits)

lemma split_char_ne [simp]: "split_char d s \<noteq> []"
  by (induction s) (auto split: list.splits)

lemma split_char_word: "d \<notin> set w \<Longrightarrow> split_char d w = [w]"
  by (induction w) auto

lemma split_char_sep: "d \<notin> set w \<Longrightarrow> split_char d (w @ d # s) = w # split_char d s"
  by (induction w) auto

lemma split_join:
  "ws \<noteq> [] \<Longrightarrow> \<forall>w \<in> set ws. d \<notin> set w \<Longrightarrow> split_char d (join_with [d] ws) = ws"
  by (induction "[d]" ws rule: join_with.induct) (auto simp: split_char_word split_char_sep)

lemma join_split: "join_with [d] (split_char d s) = s"
proof (induction s)
  case (Cons c s)
  obtain w ws where "split_char d s = w # ws"
    by (cases "split_char d s") auto
  with Cons show ?case by (cases ws) auto
qed simp

lemma join_ne: "ws \<noteq> [] \<Longrightarrow> hd ws \<noteq> [] \<Longrightarrow> join_with sep ws \<noteq> []"
  by (cases ws rule: remdups_adj.cases) auto

section \<open>What cleaning leaves\<close>

definition plain_elem :: "string \<Rightarrow> bool" where
  "plain_elem w \<longleftrightarrow> w \<noteq> [] \<and> w \<noteq> ''.'' \<and> w \<noteq> ''..'' \<and> slash \<notin> set w"

lemma clean_fold_rooted:
  "\<forall>w \<in> set ws. slash \<notin> set w \<Longrightarrow> \<forall>w \<in> set st. plain_elem w \<Longrightarrow>
     \<forall>w \<in> set (fold (clean_step True) ws st). plain_elem w"
proof (induction ws arbitrary: st)
  case (Cons w ws)
  have "set (clean_step True w st) \<subseteq> set st \<or> plain_elem w \<and> set (clean_step True w st) = insert w (set st)"
    using Cons.prems by (cases st) (simp_all add: plain_elem_def subset_insertI)
  then have "\<forall>v \<in> set (clean_step True w st). plain_elem v"
  proof
    assume "set (clean_step True w st) \<subseteq> set st"
    then show ?thesis using Cons.prems(2) by (meson subsetD)
  next
    assume "plain_elem w \<and> set (clean_step True w st) = insert w (set st)"
    then show ?thesis using Cons.prems(2) by (metis insertE)
  qed
  with Cons show ?case by simp
qed simp

definition parents_below :: "string list \<Rightarrow> bool" where
  "parents_below st \<longleftrightarrow>
     (\<exists>k ps. st = ps @ replicate k ''..'' \<and> (\<forall>w \<in> set ps. plain_elem w))"

lemma clean_step_relative:
  assumes "parents_below st" and "slash \<notin> set w"
  shows "parents_below (clean_step False w st)"
proof -
  obtain k ps where st: "st = ps @ replicate k ''..''" and ps: "\<forall>w \<in> set ps. plain_elem w"
    using assms(1) by (auto simp: parents_below_def)
  show ?thesis
  proof (cases ps)
    case Nil
    then have "clean_step False ''..'' st = [] @ replicate (Suc k) ''..''"
      by (cases k) (simp_all add: st)
    moreover have "clean_step False w st = [w] @ replicate k ''..''" "plain_elem w"
      if "w \<noteq> []" "w \<noteq> ''.''" "w \<noteq> ''..''"
      using that assms(2) by (simp_all add: st Nil plain_elem_def)
    ultimately show ?thesis
      unfolding parents_below_def using assms(1) st ps Nil
      by (metis clean_step.simps empty_iff empty_set list.set_intros(1) set_ConsD)
  next
    case (Cons t ts)
    then have t: "plain_elem t" using ps by simp
    show ?thesis
    proof (cases "w = [] \<or> w = ''.'' \<or> w = ''..''")
      case True
      then have "clean_step False w st = st \<or> clean_step False w st = ts @ replicate k ''..''"
        using t by (auto simp: st Cons plain_elem_def)
      then show ?thesis
        using assms(1) ps Cons unfolding parents_below_def by (metis list.set_intros(2))
    next
      case False
      then have "clean_step False w st = (w # ps) @ replicate k ''..''" "plain_elem w"
        using assms(2) by (simp_all add: st plain_elem_def)
      then show ?thesis
        using ps unfolding parents_below_def by (metis set_ConsD)
    qed
  qed
qed

lemma clean_fold_relative:
  "\<forall>w \<in> set ws. slash \<notin> set w \<Longrightarrow> parents_below st \<Longrightarrow> parents_below (fold (clean_step False) ws st)"
  by (induction ws arbitrary: st) (auto intro: clean_step_relative simp del: clean_step.simps)

text \<open>A rooted path that is its own cleaning has no parent element.\<close>

lemma clean_rooted_no_parent:
  assumes "path_clean p = p" and "has_prefix [slash] p"
  shows "''..'' \<notin> set (split_char slash p)"
proof -
  obtain q where p: "p = slash # q"
    using assms(2) by (cases p) auto
  define ws where "ws = rev (fold (clean_step True) (split_char slash p) [])"
  have ws: "\<forall>w \<in> set ws. plain_elem w"
    using clean_fold_rooted [of "split_char slash p" "[]"] split_char_no_sep
    by (auto simp: ws_def)
  have "p = slash # join_with [slash] ws"
    using assms(1) by (simp add: path_clean_def p ws_def)
  then have "split_char slash p = [] # split_char slash (join_with [slash] ws)"
    by simp
  moreover have "''..'' \<notin> set (split_char slash (join_with [slash] ws))"
  proof (cases "ws = []")
    case False
    then show ?thesis using ws by (subst split_join) (auto simp: plain_elem_def)
  qed simp
  ultimately show ?thesis by simp
qed

text \<open>A relative path that is its own cleaning and does not start with a parent element has none.\<close>

lemma clean_relative_no_parent:
  assumes "path_clean p = p" and "\<not> has_prefix [slash] p"
    and "\<not> has_prefix ''../'' p" and "p \<noteq> ''..''"
  shows "''..'' \<notin> set (split_char slash p)"
proof (cases p)
  case Nil
  then show ?thesis by simp
next
  case (Cons c q)
  then have c: "c \<noteq> slash" using assms(2) by simp
  define ws where "ws = rev (fold (clean_step False) (split_char slash p) [])"
  have "parents_below (fold (clean_step False) (split_char slash p) [])"
    using split_char_no_sep by (intro clean_fold_relative) (auto simp: parents_below_def intro: exI [of _ 0])
  then obtain k ps where "rev ws = ps @ replicate k ''..''" "\<forall>w \<in> set ps. plain_elem w"
    by (auto simp: parents_below_def ws_def)
  then have ws: "ws = replicate k ''..'' @ rev ps" and ps: "\<forall>w \<in> set (rev ps). plain_elem w"
    by (metis rev_append rev_replicate rev_rev_ident, simp)
  have p: "p = (if join_with [slash] ws = [] then ''.'' else join_with [slash] ws)"
    using assms(1) c by (auto simp: path_clean_def Cons ws_def Let_def split: if_splits)
  have noslash: "\<forall>w \<in> set ws. slash \<notin> set w"
  proof
    fix w assume "w \<in> set ws"
    then have "w = ''..'' \<or> w \<in> set (rev ps)"
      unfolding ws by (auto split: if_splits)
    then show "slash \<notin> set w"
    proof
      assume "w \<in> set (rev ps)"
      with ps have "plain_elem w" by blast
      then show ?thesis by (simp add: plain_elem_def)
    qed simp
  qed
  show ?thesis
  proof (cases "ws = []")
    case True
    then show ?thesis using p by simp
  next
    case False
    have "k = 0"
    proof (rule ccontr)
      assume "k \<noteq> 0"
      then obtain vs where "ws = ''..'' # vs" by (cases k) (auto simp: ws)
      then show False using p assms(3,4) by (cases vs) auto
    qed
    moreover have "join_with [slash] ws \<noteq> []"
    proof (rule join_ne)
      have "ws = rev ps" using ws \<open>k = 0\<close> by simp
      then have "hd ws \<in> set (rev ps)" using False hd_in_set by metis
      with ps have "plain_elem (hd ws)" by blast
      then show "hd ws \<noteq> []" by (simp add: plain_elem_def)
      show "ws \<noteq> []" by (rule False)
    qed
    ultimately have "split_char slash p = rev ps"
      using p split_join [OF False noslash] ws by simp
    moreover have "\<not> plain_elem ''..''" by (simp add: plain_elem_def)
    ultimately show ?thesis using ps by metis
  qed
qed

end
