(* ===== verification/Go_Time.thy ===== *)
theory Go_Time
  imports Manja_Prelude
begin

text \<open>
  \<open>time.Time\<close> as the program uses it: an instant, counted in nanoseconds from the zero time
  (January 1, year 1, 00:00:00 UTC), and a location. Go's \<open>==\<close> and \<open>reflect.DeepEqual\<close> on times
  compare both; \<open>Before\<close>, \<open>After\<close> and \<open>Equal\<close> compare instants. Monotonic clock readings are not
  represented: \<open>UTC()\<close> strips them, and every time the program stores or compares for equality is
  a UTC time. Instants are unbounded integers.
\<close>

datatype location = LocUTC | LocZone string int \<comment> \<open>name and offset in seconds east of UTC\<close>

record gotime =
  t_ns :: int
  t_loc :: location

definition zero_time :: gotime where
  "zero_time = \<lparr>t_ns = 0, t_loc = LocUTC\<rparr>"

definition time_IsZero :: "gotime \<Rightarrow> bool" where
  "time_IsZero t \<longleftrightarrow> t_ns t = 0"

definition time_Before :: "gotime \<Rightarrow> gotime \<Rightarrow> bool" where
  "time_Before t u \<longleftrightarrow> t_ns t < t_ns u"

definition time_After :: "gotime \<Rightarrow> gotime \<Rightarrow> bool" where
  "time_After t u \<longleftrightarrow> t_ns u < t_ns t"

definition time_Equal :: "gotime \<Rightarrow> gotime \<Rightarrow> bool" where
  "time_Equal t u \<longleftrightarrow> t_ns t = t_ns u"

definition time_UTC :: "gotime \<Rightarrow> gotime" where
  "time_UTC t = t\<lparr>t_loc := LocUTC\<rparr>"

definition time_Add :: "gotime \<Rightarrow> int \<Rightarrow> gotime" where
  "time_Add t d = t\<lparr>t_ns := t_ns t + d\<rparr>"

definition unix_epoch :: gotime where
  "unix_epoch = \<lparr>t_ns = 62135596800 * 1000000000, t_loc = LocUTC\<rparr>"

lemma time_UTC_idem [simp]: "time_UTC (time_UTC t) = time_UTC t"
  by (simp add: time_UTC_def)

lemma t_ns_UTC [simp]: "t_ns (time_UTC t) = t_ns t" and t_loc_UTC [simp]: "t_loc (time_UTC t) = LocUTC"
  by (simp_all add: time_UTC_def)

lemma time_UTC_id: "t_loc t = LocUTC \<Longrightarrow> time_UTC t = t"
  by (simp add: time_UTC_def)

lemma time_UTC_compare [simp]:
  "time_IsZero (time_UTC t) = time_IsZero t"
  "time_Before (time_UTC t) u = time_Before t u" "time_Before t (time_UTC u) = time_Before t u"
  by (simp_all add: time_IsZero_def time_Before_def)

section \<open>RFC 3339 with nanoseconds\<close>

text \<open>The civil date of a day number counted from January 1, year 1.\<close>

definition civil_date :: "int \<Rightarrow> int \<times> int \<times> int" where
  "civil_date days =
     (let z = days + 306; era = z div 146097; doe = z mod 146097;
          yoe = (doe - doe div 1460 + doe div 36524 - doe div 146096) div 365;
          doy = doe - (365 * yoe + yoe div 4 - yoe div 100);
          mp = (5 * doy + 2) div 153;
          d = doy - (153 * mp + 2) div 5 + 1;
          m = (if mp < 10 then mp + 3 else mp - 9)
      in (yoe + era * 400 + (if m \<le> 2 then 1 else 0), m, d))"

definition pad_int :: "nat \<Rightarrow> int \<Rightarrow> string" where
  "pad_int w n =
     (let digits = itoa (nat \<bar>n\<bar>) in
      (if n < 0 then ''-'' else []) @ replicate (w - length digits) (CHR ''0'') @ digits)"

definition frac_nanos :: "int \<Rightarrow> string" where
  "frac_nanos ns =
     (if ns = 0 then []
      else CHR ''.'' # rev (dropWhile (\<lambda>c. c = CHR ''0'') (rev (pad_int 9 ns))))"

definition loc_offset :: "location \<Rightarrow> int" where
  "loc_offset l = (case l of LocUTC \<Rightarrow> 0 | LocZone _ off \<Rightarrow> off)"

definition zone_suffix :: "int \<Rightarrow> string" where
  "zone_suffix off =
     (if off = 0 then ''Z''
      else (if off < 0 then ''-'' else ''+'') @ pad_int 2 (\<bar>off\<bar> div 3600) @ '':'' @
        pad_int 2 (\<bar>off\<bar> mod 3600 div 60))"

definition time_year :: "gotime \<Rightarrow> int" where
  "time_year t = fst (civil_date ((t_ns t + loc_offset (t_loc t) * 1000000000) div 86400000000000))"

definition format_rfc3339nano :: "gotime \<Rightarrow> string" where
  "format_rfc3339nano t =
     (let off = loc_offset (t_loc t); local = t_ns t + off * 1000000000;
          days = local div 86400000000000; rest = local mod 86400000000000;
          secs = rest div 1000000000; (y, m, d) = civil_date days
      in pad_int 4 y @ ''-'' @ pad_int 2 m @ ''-'' @ pad_int 2 d @ ''T'' @
         pad_int 2 (secs div 3600) @ '':'' @ pad_int 2 (secs mod 3600 div 60) @ '':'' @
         pad_int 2 (secs mod 60) @ frac_nanos (rest mod 1000000000) @ zone_suffix off)"

end
