(* ===== verification/Identity.thy ===== *)
theory Identity
  imports Go_Path Go_Time
begin

text \<open>
  \<open>domain/identity.go\<close>: the canonical identity and public path rules every boundary of the program
  applies, and the reflective walk that requires every string of a value to be valid UTF-8. With
  \<open>domain/project.go\<close>, \<open>domain/publication.go\<close>, \<open>domain/sync.go\<close> and \<open>domain/resource_limits.go\<close>, the
  small aggregates that only need these rules.
\<close>

section \<open>Canonical identities\<close>

definition ValidateCanonicalIdentity :: "string \<Rightarrow> string \<Rightarrow> bool \<Rightarrow> err" where
  "ValidateCanonicalIdentity name v allowEmpty =
     (if \<not> utf8_valid v then Some (Errorf ''%s must contain valid UTF-8'' [name])
      else if v = [] then (if allowEmpty then None else Some (Errorf ''%s is required'' [name]))
      else if v \<noteq> TrimSpace v
        then Some (Errorf ''%s must not contain leading or trailing whitespace'' [name])
      else if list_ex is_control (runes v)
        then Some (Errorf ''%s must not contain control characters'' [name])
      else None)"

definition ValidateCanonicalPublicPath :: "string \<Rightarrow> string \<Rightarrow> bool \<Rightarrow> err" where
  "ValidateCanonicalPublicPath name v allowEmpty =
     and_then (ValidateCanonicalIdentity name v allowEmpty)
       (if v = [] then None
        else fail_if (\<not> has_prefix ''/'' v \<or> contains_char v (CHR 0x5C) \<or> path_clean v \<noteq> v)
               (Errorf ''%s is invalid'' [name]))"

definition validateCanonicalIdentity :: "string \<Rightarrow> string \<Rightarrow> bool \<Rightarrow> err" where
  "validateCanonicalIdentity name v allowEmpty = ValidateCanonicalIdentity name v allowEmpty"

definition containsControlCharacter :: "string \<Rightarrow> bool" where
  "containsControlCharacter v = list_ex is_control (runes v)"

text \<open>A table of named values checked in order, as the validators write it.\<close>

definition check_identities :: "(string \<times> string \<times> bool) list \<Rightarrow> err" where
  "check_identities ids = each (\<lambda>(name, v, allowEmpty). ValidateCanonicalIdentity name v allowEmpty) ids"

subsection \<open>What a canonical identity is\<close>

definition canonical :: "string \<Rightarrow> bool" where
  "canonical s \<longleftrightarrow> s \<noteq> [] \<and> utf8_valid s \<and>
     (\<forall>r \<in> set (runes s). \<not> is_control r) \<and> \<not> is_space (hd (runes s)) \<and> \<not> is_space (last (runes s))"

lemma runes_ne: "s \<noteq> [] \<Longrightarrow> runes s \<noteq> []"
  by (cases s) (auto split: prod.splits)

lemma ValidateCanonicalIdentity_None [simp, go_err]:
  "ValidateCanonicalIdentity name v allowEmpty = None \<longleftrightarrow> canonical v \<or> (v = [] \<and> allowEmpty)"
  using TrimSpace_id [of v] runes_ne [of v]
  by (auto simp: ValidateCanonicalIdentity_def canonical_def list_ex_iff)

lemma validateCanonicalIdentity_None [simp, go_err]:
  "validateCanonicalIdentity name v allowEmpty = None \<longleftrightarrow> canonical v \<or> (v = [] \<and> allowEmpty)"
  by (simp add: validateCanonicalIdentity_def)

lemma check_identities_None [simp, go_err]:
  "check_identities ids = None \<longleftrightarrow>
     (\<forall>(name, v, allowEmpty) \<in> set ids. canonical v \<or> (v = [] \<and> allowEmpty))"
  by (auto simp: check_identities_def)

lemma canonical_Nil [simp]: "\<not> canonical []"
  by (simp add: canonical_def)

lemma canonical_valid: "canonical s \<Longrightarrow> utf8_valid s"
  and canonical_ne: "canonical s \<Longrightarrow> s \<noteq> []"
  and canonical_trim: "canonical s \<Longrightarrow> TrimSpace s = s"
  by (auto simp: canonical_def TrimSpace_id)

lemma canonical_ascii:
  assumes "s \<noteq> []" and b: "\<forall>c \<in> set s. 32 < bv c \<and> bv c < 127"
  shows "canonical s"
proof -
  have "\<forall>c \<in> set s. bv c < 128" using b by auto
  then have v: "utf8_valid s" and r: "runes s = map bv s" by (rule utf8_valid_ascii, rule runes_ascii)
  have "32 < r \<and> r < 127 \<Longrightarrow> \<not> is_control r \<and> \<not> is_space r" for r :: nat
    by (auto simp: is_control_def is_space_def)
  with assms v show ?thesis by (simp add: canonical_def r hd_map last_map)
qed

lemma canonical_map_runes:
  assumes f: "case_map_ok f" and "canonical s"
  shows "canonical (encode_runes (map f (runes s)))" and "runes (encode_runes (map f (runes s))) = map f (runes s)"
proof -
  have s: "runes s \<noteq> []" "\<forall>r \<in> set (runes s). is_scalar r"
    using assms(2) utf8_valid_runes [of s] runes_ne [of s] by (auto simp: canonical_def)
  then have sc: "\<forall>r \<in> set (map f (runes s)). is_scalar r"
    using f by (auto simp: case_map_ok_def)
  show r: "runes (encode_runes (map f (runes s))) = map f (runes s)"
    by (rule runes_encode_runes [OF sc])
  have in_s: "hd (runes s) \<in> set (runes s)" "last (runes s) \<in> set (runes s)" using s(1) by simp_all
  have "\<forall>r \<in> set (runes s). (is_space (f r) \<longrightarrow> is_space r) \<and> (is_control (f r) \<longrightarrow> is_control r)"
    using f s(2) by (auto simp: case_map_ok_def)
  moreover have "utf8_valid (encode_runes (map f (runes s)))" by (rule utf8_valid_encode_runes [OF sc])
  moreover have "encode_runes (map f (runes s)) \<noteq> []" using r s(1) by auto
  ultimately show "canonical (encode_runes (map f (runes s)))"
    using assms(2) s in_s by (auto simp: canonical_def r hd_map last_map)
qed

text \<open>A canonical identity has no ASCII control byte, so NUL can separate identities.\<close>

lemma canonical_no_control_byte: "canonical s \<Longrightarrow> c \<in> set s \<Longrightarrow> \<not> bv c < 32 \<and> bv c \<noteq> 127"
  using ascii_byte_is_rune [of s c] by (fastforce simp: canonical_def is_control_def)

lemma canonical_no_nul: "canonical s \<Longrightarrow> CHR 0x00 \<notin> set s"
  using canonical_no_control_byte [of s "CHR 0x00"] by auto

section \<open>The reflective UTF-8 walk\<close>

text \<open>
  Values as package \<open>reflect\<close> presents them. Pointers that may be shared or cyclic (the items of a
  schema summary) are addresses of an object heap; other pointers hold their target directly.
  Struct fields are the exported ones. \<open>ROther\<close> stands for the kinds the walk ignores.
\<close>

datatype rvalue =
    RNil
  | ROther
  | RStr string
  | RStruct "(string \<times> rvalue) list"
  | RMap "(rvalue \<times> rvalue) list"
  | RSeq "rvalue list"
  | RRef nat

type_synonym rheap = "rvalue list"

definition struct_items :: "string \<Rightarrow> (string \<times> rvalue) list \<Rightarrow> (string \<times> rvalue) list" where
  "struct_items name fs = map (\<lambda>(f, x). (name @ ''.'' @ f, x)) fs"

definition map_items :: "string \<Rightarrow> (rvalue \<times> rvalue) list \<Rightarrow> (string \<times> rvalue) list" where
  "map_items name kvs = concat (map (\<lambda>(k, x). [(name @ '' map key'', k), (name @ '' map value'', x)]) kvs)"

definition seq_items :: "string \<Rightarrow> rvalue list \<Rightarrow> (string \<times> rvalue) list" where
  "seq_items name xs = map (\<lambda>(i, x). (name @ ''['' @ itoa i @ '']'', x)) (enumerate 0 xs)"

text \<open>Size of the pending work: the walk empties it between two dereferences.\<close>

fun rsize :: "rvalue \<Rightarrow> nat" where
  "rsize (RStruct fs) = Suc (sum_list (map (\<lambda>(f, x). rsize x) fs))"
| "rsize (RMap kvs) = Suc (sum_list (map (\<lambda>(k, x). rsize k + rsize x) kvs))"
| "rsize (RSeq xs) = Suc (sum_list (map rsize xs))"
| "rsize _ = 1"

definition work_size :: "(string \<times> rvalue) list \<Rightarrow> nat" where
  "work_size st = sum_list (map (\<lambda>(n, x). rsize x) st)"

lemma work_size_simps [simp]:
  "work_size [] = 0" "work_size ((n, x) # st) = rsize x + work_size st"
  "work_size (st @ st') = work_size st + work_size st'"
  by (simp_all add: work_size_def)

lemma work_size_items [simp]:
  "work_size (struct_items n fs) = sum_list (map (\<lambda>(f, x). rsize x) fs)"
  "work_size (map_items n kvs) = sum_list (map (\<lambda>(k, x). rsize k + rsize x) kvs)"
  "work_size (seq_items n xs) = sum_list (map rsize xs)"
proof -
  show "work_size (struct_items n fs) = sum_list (map (\<lambda>(f, x). rsize x) fs)"
    by (induction fs) (auto simp: struct_items_def)
  show "work_size (map_items n kvs) = sum_list (map (\<lambda>(k, x). rsize k + rsize x) kvs)"
    by (induction kvs) (auto simp: map_items_def)
  have "sum_list (map (\<lambda>(i, x). rsize x) (enumerate j xs)) = sum_list (map rsize xs)" for j
    by (induction xs arbitrary: j) auto
  then show "work_size (seq_items n xs) = sum_list (map rsize xs)"
    by (simp add: seq_items_def work_size_def case_prod_unfold comp_def)
qed

text \<open>
  \<open>validateUTF8Value\<close> is a depth-first traversal that stops at the first error; the pending values
  are kept on an explicit stack, in the order the recursive calls would visit them.
\<close>

function validateUTF8Value :: "rheap \<Rightarrow> (string \<times> rvalue) list \<Rightarrow> nat list \<Rightarrow> err" where
  "validateUTF8Value heap [] visited = None"
| "validateUTF8Value heap ((name, RNil) # st) visited = validateUTF8Value heap st visited"
| "validateUTF8Value heap ((name, ROther) # st) visited = validateUTF8Value heap st visited"
| "validateUTF8Value heap ((name, RStr s) # st) visited =
     (if \<not> utf8_valid s then Some (Errorf ''%s must contain valid UTF-8'' [name])
      else validateUTF8Value heap st visited)"
| "validateUTF8Value heap ((name, RStruct fs) # st) visited =
     validateUTF8Value heap (struct_items name fs @ st) visited"
| "validateUTF8Value heap ((name, RMap kvs) # st) visited =
     validateUTF8Value heap (map_items name kvs @ st) visited"
| "validateUTF8Value heap ((name, RSeq xs) # st) visited =
     validateUTF8Value heap (seq_items name xs @ st) visited"
| "validateUTF8Value heap ((name, RRef a) # st) visited =
     (if a \<in> set visited \<or> length heap \<le> a then validateUTF8Value heap st visited
      else validateUTF8Value heap ((name, heap ! a) # st) (a # visited))"
  by pat_completeness auto
termination
proof (relation "measures [\<lambda>(heap, st, visited). card ({..<length heap} - set visited),
    \<lambda>(heap, st, visited). work_size st]")
  fix heap :: rheap and name and a :: nat and st :: "(string \<times> rvalue) list" and visited
  assume "\<not> (a \<in> set visited \<or> length heap \<le> a)"
  then have "card ({..<length heap} - set visited - {a}) < card ({..<length heap} - set visited)"
    by (intro card_Diff1_less) auto
  moreover have "{..<length heap} - set (a # visited) = {..<length heap} - set visited - {a}"
    by auto
  ultimately show "((heap, (name, heap ! a) # st, a # visited), heap, (name, RRef a) # st, visited)
    \<in> measures [\<lambda>(heap, st, visited). card ({..<length heap} - set visited), \<lambda>(heap, st, visited). work_size st]"
    by simp
qed auto

definition validateUTF8Strings :: "rheap \<Rightarrow> string \<Rightarrow> rvalue \<Rightarrow> err" where
  "validateUTF8Strings heap name v = validateUTF8Value heap [(name, v)] []"

subsection \<open>The walk reads every reachable string\<close>

fun direct_strings :: "rvalue \<Rightarrow> string set" where
  "direct_strings (RStr s) = {s}"
| "direct_strings (RStruct fs) = (\<Union>(f, x) \<in> set fs. direct_strings x)"
| "direct_strings (RMap kvs) = (\<Union>(k, x) \<in> set kvs. direct_strings k \<union> direct_strings x)"
| "direct_strings (RSeq xs) = (\<Union>x \<in> set xs. direct_strings x)"
| "direct_strings _ = {}"

fun direct_refs :: "rvalue \<Rightarrow> nat set" where
  "direct_refs (RRef a) = {a}"
| "direct_refs (RStruct fs) = (\<Union>(f, x) \<in> set fs. direct_refs x)"
| "direct_refs (RMap kvs) = (\<Union>(k, x) \<in> set kvs. direct_refs k \<union> direct_refs x)"
| "direct_refs (RSeq xs) = (\<Union>x \<in> set xs. direct_refs x)"
| "direct_refs _ = {}"

inductive reaches_string :: "rheap \<Rightarrow> rvalue \<Rightarrow> string \<Rightarrow> bool" for heap where
  here: "s \<in> direct_strings v \<Longrightarrow> reaches_string heap v s"
| deref: "a \<in> direct_refs v \<Longrightarrow> a < length heap \<Longrightarrow> reaches_string heap (heap ! a) s \<Longrightarrow>
    reaches_string heap v s"

definition work_strings :: "(string \<times> rvalue) list \<Rightarrow> string set" where
  "work_strings st = (\<Union>(n, x) \<in> set st. direct_strings x)"

definition work_refs :: "(string \<times> rvalue) list \<Rightarrow> nat set" where
  "work_refs st = (\<Union>(n, x) \<in> set st. direct_refs x)"

lemma work_sets [simp]:
  "work_strings [] = {}" "work_strings ((n, x) # st) = direct_strings x \<union> work_strings st"
  "work_strings (st @ st') = work_strings st \<union> work_strings st'"
  "work_refs [] = {}" "work_refs ((n, x) # st) = direct_refs x \<union> work_refs st"
  "work_refs (st @ st') = work_refs st \<union> work_refs st'"
  by (auto simp: work_strings_def work_refs_def)

lemma UN_snd_enumerate: "(\<Union>p \<in> set (enumerate j xs). f (snd p)) = (\<Union>x \<in> set xs. f x)"
  by (induction xs arbitrary: j) auto

lemma work_items [simp]:
  "work_strings (struct_items n fs) = direct_strings (RStruct fs)"
  "work_strings (map_items n kvs) = direct_strings (RMap kvs)"
  "work_strings (seq_items n xs) = direct_strings (RSeq xs)"
  "work_refs (struct_items n fs) = direct_refs (RStruct fs)"
  "work_refs (map_items n kvs) = direct_refs (RMap kvs)"
  "work_refs (seq_items n xs) = direct_refs (RSeq xs)"
  using UN_snd_enumerate [of direct_strings 0 xs] UN_snd_enumerate [of direct_refs 0 xs]
  by (auto simp: work_strings_def work_refs_def struct_items_def map_items_def seq_items_def
      case_prod_unfold)

lemma reaches_string_mono:
  "reaches_string heap v s \<Longrightarrow> direct_strings v \<subseteq> direct_strings w \<Longrightarrow>
     direct_refs v \<subseteq> direct_refs w \<Longrightarrow> reaches_string heap w s"
  by (erule reaches_string.cases) (auto intro: reaches_string.intros)

lemma walk_accepts:
  "validateUTF8Value heap st visited = None \<Longrightarrow>
     (\<forall>s \<in> work_strings st. utf8_valid s) \<and>
     (\<exists>V. set visited \<subseteq> V \<and> (\<forall>a \<in> work_refs st. a < length heap \<longrightarrow> a \<in> V) \<and>
       (\<forall>a \<in> V - set visited. a < length heap \<longrightarrow>
          (\<forall>s \<in> direct_strings (heap ! a). utf8_valid s) \<and>
          (\<forall>b \<in> direct_refs (heap ! a). b < length heap \<longrightarrow> b \<in> V)))"
proof (induction heap st visited rule: validateUTF8Value.induct)
  case (8 heap name a st visited)
  show ?case
  proof (cases "a \<in> set visited \<or> length heap \<le> a")
    case True
    with "8.prems" have "validateUTF8Value heap st visited = None" by simp
    note IH = "8.IH"(1) [OF True this]
    have a: "a < length heap \<longrightarrow> a \<in> set visited" using True by auto
    from IH obtain V where "set visited \<subseteq> V" "\<forall>a \<in> work_refs st. a < length heap \<longrightarrow> a \<in> V"
      and c: "\<forall>a \<in> V - set visited. a < length heap \<longrightarrow>
          (\<forall>s \<in> direct_strings (heap ! a). utf8_valid s) \<and>
          (\<forall>b \<in> direct_refs (heap ! a). b < length heap \<longrightarrow> b \<in> V)"
      by blast
    with a have "\<forall>a \<in> work_refs ((name, RRef a) # st). a < length heap \<longrightarrow> a \<in> V" by auto
    moreover have "\<forall>s \<in> work_strings ((name, RRef a) # st). utf8_valid s" using IH by simp
    ultimately show ?thesis using c \<open>set visited \<subseteq> V\<close> by blast
  next
    case False
    with "8.prems" have "validateUTF8Value heap ((name, heap ! a) # st) (a # visited) = None"
      by simp
    note IH = "8.IH"(2) [OF False this, unfolded work_sets list.set(2)]
    then have s: "\<forall>s \<in> direct_strings (heap ! a) \<union> work_strings st. utf8_valid s" by (rule conjunct1)
    from IH [THEN conjunct2] obtain V where V: "insert a (set visited) \<subseteq> V" and
      r: "\<forall>b \<in> direct_refs (heap ! a) \<union> work_refs st. b < length heap \<longrightarrow> b \<in> V" and
      c: "\<forall>b \<in> V - insert a (set visited). b < length heap \<longrightarrow>
          (\<forall>s \<in> direct_strings (heap ! b). utf8_valid s) \<and>
          (\<forall>b' \<in> direct_refs (heap ! b). b' < length heap \<longrightarrow> b' \<in> V)"
      by (elim exE conjE)
    show ?thesis
    proof (intro conjI exI [of _ V])
      show "\<forall>b \<in> V - set visited. b < length heap \<longrightarrow>
          (\<forall>s \<in> direct_strings (heap ! b). utf8_valid s) \<and>
          (\<forall>b' \<in> direct_refs (heap ! b). b' < length heap \<longrightarrow> b' \<in> V)"
        using c s r by blast
    qed (use s V r in auto)
  qed
qed (auto split: if_splits)

lemma walk_rejects:
  "validateUTF8Value heap st visited = Some e \<Longrightarrow>
     (\<exists>(n, v) \<in> set st. \<exists>s. reaches_string heap v s \<and> \<not> utf8_valid s)"
proof (induction heap st visited rule: validateUTF8Value.induct)
  case (4 heap name s st visited)
  then show ?case by (fastforce split: if_splits intro: reaches_string.here)
next
  case (5 heap name fs st visited)
  then obtain n v s where "(n, v) \<in> set (struct_items name fs) \<union> set st" "reaches_string heap v s" "\<not> utf8_valid s"
    by fastforce
  moreover have "\<exists>f. (f, v) \<in> set fs \<Longrightarrow> reaches_string heap v s \<Longrightarrow> reaches_string heap (RStruct fs) s"
    by (erule reaches_string_mono) force+
  ultimately show ?case by (fastforce simp: struct_items_def)
next
  case (6 heap name kvs st visited)
  then obtain n v s where "(n, v) \<in> set (map_items name kvs) \<union> set st" "reaches_string heap v s" "\<not> utf8_valid s"
    by fastforce
  moreover have "(\<exists>k. (k, v) \<in> set kvs \<or> (v, k) \<in> set kvs) \<Longrightarrow> reaches_string heap v s \<Longrightarrow> reaches_string heap (RMap kvs) s"
    by (erule reaches_string_mono) force+
  ultimately show ?case by (fastforce simp: map_items_def)
next
  case (7 heap name xs st visited)
  then obtain n v s where "(n, v) \<in> set (seq_items name xs) \<union> set st" "reaches_string heap v s" "\<not> utf8_valid s"
    by fastforce
  moreover have "v \<in> set xs \<Longrightarrow> reaches_string heap v s \<Longrightarrow> reaches_string heap (RSeq xs) s"
    by (erule reaches_string_mono) force+
  moreover have "(n, v) \<in> set (seq_items name xs) \<Longrightarrow> v \<in> set xs"
    by (auto simp: seq_items_def in_set_enumerate_eq)
  ultimately show ?case by auto
next
  case (8 heap name a st visited)
  then show ?case
    by (fastforce split: if_splits intro: reaches_string.deref)
qed auto

lemma validateUTF8Strings_iff:
  "validateUTF8Strings heap name v = None \<longleftrightarrow> (\<forall>s. reaches_string heap v s \<longrightarrow> utf8_valid s)"
proof
  assume "validateUTF8Strings heap name v = None"
  then obtain V where s: "\<forall>s \<in> direct_strings v. utf8_valid s"
    and r: "\<forall>a \<in> direct_refs v. a < length heap \<longrightarrow> a \<in> V"
    and V: "\<forall>a \<in> V. a < length heap \<longrightarrow> (\<forall>s \<in> direct_strings (heap ! a). utf8_valid s) \<and>
      (\<forall>b \<in> direct_refs (heap ! a). b < length heap \<longrightarrow> b \<in> V)"
    using walk_accepts [of heap "[(name, v)]" "[]"] by (auto simp: validateUTF8Strings_def)
  show "\<forall>s. reaches_string heap v s \<longrightarrow> utf8_valid s"
  proof (intro allI impI)
    fix s assume "reaches_string heap v s"
    then show "utf8_valid s" using s r
      by (induction rule: reaches_string.induct) (use V in auto)
  qed
next
  assume "\<forall>s. reaches_string heap v s \<longrightarrow> utf8_valid s"
  then show "validateUTF8Strings heap name v = None"
    using walk_rejects [of heap "[(name, v)]" "[]"]
    by (cases "validateUTF8Strings heap name v") (auto simp: validateUTF8Strings_def)
qed

text \<open>Values without shared pointers.\<close>

lemma reaches_string_no_heap [simp]: "reaches_string [] v s \<longleftrightarrow> s \<in> direct_strings v"
  by (auto elim: reaches_string.cases intro: reaches_string.here)

lemma validateUTF8Strings_direct [go_err]:
  "validateUTF8Strings [] name v = None \<longleftrightarrow> (\<forall>s \<in> direct_strings v. utf8_valid s)"
  by (auto simp: validateUTF8Strings_iff)

lemma utf8_valid_empty_or_canonical: "canonical s \<or> s = [] \<and> b \<Longrightarrow> utf8_valid s"
  by (auto simp: canonical_valid)

section \<open>Properties of identities and of the walk\<close>

text \<open>
  C31: The reflective walk terminates on every value, also through shared and cyclic pointers, and
  accepts a value exactly when every string reachable from it is valid UTF-8. Slices and maps of the
  model are finite, so a slice or map that contains itself is not among the values.
\<close>

theorem utf8_walk_accepts_iff_all_strings_valid:
  "validateUTF8Strings heap name v = None \<longleftrightarrow> (\<forall>s. reaches_string heap v s \<longrightarrow> utf8_valid s)"
  by (rule validateUTF8Strings_iff)

theorem utf8_walk_accepts_iff_all_strings_valid_witness:
  "validateUTF8Strings [RStruct [(''Items'', RRef 0), (''Name'', RStr [CHR 0xFF])]] ''index'' (RRef 0) \<noteq> None"
proof -
  let ?h = "[RStruct [(''Items'', RRef 0), (''Name'', RStr [CHR 0xFF])]]"
  have "reaches_string ?h (?h ! 0) [CHR 0xFF]"
    by (rule reaches_string.here) simp
  then have "reaches_string ?h (RRef 0) [CHR 0xFF]"
    by (rule reaches_string.deref [of 0, rotated 2]) simp_all
  moreover have "\<not> utf8_valid [CHR 0xFF]" by (simp add: decode_rune_def lead_len_def Let_def)
  ultimately show ?thesis using utf8_walk_accepts_iff_all_strings_valid [of ?h "''index''" "RRef 0"] by blast
qed

text \<open>
  A canonical public path cannot escape or be ambiguous: an accepted non-empty path starts with a
  slash, has no parent element, no backslash and no control byte, and is its own cleaning.
\<close>

theorem public_path_is_contained:
  assumes "ValidateCanonicalPublicPath name p allowEmpty = None" and "p \<noteq> []"
  shows "has_prefix [slash] p \<and> path_clean p = p \<and> ''..'' \<notin> set (split_char slash p) \<and>
    CHR 0x5C \<notin> set p \<and> (\<forall>c \<in> set p. 32 \<le> bv c \<and> bv c \<noteq> 127)"
proof -
  have "canonical p \<and> \<not> (\<not> has_prefix [slash] p \<or> contains_char p (CHR 0x5C) \<or> path_clean p \<noteq> p)"
    using assms unfolding ValidateCanonicalPublicPath_def and_then_None if_not_P [OF assms(2)] fail_if_None
      ValidateCanonicalIdentity_None by blast
  then have c: "canonical p" "has_prefix [slash] p" "path_clean p = p" "CHR 0x5C \<notin> set p"
    unfolding contains_char_def by blast+
  have "32 \<le> bv b \<and> bv b \<noteq> 127" if "b \<in> set p" for b
    using canonical_no_control_byte [OF c(1) that] by linarith
  then show ?thesis using c clean_rooted_no_parent [OF c(3,2)] by blast
qed

theorem public_path_is_contained_witness: "''..'' \<notin> set (split_char slash ''/docs/pets'')"
proof -
  have "canonical ''/docs/pets''" by (rule canonical_ascii) simp_all
  moreover have "path_clean ''/docs/pets'' = ''/docs/pets''" by code_simp
  ultimately have "ValidateCanonicalPublicPath ''path'' ''/docs/pets'' False = None"
    by (simp add: ValidateCanonicalPublicPath_def contains_char_def)
  from public_path_is_contained [OF this] show ?thesis by simp
qed

end
