(* ===== verification/Project_Records.thy ===== *)
theory Project_Records
  imports Identity
begin

text \<open>
  \<open>domain/project.go\<close>, \<open>domain/publication.go\<close>, \<open>domain/sync.go\<close> and \<open>domain/resource_limits.go\<close>.
\<close>

section \<open>Projects\<close>

record project_seo =
  seo_TitleTemplate :: string
  seo_Description :: string
  seo_CanonicalBase :: string
  seo_SocialImage :: string
  seo_Robots :: string

record theme_settings =
  theme_Theme :: string
  theme_DarkMode :: string

record project =
  pj_ID :: string
  pj_Name :: string
  pj_Slug :: string
  pj_SEO :: project_seo
  pj_Theme :: theme_settings
  pj_SourceIDs :: "string list"

definition rv_project :: "project \<Rightarrow> rvalue" where
  "rv_project p = RStruct
     [(''ID'', RStr (pj_ID p)), (''Name'', RStr (pj_Name p)), (''Slug'', RStr (pj_Slug p)),
      (''SEO'', RStruct
        [(''TitleTemplate'', RStr (seo_TitleTemplate (pj_SEO p))),
         (''Description'', RStr (seo_Description (pj_SEO p))),
         (''CanonicalBase'', RStr (seo_CanonicalBase (pj_SEO p))),
         (''SocialImage'', RStr (seo_SocialImage (pj_SEO p))),
         (''Robots'', RStr (seo_Robots (pj_SEO p)))]),
      (''Theme'', RStruct
        [(''Theme'', RStr (theme_Theme (pj_Theme p))), (''DarkMode'', RStr (theme_DarkMode (pj_Theme p)))]),
      (''SourceIDs'', RSeq (map RStr (pj_SourceIDs p)))]"

definition ValidateProject :: "project \<Rightarrow> err" where
  "ValidateProject p = first_error
     [validateUTF8Strings [] ''project'' (rv_project p),
      ValidateCanonicalIdentity ''project id'' (pj_ID p) False,
      ValidateCanonicalIdentity ''project slug'' (pj_Slug p) True,
      each_index (\<lambda>i sourceID. ValidateCanonicalIdentity (''project source id '' @ itoa i) sourceID False)
        (pj_SourceIDs p)]"

section \<open>Publications and their visibility\<close>

record publication =
  pub_ProjectID :: string
  pub_RevisionID :: string
  pub_Public :: bool
  pub_Path :: string
  pub_Hostname :: string

record actor =
  ac_Anonymous :: bool
  ac_UserID :: string
  ac_ProjectIDs :: "string list"

definition VisibleTo :: "publication \<Rightarrow> actor \<Rightarrow> bool" where
  "VisibleTo p a =
     (if pub_Public p then True
      else if ac_Anonymous a then False
      else list_ex (\<lambda>i. i = pub_ProjectID p) (ac_ProjectIDs a))"

section \<open>Sync records\<close>

definition SyncResultSuccess :: string where "SyncResultSuccess = ''success''"
definition SyncResultFailure :: string where "SyncResultFailure = ''failure''"

record sync_record =
  sr_ID :: string
  sr_ProjectID :: string
  sr_SourceID :: string
  sr_RevisionID :: string
  sr_Trigger :: string
  sr_Ref :: string
  sr_CommitSHA :: string
  sr_SpecPath :: string
  sr_Result :: string
  sr_ErrorSummary :: string
  sr_StartedAt :: gotime
  sr_FinishedAt :: gotime

definition SameSyncEvidence :: "sync_record \<Rightarrow> sync_record \<Rightarrow> bool" where
  "SameSyncEvidence left right \<longleftrightarrow>
     left\<lparr>sr_StartedAt := zero_time, sr_FinishedAt := zero_time\<rparr> =
     right\<lparr>sr_StartedAt := zero_time, sr_FinishedAt := zero_time\<rparr>"

lemma SameSyncEvidence_refl [simp]: "SameSyncEvidence r r"
  and SameSyncEvidence_sym: "SameSyncEvidence r s \<Longrightarrow> SameSyncEvidence s r"
  and SameSyncEvidence_trans: "SameSyncEvidence r s \<Longrightarrow> SameSyncEvidence s t \<Longrightarrow> SameSyncEvidence r t"
  by (simp_all add: SameSyncEvidence_def)

section \<open>Resource limits\<close>

text \<open>The context value under the private key: absent, or the innermost value stored.\<close>

type_synonym limits_context = "bool option"

definition WithResourceLimits :: "limits_context \<Rightarrow> bool \<Rightarrow> limits_context" where
  "WithResourceLimits ctx enabled = Some enabled"

definition ResourceLimitsEnabled :: "limits_context \<Rightarrow> bool" where
  "ResourceLimitsEnabled ctx = (case ctx of None \<Rightarrow> True | Some enabled \<Rightarrow> enabled)"

end
