(* ===== verification/Go_Sha256.thy ===== *)
theory Go_Sha256
  imports Go_Utf8 "HOL-Library.Word"
begin

unbundle bit_operations_syntax

text \<open>
  \<open>sha256.Sum256\<close> and \<open>hex.EncodeToString\<close>, executable: the compression function of FIPS 180-4 on
  32-bit words, over messages as byte strings. The program only relies on the digest having 32
  bytes and its hexadecimal form having 64 lowercase digits, which is proved here.
\<close>

type_synonym w32 = "32 word"

definition rotr :: "nat \<Rightarrow> w32 \<Rightarrow> w32" where
  "rotr n x = (drop_bit n x OR push_bit (32 - n) x)"

definition big0 :: "w32 \<Rightarrow> w32" where "big0 x = (rotr 2 x XOR rotr 13 x XOR rotr 22 x)"
definition big1 :: "w32 \<Rightarrow> w32" where "big1 x = (rotr 6 x XOR rotr 11 x XOR rotr 25 x)"
definition small0 :: "w32 \<Rightarrow> w32" where "small0 x = (rotr 7 x XOR rotr 18 x XOR drop_bit 3 x)"
definition small1 :: "w32 \<Rightarrow> w32" where "small1 x = (rotr 17 x XOR rotr 19 x XOR drop_bit 10 x)"
definition ch :: "w32 \<Rightarrow> w32 \<Rightarrow> w32 \<Rightarrow> w32" where "ch x y z = ((x AND y) XOR (NOT x AND z))"
definition maj :: "w32 \<Rightarrow> w32 \<Rightarrow> w32 \<Rightarrow> w32" where
  "maj x y z = ((x AND y) XOR (x AND z) XOR (y AND z))"

text \<open>
  The constants of the standard: the first 32 bits of the fractional parts of the cube roots of the
  first 64 primes, and of the square roots of the first eight. \<open>root_bits k n b\<close> is the integer
  \<open>k\<close>-th root of \<open>n\<close>, found bit by bit from bit \<open>b - 1\<close>; the roots below have fewer than 35 bits.
\<close>

definition sha_primes :: "nat list" where
  "sha_primes =
    [2, 3, 5, 7, 11, 13, 17, 19, 23, 29, 31, 37, 41, 43, 47, 53, 59, 61, 67, 71, 73, 79,
     83, 89, 97, 101, 103, 107, 109, 113, 127, 131, 137, 139, 149, 151, 157, 163, 167,
     173, 179, 181, 191, 193, 197, 199, 211, 223, 227, 229, 233, 239, 241, 251, 257, 263,
     269, 271, 277, 281, 283, 293, 307, 311]"

definition root_bits :: "nat \<Rightarrow> nat \<Rightarrow> nat \<Rightarrow> nat" where
  "root_bits k n b = fold (\<lambda>i r. if (r + 2 ^ i) ^ k \<le> n then r + 2 ^ i else r) (rev [0..<b]) 0"

definition round_constants :: "w32 list" where
  "round_constants = map (\<lambda>p. word_of_nat (root_bits 3 (p * 2 ^ 96) 35)) sha_primes"

definition initial_hash :: "w32 list" where
  "initial_hash = map (\<lambda>p. word_of_nat (root_bits 2 (p * 2 ^ 64) 35)) (take 8 sha_primes)"

fun be_word :: "char list \<Rightarrow> w32" where
  "be_word cs = fold (\<lambda>c w. push_bit 8 w OR word_of_nat (bv c)) cs 0"

text \<open>Split into chunks of \<open>n\<close> elements; the recursion is on the number of chunks.\<close>

fun chunks :: "nat \<Rightarrow> nat \<Rightarrow> 'a list \<Rightarrow> 'a list list" where
  "chunks n 0 xs = []"
| "chunks n (Suc k) xs = take n xs # chunks n k (drop n xs)"

text \<open>Append 0x80, zeros, and the length in bits as a 64-bit big-endian integer.\<close>

definition be_bytes :: "nat \<Rightarrow> nat \<Rightarrow> char list" where
  "be_bytes k n = map (\<lambda>i. char_of (n div 256 ^ i mod 256)) (rev [0..<k])"

definition sha_pad :: "char list \<Rightarrow> char list" where
  "sha_pad m =
     m @ [char_of (128 :: nat)] @ replicate ((119 - length m mod 64) mod 64) (char_of (0 :: nat)) @
     be_bytes 8 (8 * length m mod 2 ^ 64)"

text \<open>The message schedule, most recent word first.\<close>

fun extend_schedule :: "nat \<Rightarrow> w32 list \<Rightarrow> w32 list" where
  "extend_schedule 0 ws = ws"
| "extend_schedule (Suc k) ws =
     extend_schedule k ((small1 (ws ! 1) + ws ! 6 + small0 (ws ! 14) + ws ! 15) # ws)"

fun sha_round :: "w32 \<times> w32 \<Rightarrow> w32 list \<Rightarrow> w32 list" where
  "sha_round (k, w) [a, b, c, d, e, f, g, h] =
     (let t1 = h + big1 e + ch e f g + k + w; t2 = big0 a + maj a b c in
      [t1 + t2, a, b, c, d + t1, e, f, g])"
| "sha_round _ st = st"

definition sha_block :: "char list \<Rightarrow> w32 list \<Rightarrow> w32 list" where
  "sha_block blk hs =
     (let ws = rev (extend_schedule 48 (rev (map be_word (chunks 4 16 blk)))) in
      map2 (+) hs (fold sha_round (zip round_constants ws) hs))"

definition Sum256 :: "char list \<Rightarrow> char list" where
  "Sum256 m =
     (let p = sha_pad m in
      concat (map (\<lambda>w. be_bytes 4 (unat w)) (fold sha_block (chunks 64 (length p div 64) p) initial_hash)))"

definition hex_digit :: "nat \<Rightarrow> char" where
  "hex_digit d = char_of (if d < 10 then 48 + d else 87 + d)"

definition hex_encode :: "char list \<Rightarrow> string" where
  "hex_encode bs = concat (map (\<lambda>c. [hex_digit (bv c div 16), hex_digit (bv c mod 16)]) bs)"

section \<open>The shape of a digest\<close>

lemma length_be_bytes [simp]: "length (be_bytes k n) = k"
  by (simp add: be_bytes_def)

lemma length_sha_round: "length (sha_round kw st) = length st"
  by (cases "(kw, st)" rule: sha_round.cases) (auto simp: Let_def)

lemma length_fold_round: "length (fold sha_round kws st) = length st"
  by (induction kws arbitrary: st) (auto simp: length_sha_round)

lemma length_sha_block: "length (sha_block blk hs) = length hs"
  by (simp add: sha_block_def Let_def length_fold_round)

lemma length_fold_block: "length (fold sha_block blks hs) = length hs"
  by (induction blks arbitrary: hs) (auto simp: length_sha_block)

lemma length_concat_be: "length (concat (map (\<lambda>w. be_bytes k (f w)) ws)) = k * length ws"
  by (induction ws) auto

lemma length_Sum256 [simp]: "length (Sum256 m) = 32"
  by (simp add: Sum256_def Let_def length_concat_be length_fold_block initial_hash_def sha_primes_def)

definition lower_hex_char :: "char \<Rightarrow> bool" where
  "lower_hex_char c \<longleftrightarrow> (48 \<le> bv c \<and> bv c \<le> 57) \<or> (97 \<le> bv c \<and> bv c \<le> 102)"

lemma lower_hex_digit: "d < 16 \<Longrightarrow> lower_hex_char (hex_digit d)"
  by (auto simp: lower_hex_char_def hex_digit_def bv_char_of)

lemma length_hex_encode [simp]: "length (hex_encode bs) = 2 * length bs"
  by (induction bs) (auto simp: hex_encode_def)

lemma nibbles: "bv b div 16 < 16" "bv b mod 16 < 16"
proof -
  show "bv b div 16 < 16" by (rule less_mult_imp_div_less) (use bv_less_256 [of b] in simp)
qed simp

lemma lower_hex_encode: "c \<in> set (hex_encode bs) \<Longrightarrow> lower_hex_char c"
  by (auto simp: hex_encode_def intro: lower_hex_digit nibbles)

lemma hex_digit_inject:
  assumes "d < 16" and "d' < 16" and "hex_digit d = hex_digit d'"
  shows "d = d'"
proof -
  have "bv (hex_digit e) = (if e < 10 then 48 + e else 87 + e)" if "e < 16" for e
    using that by (simp add: hex_digit_def bv_char_of)
  then have "(if d < 10 then 48 + d else 87 + d) = (if d' < 10 then 48 + d' else 87 + d')"
    using assms by metis
  then show ?thesis by (auto split: if_splits)
qed

lemma hex_encode_inject: "hex_encode bs = hex_encode cs \<Longrightarrow> bs = cs"
proof (induction bs arbitrary: cs)
  case Nil
  then show ?case by (cases cs) (auto simp: hex_encode_def)
next
  case (Cons b bs)
  then obtain c cs' where cs: "cs = c # cs'"
    by (cases cs) (auto simp: hex_encode_def)
  from Cons.prems cs have "bv b div 16 = bv c div 16" "bv b mod 16 = bv c mod 16"
    using hex_digit_inject nibbles by (auto simp: hex_encode_def)
  then have "bv b = bv c" by (metis div_mult_mod_eq)
  then have "b = c" by simp
  with Cons cs show ?case by (auto simp: hex_encode_def)
qed

end
