(* ===== verification/Digests.thy ===== *)
theory Digests
  imports Go_Sha256
begin

text \<open>
  The digest helpers of \<open>domain/contractsnapshot.go\<close>, \<open>domain/catalog_validation.go\<close> and
  \<open>application/port/blob.go\<close>: SHA-256 in lowercase hexadecimal and the recognition of such a value.
\<close>

definition sha256Hex :: "string \<Rightarrow> string" where
  "sha256Hex v = hex_encode (Sum256 v)"

definition isLowerSHA256 :: "string \<Rightarrow> bool" where
  "isLowerSHA256 v \<longleftrightarrow> length v = 64 \<and>
     list_all (\<lambda>r. (48 \<le> r \<and> r \<le> 57) \<or> (97 \<le> r \<and> r \<le> 102)) (runes v)"

definition isLowerHex :: "string \<Rightarrow> nat \<Rightarrow> bool" where
  "isLowerHex v n \<longleftrightarrow> length v = n \<and>
     list_all (\<lambda>r. (48 \<le> r \<and> r \<le> 57) \<or> (97 \<le> r \<and> r \<le> 102)) (runes v)"

lemma isLowerSHA256_hex: "length v = 64 \<Longrightarrow> \<forall>c \<in> set v. lower_hex_char c \<Longrightarrow> isLowerSHA256 v"
  by (subgoal_tac "\<forall>c \<in> set v. bv c < 128")
    (auto simp: isLowerSHA256_def runes_ascii lower_hex_char_def list_all_iff)

lemma isLowerSHA256_sha256Hex [simp]: "isLowerSHA256 (sha256Hex v)"
  by (rule isLowerSHA256_hex) (auto simp: sha256Hex_def lower_hex_encode)

text \<open>A recognised digest is ASCII: every rune it decodes to is a hexadecimal digit.\<close>

lemma hex_runes_ascii:
  "list_all (\<lambda>r. (48 \<le> r \<and> r \<le> 57) \<or> (97 \<le> r \<and> r \<le> 102)) (runes v) \<Longrightarrow> \<forall>c \<in> set v. lower_hex_char c"
proof (induction v rule: runes.induct)
  case (2 c r)
  obtain rn n where d: "decode_rune (c # r) = (rn, n)"
    by (cases "decode_rune (c # r)")
  with "2.prems" have hex: "(48 \<le> rn \<and> rn \<le> 57) \<or> (97 \<le> rn \<and> rn \<le> 102)" by simp
  then have "\<not> (rn = RuneError \<and> n = 1)" by (auto simp: RuneError_def)
  note e = decode_rune_encode [OF d this]
  have "encode_rune rn = [char_of rn]"
    using hex e(1) by (simp only: encode_rune_def encode_bytes_def if_True) (elim disjE conjE; simp)
  then have "n = 1" using e(3) by simp
  then have "c = char_of rn" using e(2) \<open>encode_rune rn = [char_of rn]\<close> by simp
  moreover have "rn < 256" using hex by auto
  ultimately have "lower_hex_char c" using hex by (simp add: lower_hex_char_def bv_char_of)
  moreover have "\<forall>c \<in> set r. lower_hex_char c"
    using "2.IH" [OF d [symmetric]] "2.prems" d \<open>n = 1\<close> by simp
  ultimately show ?case by simp
qed simp

lemma isLowerSHA256_valid: "isLowerSHA256 v \<Longrightarrow> utf8_valid v"
  using hex_runes_ascii [of v] by (intro utf8_valid_ascii) (auto simp: isLowerSHA256_def lower_hex_char_def)

end
