(* ===== verification/Spec_Model.thy ===== *)
theory Spec_Model
  imports Project_Records Digests
begin

text \<open>
  \<open>domain/spec.go\<close> (with \<open>Facet\<close> of \<open>domain/catalog.go\<close>): the indexed OpenAPI document. The only
  pointers of the index that may be shared or cyclic are the items of schema summaries: they are
  addresses of a heap of summaries, passed beside the index. A property holds its summary by value.
  Slices of the index are lists: no code distinguishes a nil slice of the index from an empty one.
  Then \<open>domain/operation_target.go\<close>.
\<close>

section \<open>Data\<close>

record schema_constraint =
  sc_Name :: string
  sc_Value :: string

text \<open>Datatypes, since a summary contains its properties, which contain summaries.\<close>

datatype schema_summary = SchemaSummary
  (ss_Name: string) (ss_Type: string) (ss_Format: string) (ss_Description: string)
  (ss_Default: string) (ss_Example: string) (ss_Enum: "string list")
  (ss_Constraints: "schema_constraint list") (ss_Nullable: bool) (ss_Deprecated: bool)
  (ss_Properties: "schema_property list") (ss_Items: "nat option") (ss_JSON: string)
and schema_property = SchemaProperty
  (sp_Name: string) (sp_Required: bool) (sp_Schema: schema_summary) (sp_Description: string)

type_synonym schema_heap = "schema_summary list"

definition empty_summary :: schema_summary where
  "empty_summary = SchemaSummary [] [] [] [] [] [] [] [] False False [] None []"

record schema_example =
  sx_JSON :: string
  sx_Example :: string
  sx_Provided :: bool

record schema =
  sm_Name :: string
  sm_Description :: string
  sm_Summary :: schema_summary
  sm_Example :: schema_example

record security_scheme =
  sec_Name :: string
  sec_Type :: string
  sec_Description :: string
  sec_ParameterName :: string
  sec_In :: string
  sec_Scheme :: string
  sec_BearerFormat :: string
  sec_OpenIDConnectURL :: string

record docs_branding_logo =
  logo_Src :: string
  logo_Alt :: string
  logo_HomeURL :: string

record docs_branding =
  brand_DisplayName :: string
  brand_Logo :: docs_branding_logo
  brand_Favicon :: string

record spec_download =
  dl_JSON :: string
  dl_Filename :: string

record spec_contact =
  contact_Name :: string
  contact_URL :: string
  contact_Email :: string

record spec_license =
  license_Name :: string
  license_URL :: string
  license_Identifier :: string

record spec_server_variable =
  var_Name :: string
  var_Default :: string
  var_Description :: string
  var_Enum :: "string list"

record spec_server =
  srv_URL :: string
  srv_Description :: string
  srv_Variables :: "spec_server_variable list"

record spec_overview =
  ov_Description :: string
  ov_TermsOfService :: string
  ov_Contact :: spec_contact
  ov_License :: spec_license
  ov_Servers :: "spec_server list"

record facet =
  fc_Name :: string
  fc_Value :: string

record fixed_query_parameter =
  fq_Name :: string
  fq_Value :: string

record operation_parameter =
  pm_Name :: string
  pm_In :: string
  pm_Required :: bool
  pm_Description :: string
  pm_Schema :: schema_summary
  pm_Example :: string

record operation_media_type =
  mt_ContentType :: string
  mt_Schema :: schema_summary
  mt_Example :: string
  mt_ExampleProvided :: bool

record operation_request_body =
  rb_Description :: string
  rb_Required :: bool
  rb_MediaTypes :: "operation_media_type list"

record operation_response_header =
  rh_Name :: string
  rh_Description :: string
  rh_Schema :: schema_summary
  rh_Example :: string

record operation_response =
  rs_Status :: string
  rs_Description :: string
  rs_Headers :: "operation_response_header list"
  rs_MediaTypes :: "operation_media_type list"

record operation_security =
  os_Name :: string
  os_Scopes :: "string list"
  os_Definition :: security_scheme

record request_snippet =
  sn_Label :: string
  sn_Language :: string
  sn_Code :: string

record operation =
  op_ID :: string
  op_Anchor :: string
  op_Title :: string
  op_Method :: string
  op_Path :: string
  op_RequestTarget :: string
  op_FixedQuery :: "fixed_query_parameter list"
  op_Summary :: string
  op_Description :: string
  op_Tags :: "string list"
  op_Facets :: "facet list"
  op_Deprecated :: bool
  op_Parameters :: "operation_parameter list"
  op_RequestBody :: "operation_request_body option"
  op_Responses :: "operation_response list"
  op_Security :: "operation_security list"
  op_Snippets :: "request_snippet list"

record search_document =
  sd_ID :: string
  sd_Title :: string
  sd_Description :: string
  sd_Href :: string
  sd_Kind :: string
  sd_Method :: string
  sd_Path :: string
  sd_Section :: string
  sd_Keywords :: "string list"

record public_route =
  pr_Path :: string
  pr_Title :: string
  pr_Description :: string

record spec_index =
  si_ProjectID :: string
  si_RevisionID :: string
  si_Title :: string
  si_Version :: string
  si_Branding :: docs_branding
  si_Overview :: spec_overview
  si_SpecDownload :: spec_download
  si_Operations :: "operation list"
  si_Schemas :: "schema list"
  si_SecuritySchemes :: "security_scheme list"
  si_Search :: "search_document list"
  si_PublicRoutes :: "public_route list"
  si_ExampleSpecJSON :: string

section \<open>The index as the reflective walk sees it\<close>

text \<open>Byte slices are sequences of numbers, which the walk ignores.\<close>

definition rv_strings :: "string list \<Rightarrow> rvalue" where
  "rv_strings xs = RSeq (map RStr xs)"

definition rv_constraint :: "schema_constraint \<Rightarrow> rvalue" where
  "rv_constraint c = RStruct [(''Name'', RStr (sc_Name c)), (''Value'', RStr (sc_Value c))]"

fun rv_summary :: "schema_summary \<Rightarrow> rvalue" and rv_property :: "schema_property \<Rightarrow> rvalue" where
  "rv_summary (SchemaSummary nm ty fmt desc dflt ex enum cs nullable deprecated props items js) = RStruct
     [(''Name'', RStr nm), (''Type'', RStr ty), (''Format'', RStr fmt), (''Description'', RStr desc),
      (''Default'', RStr dflt), (''Example'', RStr ex), (''Enum'', rv_strings enum),
      (''Constraints'', RSeq (map rv_constraint cs)), (''Nullable'', ROther), (''Deprecated'', ROther),
      (''Properties'', RSeq (map rv_property props)),
      (''Items'', case items of None \<Rightarrow> RNil | Some a \<Rightarrow> RRef a), (''JSON'', RStr js)]"
| "rv_property (SchemaProperty nm req s desc) = RStruct
     [(''Name'', RStr nm), (''Required'', ROther), (''Schema'', rv_summary s), (''Description'', RStr desc)]"

definition rv_heap :: "schema_heap \<Rightarrow> rheap" where
  "rv_heap hp = map rv_summary hp"

definition rv_schema_example :: "schema_example \<Rightarrow> rvalue" where
  "rv_schema_example x = RStruct
     [(''JSON'', RStr (sx_JSON x)), (''Example'', RStr (sx_Example x)), (''Provided'', ROther)]"

definition rv_schema :: "schema \<Rightarrow> rvalue" where
  "rv_schema x = RStruct
     [(''Name'', RStr (sm_Name x)), (''Description'', RStr (sm_Description x)),
      (''Summary'', rv_summary (sm_Summary x)), (''Example'', rv_schema_example (sm_Example x))]"

definition rv_security_scheme :: "security_scheme \<Rightarrow> rvalue" where
  "rv_security_scheme x = RStruct
     [(''Name'', RStr (sec_Name x)), (''Type'', RStr (sec_Type x)),
      (''Description'', RStr (sec_Description x)), (''ParameterName'', RStr (sec_ParameterName x)),
      (''In'', RStr (sec_In x)), (''Scheme'', RStr (sec_Scheme x)),
      (''BearerFormat'', RStr (sec_BearerFormat x)),
      (''OpenIDConnectURL'', RStr (sec_OpenIDConnectURL x))]"

definition rv_docs_branding_logo :: "docs_branding_logo \<Rightarrow> rvalue" where
  "rv_docs_branding_logo x = RStruct
     [(''Src'', RStr (logo_Src x)), (''Alt'', RStr (logo_Alt x)),
      (''HomeURL'', RStr (logo_HomeURL x))]"

definition rv_docs_branding :: "docs_branding \<Rightarrow> rvalue" where
  "rv_docs_branding x = RStruct
     [(''DisplayName'', RStr (brand_DisplayName x)),
      (''Logo'', rv_docs_branding_logo (brand_Logo x)), (''Favicon'', RStr (brand_Favicon x))]"

definition rv_spec_download :: "spec_download \<Rightarrow> rvalue" where
  "rv_spec_download x = RStruct
     [(''JSON'', ROther), (''Filename'', RStr (dl_Filename x))]"

definition rv_spec_contact :: "spec_contact \<Rightarrow> rvalue" where
  "rv_spec_contact x = RStruct
     [(''Name'', RStr (contact_Name x)), (''URL'', RStr (contact_URL x)),
      (''Email'', RStr (contact_Email x))]"

definition rv_spec_license :: "spec_license \<Rightarrow> rvalue" where
  "rv_spec_license x = RStruct
     [(''Name'', RStr (license_Name x)), (''URL'', RStr (license_URL x)),
      (''Identifier'', RStr (license_Identifier x))]"

definition rv_spec_server_variable :: "spec_server_variable \<Rightarrow> rvalue" where
  "rv_spec_server_variable x = RStruct
     [(''Name'', RStr (var_Name x)), (''Default'', RStr (var_Default x)),
      (''Description'', RStr (var_Description x)), (''Enum'', rv_strings (var_Enum x))]"

definition rv_spec_server :: "spec_server \<Rightarrow> rvalue" where
  "rv_spec_server x = RStruct
     [(''URL'', RStr (srv_URL x)), (''Description'', RStr (srv_Description x)),
      (''Variables'', RSeq (map rv_spec_server_variable (srv_Variables x)))]"

definition rv_spec_overview :: "spec_overview \<Rightarrow> rvalue" where
  "rv_spec_overview x = RStruct
     [(''Description'', RStr (ov_Description x)), (''TermsOfService'', RStr (ov_TermsOfService x)),
      (''Contact'', rv_spec_contact (ov_Contact x)), (''License'', rv_spec_license (ov_License x)),
      (''Servers'', RSeq (map rv_spec_server (ov_Servers x)))]"

definition rv_facet :: "facet \<Rightarrow> rvalue" where
  "rv_facet x = RStruct
     [(''Name'', RStr (fc_Name x)), (''Value'', RStr (fc_Value x))]"

definition rv_fixed_query_parameter :: "fixed_query_parameter \<Rightarrow> rvalue" where
  "rv_fixed_query_parameter x = RStruct
     [(''Name'', RStr (fq_Name x)), (''Value'', RStr (fq_Value x))]"

definition rv_operation_parameter :: "operation_parameter \<Rightarrow> rvalue" where
  "rv_operation_parameter x = RStruct
     [(''Name'', RStr (pm_Name x)), (''In'', RStr (pm_In x)), (''Required'', ROther),
      (''Description'', RStr (pm_Description x)), (''Schema'', rv_summary (pm_Schema x)),
      (''Example'', RStr (pm_Example x))]"

definition rv_operation_media_type :: "operation_media_type \<Rightarrow> rvalue" where
  "rv_operation_media_type x = RStruct
     [(''ContentType'', RStr (mt_ContentType x)), (''Schema'', rv_summary (mt_Schema x)),
      (''Example'', RStr (mt_Example x)), (''ExampleProvided'', ROther)]"

definition rv_operation_request_body :: "operation_request_body \<Rightarrow> rvalue" where
  "rv_operation_request_body x = RStruct
     [(''Description'', RStr (rb_Description x)), (''Required'', ROther),
      (''MediaTypes'', RSeq (map rv_operation_media_type (rb_MediaTypes x)))]"

definition rv_operation_response_header :: "operation_response_header \<Rightarrow> rvalue" where
  "rv_operation_response_header x = RStruct
     [(''Name'', RStr (rh_Name x)), (''Description'', RStr (rh_Description x)),
      (''Schema'', rv_summary (rh_Schema x)), (''Example'', RStr (rh_Example x))]"

definition rv_operation_response :: "operation_response \<Rightarrow> rvalue" where
  "rv_operation_response x = RStruct
     [(''Status'', RStr (rs_Status x)), (''Description'', RStr (rs_Description x)),
      (''Headers'', RSeq (map rv_operation_response_header (rs_Headers x))),
      (''MediaTypes'', RSeq (map rv_operation_media_type (rs_MediaTypes x)))]"

definition rv_operation_security :: "operation_security \<Rightarrow> rvalue" where
  "rv_operation_security x = RStruct
     [(''Name'', RStr (os_Name x)), (''Scopes'', rv_strings (os_Scopes x)),
      (''Definition'', rv_security_scheme (os_Definition x))]"

definition rv_request_snippet :: "request_snippet \<Rightarrow> rvalue" where
  "rv_request_snippet x = RStruct
     [(''Label'', RStr (sn_Label x)), (''Language'', RStr (sn_Language x)),
      (''Code'', RStr (sn_Code x))]"

definition rv_operation :: "operation \<Rightarrow> rvalue" where
  "rv_operation x = RStruct
     [(''ID'', RStr (op_ID x)), (''Anchor'', RStr (op_Anchor x)), (''Title'', RStr (op_Title x)),
      (''Method'', RStr (op_Method x)), (''Path'', RStr (op_Path x)),
      (''RequestTarget'', RStr (op_RequestTarget x)),
      (''FixedQuery'', RSeq (map rv_fixed_query_parameter (op_FixedQuery x))),
      (''Summary'', RStr (op_Summary x)), (''Description'', RStr (op_Description x)),
      (''Tags'', rv_strings (op_Tags x)), (''Facets'', RSeq (map rv_facet (op_Facets x))),
      (''Deprecated'', ROther),
      (''Parameters'', RSeq (map rv_operation_parameter (op_Parameters x))),
      (''RequestBody'', case op_RequestBody x of None \<Rightarrow> RNil | Some y \<Rightarrow> rv_operation_request_body y),
      (''Responses'', RSeq (map rv_operation_response (op_Responses x))),
      (''Security'', RSeq (map rv_operation_security (op_Security x))),
      (''Snippets'', RSeq (map rv_request_snippet (op_Snippets x)))]"

definition rv_search_document :: "search_document \<Rightarrow> rvalue" where
  "rv_search_document x = RStruct
     [(''ID'', RStr (sd_ID x)), (''Title'', RStr (sd_Title x)),
      (''Description'', RStr (sd_Description x)), (''Href'', RStr (sd_Href x)),
      (''Kind'', RStr (sd_Kind x)), (''Method'', RStr (sd_Method x)), (''Path'', RStr (sd_Path x)),
      (''Section'', RStr (sd_Section x)), (''Keywords'', rv_strings (sd_Keywords x))]"

definition rv_public_route :: "public_route \<Rightarrow> rvalue" where
  "rv_public_route x = RStruct
     [(''Path'', RStr (pr_Path x)), (''Title'', RStr (pr_Title x)),
      (''Description'', RStr (pr_Description x))]"

definition rv_spec_index :: "spec_index \<Rightarrow> rvalue" where
  "rv_spec_index x = RStruct
     [(''ProjectID'', RStr (si_ProjectID x)), (''RevisionID'', RStr (si_RevisionID x)),
      (''Title'', RStr (si_Title x)), (''Version'', RStr (si_Version x)),
      (''Branding'', rv_docs_branding (si_Branding x)),
      (''Overview'', rv_spec_overview (si_Overview x)),
      (''SpecDownload'', rv_spec_download (si_SpecDownload x)),
      (''Operations'', RSeq (map rv_operation (si_Operations x))),
      (''Schemas'', RSeq (map rv_schema (si_Schemas x))),
      (''SecuritySchemes'', RSeq (map rv_security_scheme (si_SecuritySchemes x))),
      (''Search'', RSeq (map rv_search_document (si_Search x))),
      (''PublicRoutes'', RSeq (map rv_public_route (si_PublicRoutes x))),
      (''ExampleSpecJSON'', RStr (si_ExampleSpecJSON x))]"

section \<open>Request targets\<close>

definition EffectiveOperationRequestTarget :: "operation \<Rightarrow> string" where
  "EffectiveOperationRequestTarget operation =
     (if op_RequestTarget operation \<noteq> [] then op_RequestTarget operation else op_Path operation)"

definition validateOperationPath :: "string \<Rightarrow> err" where
  "validateOperationPath v =
     and_then (ValidateCanonicalIdentity ''operation path'' v False)
       (let cleanInput = (if v \<noteq> ''/'' \<and> has_suffix ''/'' v then trim_suffix ''/'' v else v) in
        fail_if (\<not> has_prefix ''/'' v \<or> path_clean cleanInput \<noteq> cleanInput \<or> contains_any v '' ?#'')
          (Errorf ''operation path is invalid'' []))"

text \<open>One item of the fixed query against its literal.\<close>

definition validateFixedQueryItem :: "nat \<Rightarrow> string \<Rightarrow> fixed_query_parameter \<Rightarrow> err" where
  "validateFixedQueryItem index part fixed =
     (if part = [] then Some (Errorf ''operation request target query item %d is empty'' [itoa index])
      else case cut_char (CHR ''='') part of (rawName, rawValue, hasValue) \<Rightarrow>
        (let rawValue = (if hasValue then rawValue else []) in
         case query_unescape rawName of
           None \<Rightarrow> Some (Errorf ''operation request target query name %d is invalid'' [itoa index])
         | Some name \<Rightarrow>
           if name = [] then Some (Errorf ''operation request target query name %d is invalid'' [itoa index])
           else (case query_unescape rawValue of
             None \<Rightarrow> Some (Errorf ''operation request target query value %d is invalid'' [itoa index])
           | Some v \<Rightarrow> first_error
               [ValidateCanonicalIdentity (''operation fixed query '' @ itoa index @ '' name'') (fq_Name fixed) False,
                ValidateCanonicalIdentity (''operation fixed query '' @ itoa index @ '' value'') (fq_Value fixed) True,
                fail_if (fq_Name fixed \<noteq> name \<or> fq_Value fixed \<noteq> v)
                  (Errorf ''operation fixed query item %d differs from request target'' [itoa index])])))"

definition ValidateOperationRequestTarget :: "string \<Rightarrow> string \<Rightarrow> fixed_query_parameter list \<Rightarrow> err" where
  "ValidateOperationRequestTarget operationPath requestTarget fixed =
     and_then (validateOperationPath operationPath)
      (if requestTarget = [] then
         fail_if (fixed \<noteq> []) (Errorf ''operation fixed query requires a request target'' [])
       else and_then (ValidateCanonicalIdentity ''operation request target'' requestTarget False)
         (let prefix = operationPath @ ''?'' in
          if \<not> has_prefix prefix requestTarget \<or> contains_any requestTarget '' #''
            then Some (Errorf ''operation request target is invalid'' [])
          else (let rawQuery = trim_prefix prefix requestTarget in
            if rawQuery = [] then Some (Errorf ''operation request target query is required'' [])
            else (let parts = split_char (CHR ''&'') rawQuery in
              if length parts \<noteq> length fixed
                then Some (Errorf ''operation fixed query differs from request target'' [])
              else each_index (\<lambda>i (part, fx). validateFixedQueryItem i part fx) (zip parts fixed)))))"

end
