(* ===== verification/Go_Json.thy ===== *)
theory Go_Json
  imports Go_Strings Go_Time
begin

text \<open>
  The compact output of \<open>encoding/json.Marshal\<close> for the values the program hashes: objects with
  their fields in declaration order, arrays, strings with HTML escaping, booleans and null.
\<close>

datatype json =
    JNull
  | JBool bool
  | JStr string
  | JArr "json list"
  | JObj "(string \<times> json) list"

definition json_digit :: "nat \<Rightarrow> char" where
  "json_digit d = char_of (if d < 10 then 48 + d else 87 + d)"

definition json_u :: "nat \<Rightarrow> string" where
  "json_u r = [CHR 0x5C, CHR ''u'', json_digit (r div 4096 mod 16), json_digit (r div 256 mod 16),
     json_digit (r div 16 mod 16), json_digit (r mod 16)]"

definition json_escape_ascii :: "nat \<Rightarrow> string" where
  "json_escape_ascii b =
     (if b = 34 then [CHR 0x5C, CHR 0x22] else if b = 92 then [CHR 0x5C, CHR 0x5C]
      else if b = 8 then [CHR 0x5C, CHR ''b''] else if b = 12 then [CHR 0x5C, CHR ''f'']
      else if b = 10 then [CHR 0x5C, CHR ''n''] else if b = 13 then [CHR 0x5C, CHR ''r'']
      else if b = 9 then [CHR 0x5C, CHR ''t'']
      else if b < 32 \<or> b = 60 \<or> b = 62 \<or> b = 38 then json_u b
      else [char_of b])"

text \<open>An invalid byte is written as the escaped replacement character.\<close>

fun json_escape :: "string \<Rightarrow> string" where
  "json_escape [] = []"
| "json_escape (c # r) =
     (case decode_rune (c # r) of (rn, n) \<Rightarrow>
        (if rn = RuneError \<and> n = 1 then json_u RuneError
         else if rn < 128 then json_escape_ascii rn
         else if rn = 8232 \<or> rn = 8233 then json_u rn
         else take n (c # r)) @ json_escape (drop (n - 1) r))"

definition json_quote :: "string \<Rightarrow> string" where
  "json_quote s = [CHR 0x22] @ json_escape s @ [CHR 0x22]"

fun json_bytes :: "json \<Rightarrow> string" where
  "json_bytes JNull = ''null''"
| "json_bytes (JBool b) = (if b then ''true'' else ''false'')"
| "json_bytes (JStr s) = json_quote s"
| "json_bytes (JArr js) = ''['' @ join_with '','' (map json_bytes js) @ '']''"
| "json_bytes (JObj fs) =
     ''{'' @ join_with '','' (map (\<lambda>(k, j). json_quote k @ '':'' @ json_bytes j) fs) @ ''}''"

text \<open>A nil slice is null; \<open>omitempty\<close> leaves a field out when its value is empty.\<close>

definition json_slice :: "('a \<Rightarrow> json) \<Rightarrow> 'a slice \<Rightarrow> json" where
  "json_slice f s = (case s of NilSlice \<Rightarrow> JNull | Slice xs \<Rightarrow> JArr (map f xs))"

definition field :: "string \<Rightarrow> json \<Rightarrow> (string \<times> json) list" where
  "field k j = [(k, j)]"

definition omit_str :: "string \<Rightarrow> string \<Rightarrow> (string \<times> json) list" where
  "omit_str k v = (if v = [] then [] else [(k, JStr v)])"

definition omit_bool :: "string \<Rightarrow> bool \<Rightarrow> (string \<times> json) list" where
  "omit_bool k b = (if b then [(k, JBool b)] else [])"

definition omit_slice :: "string \<Rightarrow> ('a \<Rightarrow> json) \<Rightarrow> 'a slice \<Rightarrow> (string \<times> json) list" where
  "omit_slice k f s = (if elems s = [] then [] else [(k, json_slice f s)])"

text \<open>\<open>time.Time\<close> marshals as RFC 3339 and fails for years outside 0..9999.\<close>

definition time_marshal_ok :: "gotime \<Rightarrow> bool" where
  "time_marshal_ok t \<longleftrightarrow> 0 \<le> time_year t \<and> time_year t \<le> 9999 \<and> \<bar>loc_offset (t_loc t)\<bar> < 86400"

definition json_time :: "gotime \<Rightarrow> json" where
  "json_time t = JStr (format_rfc3339nano t)"

definition json_time_error :: go_error where
  "json_time_error = Errorf ''Time.MarshalJSON: out of range'' []"

end
