(* ===== verification/Json_Inject.thy ===== *)
theory Json_Inject
  imports Go_Json
begin

text \<open>
  Different values marshal to different bytes: the compact JSON encoding of values whose strings are
  valid UTF-8 is prefix-free, so a digest of the encoding identifies the value.
\<close>

section \<open>Strings\<close>

abbreviation quote :: char where "quote \<equiv> CHR 0x22"
abbreviation backslash :: char where "backslash \<equiv> CHR 0x5C"

definition esc :: "nat \<Rightarrow> string" where
  "esc r = (if r < 128 then json_escape_ascii r else if r = 8232 \<or> r = 8233 then json_u r else encode_rune r)"

lemma json_escape_runes: "utf8_valid s \<Longrightarrow> json_escape s = concat (map esc (runes s))"
proof (induction s rule: utf8_valid.induct)
  case (2 c r)
  obtain rn n where d: "decode_rune (c # r) = (rn, n)"
    by (cases "decode_rune (c # r)")
  with "2.prems" have ok: "\<not> (rn = RuneError \<and> n = 1)" and v: "utf8_valid (drop (n - 1) r)" by (auto split: if_splits)
  have "encode_rune rn = take n (c # r)" by (rule decode_rune_encode [OF d ok])
  moreover have "json_escape (c # r) = (if rn < 128 then json_escape_ascii rn
        else if rn = 8232 \<or> rn = 8233 then json_u rn else take n (c # r)) @ json_escape (drop (n - 1) r)"
    by (simp only: json_escape.simps d prod.case if_not_P [OF ok])
  ultimately show ?case using "2.IH" [OF d [symmetric] v] d by (simp add: esc_def)
qed simp

definition plain_rune :: "nat \<Rightarrow> bool" where
  "plain_rune r \<longleftrightarrow> 32 \<le> r \<and> r < 128 \<and> r \<notin> {34, 92, 60, 62, 38}"

definition short_rune :: "nat \<Rightarrow> bool" where
  "short_rune r \<longleftrightarrow> r \<in> {34, 92, 8, 12, 10, 13, 9}"

definition long_rune :: "nat \<Rightarrow> bool" where
  "long_rune r \<longleftrightarrow> \<not> short_rune r \<and> (r < 32 \<or> r \<in> {60, 62, 38, 8232, 8233})"

definition short_code :: "nat \<Rightarrow> char" where
  "short_code r = (if r = 34 then quote else if r = 92 then backslash else if r = 8 then CHR ''b''
     else if r = 12 then CHR ''f'' else if r = 10 then CHR ''n'' else if r = 13 then CHR ''r'' else CHR ''t'')"

lemma esc_cases:
  obtains (plain) "plain_rune r" "esc r = [char_of r]"
  | (short) "short_rune r" "esc r = [backslash, short_code r]"
  | (long) "long_rune r" "esc r = json_u r"
  | (multi) "128 \<le> r" "r \<noteq> 8232 \<and> r \<noteq> 8233" "esc r = encode_rune r"
proof -
  consider "r \<ge> 128" "r \<noteq> 8232 \<and> r \<noteq> 8233" | "r = 8232 \<or> r = 8233" | "r < 128" by linarith
  then show thesis
  proof cases
    case 1
    then show thesis by (intro multi) (auto simp: esc_def)
  next
    case 2
    then show thesis by (intro long) (auto simp: esc_def long_rune_def short_rune_def)
  next
    case 3
    then have e: "esc r = json_escape_ascii r" by (simp add: esc_def)
    consider "short_rune r" | "long_rune r" | "plain_rune r"
      using 3 by (fastforce simp: plain_rune_def short_rune_def long_rune_def)
    then show thesis
    proof cases
      case 1
      then show thesis by (intro short) (auto simp: e json_escape_ascii_def short_code_def short_rune_def)
    next
      case 2
      then show thesis using 3 by (intro long) (auto simp: e json_escape_ascii_def short_rune_def long_rune_def)
    next
      case 3
      then show thesis by (intro plain) (auto simp: e json_escape_ascii_def plain_rune_def)
    qed
  qed
qed

lemma short_code_inject: "short_rune r \<Longrightarrow> short_rune r' \<Longrightarrow> short_code r = short_code r' \<longleftrightarrow> r = r'"
  by (auto simp: short_rune_def short_code_def)

lemma short_code_not_u: "short_code r \<noteq> CHR ''u''"
  by (simp add: short_code_def)

lemma json_digit_inject:
  "d < 16 \<Longrightarrow> e < 16 \<Longrightarrow> json_digit d = json_digit e \<Longrightarrow> d = e"
  by (drule arg_cong [where f = bv]) (simp add: json_digit_def bv_char_of split: if_splits)

lemma nibbles_unique:
  assumes "r < 65536" "r' < 65536" "r div 4096 mod 16 = r' div 4096 mod 16" "r div 256 mod 16 = r' div 256 mod 16"
    "r div 16 mod 16 = r' div 16 mod 16" "r mod 16 = r' mod (16::nat)"
  shows "r = r'"
proof -
  have e: "r = ((r div 4096 * 16 + r div 256 mod 16) * 16 + r div 16 mod 16) * 16 + r mod 16" for r :: nat
  proof -
    have "r div 256 = r div 4096 * 16 + r div 256 mod 16" "r div 16 = r div 256 * 16 + r div 16 mod 16"
      "r = r div 16 * 16 + r mod 16"
      using div_mult_mod_eq [of "r div 256" 16] div_mult_mod_eq [of "r div 16" 16]
      by (simp_all add: div_mult2_eq [symmetric])
    then show ?thesis by presburger
  qed
  have "r div 4096 = r' div 4096" using assms(1-3) by (simp add: less_mult_imp_div_less)
  then show ?thesis using e [of r] e [of r'] assms by simp
qed

lemma json_u_inject: "r < 65536 \<Longrightarrow> r' < 65536 \<Longrightarrow> json_u r = json_u r' \<Longrightarrow> r = r'"
  by (rule nibbles_unique) (auto simp: json_u_def intro: json_digit_inject)

lemma long_rune_bound: "long_rune r \<Longrightarrow> r < 65536"
  by (auto simp: long_rune_def)

lemma hd_encode_rune: "is_scalar r \<Longrightarrow> 128 \<le> r \<Longrightarrow> 128 \<le> bv (hd (encode_rune r)) \<and> encode_rune r \<noteq> []"
  by (auto simp: encode_rune_def encode_bytes_def is_scalar_def bv_char_of)

lemma plain_char:
  assumes "plain_rune r"
  shows "bv (char_of r) = r" and "char_of r \<noteq> quote" and "char_of r \<noteq> backslash" and "r < 128"
proof -
  show b: "bv (char_of r) = r" using assms by (simp add: plain_rune_def bv_char_of)
  have "bv (char_of r) \<noteq> bv quote" "bv (char_of r) \<noteq> bv backslash"
    unfolding b using assms by (simp_all add: plain_rune_def)
  then show "char_of r \<noteq> quote" and "char_of r \<noteq> backslash" by metis+
  show "r < 128" using assms by (simp add: plain_rune_def)
qed

lemma esc_hd:
  assumes "is_scalar r"
  shows "esc r \<noteq> []" and "hd (esc r) \<noteq> quote"
proof -
  have "esc r \<noteq> [] \<and> hd (esc r) \<noteq> quote"
  proof (cases r rule: esc_cases)
    case plain
    then show ?thesis using plain_char [of r] by simp
  next
    case multi
    then have "128 \<le> bv (hd (esc r))" using hd_encode_rune [OF assms] by simp
    then have "hd (esc r) \<noteq> quote" by auto
    then show ?thesis using multi hd_encode_rune [OF assms] by simp
  qed (simp_all add: json_u_def)
  then show "esc r \<noteq> []" and "hd (esc r) \<noteq> quote" by simp_all
qed

text \<open>The class of a rune can be read off the first characters of its escape.\<close>

definition esc_class :: "string \<Rightarrow> nat" where
  "esc_class w = (if bv (hd w) \<ge> 128 then 3 else if hd w \<noteq> backslash then 0
     else if w ! 1 = CHR ''u'' then 2 else 1)"

lemma esc_class_val:
  assumes "is_scalar r"
  shows "esc_class (esc r @ x) = (if 128 \<le> r \<and> r \<noteq> 8232 \<and> r \<noteq> 8233 then 3
    else if plain_rune r then 0 else if short_rune r then 1 else 2)"
proof (cases r rule: esc_cases)
  case plain
  then show ?thesis using plain_char [of r] by (simp add: esc_class_def)
next
  case short
  then show ?thesis by (auto simp: esc_class_def short_code_not_u plain_rune_def short_rune_def)
next
  case long
  then show ?thesis by (auto simp: esc_class_def json_u_def plain_rune_def long_rune_def)
next
  case multi
  then show ?thesis using hd_encode_rune [OF assms] by (simp add: esc_class_def)
qed

lemma esc_inject:
  assumes r: "is_scalar r" "is_scalar r'" and e: "esc r @ x = esc r' @ y"
  shows "r = r' \<and> x = y"
proof -
  define m where "m r = (128 \<le> r \<and> r \<noteq> 8232 \<and> r \<noteq> (8233::nat))" for r
  have cls: "(if m r then 3 else if plain_rune r then 0 else if short_rune r then 1 else 2 :: nat) =
      (if m r' then 3 else if plain_rune r' then 0 else if short_rune r' then 1 else 2)"
    using esc_class_val [OF r(1), of x] esc_class_val [OF r(2), of y] e by (simp only: m_def)
  show ?thesis
  proof (cases r rule: esc_cases)
    case plain
    then have "\<not> m r" by (simp add: m_def plain_rune_def)
    then have p: "plain_rune r'" using cls plain(1) by (simp split: if_splits)
    then have "esc r' = [char_of r']"
      by (cases r' rule: esc_cases) (auto simp: plain_rune_def short_rune_def long_rune_def)
    then have "bv (char_of r) = bv (char_of r')" "x = y" using e plain by simp_all
    then show ?thesis using plain_char(1) plain p by simp
  next
    case short
    then have "\<not> m r" "\<not> plain_rune r" by (auto simp: m_def plain_rune_def short_rune_def)
    then have p: "short_rune r'" using cls short(1) by (simp split: if_splits)
    then have "esc r' = [backslash, short_code r']"
      by (cases r' rule: esc_cases) (auto simp: plain_rune_def short_rune_def long_rune_def)
    then show ?thesis using e short p short_code_inject [of r r'] by simp
  next
    case long
    then have "\<not> m r" "\<not> plain_rune r" "\<not> short_rune r" by (auto simp: m_def plain_rune_def long_rune_def)
    then have "\<not> m r'" "\<not> plain_rune r'" "\<not> short_rune r'" using cls by (simp_all split: if_splits)
    then have p: "long_rune r'" "esc r' = json_u r'"
      by (cases r' rule: esc_cases; simp add: m_def)+
    then have "json_u r = json_u r'" "x = y" using e long by (simp_all add: json_u_def)
    then show ?thesis using p(1) long json_u_inject long_rune_bound by blast
  next
    case multi
    then have "m r" by (simp add: m_def)
    then have "m r'" using cls by (simp split: if_splits)
    then have "esc r' = encode_rune r'" by (simp add: esc_def m_def)
    then have "encode_rune r @ x = encode_rune r' @ y" using e multi by simp
    then have "r = r'" using decode_encode [OF r(1), of x] decode_encode [OF r(2), of y] by simp
    then show ?thesis using \<open>encode_rune r @ x = encode_rune r' @ y\<close> by simp
  qed
qed

lemma escapes_inject:
  "\<forall>r \<in> set rs. is_scalar r \<Longrightarrow> \<forall>r \<in> set rs'. is_scalar r \<Longrightarrow>
    concat (map esc rs) @ quote # x = concat (map esc rs') @ quote # y \<Longrightarrow> rs = rs' \<and> x = y"
proof (induction rs arbitrary: rs')
  case Nil
  show ?case
  proof (cases rs')
    case (Cons r' rs'')
    then have "hd (esc r') = quote" using Nil.prems esc_hd(1) [of r'] by (cases "esc r'") auto
    then show ?thesis using Nil.prems Cons esc_hd(2) [of r'] by simp
  qed (use Nil in simp)
next
  case (Cons r rs)
  show ?case
  proof (cases rs')
    case Nil
    then have "hd (esc r) = quote" using Cons.prems esc_hd(1) [of r] by (cases "esc r") auto
    then show ?thesis using Cons.prems esc_hd(2) [of r] by simp
  next
    case (Cons r' rs'')
    with Cons.prems have "esc r @ (concat (map esc rs) @ quote # x) = esc r' @ (concat (map esc rs'') @ quote # y)"
      by simp
    from esc_inject [OF _ _ this] Cons.IH [of rs''] Cons.prems Cons show ?thesis by simp
  qed
qed

lemma json_quote_inject:
  assumes "utf8_valid s" "utf8_valid s'" "json_quote s @ x = json_quote s' @ y"
  shows "s = s' \<and> x = y"
proof -
  note v = utf8_valid_runes [OF assms(1)] utf8_valid_runes [OF assms(2)]
  have "runes s = runes s' \<and> x = y"
    using assms v by (intro escapes_inject) (simp_all add: json_quote_def json_escape_runes)
  then show ?thesis using v by metis
qed

section \<open>Values\<close>

fun json_wf :: "json \<Rightarrow> bool" where
  "json_wf JNull = True"
| "json_wf (JBool b) = True"
| "json_wf (JStr s) = utf8_valid s"
| "json_wf (JArr js) = (\<forall>j \<in> set js. json_wf j)"
| "json_wf (JObj fs) = (\<forall>(k, j) \<in> set fs. utf8_valid k \<and> json_wf j)"

lemma json_quote_hd [simp]: "json_quote s @ x = quote # json_escape s @ quote # x"
  by (simp add: json_quote_def)

lemma json_bytes_hd: "json_bytes j \<noteq> []" "hd (json_bytes j) \<noteq> CHR '']''" "hd (json_bytes j) \<noteq> CHR '',''"
  by (cases j; simp add: json_quote_def)+

text \<open>A separated, closed sequence of items of a prefix-free encoding determines the items.\<close>

lemma join_inject:
  assumes inj: "\<And>a b x y. a \<in> set as \<Longrightarrow> b \<in> set bs \<Longrightarrow> f a @ x = f b @ y \<Longrightarrow> a = b \<and> x = y"
    and hd: "\<And>a. f a \<noteq> [] \<and> hd (f a) \<noteq> c" and c: "c \<noteq> CHR '',''"
    and e: "join_with '','' (map f as) @ c # x = join_with '','' (map f bs) @ c # y"
  shows "as = bs \<and> x = y"
  using inj e
proof (induction as arbitrary: bs)
  case Nil
  then show ?case
  proof (cases bs)
    case (Cons b bs')
    obtain z where "join_with '','' (map f (b # bs')) = f b @ z" by (cases bs') auto
    then have "c # x = f b @ z @ c # y" using Nil.prems(2) Cons by simp
    then show ?thesis using hd [of b] by (cases "f b") auto
  qed simp
next
  case (Cons a as)
  obtain z where z: "join_with '','' (map f (a # as)) = f a @ z"
    "z = (if as = [] then [] else CHR '','' # join_with '','' (map f as))" by (cases as) auto
  show ?case
  proof (cases bs)
    case Nil
    then have "f a @ z @ c # x = c # y" using Cons.prems(2) z(1) by simp
    then show ?thesis using hd [of a] by (cases "f a") auto
  next
    case b: (Cons b bs')
    obtain w where w: "join_with '','' (map f (b # bs')) = f b @ w"
      "w = (if bs' = [] then [] else CHR '','' # join_with '','' (map f bs'))" by (cases bs') auto
    have "f a @ (z @ c # x) = f b @ (w @ c # y)" using Cons.prems(2) b z(1) w(1) by simp
    then have ab: "a = b" "z @ c # x = w @ c # y" using Cons.prems(1) [of a b] b by auto
    consider "as = []" "bs' = []" | "as \<noteq> []" "bs' \<noteq> []"
      using ab(2) z(2) w(2) c by (auto split: if_splits)
    then show ?thesis
    proof cases
      case 1
      then show ?thesis using ab z(2) w(2) b by simp
    next
      case 2
      then have "join_with '','' (map f as) @ c # x = join_with '','' (map f bs') @ c # y"
        using ab(2) z(2) w(2) by simp
      with Cons.IH [of bs'] Cons.prems(1) b ab(1) show ?thesis by auto
    qed
  qed
qed

lemma json_bytes_inject:
  "json_wf j \<Longrightarrow> json_wf j' \<Longrightarrow> json_bytes j @ x = json_bytes j' @ y \<Longrightarrow> j = j' \<and> x = y"
proof (induction j arbitrary: j' x y)
  case JNull
  then show ?case by (cases j') (auto split: if_splits)
next
  case (JBool b)
  then show ?case by (cases j') (auto split: if_splits)
next
  case (JStr s)
  then show ?case
  proof (cases j')
    case (JStr s')
    then show ?thesis using JStr.prems json_quote_inject [of s s' x y] by (simp del: json_quote_hd)
  qed (auto split: if_splits)
next
  case (JArr js)
  then show ?case
  proof (cases j')
    case a: (JArr js')
    have "js = js' \<and> x = y"
    proof (rule join_inject [where f = json_bytes and c = "CHR '']''"])
      show "a = b \<and> u = v" if "a \<in> set js" "b \<in> set js'" "json_bytes a @ u = json_bytes b @ v" for a b u v
        using JArr.IH [OF that(1)] that JArr.prems a by auto
    qed (use JArr.prems a json_bytes_hd in auto)
    then show ?thesis using a by simp
  qed (auto split: if_splits)
next
  case (JObj fs)
  then show ?case
  proof (cases j')
    case a: (JObj fs')
    let ?f = "\<lambda>(k, j). json_quote k @ '':'' @ json_bytes j"
    have "fs = fs' \<and> x = y"
    proof (rule join_inject [where f = ?f and c = "CHR ''}''"])
      show "p = q \<and> u = v" if pq: "p \<in> set fs" "q \<in> set fs'" "?f p @ u = ?f q @ v" for p q u v
      proof -
        obtain k i k' i' where p: "p = (k, i)" "q = (k', i')" by (cases p, cases q)
        have v: "utf8_valid k" "utf8_valid k'" "json_wf i" "json_wf i'"
          using JObj.prems a pq p by auto
        have "json_quote k @ ('':'' @ json_bytes i @ u) = json_quote k' @ ('':'' @ json_bytes i' @ v)"
          using pq(3) p by simp
        then have "k = k'" "json_bytes i @ u = json_bytes i' @ v"
          using json_quote_inject [OF v(1,2)] by fastforce+
        with JObj.IH [of p i i' u v] pq(1) p v show ?thesis by (simp add: snds.simps)
      qed
    qed (use JObj.prems a in \<open>auto simp: json_quote_def\<close>)
    then show ?thesis using a by simp
  qed (auto split: if_splits)
qed

declare json_bytes.simps [simp del]

end
