(* ===== verification/Contract_Snapshot.thy ===== *)
theory Contract_Snapshot
  imports Spec_Model Json_Inject
begin

text \<open>
  \<open>domain/contractsnapshot.go\<close>: the normalised contract surface, its digest, and the validation of a
  snapshot read back from storage. Nil and empty slices are kept apart where \<open>reflect.DeepEqual\<close> and
  the JSON encoding do. The Unicode case tables are the argument \<open>uc\<close>.
\<close>

section \<open>Data\<close>

record contract_parameter =
  cp_Name :: string
  cp_In :: string
  cp_Required :: bool

record contract_operation =
  co_Method :: string
  co_Path :: string
  co_Parameters :: "contract_parameter slice"
  co_RequestBodyRequired :: bool
  co_ResponseStatuses :: "string slice"

record contract_snapshot =
  cs_ContractID :: string
  cs_RevisionID :: string
  cs_SpecDigest :: string
  cs_ContractDigest :: string
  cs_Operations :: "contract_operation slice"
  cs_Schemas :: "string slice"

section \<open>Canonical surface text and the orders of the surface\<close>

definition canonicalUpperSurfaceText :: "unicode_case \<Rightarrow> string \<Rightarrow> string" where
  "canonicalUpperSurfaceText uc s =
     (let v = TrimSpace s in if \<not> utf8_valid v then v else ToUpper uc v)"

definition canonicalLowerSurfaceText :: "unicode_case \<Rightarrow> string \<Rightarrow> string" where
  "canonicalLowerSurfaceText uc s =
     (let v = TrimSpace s in if \<not> utf8_valid v then v else ToLower uc v)"

definition parameter_less :: "contract_parameter \<Rightarrow> contract_parameter \<Rightarrow> bool" where
  "parameter_less p q =
     (if cp_In p \<noteq> cp_In q then cp_In p < cp_In q else cp_Name p < cp_Name q)"

definition operation_less :: "contract_operation \<Rightarrow> contract_operation \<Rightarrow> bool" where
  "operation_less a b =
     (if co_Method a \<noteq> co_Method b then co_Method a < co_Method b else co_Path a < co_Path b)"

section \<open>Normalisation\<close>

definition normalizeSnapshotOperation :: "unicode_case \<Rightarrow> contract_operation \<Rightarrow> contract_operation" where
  "normalizeSnapshotOperation uc operation =
     \<lparr>co_Method = canonicalUpperSurfaceText uc (co_Method operation),
      co_Path = TrimSpace (co_Path operation),
      co_Parameters = nil_append (sort_slice parameter_less
        (map (\<lambda>p. \<lparr>cp_Name = TrimSpace (cp_Name p), cp_In = canonicalLowerSurfaceText uc (cp_In p),
                   cp_Required = cp_Required p\<rparr>) (elems (co_Parameters operation)))),
      co_RequestBodyRequired = co_RequestBodyRequired operation,
      co_ResponseStatuses = nil_append (sort_strings
        (filter (\<lambda>s. s \<noteq> []) (map TrimSpace (elems (co_ResponseStatuses operation)))))\<rparr>"

definition normalizeSnapshotOperations :: "unicode_case \<Rightarrow> contract_operation slice \<Rightarrow> contract_operation slice" where
  "normalizeSnapshotOperations uc operations =
     Slice (sort_slice operation_less (map (normalizeSnapshotOperation uc) (elems operations)))"

definition normalizeSnapshotSchemas :: "string slice \<Rightarrow> string slice" where
  "normalizeSnapshotSchemas schemas =
     Slice (sort_strings (filter (\<lambda>s. s \<noteq> []) (map TrimSpace (elems schemas))))"

definition normalizeContractOperation :: "unicode_case \<Rightarrow> operation \<Rightarrow> contract_operation" where
  "normalizeContractOperation uc operation =
     \<lparr>co_Method = canonicalUpperSurfaceText uc (op_Method operation),
      co_Path = TrimSpace (op_Path operation),
      co_Parameters = nil_append (sort_slice parameter_less
        (map (\<lambda>p. \<lparr>cp_Name = TrimSpace (pm_Name p), cp_In = canonicalLowerSurfaceText uc (pm_In p),
                   cp_Required = pm_Required p\<rparr>) (op_Parameters operation))),
      co_RequestBodyRequired =
        (case op_RequestBody operation of None \<Rightarrow> False | Some body \<Rightarrow> rb_Required body),
      co_ResponseStatuses = nil_append (sort_strings
        (filter (\<lambda>s. s \<noteq> []) (map (\<lambda>r. TrimSpace (rs_Status r)) (op_Responses operation))))\<rparr>"

definition normalizeContractOperations :: "unicode_case \<Rightarrow> operation list \<Rightarrow> contract_operation slice" where
  "normalizeContractOperations uc operations =
     Slice (sort_slice operation_less (map (normalizeContractOperation uc) operations))"

definition normalizeContractSchemas :: "schema list \<Rightarrow> string slice" where
  "normalizeContractSchemas schemas =
     Slice (sort_strings (filter (\<lambda>s. s \<noteq> []) (map (\<lambda>s. TrimSpace (sm_Name s)) schemas)))"

section \<open>The surface digest\<close>

definition json_parameter :: "contract_parameter \<Rightarrow> json" where
  "json_parameter p = JObj (field ''name'' (JStr (cp_Name p)) @ field ''in'' (JStr (cp_In p)) @
     omit_bool ''required'' (cp_Required p))"

definition json_operation :: "contract_operation \<Rightarrow> json" where
  "json_operation a = JObj (field ''method'' (JStr (co_Method a)) @ field ''path'' (JStr (co_Path a)) @
     omit_slice ''parameters'' json_parameter (co_Parameters a) @
     omit_bool ''requestBodyRequired'' (co_RequestBodyRequired a) @
     omit_slice ''responseStatuses'' JStr (co_ResponseStatuses a))"

definition json_surface :: "contract_operation slice \<Rightarrow> string slice \<Rightarrow> json" where
  "json_surface operations schemas =
     JObj [(''operations'', json_slice json_operation operations), (''schemas'', json_slice JStr schemas)]"

text \<open>Marshalling strings, booleans and slices of them never fails.\<close>

definition contractSurfaceDigest :: "contract_operation slice \<Rightarrow> string slice \<Rightarrow> string" where
  "contractSurfaceDigest operations schemas = sha256Hex (json_bytes (json_surface operations schemas))"

definition NewContractSnapshot :: "unicode_case \<Rightarrow> string \<Rightarrow> string \<Rightarrow> string \<Rightarrow> spec_index \<Rightarrow> contract_snapshot" where
  "NewContractSnapshot uc contractID revisionID raw idx =
     (let operations = normalizeContractOperations uc (si_Operations idx);
          schemas = normalizeContractSchemas (si_Schemas idx)
      in \<lparr>cs_ContractID = contractID, cs_RevisionID = revisionID, cs_SpecDigest = sha256Hex raw,
          cs_ContractDigest = contractSurfaceDigest operations schemas,
          cs_Operations = operations, cs_Schemas = schemas\<rparr>)"

section \<open>Validation\<close>

definition validateOperationIdentities :: "nat \<Rightarrow> contract_operation \<Rightarrow> err" where
  "validateOperationIdentities i operation =
     (let prefix = ''contract operation '' @ itoa i in first_error
       [validateCanonicalIdentity (prefix @ '' method'') (co_Method operation) False,
        validateCanonicalIdentity (prefix @ '' path'') (co_Path operation) False,
        each_index (\<lambda>j p. let parameterPrefix = prefix @ '' parameter '' @ itoa j in
          first_error [validateCanonicalIdentity (parameterPrefix @ '' name'') (cp_Name p) False,
                       validateCanonicalIdentity (parameterPrefix @ '' location'') (cp_In p) False])
          (elems (co_Parameters operation)),
        each_index (\<lambda>j s. validateCanonicalIdentity (prefix @ '' response status '' @ itoa j) s False)
          (elems (co_ResponseStatuses operation))])"

definition validateContractSurfaceIdentities :: "contract_snapshot \<Rightarrow> err" where
  "validateContractSurfaceIdentities snapshot = first_error
     [each_index validateOperationIdentities (elems (cs_Operations snapshot)),
      each_index (\<lambda>i s. validateCanonicalIdentity (''contract schema '' @ itoa i @ '' name'') s False)
        (elems (cs_Schemas snapshot))]"

text \<open>
  The duplicate checks walk the operations with the keys seen so far; the parameters and statuses
  of an operation are checked after its own key.
\<close>

definition parameter_key :: "unicode_case \<Rightarrow> string \<Rightarrow> string \<Rightarrow> string \<times> string" where
  "parameter_key uc name loc = (TrimSpace name, canonicalLowerSurfaceText uc loc)"

fun validateOperationsUnique ::
    "unicode_case \<Rightarrow> nat \<Rightarrow> (string \<times> string) list \<Rightarrow> contract_operation list \<Rightarrow> err" where
  "validateOperationsUnique uc i seen [] = None"
| "validateOperationsUnique uc i seen (operation # ops) =
     (let key = (canonicalUpperSurfaceText uc (co_Method operation), TrimSpace (co_Path operation)) in
      if key \<in> set seen
        then Some (Errorf ''contract operation %d duplicates canonical operation %s %s'' [itoa i, fst key, snd key])
      else and_then
        (dup_error (\<lambda>j (name, loc). Errorf ''contract operation %d parameter %d duplicates canonical parameter %s in %s''
            [itoa i, itoa j, name, loc])
          (map (\<lambda>p. parameter_key uc (cp_Name p) (cp_In p)) (elems (co_Parameters operation))))
        (and_then
          (dup_error (\<lambda>j status. Errorf ''contract operation %d response status %d duplicates status %s''
              [itoa i, itoa j, status])
            (map TrimSpace (elems (co_ResponseStatuses operation))))
          (validateOperationsUnique uc (Suc i) (key # seen) ops)))"

definition validateContractSurfaceUniqueness :: "unicode_case \<Rightarrow> contract_snapshot \<Rightarrow> err" where
  "validateContractSurfaceUniqueness uc snapshot = first_error
     [validateOperationsUnique uc 0 [] (elems (cs_Operations snapshot)),
      dup_error (\<lambda>i schema. Errorf ''contract schema %d duplicates schema %s'' [itoa i, schema])
        (map TrimSpace (elems (cs_Schemas snapshot)))]"

definition validateAndCloneContractSnapshot :: "unicode_case \<Rightarrow> contract_snapshot \<Rightarrow> contract_snapshot result" where
  "validateAndCloneContractSnapshot uc snapshot =
     require (first_error
       [validateCanonicalIdentity ''contract id'' (cs_ContractID snapshot) False,
        validateCanonicalIdentity ''revision id'' (cs_RevisionID snapshot) False,
        fail_if (\<not> isLowerSHA256 (cs_SpecDigest snapshot)) (Errorf ''spec digest must be lowercase SHA-256'' []),
        fail_if (\<not> isLowerSHA256 (cs_ContractDigest snapshot)) (Errorf ''contract digest must be lowercase SHA-256'' []),
        validateContractSurfaceIdentities snapshot,
        validateContractSurfaceUniqueness uc snapshot])
      (let normalizedOperations = normalizeSnapshotOperations uc (cs_Operations snapshot);
           normalizedSchemas = normalizeSnapshotSchemas (cs_Schemas snapshot) in
       if cs_Operations snapshot \<noteq> normalizedOperations \<or> cs_Schemas snapshot \<noteq> normalizedSchemas
         then Inl (Errorf ''contract snapshot surface must be normalized and sorted'' [])
       else (let recomputedDigest = contractSurfaceDigest normalizedOperations normalizedSchemas in
         if cs_ContractDigest snapshot \<noteq> recomputedDigest
           then Inl (Errorf ''contract digest %q does not match normalized surface digest %q''
                  [cs_ContractDigest snapshot, recomputedDigest])
         else Inr (snapshot\<lparr>cs_Operations := normalizedOperations, cs_Schemas := normalizedSchemas\<rparr>)))"

definition ValidateContractSnapshot :: "unicode_case \<Rightarrow> contract_snapshot \<Rightarrow> err" where
  "ValidateContractSnapshot uc snapshot = to_err (validateAndCloneContractSnapshot uc snapshot)"

section \<open>What a valid snapshot is\<close>

definition operation_key :: "unicode_case \<Rightarrow> contract_operation \<Rightarrow> string \<times> string" where
  "operation_key uc a = (canonicalUpperSurfaceText uc (co_Method a), TrimSpace (co_Path a))"

definition operation_canonical :: "contract_operation \<Rightarrow> bool" where
  "operation_canonical a \<longleftrightarrow> canonical (co_Method a) \<and> canonical (co_Path a) \<and>
     (\<forall>p \<in> set (elems (co_Parameters a)). canonical (cp_Name p) \<and> canonical (cp_In p)) \<and>
     (\<forall>s \<in> set (elems (co_ResponseStatuses a)). canonical s)"

definition operation_unique :: "unicode_case \<Rightarrow> contract_operation \<Rightarrow> bool" where
  "operation_unique uc a \<longleftrightarrow>
     distinct (map (\<lambda>p. parameter_key uc (cp_Name p) (cp_In p)) (elems (co_Parameters a))) \<and>
     distinct (map TrimSpace (elems (co_ResponseStatuses a)))"

definition surface_canonical :: "contract_snapshot \<Rightarrow> bool" where
  "surface_canonical s \<longleftrightarrow> (\<forall>a \<in> set (elems (cs_Operations s)). operation_canonical a) \<and>
     (\<forall>n \<in> set (elems (cs_Schemas s)). canonical n)"

definition surface_unique :: "unicode_case \<Rightarrow> contract_snapshot \<Rightarrow> bool" where
  "surface_unique uc s \<longleftrightarrow> distinct (map (operation_key uc) (elems (cs_Operations s))) \<and>
     (\<forall>a \<in> set (elems (cs_Operations s)). operation_unique uc a) \<and>
     distinct (map TrimSpace (elems (cs_Schemas s)))"

definition surface_normal :: "unicode_case \<Rightarrow> contract_snapshot \<Rightarrow> bool" where
  "surface_normal uc s \<longleftrightarrow> cs_Operations s = normalizeSnapshotOperations uc (cs_Operations s) \<and>
     cs_Schemas s = normalizeSnapshotSchemas (cs_Schemas s)"

definition snapshot_ok :: "unicode_case \<Rightarrow> contract_snapshot \<Rightarrow> bool" where
  "snapshot_ok uc s \<longleftrightarrow> canonical (cs_ContractID s) \<and> canonical (cs_RevisionID s) \<and>
     isLowerSHA256 (cs_SpecDigest s) \<and> surface_canonical s \<and> surface_unique uc s \<and> surface_normal uc s \<and>
     cs_ContractDigest s = contractSurfaceDigest (cs_Operations s) (cs_Schemas s)"

lemma validateOperationIdentities_None [simp]:
  "validateOperationIdentities i a = None \<longleftrightarrow> operation_canonical a"
  by (auto simp: validateOperationIdentities_def operation_canonical_def Let_def all_set_conv_all_nth)

lemma validateContractSurfaceIdentities_None [simp]:
  "validateContractSurfaceIdentities s = None \<longleftrightarrow> surface_canonical s"
  by (auto simp: validateContractSurfaceIdentities_def surface_canonical_def all_set_conv_all_nth)

lemma validateOperationsUnique_None:
  "validateOperationsUnique uc i seen ops = None \<longleftrightarrow>
     distinct (map (operation_key uc) ops) \<and> operation_key uc ` set ops \<inter> set seen = {} \<and>
     (\<forall>a \<in> set ops. operation_unique uc a)"
  by (induction ops arbitrary: i seen) (auto simp: operation_key_def operation_unique_def Let_def)

lemma validateContractSurfaceUniqueness_None [simp]:
  "validateContractSurfaceUniqueness uc s = None \<longleftrightarrow> surface_unique uc s"
  by (auto simp: validateContractSurfaceUniqueness_def surface_unique_def validateOperationsUnique_None)

lemma contractSurfaceDigest_lower [simp]: "isLowerSHA256 (contractSurfaceDigest a b)"
  by (simp add: contractSurfaceDigest_def)

lemma validateAndClone_Inr:
  "validateAndCloneContractSnapshot uc s = Inr s' \<longleftrightarrow> snapshot_ok uc s \<and> s' = s"
  by (auto simp: validateAndCloneContractSnapshot_def snapshot_ok_def surface_normal_def Let_def)

lemma ValidateContractSnapshot_None [simp, go_err]: "ValidateContractSnapshot uc s = None \<longleftrightarrow> snapshot_ok uc s"
  by (simp add: ValidateContractSnapshot_def validateAndClone_Inr)

section \<open>Normalisation is a projection\<close>

lemma canonical_upper:
  assumes "unicode_case_ok uc" and "canonical s"
  shows "canonical (canonicalUpperSurfaceText uc s)"
    and "canonicalUpperSurfaceText uc (canonicalUpperSurfaceText uc s) = canonicalUpperSurfaceText uc s"
proof -
  have ok: "case_map_ok (upper_rune uc)" using assms(1) by (simp add: unicode_case_ok_def)
  have u: "canonicalUpperSurfaceText uc s = ToUpper uc s" if "canonical s" for s
    using that by (simp add: canonicalUpperSurfaceText_def canonical_trim canonical_valid)
  note m = canonical_map_runes [OF ok assms(2), folded ToUpper_def]
  show "canonical (canonicalUpperSurfaceText uc s)" using m u assms(2) by simp
  have "\<forall>r \<in> set (runes s). upper_rune uc (upper_rune uc r) = upper_rune uc r"
    using ok utf8_valid_runes [OF canonical_valid [OF assms(2)]] by (auto simp: case_map_ok_def)
  then show "canonicalUpperSurfaceText uc (canonicalUpperSurfaceText uc s) = canonicalUpperSurfaceText uc s"
    using m u assms(2) by (simp add: ToUpper_def comp_def cong: map_cong)
qed

lemma canonical_lower:
  assumes "unicode_case_ok uc" and "canonical s"
  shows "canonical (canonicalLowerSurfaceText uc s)"
    and "canonicalLowerSurfaceText uc (canonicalLowerSurfaceText uc s) = canonicalLowerSurfaceText uc s"
proof -
  have ok: "case_map_ok (lower_rune uc)" using assms(1) by (simp add: unicode_case_ok_def)
  have u: "canonicalLowerSurfaceText uc s = ToLower uc s" if "canonical s" for s
    using that by (simp add: canonicalLowerSurfaceText_def canonical_trim canonical_valid)
  note m = canonical_map_runes [OF ok assms(2), folded ToLower_def]
  show "canonical (canonicalLowerSurfaceText uc s)" using m u assms(2) by simp
  have "\<forall>r \<in> set (runes s). lower_rune uc (lower_rune uc r) = lower_rune uc r"
    using ok utf8_valid_runes [OF canonical_valid [OF assms(2)]] by (auto simp: case_map_ok_def)
  then show "canonicalLowerSurfaceText uc (canonicalLowerSurfaceText uc s) = canonicalLowerSurfaceText uc s"
    using m u assms(2) by (simp add: ToLower_def comp_def cong: map_cong)
qed

lemma parameter_less_key: "parameter_less = (\<lambda>p q. (cp_In p, cp_Name p) < (cp_In q, cp_Name q))"
  by (auto simp: fun_eq_iff parameter_less_def)

lemma operation_less_key: "operation_less = (\<lambda>p q. (co_Method p, co_Path p) < (co_Method q, co_Path q))"
  by (auto simp: fun_eq_iff operation_less_def)

interpretation parameter_order: slice_order parameter_less
  unfolding parameter_less_key by (rule slice_order_key)

interpretation operation_order: slice_order operation_less
  unfolding operation_less_key by (rule slice_order_key)

text \<open>The surface of an index whose identities are canonical and whose operations, parameters,
  statuses and schemas are distinct.\<close>

definition spec_operation_canonical :: "operation \<Rightarrow> bool" where
  "spec_operation_canonical a \<longleftrightarrow> canonical (op_Method a) \<and> canonical (op_Path a) \<and>
     (\<forall>p \<in> set (op_Parameters a). canonical (pm_Name p) \<and> canonical (pm_In p)) \<and>
     (\<forall>r \<in> set (op_Responses a). canonical (rs_Status r))"

definition spec_operation_unique :: "unicode_case \<Rightarrow> operation \<Rightarrow> bool" where
  "spec_operation_unique uc a \<longleftrightarrow>
     distinct (map (\<lambda>p. parameter_key uc (pm_Name p) (pm_In p)) (op_Parameters a)) \<and>
     distinct (map (\<lambda>r. TrimSpace (rs_Status r)) (op_Responses a))"

definition spec_operation_key :: "unicode_case \<Rightarrow> operation \<Rightarrow> string \<times> string" where
  "spec_operation_key uc a = (canonicalUpperSurfaceText uc (op_Method a), TrimSpace (op_Path a))"

definition spec_surface_ok :: "unicode_case \<Rightarrow> spec_index \<Rightarrow> bool" where
  "spec_surface_ok uc idx \<longleftrightarrow>
     (\<forall>a \<in> set (si_Operations idx). spec_operation_canonical a \<and> spec_operation_unique uc a) \<and>
     distinct (map (spec_operation_key uc) (si_Operations idx)) \<and>
     (\<forall>s \<in> set (si_Schemas idx). canonical (sm_Name s)) \<and>
     distinct (map (\<lambda>s. TrimSpace (sm_Name s)) (si_Schemas idx))"

lemma filter_nonempty_canonical: "\<forall>s \<in> set xs. canonical s \<Longrightarrow> filter (\<lambda>s. s \<noteq> []) xs = xs"
  by (auto simp: filter_id_conv)

lemma map_trim_canonical: "\<forall>s \<in> set xs. canonical s \<Longrightarrow> map TrimSpace xs = xs"
  by (simp add: canonical_trim map_idI)

lemma normalizeContractOperation_canonical:
  assumes uc: "unicode_case_ok uc" and a: "spec_operation_canonical a"
  shows "operation_canonical (normalizeContractOperation uc a)"
  using a canonical_upper(1) [OF uc] canonical_lower(1) [OF uc]
  by (auto simp: operation_canonical_def normalizeContractOperation_def spec_operation_canonical_def canonical_trim)

lemma normalizeSnapshotOperation_id:
  assumes uc: "unicode_case_ok uc" and a: "spec_operation_canonical a"
  shows "normalizeSnapshotOperation uc (normalizeContractOperation uc a) = normalizeContractOperation uc a"
proof -
  let ?f = "\<lambda>p. \<lparr>cp_Name = TrimSpace (pm_Name p), cp_In = canonicalLowerSurfaceText uc (pm_In p), cp_Required = pm_Required p\<rparr>"
  let ?g = "\<lambda>p. \<lparr>cp_Name = TrimSpace (cp_Name p), cp_In = canonicalLowerSurfaceText uc (cp_In p), cp_Required = cp_Required p\<rparr>"
  let ?ps = "sort_slice parameter_less (map ?f (op_Parameters a))"
  let ?ss = "map (\<lambda>r. TrimSpace (rs_Status r)) (op_Responses a)"
  have c: "canonical (op_Method a)" "canonical (op_Path a)"
    "\<forall>p \<in> set (op_Parameters a). canonical (pm_Name p) \<and> canonical (pm_In p)"
    "\<forall>s \<in> set ?ss. canonical s"
    using a by (auto simp: spec_operation_canonical_def canonical_trim)
  have "map ?g ?ps = ?ps"
    using c(3) canonical_lower(2) [OF uc] by (intro map_idI) (auto simp: canonical_trim)
  moreover have "sort_slice parameter_less ?ps = ?ps" by (rule parameter_order.sort_slice_idem)
  moreover have "filter (\<lambda>s. s \<noteq> []) (map TrimSpace (sort_strings (filter (\<lambda>s. s \<noteq> []) ?ss))) = sort_strings (filter (\<lambda>s. s \<noteq> []) ?ss)"
    using c(4) by (simp add: map_trim_canonical filter_nonempty_canonical)
  moreover have "sort_strings (sort_strings (filter (\<lambda>s. s \<noteq> []) ?ss)) = sort_strings (filter (\<lambda>s. s \<noteq> []) ?ss)"
    by (rule string_order.sort_slice_idem)
  ultimately show ?thesis
    using c(1,2) canonical_upper(2) [OF uc c(1)]
    by (simp add: normalizeSnapshotOperation_def normalizeContractOperation_def canonical_trim)
qed

lemma operation_key_normalize:
  assumes uc: "unicode_case_ok uc" and a: "spec_operation_canonical a"
  shows "operation_key uc (normalizeContractOperation uc a) = spec_operation_key uc a"
  using a canonical_upper [OF uc]
  by (simp add: operation_key_def normalizeContractOperation_def spec_operation_key_def spec_operation_canonical_def canonical_trim)

lemma operation_unique_normalize:
  assumes uc: "unicode_case_ok uc" and a: "spec_operation_canonical a" and u: "spec_operation_unique uc a"
  shows "operation_unique uc (normalizeContractOperation uc a)"
proof -
  let ?f = "\<lambda>p. \<lparr>cp_Name = TrimSpace (pm_Name p), cp_In = canonicalLowerSurfaceText uc (pm_In p), cp_Required = pm_Required p\<rparr>"
  let ?ss = "map (\<lambda>r. TrimSpace (rs_Status r)) (op_Responses a)"
  have "map ((\<lambda>p. parameter_key uc (cp_Name p) (cp_In p)) \<circ> ?f) (op_Parameters a) =
      map (\<lambda>p. parameter_key uc (pm_Name p) (pm_In p)) (op_Parameters a)"
    using a canonical_lower(2) [OF uc]
    by (auto simp: spec_operation_canonical_def parameter_key_def canonical_trim)
  then have "distinct (map ((\<lambda>p. parameter_key uc (cp_Name p) (cp_In p)) \<circ> ?f) (op_Parameters a))"
    using u by (simp only: spec_operation_unique_def)
  moreover have "\<forall>s \<in> set ?ss. canonical s" using a by (auto simp: spec_operation_canonical_def canonical_trim)
  then have "filter (\<lambda>s. s \<noteq> []) ?ss = ?ss" "\<forall>s \<in> set (sort_strings ?ss). canonical s"
    by (simp_all add: filter_nonempty_canonical)
  moreover have "distinct ?ss" using u by (simp add: spec_operation_unique_def)
  ultimately show ?thesis
    by (simp add: operation_unique_def normalizeContractOperation_def map_trim_canonical del: map_map)
      (simp add: comp_def)
qed

lemma NewContractSnapshot_ok:
  assumes uc: "unicode_case_ok uc" and ids: "canonical cid" "canonical rid" and idx: "spec_surface_ok uc idx"
  shows "snapshot_ok uc (NewContractSnapshot uc cid rid raw idx)"
proof -
  let ?n = "normalizeContractOperation uc"
  let ?ops = "sort_slice operation_less (map ?n (si_Operations idx))"
  let ?names = "map (\<lambda>s. TrimSpace (sm_Name s)) (si_Schemas idx)"
  let ?s = "NewContractSnapshot uc cid rid raw idx"
  have c: "\<forall>a \<in> set (si_Operations idx). spec_operation_canonical a \<and> spec_operation_unique uc a"
    using idx by (simp add: spec_surface_ok_def)
  have names: "\<forall>s \<in> set ?names. canonical s" using idx by (auto simp: spec_surface_ok_def canonical_trim)
  then have fn: "filter (\<lambda>s. s \<noteq> []) ?names = ?names" by (rule filter_nonempty_canonical)
  have fields: "cs_Operations ?s = Slice ?ops" "cs_Schemas ?s = Slice (sort_strings ?names)"
    using fn by (simp_all add: NewContractSnapshot_def Let_def normalizeContractOperations_def normalizeContractSchemas_def)
  have "surface_canonical ?s"
    using c names normalizeContractOperation_canonical [OF uc] by (auto simp: surface_canonical_def fields)
  moreover have "surface_unique uc ?s"
  proof -
    have "map (operation_key uc \<circ> ?n) (si_Operations idx) = map (spec_operation_key uc) (si_Operations idx)"
      using c operation_key_normalize [OF uc] by simp
    then have "distinct (map (operation_key uc \<circ> ?n) (si_Operations idx))"
      using idx by (simp only: spec_surface_ok_def)
    moreover have "map TrimSpace (sort_strings ?names) = sort_strings ?names"
      using names by (intro map_trim_canonical) simp
    moreover have "distinct ?names" using idx by (simp add: spec_surface_ok_def)
    ultimately show ?thesis
      using c operation_unique_normalize [OF uc] by (simp add: surface_unique_def fields)
  qed
  moreover have "surface_normal uc ?s"
  proof -
    have "map (normalizeSnapshotOperation uc) ?ops = ?ops"
      using c normalizeSnapshotOperation_id [OF uc] by (intro map_idI) auto
    moreover have "map TrimSpace (sort_strings ?names) = sort_strings ?names"
      "filter (\<lambda>s. s \<noteq> []) (sort_strings ?names) = sort_strings ?names"
      using names by (intro map_trim_canonical filter_nonempty_canonical; simp)+
    ultimately show ?thesis
      by (simp add: surface_normal_def fields normalizeSnapshotOperations_def normalizeSnapshotSchemas_def
          operation_order.sort_slice_idem string_order.sort_slice_idem)
  qed
  moreover have "isLowerSHA256 (cs_SpecDigest ?s)" "cs_ContractID ?s = cid" "cs_RevisionID ?s = rid"
    "cs_ContractDigest ?s = contractSurfaceDigest (cs_Operations ?s) (cs_Schemas ?s)"
    by (simp_all add: NewContractSnapshot_def Let_def)
  ultimately show ?thesis using ids by (simp add: snapshot_ok_def)
qed

section \<open>The digest identifies the surface\<close>

lemma inj_json_parameter: "inj json_parameter"
proof (rule injI)
  show "json_parameter p = json_parameter q \<Longrightarrow> p = q" for p q
    by (cases p, cases q) (auto simp: json_parameter_def field_def omit_bool_def split: if_splits)
qed

lemma inj_JStr: "inj JStr"
  by (rule injI) simp

lemma omit_slice_inject:
  assumes e: "omit_slice k f (nil_append xs) @ r = omit_slice k f (nil_append ys) @ r'"
    and f: "inj f" and r: "k \<notin> fst ` set r" "k \<notin> fst ` set r'"
  shows "xs = ys \<and> r = r'"
proof -
  have o: "omit_slice k f (nil_append zs) = (if zs = [] then [] else [(k, JArr (map f zs))])" for zs
    by (simp add: omit_slice_def json_slice_def nil_append_def)
  have "xs = [] \<longleftrightarrow> ys = []"
    using e r by (cases "xs = []"; cases "ys = []") (auto simp: o)
  then show ?thesis using e by (auto simp: o inj_map_eq_map [OF f] split: if_splits)
qed

definition normal_slices :: "contract_operation \<Rightarrow> bool" where
  "normal_slices a \<longleftrightarrow> (\<exists>ps. co_Parameters a = nil_append ps) \<and> (\<exists>ss. co_ResponseStatuses a = nil_append ss)"

lemma json_operation_inject:
  assumes "normal_slices a" "normal_slices b" and e: "json_operation a = json_operation b"
  shows "a = b"
proof -
  obtain ps ss qs ts where s: "co_Parameters a = nil_append ps" "co_ResponseStatuses a = nil_append ss"
    "co_Parameters b = nil_append qs" "co_ResponseStatuses b = nil_append ts"
    using assms(1,2) by (auto simp: normal_slices_def)
  let ?rest = "\<lambda>a. omit_bool ''requestBodyRequired'' (co_RequestBodyRequired a) @
      omit_slice ''responseStatuses'' JStr (co_ResponseStatuses a)"
  have keys: "''parameters'' \<notin> fst ` set (?rest a)" for a
    by (auto simp: omit_bool_def omit_slice_def)
  have m: "co_Method a = co_Method b" "co_Path a = co_Path b"
    "omit_slice ''parameters'' json_parameter (nil_append ps) @ ?rest a =
     omit_slice ''parameters'' json_parameter (nil_append qs) @ ?rest b"
    using e s by (simp_all add: json_operation_def field_def)
  from omit_slice_inject [OF m(3) inj_json_parameter keys keys] have p: "ps = qs" "?rest a = ?rest b" by simp_all
  have "co_RequestBodyRequired a = co_RequestBodyRequired b"
    using p(2) by (auto simp: omit_bool_def omit_slice_def split: if_splits)
  moreover from this p(2) s have "omit_slice ''responseStatuses'' JStr (nil_append ss) @ [] =
      omit_slice ''responseStatuses'' JStr (nil_append ts) @ []" by simp
  from omit_slice_inject [OF this inj_JStr] have "ss = ts" by simp
  ultimately show ?thesis using m p s by (cases a, cases b) simp
qed

lemma surface_normal_slices:
  assumes "surface_normal uc s"
  shows "\<exists>os ns. cs_Operations s = Slice os \<and> cs_Schemas s = Slice ns \<and> (\<forall>a \<in> set os. normal_slices a)"
proof -
  let ?os = "sort_slice operation_less (map (normalizeSnapshotOperation uc) (elems (cs_Operations s)))"
  have "cs_Operations s = Slice ?os" "\<exists>ns. cs_Schemas s = Slice ns"
    using assms by (auto simp: surface_normal_def normalizeSnapshotOperations_def normalizeSnapshotSchemas_def)
  moreover have "\<forall>a \<in> set ?os. normal_slices a"
    by (auto simp: normal_slices_def normalizeSnapshotOperation_def)
  ultimately show ?thesis by blast
qed

lemma utf8_valid_keys [simp]:
  "utf8_valid ''operations''" "utf8_valid ''schemas''" "utf8_valid ''method''" "utf8_valid ''path''"
  "utf8_valid ''parameters''" "utf8_valid ''requestBodyRequired''" "utf8_valid ''responseStatuses''"
  "utf8_valid ''name''" "utf8_valid ''in''" "utf8_valid ''required''"
  by (rule utf8_valid_ascii; simp)+

lemma json_wf_fields [simp]:
  "(\<forall>(k, j) \<in> set (field k' j'). P k j) \<longleftrightarrow> P k' j'"
  "(\<forall>(k, j) \<in> set (omit_bool k' b). P k j) \<longleftrightarrow> (b \<longrightarrow> P k' (JBool b))"
  "(\<forall>(k, j) \<in> set (omit_slice k' f s). P k j) \<longleftrightarrow> (elems s \<noteq> [] \<longrightarrow> P k' (json_slice f s))"
  by (simp_all add: field_def omit_bool_def omit_slice_def)

lemma json_wf_slice [simp]: "json_wf (json_slice f s) \<longleftrightarrow> (\<forall>x \<in> set (elems s). json_wf (f x))"
  by (cases s) (simp_all add: json_slice_def)

lemma json_wf_append [simp]: "json_wf (JObj (fs @ gs)) \<longleftrightarrow> json_wf (JObj fs) \<and> json_wf (JObj gs)"
  by auto

lemma json_wf_operation: "operation_canonical a \<Longrightarrow> json_wf (json_operation a)"
  by (simp add: operation_canonical_def json_operation_def json_parameter_def canonical_valid ball_Un
      del: utf8_valid.simps)

lemma json_wf_surface: "surface_canonical s \<Longrightarrow> json_wf (json_surface (cs_Operations s) (cs_Schemas s))"
  by (simp add: surface_canonical_def json_surface_def json_wf_operation canonical_valid del: utf8_valid.simps)

lemma surface_bytes_inject:
  assumes "snapshot_ok uc s" "snapshot_ok uc s'"
    and e: "json_bytes (json_surface (cs_Operations s) (cs_Schemas s)) = json_bytes (json_surface (cs_Operations s') (cs_Schemas s'))"
  shows "cs_Operations s = cs_Operations s' \<and> cs_Schemas s = cs_Schemas s'"
proof -
  obtain os ns os' ns' where o: "cs_Operations s = Slice os" "cs_Schemas s = Slice ns" "\<forall>a \<in> set os. normal_slices a"
    "cs_Operations s' = Slice os'" "cs_Schemas s' = Slice ns'" "\<forall>a \<in> set os'. normal_slices a"
    using surface_normal_slices [of uc s] surface_normal_slices [of uc s'] assms(1,2) unfolding snapshot_ok_def by blast
  have "json_surface (cs_Operations s) (cs_Schemas s) = json_surface (cs_Operations s') (cs_Schemas s')"
    using json_bytes_inject [OF json_wf_surface json_wf_surface, of s s' "[]" "[]"] e assms(1,2)
    by (simp add: snapshot_ok_def)
  then have m: "map json_operation os = map json_operation os'" "map JStr ns = map JStr ns'"
    by (simp_all add: o json_surface_def json_slice_def)
  have "inj_on json_operation (set os \<union> set os')"
    using o(3,6) json_operation_inject by (auto intro!: inj_onI)
  then have "os = os'" using m(1) by (simp add: inj_on_map_eq_map)
  moreover have "ns = ns'" using m(2) by (simp add: inj_map_eq_map [OF inj_JStr])
  ultimately show ?thesis by (simp add: o)
qed

section \<open>Properties of snapshots\<close>

text \<open>
  A snapshot extracted from an index with a canonical, unambiguous surface is accepted back by
  the validation that storage readers apply, whatever the raw bytes: normalisation is stable, so the
  recomputed surface and digest are the stored ones.
\<close>

theorem new_snapshot_validates:
  assumes "unicode_case_ok uc" and "canonical contractID" and "canonical revisionID" and "spec_surface_ok uc idx"
  shows "ValidateContractSnapshot uc (NewContractSnapshot uc contractID revisionID raw idx) = None"
  using NewContractSnapshot_ok [OF assms] by simp

text \<open>
  C28: The contract digest identifies the contract surface. Two snapshots that validate and carry the
  same digest have equal operations and schemas, unless their encodings collide under SHA-256.
\<close>

theorem contract_digest_binds_surface:
  assumes "ValidateContractSnapshot uc s = None" and "ValidateContractSnapshot uc s' = None"
    and "cs_ContractDigest s = cs_ContractDigest s'"
    and "Sum256 (json_bytes (json_surface (cs_Operations s) (cs_Schemas s))) =
           Sum256 (json_bytes (json_surface (cs_Operations s') (cs_Schemas s'))) \<Longrightarrow>
         json_bytes (json_surface (cs_Operations s) (cs_Schemas s)) =
           json_bytes (json_surface (cs_Operations s') (cs_Schemas s'))"
  shows "cs_Operations s = cs_Operations s' \<and> cs_Schemas s = cs_Schemas s'"
proof -
  have ok: "snapshot_ok uc s" "snapshot_ok uc s'" using assms by simp_all
  have "Sum256 (json_bytes (json_surface (cs_Operations s) (cs_Schemas s))) =
      Sum256 (json_bytes (json_surface (cs_Operations s') (cs_Schemas s')))"
    using ok assms(3) by (simp add: snapshot_ok_def contractSurfaceDigest_def sha256Hex_def hex_encode_inject)
  then show ?thesis using surface_bytes_inject [OF ok] assms(4) by blast
qed

section \<open>A concrete index\<close>

definition empty_operation :: operation where
  "empty_operation = \<lparr>op_ID = [], op_Anchor = [], op_Title = [], op_Method = [], op_Path = [],
     op_RequestTarget = [], op_FixedQuery = [], op_Summary = [], op_Description = [], op_Tags = [],
     op_Facets = [], op_Deprecated = False, op_Parameters = [], op_RequestBody = None,
     op_Responses = [], op_Security = [], op_Snippets = []\<rparr>"

definition empty_index :: spec_index where
  "empty_index = \<lparr>si_ProjectID = [], si_RevisionID = [], si_Title = [], si_Version = [],
     si_Branding = \<lparr>brand_DisplayName = [], brand_Logo = \<lparr>logo_Src = [], logo_Alt = [], logo_HomeURL = []\<rparr>, brand_Favicon = []\<rparr>,
     si_Overview = \<lparr>ov_Description = [], ov_TermsOfService = [], ov_Contact = \<lparr>contact_Name = [], contact_URL = [], contact_Email = []\<rparr>,
       ov_License = \<lparr>license_Name = [], license_URL = [], license_Identifier = []\<rparr>, ov_Servers = []\<rparr>,
     si_SpecDownload = \<lparr>dl_JSON = [], dl_Filename = []\<rparr>, si_Operations = [], si_Schemas = [],
     si_SecuritySchemes = [], si_Search = [], si_PublicRoutes = [], si_ExampleSpecJSON = []\<rparr>"

definition sample_operation :: "string \<Rightarrow> string \<Rightarrow> operation" where
  "sample_operation verb path = empty_operation\<lparr>op_Method := verb, op_Path := path\<rparr>"

definition sample_index :: spec_index where
  "sample_index = empty_index\<lparr>si_Operations := [sample_operation ''GET'' ''/pets'', sample_operation ''POST'' ''/pets'']\<rparr>"

lemma sample_index_ok: "spec_surface_ok ascii_case sample_index"
proof -
  have c: "canonical ''GET''" "canonical ''POST''" "canonical ''/pets''" by (rule canonical_ascii; simp)+
  have u: "ToUpper ascii_case ''GET'' = ''GET''" "ToUpper ascii_case ''POST'' = ''POST''"
    by (rule ToUpper_ascii; simp)+
  show ?thesis
    using c u by (simp add: spec_surface_ok_def sample_index_def empty_index_def sample_operation_def empty_operation_def
        spec_operation_canonical_def spec_operation_unique_def spec_operation_key_def
        canonicalUpperSurfaceText_def canonical_trim canonical_valid)
qed

lemma sample_ids: "canonical ''petstore''" "canonical ''rev-1''"
  by (rule canonical_ascii; simp)+

definition sample_snapshot :: "string \<Rightarrow> contract_snapshot" where
  "sample_snapshot raw = NewContractSnapshot ascii_case ''petstore'' ''rev-1'' raw sample_index"

theorem new_snapshot_validates_witness: "ValidateContractSnapshot ascii_case (sample_snapshot ''openapi'') = None"
  unfolding sample_snapshot_def by (rule new_snapshot_validates [OF ascii_case_ok sample_ids sample_index_ok])

theorem contract_digest_binds_surface_witness:
  "cs_Operations (sample_snapshot ''a'') = cs_Operations (sample_snapshot ''b'')"
proof -
  have "ValidateContractSnapshot ascii_case (sample_snapshot raw) = None" for raw
    using NewContractSnapshot_ok [OF ascii_case_ok sample_ids sample_index_ok] by (simp add: sample_snapshot_def)
  moreover have "cs_ContractDigest (sample_snapshot ''a'') = cs_ContractDigest (sample_snapshot ''b'')"
    "json_surface (cs_Operations (sample_snapshot ''a'')) (cs_Schemas (sample_snapshot ''a'')) =
     json_surface (cs_Operations (sample_snapshot ''b'')) (cs_Schemas (sample_snapshot ''b''))"
    by (simp_all add: sample_snapshot_def NewContractSnapshot_def Let_def)
  ultimately show ?thesis
    using contract_digest_binds_surface [of ascii_case "sample_snapshot ''a''" "sample_snapshot ''b''"] by simp
qed

end
