(* ===== verification/Spec_Diff.thy ===== *)
theory Spec_Diff
  imports Contract_Snapshot
begin

text \<open>
  \<open>domain/specdiff.go\<close>: the compatibility comparison of two contract surfaces and its findings, with
  the specification it implements: when a candidate surface keeps every promise of a baseline.
\<close>

section \<open>Data\<close>

definition SpecChangeAdditive :: string where "SpecChangeAdditive = ''additive''"
definition SpecChangeBreaking :: string where "SpecChangeBreaking = ''breaking''"
definition RuleOperationRemoved :: string where "RuleOperationRemoved = ''operation.removed''"
definition RuleOperationAdded :: string where "RuleOperationAdded = ''operation.added''"
definition RuleRequiredParameterAdded :: string where "RuleRequiredParameterAdded = ''request.parameter.required_added''"
definition RuleParameterBecameRequired :: string where "RuleParameterBecameRequired = ''request.parameter.became_required''"
definition RuleRequestBodyBecameRequired :: string where "RuleRequestBodyBecameRequired = ''request.body.became_required''"
definition RuleResponseStatusRemoved :: string where "RuleResponseStatusRemoved = ''response.status.removed''"
definition RuleResponseStatusAdded :: string where "RuleResponseStatusAdded = ''response.status.added''"
definition RuleSchemaRemoved :: string where "RuleSchemaRemoved = ''schema.removed''"
definition RuleSchemaAdded :: string where "RuleSchemaAdded = ''schema.added''"

record spec_change =
  ch_ID :: string
  ch_RuleID :: string
  ch_Severity :: string
  ch_Kind :: string
  ch_Subject :: string
  ch_Description :: string

record spec_diff =
  df_BaselineRevisionID :: string
  df_CandidateRevisionID :: string
  df_BreakingChanges :: "spec_change list"
  df_AdditiveChanges :: "spec_change list"

section \<open>Findings\<close>

definition normalizedFindingSubject :: "string \<Rightarrow> string" where
  "normalizedFindingSubject subject = join_with '' '' (Fields subject)"

definition stableFindingID :: "string \<Rightarrow> string \<Rightarrow> string" where
  "stableFindingID ruleID subject = hex_encode (Sum256 (ruleID @ [CHR 0x00] @ normalizedFindingSubject subject))"

definition newSpecChange :: "string \<Rightarrow> string \<Rightarrow> string \<Rightarrow> string \<Rightarrow> string \<Rightarrow> spec_change" where
  "newSpecChange ruleID severity kind subject description =
     (let subject = normalizedFindingSubject subject in
      \<lparr>ch_ID = stableFindingID ruleID subject, ch_RuleID = ruleID, ch_Severity = severity, ch_Kind = kind,
       ch_Subject = subject, ch_Description = description\<rparr>)"

definition spec_change_less :: "spec_change \<Rightarrow> spec_change \<Rightarrow> bool" where
  "spec_change_less a b =
     (if ch_RuleID a \<noteq> ch_RuleID b then ch_RuleID a < ch_RuleID b
      else if ch_Subject a \<noteq> ch_Subject b then ch_Subject a < ch_Subject b
      else ch_ID a < ch_ID b)"

definition sortSpecChanges :: "spec_change list \<Rightarrow> spec_change list" where
  "sortSpecChanges changes = sort_slice spec_change_less changes"

section \<open>Keys and lookup tables\<close>

definition contractOperationKey :: "contract_operation \<Rightarrow> string" where
  "contractOperationKey operation = co_Method operation @ '' '' @ co_Path operation"

definition contractOperationSubject :: "contract_operation \<Rightarrow> string" where
  "contractOperationSubject operation = co_Method operation @ '' '' @ co_Path operation"

definition contractOperationsByKey :: "contract_operation list \<Rightarrow> (string, contract_operation) go_map" where
  "contractOperationsByKey operations = map_from contractOperationKey (\<lambda>x. x) operations"

definition sortedContractOperationKeys :: "(string, contract_operation) go_map \<Rightarrow> string list" where
  "sortedContractOperationKeys m = sort_strings (map_keys m)"

definition contractParameterKey :: "contract_parameter \<Rightarrow> string" where
  "contractParameterKey p = cp_In p @ '':'' @ cp_Name p"

definition contractParameterSubject :: "contract_parameter \<Rightarrow> string" where
  "contractParameterSubject p =
     (if cp_In p = [] then cp_Name p else cp_Name p @ '' ('' @ cp_In p @ '')'')"

definition contractParametersByKey :: "contract_parameter list \<Rightarrow> (string, contract_parameter) go_map" where
  "contractParametersByKey ps = map_from contractParameterKey (\<lambda>x. x) ps"

definition contractResponseStatuses :: "string list \<Rightarrow> (string, bool) go_map" where
  "contractResponseStatuses statuses = map_from (\<lambda>s. s) (\<lambda>s. True) statuses"

definition contractSchemasByName :: "string list \<Rightarrow> (string, bool) go_map" where
  "contractSchemasByName schemas = map_from (\<lambda>s. s) (\<lambda>s. True) schemas"

definition sortedContractSchemaNames :: "(string, bool) go_map \<Rightarrow> string list" where
  "sortedContractSchemaNames m = sort_strings (map_keys m)"

section \<open>Comparison of two operations\<close>

definition parameterBreakingChanges ::
    "(string, contract_parameter) go_map \<Rightarrow> contract_operation \<Rightarrow> contract_parameter \<Rightarrow> spec_change list" where
  "parameterBreakingChanges baselineParameters candidate param =
     (if \<not> cp_Required param then []
      else case map_of baselineParameters (contractParameterKey param) of
        None \<Rightarrow> [newSpecChange RuleRequiredParameterAdded SpecChangeBreaking ''Required parameter added''
                  (contractOperationSubject candidate @ '' '' @ contractParameterSubject param)
                  ''Candidate requires a request parameter that production clients did not need.'']
      | Some base \<Rightarrow>
          if \<not> cp_Required base
            then [newSpecChange RuleParameterBecameRequired SpecChangeBreaking ''Parameter became required''
                    (contractOperationSubject candidate @ '' '' @ contractParameterSubject param)
                    ''Candidate makes an existing optional request parameter required.'']
          else [])"

definition contractOperationBreakingChanges :: "contract_operation \<Rightarrow> contract_operation \<Rightarrow> spec_change list" where
  "contractOperationBreakingChanges baseline candidate =
     (let baselineParameters = contractParametersByKey (elems (co_Parameters baseline));
          candidateResponses = contractResponseStatuses (elems (co_ResponseStatuses candidate))
      in concat (map (parameterBreakingChanges baselineParameters candidate) (elems (co_Parameters candidate))) @
         (if co_RequestBodyRequired candidate \<and> \<not> co_RequestBodyRequired baseline
            then [newSpecChange RuleRequestBodyBecameRequired SpecChangeBreaking ''Request body became required''
                    (contractOperationSubject candidate)
                    ''Candidate requires a request body where production did not.'']
            else []) @
         map (\<lambda>status. newSpecChange RuleResponseStatusRemoved SpecChangeBreaking ''Response status removed''
                (contractOperationSubject baseline @ '' '' @ status)
                ''Response status exists in production docs but is missing from the candidate.'')
           (filter (\<lambda>status. map_of candidateResponses status \<noteq> Some True) (elems (co_ResponseStatuses baseline))))"

definition contractOperationAdditiveChanges :: "contract_operation \<Rightarrow> contract_operation \<Rightarrow> spec_change list" where
  "contractOperationAdditiveChanges baseline candidate =
     (let baselineResponses = contractResponseStatuses (elems (co_ResponseStatuses baseline))
      in map (\<lambda>status. newSpecChange RuleResponseStatusAdded SpecChangeAdditive ''Response status added''
                (contractOperationSubject candidate @ '' '' @ status)
                ''Candidate documents a response status that production docs do not list.'')
           (filter (\<lambda>status. map_of baselineResponses status \<noteq> Some True) (elems (co_ResponseStatuses candidate))))"

section \<open>Comparison of two surfaces\<close>

definition removedEndpoint :: "contract_operation \<Rightarrow> spec_change" where
  "removedEndpoint base = newSpecChange RuleOperationRemoved SpecChangeBreaking ''Removed endpoint''
     (contractOperationSubject base) ''Endpoint exists in production docs but is missing from the candidate.''"

definition addedEndpoint :: "contract_operation \<Rightarrow> spec_change" where
  "addedEndpoint next = newSpecChange RuleOperationAdded SpecChangeAdditive ''Added endpoint''
     (contractOperationSubject next) ''Candidate adds a new endpoint without changing the production route.''"

definition removedSchema :: "string \<Rightarrow> spec_change" where
  "removedSchema name = newSpecChange RuleSchemaRemoved SpecChangeBreaking ''Removed schema'' name
     ''Schema exists in production docs but is missing from the candidate.''"

definition addedSchema :: "string \<Rightarrow> spec_change" where
  "addedSchema name = newSpecChange RuleSchemaAdded SpecChangeAdditive ''Added schema'' name
     ''Candidate adds a new reusable schema.''"

text \<open>Every key comes from the map it is looked up in; a missing key gives Go's zero operation.\<close>

definition zero_contract_operation :: contract_operation where
  "zero_contract_operation = \<lparr>co_Method = [], co_Path = [], co_Parameters = NilSlice,
     co_RequestBodyRequired = False, co_ResponseStatuses = NilSlice\<rparr>"

definition lookup_operation :: "(string, contract_operation) go_map \<Rightarrow> string \<Rightarrow> contract_operation" where
  "lookup_operation m k = (case map_of m k of Some a \<Rightarrow> a | None \<Rightarrow> zero_contract_operation)"

definition diffValidatedContractSnapshots :: "contract_snapshot \<Rightarrow> contract_snapshot \<Rightarrow> spec_diff" where
  "diffValidatedContractSnapshots baseline candidate =
     (let baselineOperations = contractOperationsByKey (elems (cs_Operations baseline));
          candidateOperations = contractOperationsByKey (elems (cs_Operations candidate));
          baselineSchemas = contractSchemasByName (elems (cs_Schemas baseline));
          candidateSchemas = contractSchemasByName (elems (cs_Schemas candidate));
          breaking =
            concat (map (\<lambda>key. let base = lookup_operation baselineOperations key in
                case map_of candidateOperations key of
                  None \<Rightarrow> [removedEndpoint base]
                | Some next \<Rightarrow> contractOperationBreakingChanges base next)
              (sortedContractOperationKeys baselineOperations)) @
            map removedSchema (filter (\<lambda>name. map_of candidateSchemas name = None)
              (sortedContractSchemaNames baselineSchemas));
          additive =
            concat (map (\<lambda>key. let base = lookup_operation baselineOperations key in
                case map_of candidateOperations key of
                  None \<Rightarrow> []
                | Some next \<Rightarrow> contractOperationAdditiveChanges base next)
              (sortedContractOperationKeys baselineOperations)) @
            map (\<lambda>key. addedEndpoint (lookup_operation candidateOperations key))
              (filter (\<lambda>key. map_of baselineOperations key = None)
                (sortedContractOperationKeys candidateOperations)) @
            map addedSchema (filter (\<lambda>name. map_of baselineSchemas name = None)
              (sortedContractSchemaNames candidateSchemas))
      in \<lparr>df_BaselineRevisionID = cs_RevisionID baseline, df_CandidateRevisionID = cs_RevisionID candidate,
          df_BreakingChanges = sortSpecChanges breaking, df_AdditiveChanges = sortSpecChanges additive\<rparr>)"

definition DiffContractSnapshots :: "unicode_case \<Rightarrow> contract_snapshot \<Rightarrow> contract_snapshot \<Rightarrow> spec_diff result" where
  "DiffContractSnapshots uc baseline candidate =
     require (wrap_err (Wrapf ''validate baseline contract snapshot: %w'' []) (ValidateContractSnapshot uc baseline))
      (require (wrap_err (Wrapf ''validate candidate contract snapshot: %w'' []) (ValidateContractSnapshot uc candidate))
        (Inr (diffValidatedContractSnapshots baseline candidate)))"

section \<open>Compatibility, the specification\<close>

text \<open>
  A candidate operation keeps a baseline operation when it requires no parameter and no body the
  baseline did not require and still answers with every documented status; a candidate surface keeps
  a baseline surface when it keeps every operation and every schema name.
\<close>

definition operation_compatible :: "contract_operation \<Rightarrow> contract_operation \<Rightarrow> bool" where
  "operation_compatible base next \<longleftrightarrow>
     (\<forall>p \<in> set (elems (co_Parameters next)). cp_Required p \<longrightarrow>
        (\<exists>q \<in> set (elems (co_Parameters base)). cp_In q = cp_In p \<and> cp_Name q = cp_Name p \<and> cp_Required q)) \<and>
     (co_RequestBodyRequired next \<longrightarrow> co_RequestBodyRequired base) \<and>
     set (elems (co_ResponseStatuses base)) \<subseteq> set (elems (co_ResponseStatuses next))"

definition surface_compatible :: "contract_snapshot \<Rightarrow> contract_snapshot \<Rightarrow> bool" where
  "surface_compatible baseline candidate \<longleftrightarrow>
     (\<forall>a \<in> set (elems (cs_Operations baseline)). \<exists>b \<in> set (elems (cs_Operations candidate)).
        co_Method b = co_Method a \<and> co_Path b = co_Path a \<and> operation_compatible a b) \<and>
     set (elems (cs_Schemas baseline)) \<subseteq> set (elems (cs_Schemas candidate))"

text \<open>
  The comparison looks operations and parameters up by a joined key. The key determines its parts
  when no path contains a space and no parameter location contains a colon.
\<close>

definition plain_surface :: "contract_snapshot \<Rightarrow> bool" where
  "plain_surface s \<longleftrightarrow> (\<forall>a \<in> set (elems (cs_Operations s)). CHR '' '' \<notin> set (co_Path a) \<and>
     (\<forall>p \<in> set (elems (co_Parameters a)). CHR '':'' \<notin> set (cp_In p)))"

lemma split_unique_last: "a @ c # p = b @ c # q \<Longrightarrow> c \<notin> set p \<Longrightarrow> c \<notin> set q \<Longrightarrow> a = b \<and> p = q"
proof (induction a arbitrary: b)
  case Nil
  then show ?case by (cases b) auto
next
  case (Cons x a)
  then show ?case by (cases b) auto
qed

lemma split_unique_first: "p @ c # a = q @ c # b \<Longrightarrow> c \<notin> set p \<Longrightarrow> c \<notin> set q \<Longrightarrow> p = q \<and> a = b"
proof (induction p arbitrary: q)
  case Nil
  then show ?case by (cases q) auto
next
  case (Cons x p)
  then show ?case by (cases q) auto
qed

lemma contractOperationKey_inject:
  "CHR '' '' \<notin> set (co_Path a) \<Longrightarrow> CHR '' '' \<notin> set (co_Path b) \<Longrightarrow>
     contractOperationKey a = contractOperationKey b \<longleftrightarrow> co_Method a = co_Method b \<and> co_Path a = co_Path b"
  using split_unique_last [of "co_Method a" "CHR '' ''" "co_Path a"] by (auto simp: contractOperationKey_def)

lemma contractParameterKey_inject:
  "CHR '':'' \<notin> set (cp_In p) \<Longrightarrow> CHR '':'' \<notin> set (cp_In q) \<Longrightarrow>
     contractParameterKey p = contractParameterKey q \<longleftrightarrow> cp_In p = cp_In q \<and> cp_Name p = cp_Name q"
  using split_unique_first [of "cp_In p" "CHR '':''" "cp_Name p"] by (auto simp: contractParameterKey_def)

lemma snapshot_keys_unique:
  assumes "snapshot_ok uc s" and "a \<in> set (elems (cs_Operations s))"
  shows "b \<in> set (elems (cs_Operations s)) \<Longrightarrow> co_Method a = co_Method b \<Longrightarrow> co_Path a = co_Path b \<Longrightarrow> a = b"
    and "p \<in> set (elems (co_Parameters a)) \<Longrightarrow> q \<in> set (elems (co_Parameters a)) \<Longrightarrow>
      cp_In p = cp_In q \<Longrightarrow> cp_Name p = cp_Name q \<Longrightarrow> p = q"
proof -
  have "distinct (map (operation_key uc) (elems (cs_Operations s)))"
    "distinct (map (\<lambda>p. parameter_key uc (cp_Name p) (cp_In p)) (elems (co_Parameters a)))"
    using assms by (auto simp: snapshot_ok_def surface_unique_def operation_unique_def)
  then have i: "inj_on (operation_key uc) (set (elems (cs_Operations s)))"
    "inj_on (\<lambda>p. parameter_key uc (cp_Name p) (cp_In p)) (set (elems (co_Parameters a)))"
    by (simp_all add: distinct_map)
  show "a = b" if "b \<in> set (elems (cs_Operations s))" "co_Method a = co_Method b" "co_Path a = co_Path b"
    using inj_onD [OF i(1), of a b] that assms(2) by (simp add: operation_key_def)
  show "p = q" if "p \<in> set (elems (co_Parameters a))" "q \<in> set (elems (co_Parameters a))"
    "cp_In p = cp_In q" "cp_Name p = cp_Name q"
    using inj_onD [OF i(2), of p q] that by simp
qed

lemma operation_keys_inj:
  assumes "snapshot_ok uc s" and "plain_surface s"
  shows "inj_on contractOperationKey (set (elems (cs_Operations s)))"
proof (rule inj_onI)
  fix a b
  assume ab: "a \<in> set (elems (cs_Operations s))" "b \<in> set (elems (cs_Operations s))"
    "contractOperationKey a = contractOperationKey b"
  then have "co_Method a = co_Method b" "co_Path a = co_Path b"
    using contractOperationKey_inject [of a b] assms(2) by (auto simp: plain_surface_def)
  then show "a = b" using snapshot_keys_unique(1) [OF assms(1) ab(1,2)] by simp
qed

lemma parameter_keys_inj:
  assumes "snapshot_ok uc s" and "plain_surface s" and "a \<in> set (elems (cs_Operations s))"
  shows "inj_on contractParameterKey (set (elems (co_Parameters a)))"
proof (rule inj_onI)
  fix p q
  assume pq: "p \<in> set (elems (co_Parameters a))" "q \<in> set (elems (co_Parameters a))"
    "contractParameterKey p = contractParameterKey q"
  then have "cp_In p = cp_In q" "cp_Name p = cp_Name q"
    using contractParameterKey_inject [of p q] assms(2,3) by (auto simp: plain_surface_def)
  then show "p = q" using snapshot_keys_unique(2) [OF assms(1,3) pq(1,2)] by simp
qed

section \<open>The comparison decides compatibility\<close>

lemma statuses_lookup: "map_of (contractResponseStatuses ss) s = Some True \<longleftrightarrow> s \<in> set ss"
  using map_from_Some [of "\<lambda>s. s" ss "\<lambda>s. True" s True] by (auto simp: contractResponseStatuses_def)

lemma schemas_lookup: "map_of (contractSchemasByName ns) n = None \<longleftrightarrow> n \<notin> set ns"
  by (simp add: contractSchemasByName_def map_from_None)

lemma sortSpecChanges_Nil [simp]: "sortSpecChanges cs = [] \<longleftrightarrow> cs = []"
  by (simp add: sortSpecChanges_def)

lemma set_sortSpecChanges [simp]: "set (sortSpecChanges cs) = set cs"
  by (simp add: sortSpecChanges_def)

lemma operation_breaking_Nil:
  assumes inj: "inj_on contractParameterKey (set (elems (co_Parameters a)))"
    and a: "\<forall>p \<in> set (elems (co_Parameters a)). CHR '':'' \<notin> set (cp_In p)"
    and b: "\<forall>p \<in> set (elems (co_Parameters b)). CHR '':'' \<notin> set (cp_In p)"
  shows "contractOperationBreakingChanges a b = [] \<longleftrightarrow> operation_compatible a b"
proof -
  have par: "parameterBreakingChanges (contractParametersByKey (elems (co_Parameters a))) b p = [] \<longleftrightarrow>
      (cp_Required p \<longrightarrow> (\<exists>q \<in> set (elems (co_Parameters a)). cp_In q = cp_In p \<and> cp_Name q = cp_Name p \<and> cp_Required q))"
    if p: "p \<in> set (elems (co_Parameters b))" for p
  proof -
    have "parameterBreakingChanges (contractParametersByKey (elems (co_Parameters a))) b p = [] \<longleftrightarrow>
      (cp_Required p \<longrightarrow> (\<exists>q \<in> set (elems (co_Parameters a)). contractParameterKey q = contractParameterKey p \<and> cp_Required q))"
      using map_from_Some [OF inj, of "\<lambda>x. x" "contractParameterKey p"] inj_onD [OF inj]
      by (auto simp: parameterBreakingChanges_def contractParametersByKey_def split: option.split) metis
    also have "\<dots> \<longleftrightarrow> (cp_Required p \<longrightarrow> (\<exists>q \<in> set (elems (co_Parameters a)). cp_In q = cp_In p \<and> cp_Name q = cp_Name p \<and> cp_Required q))"
      using contractParameterKey_inject a b p by metis
    finally show ?thesis .
  qed
  show ?thesis
    by (auto simp: contractOperationBreakingChanges_def Let_def operation_compatible_def par statuses_lookup
        filter_empty_conv)
qed

lemma lookup_operation_eq:
  "inj_on contractOperationKey (set os) \<Longrightarrow> a \<in> set os \<Longrightarrow>
     lookup_operation (contractOperationsByKey os) (contractOperationKey a) = a"
  using map_from_Some [of contractOperationKey os "\<lambda>x. x" "contractOperationKey a" a]
  by (auto simp: lookup_operation_def contractOperationsByKey_def)

lemma set_sorted_keys [simp]:
  "set (sortedContractOperationKeys (contractOperationsByKey os)) = contractOperationKey ` set os"
  "set (sortedContractSchemaNames (contractSchemasByName ns)) = set ns"
  by (simp_all add: sortedContractOperationKeys_def contractOperationsByKey_def map_from_props
      sortedContractSchemaNames_def contractSchemasByName_def)

lemma breaking_Nil_iff:
  assumes ok: "snapshot_ok uc B" "snapshot_ok uc C" and pl: "plain_surface B" "plain_surface C"
  shows "df_BreakingChanges (diffValidatedContractSnapshots B C) = [] \<longleftrightarrow> surface_compatible B C"
proof -
  let ?B = "elems (cs_Operations B)" and ?C = "elems (cs_Operations C)"
  note inj = operation_keys_inj [OF ok(1) pl(1)] operation_keys_inj [OF ok(2) pl(2)]
  have op: "(case map_of (contractOperationsByKey ?C) (contractOperationKey a) of
        None \<Rightarrow> [removedEndpoint a] | Some next \<Rightarrow> contractOperationBreakingChanges a next) = [] \<longleftrightarrow>
      (\<exists>b \<in> set ?C. co_Method b = co_Method a \<and> co_Path b = co_Path a \<and> operation_compatible a b)"
    if a: "a \<in> set ?B" for a
  proof -
    have key: "contractOperationKey b = contractOperationKey a \<longleftrightarrow> co_Method b = co_Method a \<and> co_Path b = co_Path a"
      if "b \<in> set ?C" for b
      using contractOperationKey_inject [of b a] pl a that by (auto simp: plain_surface_def)
    have comp: "contractOperationBreakingChanges a b = [] \<longleftrightarrow> operation_compatible a b" if "b \<in> set ?C" for b
      using operation_breaking_Nil [OF parameter_keys_inj [OF ok(1) pl(1) a], of b] pl a that
      by (simp add: plain_surface_def)
    show ?thesis
    proof (cases "map_of (contractOperationsByKey ?C) (contractOperationKey a)")
      case None
      then have "contractOperationKey a \<notin> contractOperationKey ` set ?C"
        by (simp add: contractOperationsByKey_def map_from_None)
      then have "\<forall>b \<in> set ?C. \<not> (co_Method b = co_Method a \<and> co_Path b = co_Path a)"
        using key by (metis imageI)
      then show ?thesis using None by auto
    next
      case (Some b)
      then have b: "b \<in> set ?C" "contractOperationKey b = contractOperationKey a"
        using map_from_SomeD [of contractOperationKey "\<lambda>x. x" ?C] by (auto simp: contractOperationsByKey_def)
      moreover have "b' = b" if "b' \<in> set ?C" "co_Method b' = co_Method a" "co_Path b' = co_Path a" for b'
        using inj_onD [OF inj(2), of b' b] key that b by simp
      ultimately have "(\<exists>b' \<in> set ?C. co_Method b' = co_Method a \<and> co_Path b' = co_Path a \<and> operation_compatible a b') \<longleftrightarrow>
          operation_compatible a b"
        using key by blast
      then show ?thesis using Some comp [OF b(1)] by simp
    qed
  qed
  have "df_BreakingChanges (diffValidatedContractSnapshots B C) = [] \<longleftrightarrow>
      (\<forall>a \<in> set ?B. (case map_of (contractOperationsByKey ?C) (contractOperationKey a) of
        None \<Rightarrow> [removedEndpoint a] | Some next \<Rightarrow> contractOperationBreakingChanges a next) = []) \<and>
      (\<forall>n \<in> set (elems (cs_Schemas B)). n \<in> set (elems (cs_Schemas C)))"
    by (simp add: diffValidatedContractSnapshots_def Let_def lookup_operation_eq [OF inj(1)] filter_empty_conv
        schemas_lookup cong: ball_cong option.case_cong)
  then show ?thesis using op by (simp add: surface_compatible_def subset_eq)
qed

text \<open>
  C26: On plain surfaces the comparison is sound and complete. For two valid snapshots in which no path of an
  operation contains a space and no location of a parameter a colon, it always returns a diff, and the diff
  has no breaking change exactly when the candidate keeps every operation, parameter requirement, body
  requirement, response status and schema of the baseline. Without the condition the keys of two
  operations may coincide, and \<open>ambiguous_key_hides_removal\<close> shows a removal that is then missed.
\<close>

theorem diff_decides_compatibility:
  assumes "ValidateContractSnapshot uc baseline = None" and "ValidateContractSnapshot uc candidate = None"
    and "plain_surface baseline" and "plain_surface candidate"
  shows "\<exists>d. DiffContractSnapshots uc baseline candidate = Inr d \<and>
           (df_BreakingChanges d = [] \<longleftrightarrow> surface_compatible baseline candidate)"
  using assms breaking_Nil_iff [of uc baseline candidate] by (simp add: DiffContractSnapshots_def)

lemma operations_lookup_ex:
  "(\<exists>y. map_of (contractOperationsByKey os) k = Some y) \<longleftrightarrow> k \<in> contractOperationKey ` set os"
  using map_from_None [of contractOperationKey "\<lambda>x. x" os k] by (auto simp: contractOperationsByKey_def)

lemma additive_Nil_iff:
  assumes ok: "snapshot_ok uc B" "snapshot_ok uc C" and pl: "plain_surface B" "plain_surface C"
  shows "df_AdditiveChanges (diffValidatedContractSnapshots B C) = [] \<longleftrightarrow>
    (\<forall>b \<in> set (elems (cs_Operations C)). \<exists>a \<in> set (elems (cs_Operations B)).
       co_Method a = co_Method b \<and> co_Path a = co_Path b \<and>
       set (elems (co_ResponseStatuses b)) \<subseteq> set (elems (co_ResponseStatuses a))) \<and>
    set (elems (cs_Schemas C)) \<subseteq> set (elems (cs_Schemas B))"
proof -
  let ?B = "elems (cs_Operations B)" and ?C = "elems (cs_Operations C)"
  note inj = operation_keys_inj [OF ok(1) pl(1)] operation_keys_inj [OF ok(2) pl(2)]
  have key: "contractOperationKey a = contractOperationKey b \<longleftrightarrow> co_Method a = co_Method b \<and> co_Path a = co_Path b"
    if "a \<in> set ?B" "b \<in> set ?C" for a b
    using contractOperationKey_inject [of a b] pl that by (auto simp: plain_surface_def)
  have st: "contractOperationAdditiveChanges a b = [] \<longleftrightarrow>
      set (elems (co_ResponseStatuses b)) \<subseteq> set (elems (co_ResponseStatuses a))" for a b
    by (auto simp: contractOperationAdditiveChanges_def Let_def statuses_lookup filter_empty_conv)
  have common: "(case map_of (contractOperationsByKey ?C) (contractOperationKey a) of
        None \<Rightarrow> [] | Some next \<Rightarrow> contractOperationAdditiveChanges a next) = [] \<longleftrightarrow>
      (\<forall>b \<in> set ?C. contractOperationKey a = contractOperationKey b \<longrightarrow>
         set (elems (co_ResponseStatuses b)) \<subseteq> set (elems (co_ResponseStatuses a)))" for a
  proof (cases "map_of (contractOperationsByKey ?C) (contractOperationKey a)")
    case None
    then have "contractOperationKey a \<notin> contractOperationKey ` set ?C"
      by (simp add: contractOperationsByKey_def map_from_None)
    then show ?thesis using None by (metis imageI option.simps(4))
  next
    case (Some b)
    then have b: "b \<in> set ?C" "contractOperationKey b = contractOperationKey a"
      using map_from_SomeD [of contractOperationKey "\<lambda>x. x" ?C] by (auto simp: contractOperationsByKey_def)
    have "b' = b" if "b' \<in> set ?C" "contractOperationKey a = contractOperationKey b'" for b'
      by (rule inj_onD [OF inj(2) trans [OF that(2) [symmetric] b(2) [symmetric]] that(1) b(1)])
    then have "(\<forall>b' \<in> set ?C. contractOperationKey a = contractOperationKey b' \<longrightarrow>
         set (elems (co_ResponseStatuses b')) \<subseteq> set (elems (co_ResponseStatuses a))) \<longleftrightarrow>
        set (elems (co_ResponseStatuses b)) \<subseteq> set (elems (co_ResponseStatuses a))"
      using b(1) b(2) [symmetric] by blast
    then show ?thesis by (simp add: Some st)
  qed
  have "df_AdditiveChanges (diffValidatedContractSnapshots B C) = [] \<longleftrightarrow>
      (\<forall>a \<in> set ?B. (case map_of (contractOperationsByKey ?C) (contractOperationKey a) of
        None \<Rightarrow> [] | Some next \<Rightarrow> contractOperationAdditiveChanges a next) = []) \<and>
      (\<forall>b \<in> set ?C. contractOperationKey b \<in> contractOperationKey ` set ?B) \<and>
      (\<forall>n \<in> set (elems (cs_Schemas C)). n \<in> set (elems (cs_Schemas B)))"
    by (simp add: diffValidatedContractSnapshots_def Let_def lookup_operation_eq [OF inj(1)] filter_empty_conv
        schemas_lookup operations_lookup_ex cong: ball_cong option.case_cong)
  also have "\<dots> \<longleftrightarrow> (\<forall>b \<in> set ?C. \<exists>a \<in> set ?B.
       contractOperationKey a = contractOperationKey b \<and>
       set (elems (co_ResponseStatuses b)) \<subseteq> set (elems (co_ResponseStatuses a))) \<and>
      set (elems (cs_Schemas C)) \<subseteq> set (elems (cs_Schemas B))"
    (is "?L \<and> ?M \<and> ?N \<longleftrightarrow> ?R \<and> ?S")
  proof -
    have "?L \<and> ?M \<longleftrightarrow> ?R"
    proof
      assume "?L \<and> ?M"
      then show ?R unfolding common by (metis (no_types, lifting) imageE)
    next
      assume R: ?R
      have "set (elems (co_ResponseStatuses b)) \<subseteq> set (elems (co_ResponseStatuses a))"
        if ab: "a \<in> set ?B" "b \<in> set ?C" "contractOperationKey a = contractOperationKey b" for a b
      proof -
        obtain a' where "a' \<in> set ?B" "contractOperationKey a' = contractOperationKey b"
          "set (elems (co_ResponseStatuses b)) \<subseteq> set (elems (co_ResponseStatuses a'))" using R ab(2) by blast
        moreover from this have "a' = a" by (intro inj_onD [OF inj(1) _ _ ab(1)]) (simp_all add: ab(3))
        ultimately show ?thesis by simp
      qed
      moreover have ?M using R by (metis (no_types, lifting) imageI)
      ultimately show "?L \<and> ?M" unfolding common by blast
    qed
    then show ?thesis by (simp add: subset_eq) blast
  qed
  also have "\<dots> \<longleftrightarrow> (\<forall>b \<in> set ?C. \<exists>a \<in> set ?B.
       co_Method a = co_Method b \<and> co_Path a = co_Path b \<and>
       set (elems (co_ResponseStatuses b)) \<subseteq> set (elems (co_ResponseStatuses a))) \<and>
      set (elems (cs_Schemas C)) \<subseteq> set (elems (cs_Schemas B))"
    using key by (metis (no_types, lifting))
  finally show ?thesis .
qed

lemma operation_compatible_refl: "operation_compatible a a"
  by (auto simp: operation_compatible_def)

lemma surface_compatible_refl: "surface_compatible s s"
  by (auto simp: surface_compatible_def intro: operation_compatible_refl)

lemma same_surface_no_changes:
  assumes "snapshot_ok uc s" and "snapshot_ok uc s'" and "plain_surface s"
    and "cs_Operations s' = cs_Operations s" and "cs_Schemas s' = cs_Schemas s"
  shows "df_BreakingChanges (diffValidatedContractSnapshots s s') = []"
    and "df_AdditiveChanges (diffValidatedContractSnapshots s s') = []"
proof -
  have pl: "plain_surface s'" using assms by (simp add: plain_surface_def)
  have "surface_compatible s s'" using surface_compatible_refl [of s] assms by (simp add: surface_compatible_def)
  then show "df_BreakingChanges (diffValidatedContractSnapshots s s') = []"
    using breaking_Nil_iff [OF assms(1-3) pl] by simp
  show "df_AdditiveChanges (diffValidatedContractSnapshots s s') = []"
    using additive_Nil_iff [OF assms(1-3) pl] assms(4,5) by auto
qed

text \<open>
  A revision compared with itself, and more generally a candidate with the same surface, yields
  no finding of either kind.
\<close>

theorem diff_same_surface_empty:
  assumes "ValidateContractSnapshot uc s = None" and "ValidateContractSnapshot uc s' = None" and "plain_surface s"
    and "cs_Operations s' = cs_Operations s" and "cs_Schemas s' = cs_Schemas s"
  shows "\<exists>d. DiffContractSnapshots uc s s' = Inr d \<and> df_BreakingChanges d = [] \<and> df_AdditiveChanges d = []"
  using same_surface_no_changes [of uc s s'] assms by (simp add: DiffContractSnapshots_def)

section \<open>What a finding carries\<close>

definition breaking_rules :: "string list" where
  "breaking_rules = [RuleOperationRemoved, RuleRequiredParameterAdded, RuleParameterBecameRequired,
     RuleRequestBodyBecameRequired, RuleResponseStatusRemoved, RuleSchemaRemoved]"

definition additive_rules :: "string list" where
  "additive_rules = [RuleOperationAdded, RuleResponseStatusAdded, RuleSchemaAdded]"

definition finding_ok :: "string list \<Rightarrow> string \<Rightarrow> spec_change \<Rightarrow> bool" where
  "finding_ok rules severity f \<longleftrightarrow> ch_RuleID f \<in> set rules \<and> ch_Severity f = severity \<and>
     ch_ID f = stableFindingID (ch_RuleID f) (ch_Subject f)"

lemma newSpecChange_ok: "r \<in> set rules \<Longrightarrow> finding_ok rules sev (newSpecChange r sev kind subject desc)"
  by (simp add: finding_ok_def newSpecChange_def Let_def)

lemma operation_breaking_ok: "f \<in> set (contractOperationBreakingChanges a b) \<Longrightarrow> finding_ok breaking_rules SpecChangeBreaking f"
  by (auto simp: contractOperationBreakingChanges_def Let_def parameterBreakingChanges_def breaking_rules_def
      intro!: newSpecChange_ok split: if_splits option.splits)

lemma operation_additive_ok: "f \<in> set (contractOperationAdditiveChanges a b) \<Longrightarrow> finding_ok additive_rules SpecChangeAdditive f"
  by (auto simp: contractOperationAdditiveChanges_def Let_def additive_rules_def intro!: newSpecChange_ok)

lemma breaking_changes_ok:
  "f \<in> set (df_BreakingChanges (diffValidatedContractSnapshots B C)) \<Longrightarrow> finding_ok breaking_rules SpecChangeBreaking f"
  by (auto simp: diffValidatedContractSnapshots_def Let_def removedEndpoint_def removedSchema_def breaking_rules_def
      intro!: newSpecChange_ok dest: operation_breaking_ok [unfolded breaking_rules_def] split: option.splits)

lemma additive_changes_ok:
  "f \<in> set (df_AdditiveChanges (diffValidatedContractSnapshots B C)) \<Longrightarrow> finding_ok additive_rules SpecChangeAdditive f"
  by (auto simp: diffValidatedContractSnapshots_def Let_def addedEndpoint_def addedSchema_def additive_rules_def
      intro!: newSpecChange_ok dest: operation_additive_ok [unfolded additive_rules_def] split: option.splits)

section \<open>Concrete surfaces\<close>

lemma sample_snapshot_ok: "snapshot_ok ascii_case (sample_snapshot raw)"
  unfolding sample_snapshot_def by (rule NewContractSnapshot_ok [OF ascii_case_ok sample_ids sample_index_ok])

definition verbs_index :: "(string \<times> string) list \<Rightarrow> spec_index" where
  "verbs_index ops = empty_index\<lparr>si_Operations := map (\<lambda>(v, p). sample_operation v p) ops\<rparr>"

definition verbs_snapshot :: "(string \<times> string) list \<Rightarrow> contract_snapshot" where
  "verbs_snapshot ops = NewContractSnapshot ascii_case ''petstore'' ''rev-1'' [] (verbs_index ops)"

definition upper_ascii :: "string \<Rightarrow> bool" where
  "upper_ascii s \<longleftrightarrow> (\<forall>c \<in> set s. bv c < 128 \<and> \<not> (97 \<le> bv c \<and> bv c \<le> 122))"

lemma canonicalUpper_ascii: "canonical s \<Longrightarrow> upper_ascii s \<Longrightarrow> canonicalUpperSurfaceText uc s = s"
  by (simp add: canonicalUpperSurfaceText_def canonical_trim canonical_valid ToUpper_ascii upper_ascii_def)

definition verb_operation :: "string \<times> string \<Rightarrow> contract_operation" where
  "verb_operation vp = \<lparr>co_Method = fst vp, co_Path = snd vp, co_Parameters = NilSlice,
     co_RequestBodyRequired = False, co_ResponseStatuses = NilSlice\<rparr>"

lemma verbs_snapshot_props:
  assumes ops: "\<forall>(v, p) \<in> set ops. canonical v \<and> upper_ascii v \<and> canonical p" and d: "distinct ops"
  shows "snapshot_ok ascii_case (verbs_snapshot ops)"
    and "elems (cs_Operations (verbs_snapshot ops)) = sort_slice operation_less (map verb_operation ops)"
    and "elems (cs_Schemas (verbs_snapshot ops)) = []"
proof -
  have "spec_surface_ok ascii_case (verbs_index ops)"
  proof -
    have "map (spec_operation_key ascii_case) (map (\<lambda>(v, p). sample_operation v p) ops) = ops"
      using ops unfolding map_map
      by (intro map_idI) (auto simp: spec_operation_key_def sample_operation_def empty_operation_def
          canonicalUpper_ascii canonical_trim)
    then have "distinct (map (spec_operation_key ascii_case) (si_Operations (verbs_index ops)))"
      using d by (simp add: verbs_index_def del: map_map)
    then show ?thesis
      using ops by (auto simp: spec_surface_ok_def verbs_index_def empty_index_def sample_operation_def empty_operation_def
          spec_operation_canonical_def spec_operation_unique_def)
  qed
  then show "snapshot_ok ascii_case (verbs_snapshot ops)"
    unfolding verbs_snapshot_def by (rule NewContractSnapshot_ok [OF ascii_case_ok sample_ids])
  have n: "map (normalizeContractOperation ascii_case) (map (\<lambda>(v, p). sample_operation v p) ops) = map verb_operation ops"
    using ops by (auto simp: normalizeContractOperation_def sample_operation_def empty_operation_def verb_operation_def
        canonicalUpper_ascii canonical_trim nil_append_def)
  then show "elems (cs_Operations (verbs_snapshot ops)) = sort_slice operation_less (map verb_operation ops)"
    by (simp add: verbs_snapshot_def NewContractSnapshot_def Let_def normalizeContractOperations_def verbs_index_def
        empty_index_def n del: map_map map_eq_conv)
  show "elems (cs_Schemas (verbs_snapshot ops)) = []"
    by (simp add: verbs_snapshot_def NewContractSnapshot_def Let_def normalizeContractSchemas_def verbs_index_def empty_index_def)
qed

text \<open>Two operations whose joined keys are equal although methods and paths differ.\<close>

definition joined_baseline :: contract_snapshot where
  "joined_baseline = verbs_snapshot [(''GET'', ''X /pets''), (''GET X'', ''/pets'')]"

definition joined_candidate :: contract_snapshot where
  "joined_candidate = verbs_snapshot [(''GET X'', ''/pets'')]"

lemma canonical_joined:
  "canonical ''GET''" "canonical ''X /pets''" "canonical ''GET X''" "canonical ''/pets''" "canonical ''POST''"
  by (simp_all add: canonical_def utf8_valid_ascii runes_ascii is_control_def is_space_def)

lemma joined_props:
  "snapshot_ok ascii_case joined_baseline" "snapshot_ok ascii_case joined_candidate"
  "elems (cs_Operations joined_baseline) = [verb_operation (''GET'', ''X /pets''), verb_operation (''GET X'', ''/pets'')]"
  "elems (cs_Operations joined_candidate) = [verb_operation (''GET X'', ''/pets'')]"
  "elems (cs_Schemas joined_baseline) = []" "elems (cs_Schemas joined_candidate) = []"
  using canonical_joined
  by (simp_all add: joined_baseline_def joined_candidate_def verbs_snapshot_props upper_ascii_def
      sort_slice_def operation_less_def verb_operation_def)

text \<open>
  C29: The joined lookup key makes the comparison miss a removed endpoint: there are two valid
  snapshots such that the baseline has an operation the candidate lacks, and the diff reports no
  change at all, although ambiguous snapshots are documented to fail closed.
\<close>

theorem ambiguous_key_hides_removal:
  "ValidateContractSnapshot ascii_case joined_baseline = None \<and>
   ValidateContractSnapshot ascii_case joined_candidate = None \<and>
   \<not> surface_compatible joined_baseline joined_candidate \<and>
   (\<exists>d. DiffContractSnapshots ascii_case joined_baseline joined_candidate = Inr d \<and>
      df_BreakingChanges d = [] \<and> df_AdditiveChanges d = [])"
proof -
  have "\<not> surface_compatible joined_baseline joined_candidate"
    by (simp add: surface_compatible_def joined_props verb_operation_def)
  moreover have "contractOperationsByKey (elems (cs_Operations joined_baseline)) = [(''GET X /pets'', verb_operation (''GET X'', ''/pets''))]"
    "contractOperationsByKey (elems (cs_Operations joined_candidate)) = [(''GET X /pets'', verb_operation (''GET X'', ''/pets''))]"
    by (simp_all add: joined_props contractOperationsByKey_def map_from_def contractOperationKey_def verb_operation_def)
  then have "df_BreakingChanges (diffValidatedContractSnapshots joined_baseline joined_candidate) = [] \<and>
      df_AdditiveChanges (diffValidatedContractSnapshots joined_baseline joined_candidate) = []"
    by (simp add: diffValidatedContractSnapshots_def Let_def joined_props(5,6) sortedContractOperationKeys_def map_keys_def
        sort_slice_def contractSchemasByName_def map_from_def sortedContractSchemaNames_def sortSpecChanges_def
        lookup_operation_def contractOperationBreakingChanges_def contractOperationAdditiveChanges_def verb_operation_def)
  ultimately show ?thesis by (simp add: DiffContractSnapshots_def joined_props(1,2))
qed

definition plain_baseline :: contract_snapshot where
  "plain_baseline = verbs_snapshot [(''GET'', ''/pets''), (''POST'', ''/pets'')]"

definition plain_candidate :: contract_snapshot where
  "plain_candidate = verbs_snapshot [(''GET'', ''/pets'')]"

lemma plain_props:
  "snapshot_ok ascii_case plain_baseline" "snapshot_ok ascii_case plain_candidate"
  "elems (cs_Operations plain_baseline) = [verb_operation (''GET'', ''/pets''), verb_operation (''POST'', ''/pets'')]"
  "elems (cs_Operations plain_candidate) = [verb_operation (''GET'', ''/pets'')]"
  "plain_surface plain_baseline" "plain_surface plain_candidate"
proof -
  show "snapshot_ok ascii_case plain_baseline" "snapshot_ok ascii_case plain_candidate"
    and o: "elems (cs_Operations plain_baseline) = [verb_operation (''GET'', ''/pets''), verb_operation (''POST'', ''/pets'')]"
      "elems (cs_Operations plain_candidate) = [verb_operation (''GET'', ''/pets'')]"
    using canonical_joined
    by (simp_all add: plain_baseline_def plain_candidate_def verbs_snapshot_props upper_ascii_def
        sort_slice_def operation_less_def verb_operation_def)
  show "plain_surface plain_baseline" "plain_surface plain_candidate"
    by (simp_all add: plain_surface_def o verb_operation_def)
qed

text \<open>Dropping \<open>POST /pets\<close> is reported as breaking.\<close>

theorem diff_decides_compatibility_witness:
  "\<exists>d. DiffContractSnapshots ascii_case plain_baseline plain_candidate = Inr d \<and> df_BreakingChanges d \<noteq> []"
proof -
  have "\<not> surface_compatible plain_baseline plain_candidate"
    by (simp add: surface_compatible_def plain_props verb_operation_def)
  then show ?thesis
    using diff_decides_compatibility [of ascii_case plain_baseline plain_candidate] plain_props by auto
qed

theorem diff_same_surface_empty_witness:
  "\<exists>d. DiffContractSnapshots ascii_case plain_baseline plain_baseline = Inr d \<and> df_BreakingChanges d = []"
  using diff_same_surface_empty [of ascii_case plain_baseline plain_baseline] plain_props by auto

end
