(* ===== verification/Release.thy ===== *)
theory Release
  imports Project_Records Digests "HOL-Library.Word"
begin

text \<open>
  \<open>domain/release.go\<close>: release tracks, the decisions applied to them, promotion, and the check that
  a persisted mutation is one of these transitions. Generations are 64-bit words.
\<close>

section \<open>Data\<close>

definition ReleaseModePinned :: string where "ReleaseModePinned = ''pinned''"
definition ReleaseModeFollowing :: string where "ReleaseModeFollowing = ''following''"

text \<open>\<open>domain/policy.go\<close> names the verdicts.\<close>

definition VerdictPass :: string where "VerdictPass = ''pass''"
definition VerdictFail :: string where "VerdictFail = ''fail''"

record release_decision =
  rd_RevisionID :: string
  rd_ReviewID :: string
  rd_ReviewDigest :: string
  rd_Verdict :: string
  rd_Accepted :: bool
  rd_EvaluatedAt :: gotime

record release_track =
  rt_ID :: string
  rt_ContractID :: string
  rt_BoundRef :: string
  rt_Mode :: string
  rt_Generation :: "64 word"
  rt_CurrentRevisionID :: string
  rt_CandidateRevisionID :: string
  rt_LastDecision :: "release_decision option"

record release_authorization =
  ra_ContractID :: string
  ra_TrackID :: string
  ra_ReviewID :: string
  ra_SyncRecordID :: string
  ra_BaselineRevisionID :: string
  ra_CandidateRevisionID :: string
  ra_SourceID :: string
  ra_BoundRef :: string
  ra_PublicPath :: string
  ra_PolicyDigest :: string

definition rv_decision :: "release_decision \<Rightarrow> rvalue" where
  "rv_decision d = RStruct
     [(''RevisionID'', RStr (rd_RevisionID d)), (''ReviewID'', RStr (rd_ReviewID d)),
      (''ReviewDigest'', RStr (rd_ReviewDigest d)), (''Verdict'', RStr (rd_Verdict d)),
      (''Accepted'', ROther), (''EvaluatedAt'', RStruct [])]"

definition rv_track :: "release_track \<Rightarrow> rvalue" where
  "rv_track t = RStruct
     [(''ID'', RStr (rt_ID t)), (''ContractID'', RStr (rt_ContractID t)),
      (''BoundRef'', RStr (rt_BoundRef t)), (''Mode'', RStr (rt_Mode t)), (''Generation'', ROther),
      (''CurrentRevisionID'', RStr (rt_CurrentRevisionID t)),
      (''CandidateRevisionID'', RStr (rt_CandidateRevisionID t)),
      (''LastDecision'', case rt_LastDecision t of None \<Rightarrow> RNil | Some d \<Rightarrow> rv_decision d)]"

definition rv_authorization :: "release_authorization \<Rightarrow> rvalue" where
  "rv_authorization a = RStruct
     [(''ContractID'', RStr (ra_ContractID a)), (''TrackID'', RStr (ra_TrackID a)),
      (''ReviewID'', RStr (ra_ReviewID a)), (''SyncRecordID'', RStr (ra_SyncRecordID a)),
      (''BaselineRevisionID'', RStr (ra_BaselineRevisionID a)),
      (''CandidateRevisionID'', RStr (ra_CandidateRevisionID a)),
      (''SourceID'', RStr (ra_SourceID a)), (''BoundRef'', RStr (ra_BoundRef a)),
      (''PublicPath'', RStr (ra_PublicPath a)), (''PolicyDigest'', RStr (ra_PolicyDigest a))]"

section \<open>Operations\<close>

definition validateCanonicalReleaseIdentity :: "string \<Rightarrow> string \<Rightarrow> bool \<Rightarrow> err" where
  "validateCanonicalReleaseIdentity name v allowEmpty = validateCanonicalIdentity name v allowEmpty"

definition ValidateReleaseAuthorization :: "release_authorization \<Rightarrow> err" where
  "ValidateReleaseAuthorization a = first_error
     [validateUTF8Strings [] ''release authorization'' (rv_authorization a),
      each (\<lambda>(name, v). validateCanonicalReleaseIdentity name v False)
        [(''release authorization contract id'', ra_ContractID a),
         (''release authorization track id'', ra_TrackID a),
         (''release authorization review id'', ra_ReviewID a),
         (''release authorization sync record id'', ra_SyncRecordID a),
         (''release authorization baseline revision id'', ra_BaselineRevisionID a),
         (''release authorization candidate revision id'', ra_CandidateRevisionID a),
         (''release authorization source id'', ra_SourceID a),
         (''release authorization bound ref'', ra_BoundRef a)],
      ValidateCanonicalPublicPath ''release authorization public path'' (ra_PublicPath a) False,
      fail_if (\<not> isLowerSHA256 (ra_PolicyDigest a))
        (Errorf ''release authorization policy digest must be lowercase SHA-256'' [])]"

definition validateReleaseDecision :: "release_decision \<Rightarrow> err" where
  "validateReleaseDecision d = first_error
     [validateUTF8Strings [] ''release decision'' (rv_decision d),
      validateCanonicalReleaseIdentity ''release decision revision id'' (rd_RevisionID d) False,
      validateCanonicalReleaseIdentity ''release decision review id'' (rd_ReviewID d) False,
      fail_if (\<not> isLowerSHA256 (rd_ReviewDigest d))
        (Errorf ''release decision review digest must be lowercase SHA-256'' []),
      fail_if (rd_Verdict d \<noteq> VerdictPass \<and> rd_Verdict d \<noteq> VerdictFail)
        (Errorf ''unsupported release decision verdict %q'' [rd_Verdict d]),
      fail_if (rd_Accepted d \<and> rd_Verdict d \<noteq> VerdictPass)
        (Errorf ''accepted release decision requires a passing verdict'' []),
      fail_if (\<not> time_IsZero (rd_EvaluatedAt d) \<and> t_loc (rd_EvaluatedAt d) \<noteq> LocUTC)
        (Errorf ''release decision evaluation time must be UTC'' [])]"

text \<open>The checks of a track that carries decision evidence, after the generation check.\<close>

definition validateTrackDecision :: "release_track \<Rightarrow> release_decision \<Rightarrow> err" where
  "validateTrackDecision t d =
     and_then (wrap_err (Wrapf ''invalid last release decision: %w'' []) (validateReleaseDecision d))
       (if time_IsZero (rd_EvaluatedAt d)
          then Some (Errorf ''last release decision evaluation time is required'' [])
        else if rt_Mode t = ReleaseModeFollowing \<and> rd_Accepted d then
          (if rt_CandidateRevisionID t \<noteq> []
             then Some (Errorf ''accepted following release decision cannot retain a candidate'' [])
           else fail_if (rt_CurrentRevisionID t \<noteq> rd_RevisionID d)
             (Errorf ''release track current revision does not match last accepted decision'' []))
        else if rt_CandidateRevisionID t \<noteq> [] then
          fail_if (rt_CandidateRevisionID t \<noteq> rd_RevisionID d)
            (Errorf ''release track candidate does not match last decision'' [])
        else if \<not> rd_Accepted d
          then Some (Errorf ''rejected release decision requires its candidate'' [])
        else fail_if (rt_CurrentRevisionID t \<noteq> rd_RevisionID d)
          (Errorf ''release track current revision does not match last accepted decision'' []))"

definition ValidateReleaseTrack :: "release_track \<Rightarrow> err" where
  "ValidateReleaseTrack t = first_error
     [validateUTF8Strings [] ''release track'' (rv_track t),
      validateCanonicalReleaseIdentity ''release track id'' (rt_ID t) False,
      validateCanonicalReleaseIdentity ''release track contract id'' (rt_ContractID t) False,
      validateCanonicalReleaseIdentity ''release track bound ref'' (rt_BoundRef t) True,
      validateCanonicalReleaseIdentity ''release track current revision id'' (rt_CurrentRevisionID t) True,
      validateCanonicalReleaseIdentity ''release track candidate revision id'' (rt_CandidateRevisionID t) True,
      fail_if (rt_Mode t \<noteq> ReleaseModePinned \<and> rt_Mode t \<noteq> ReleaseModeFollowing)
        (Errorf ''unsupported release track mode %q'' [rt_Mode t]),
      (case rt_LastDecision t of
         None \<Rightarrow> fail_if (rt_CandidateRevisionID t \<noteq> [])
                  (Errorf ''release track candidate requires decision evidence'' [])
       | Some d \<Rightarrow>
           if rt_Generation t = 0
             then Some (Errorf ''release track decision evidence requires a positive generation'' [])
           else validateTrackDecision t d)]"

text \<open>The next track once a decision applies.\<close>

definition applyDecision :: "release_track \<Rightarrow> release_decision \<Rightarrow> release_track" where
  "applyDecision t d =
     (let next = t\<lparr>rt_Generation := rt_Generation t + 1, rt_LastDecision := Some d\<rparr> in
      if \<not> rd_Accepted d \<or> rt_Mode t = ReleaseModePinned
        then next\<lparr>rt_CandidateRevisionID := rd_RevisionID d\<rparr>
        else next\<lparr>rt_CurrentRevisionID := rd_RevisionID d, rt_CandidateRevisionID := []\<rparr>)"

text \<open>How a decision relates in time to the one the track carries.\<close>

datatype decision_order = StaleDecision | SameTimeDecision | NewerDecision

definition compareDecisionTime :: "release_track \<Rightarrow> release_decision \<Rightarrow> decision_order" where
  "compareDecisionTime t d =
     (case rt_LastDecision t of
        None \<Rightarrow> NewerDecision
      | Some l \<Rightarrow>
          if time_IsZero (rd_EvaluatedAt l) then NewerDecision
          else if time_Before (rd_EvaluatedAt d) (rd_EvaluatedAt l) then StaleDecision
          else if time_Equal (rd_EvaluatedAt d) (rd_EvaluatedAt l) then SameTimeDecision
          else NewerDecision)"

definition ConsiderReleaseDecision ::
    "release_track \<Rightarrow> release_decision \<Rightarrow> (release_track \<times> bool) result" where
  "ConsiderReleaseDecision t d =
     require (ValidateReleaseTrack t) (require (validateReleaseDecision d)
       (if rt_LastDecision t = Some d then Inr (t, False)
        else if rt_Generation t = - 1 then Inl (Errorf ''release track generation is exhausted'' [])
        else if time_IsZero (rd_EvaluatedAt d)
          then Inl (Errorf ''release decision evaluation time is required'' [])
        else (case compareDecisionTime t d of
                StaleDecision \<Rightarrow> Inr (t, False)
              | SameTimeDecision \<Rightarrow>
                  Inl (Errorf ''different release decisions have the same evaluation time'' [])
              | NewerDecision \<Rightarrow> Inr (applyDecision t d, True))))"

definition hasAcceptedDecision :: "release_track \<Rightarrow> string \<Rightarrow> bool" where
  "hasAcceptedDecision t revisionID =
     (case rt_LastDecision t of
        None \<Rightarrow> False
      | Some d \<Rightarrow> rd_Accepted d \<and> rd_Verdict d = VerdictPass \<and> rd_RevisionID d = revisionID)"

definition PromoteReleaseRevision :: "release_track \<Rightarrow> string \<Rightarrow> release_track result" where
  "PromoteReleaseRevision t revisionID =
     require (ValidateReleaseTrack t)
       (if rt_Mode t \<noteq> ReleaseModePinned then Inl (Errorf ''only pinned tracks require promotion'' [])
        else require (validateCanonicalReleaseIdentity ''revision id'' revisionID False)
          (if \<not> hasAcceptedDecision t revisionID
             then Inl (Errorf ''revision %q has no matching accepted decision'' [revisionID])
           else if rt_CandidateRevisionID t = [] \<and> rt_CurrentRevisionID t = revisionID then Inr t
           else if revisionID \<noteq> rt_CandidateRevisionID t
             then Inl (Errorf ''revision %q is not the track candidate'' [revisionID])
           else if rt_Generation t = - 1 then Inl (Errorf ''release track generation is exhausted'' [])
           else Inr (t\<lparr>rt_Generation := rt_Generation t + 1, rt_CurrentRevisionID := revisionID,
                       rt_CandidateRevisionID := []\<rparr>)))"

definition sameReleaseDecisionWithoutTime :: "release_decision \<Rightarrow> release_decision \<Rightarrow> bool" where
  "sameReleaseDecisionWithoutTime left right \<longleftrightarrow>
     left\<lparr>rd_EvaluatedAt := zero_time\<rparr> = right\<lparr>rd_EvaluatedAt := zero_time\<rparr>"

definition legacyReviewID :: string where
  "legacyReviewID = ''legacy-release-decision''"

definition legacyDecision :: "release_track \<Rightarrow> string \<Rightarrow> bool \<Rightarrow> release_decision" where
  "legacyDecision t revisionID accepted =
     (let d = \<lparr>rd_RevisionID = revisionID, rd_ReviewID = legacyReviewID,
               rd_ReviewDigest = sha256Hex (revisionID @ [CHR 0x00] @ (if accepted then ''true'' else ''false'')),
               rd_Verdict = (if accepted then VerdictPass else VerdictFail),
               rd_Accepted = accepted, rd_EvaluatedAt = unix_epoch\<rparr>
      in case rt_LastDecision t of
           None \<Rightarrow> d
         | Some l \<Rightarrow>
             if sameReleaseDecisionWithoutTime l d then d\<lparr>rd_EvaluatedAt := rd_EvaluatedAt l\<rparr>
             else if \<not> time_IsZero (rd_EvaluatedAt l)
               then d\<lparr>rd_EvaluatedAt := time_Add (rd_EvaluatedAt l) 1\<rparr>
             else d)"

definition ConsiderReleaseRevision :: "release_track \<Rightarrow> string \<Rightarrow> bool \<Rightarrow> release_track result" where
  "ConsiderReleaseRevision t revisionID accepted =
     require (ValidateReleaseTrack t)
      (require (validateCanonicalReleaseIdentity ''revision id'' revisionID False)
       (let proceed = bind_res (ConsiderReleaseDecision t (legacyDecision t revisionID accepted))
                        (\<lambda>(next, changed). Inr next)
        in case rt_LastDecision t of
             None \<Rightarrow> proceed
           | Some l \<Rightarrow>
               if rd_ReviewID l \<noteq> legacyReviewID
                 then Inl (Errorf ''legacy release helper cannot supersede an authoritative decision'' [])
               else if rd_Accepted l then
                 (if accepted \<and> rd_RevisionID l = revisionID then Inr t
                  else Inl (Errorf ''legacy accepted decision cannot be revoked or superseded'' []))
               else proceed))"

definition CloneReleaseTrack :: "release_track \<Rightarrow> release_track" where
  "CloneReleaseTrack t = t\<lparr>rt_LastDecision := map_option (\<lambda>d. d) (rt_LastDecision t)\<rparr>"

definition ValidateReleaseTrackTransition :: "release_track \<Rightarrow> release_track \<Rightarrow> err" where
  "ValidateReleaseTrackTransition cur next =
     and_then (wrap_err (Wrapf ''invalid current release track: %w'' []) (ValidateReleaseTrack cur))
      (and_then (wrap_err (Wrapf ''invalid next release track: %w'' []) (ValidateReleaseTrack next))
       (if rt_ID cur \<noteq> rt_ID next \<or> rt_ContractID cur \<noteq> rt_ContractID next
          then Some (Errorf ''release track identity cannot change'' [])
        else if cur = next then None
        else if rt_LastDecision cur \<noteq> None \<and> rt_LastDecision cur = rt_LastDecision next then
          (if rt_Mode cur = ReleaseModePinned \<and> rt_CandidateRevisionID cur \<noteq> [] \<and>
              PromoteReleaseRevision cur (rt_CandidateRevisionID cur) = Inr next then None
           else Some (Errorf ''persisted release track mutation is not an exact no-op or pinned promotion'' []))
        else
          (case rt_LastDecision next of
             None \<Rightarrow> Some (Errorf ''release track decision evidence cannot be removed'' [])
           | Some d \<Rightarrow>
               (case ConsiderReleaseDecision cur d of
                  Inl e \<Rightarrow> Some (Wrapf ''validate persisted release decision: %w'' [] e)
                | Inr (expected, changed) \<Rightarrow>
                    fail_if (\<not> changed \<or> expected \<noteq> next)
                      (Errorf ''persisted release track mutation does not match the authoritative decision'' [])))))"

section \<open>Well-formed decisions and tracks\<close>

text \<open>
  What the validators accept, as predicates: a track without evidence claims no candidate; a track
  whose last decision is pending keeps it as its candidate; otherwise its current revision is the
  one the decision accepted.
\<close>

definition decision_ok :: "release_decision \<Rightarrow> bool" where
  "decision_ok d \<longleftrightarrow> canonical (rd_RevisionID d) \<and> canonical (rd_ReviewID d) \<and>
     isLowerSHA256 (rd_ReviewDigest d) \<and> rd_Verdict d \<in> {VerdictPass, VerdictFail} \<and>
     (rd_Accepted d \<longrightarrow> rd_Verdict d = VerdictPass) \<and>
     (time_IsZero (rd_EvaluatedAt d) \<or> t_loc (rd_EvaluatedAt d) = LocUTC)"

definition evidence_ok :: "release_track \<Rightarrow> release_decision \<Rightarrow> bool" where
  "evidence_ok t d \<longleftrightarrow> decision_ok d \<and> \<not> time_IsZero (rd_EvaluatedAt d) \<and>
     (if rt_CandidateRevisionID t \<noteq> []
        then rt_CandidateRevisionID t = rd_RevisionID d \<and> \<not> (rt_Mode t = ReleaseModeFollowing \<and> rd_Accepted d)
        else rd_Accepted d \<and> rt_CurrentRevisionID t = rd_RevisionID d)"

definition track_ok :: "release_track \<Rightarrow> bool" where
  "track_ok t \<longleftrightarrow> canonical (rt_ID t) \<and> canonical (rt_ContractID t) \<and>
     (canonical (rt_BoundRef t) \<or> rt_BoundRef t = []) \<and>
     (canonical (rt_CurrentRevisionID t) \<or> rt_CurrentRevisionID t = []) \<and>
     (canonical (rt_CandidateRevisionID t) \<or> rt_CandidateRevisionID t = []) \<and>
     rt_Mode t \<in> {ReleaseModePinned, ReleaseModeFollowing} \<and>
     (case rt_LastDecision t of
        None \<Rightarrow> rt_CandidateRevisionID t = []
      | Some d \<Rightarrow> rt_Generation t \<noteq> 0 \<and> evidence_ok t d)"

lemma utf8_valid_names [simp]:
  "utf8_valid VerdictPass" "utf8_valid VerdictFail" "utf8_valid ReleaseModePinned" "utf8_valid ReleaseModeFollowing"
  by (rule utf8_valid_ascii; simp add: VerdictPass_def VerdictFail_def ReleaseModePinned_def ReleaseModeFollowing_def)+

lemma modes_differ [simp]: "ReleaseModePinned \<noteq> ReleaseModeFollowing" "ReleaseModeFollowing \<noteq> ReleaseModePinned"
  "VerdictPass \<noteq> VerdictFail" "VerdictFail \<noteq> VerdictPass"
  by (simp_all add: ReleaseModePinned_def ReleaseModeFollowing_def VerdictPass_def VerdictFail_def)

lemma decision_ok_utf8: "decision_ok d \<Longrightarrow> s \<in> direct_strings (rv_decision d) \<Longrightarrow> utf8_valid s"
  by (auto simp: decision_ok_def rv_decision_def canonical_valid isLowerSHA256_valid)

lemma validateReleaseDecision_None [simp, go_err]: "validateReleaseDecision d = None \<longleftrightarrow> decision_ok d"
  using decision_ok_utf8 [of d]
  by (simp add: validateReleaseDecision_def validateCanonicalReleaseIdentity_def validateUTF8Strings_direct)
    (auto simp: decision_ok_def)

lemma validateTrackDecision_None [simp, go_err]:
  "validateTrackDecision t d = None \<longleftrightarrow> evidence_ok t d"
  by (auto simp: validateTrackDecision_def evidence_ok_def)

lemma track_ok_utf8: "track_ok t \<Longrightarrow> s \<in> direct_strings (rv_track t) \<Longrightarrow> utf8_valid s"
  using decision_ok_utf8
  by (auto simp: track_ok_def evidence_ok_def rv_track_def canonical_valid split: option.splits)

lemma ValidateReleaseTrack_None [simp, go_err]: "ValidateReleaseTrack t = None \<longleftrightarrow> track_ok t"
  using track_ok_utf8 [of t]
  by (simp add: ValidateReleaseTrack_def validateCanonicalReleaseIdentity_def validateUTF8Strings_direct)
    (auto simp: track_ok_def split: option.splits)

section \<open>The track as a state machine\<close>

inductive track_step :: "release_track \<Rightarrow> release_track \<Rightarrow> bool" where
  decide: "ConsiderReleaseDecision t d = Inr (t', True) \<Longrightarrow> track_step t t'"
| promote: "PromoteReleaseRevision t r = Inr t' \<Longrightarrow> t' \<noteq> t \<Longrightarrow> track_step t t'"

inductive_cases track_stepE: "track_step t t'"

lemma compareDecisionTime_Newer:
  "compareDecisionTime t d = NewerDecision \<longleftrightarrow>
     (\<forall>l. rt_LastDecision t = Some l \<longrightarrow> time_IsZero (rd_EvaluatedAt l) \<or> time_Before (rd_EvaluatedAt l) (rd_EvaluatedAt d))"
  by (auto simp: compareDecisionTime_def time_Before_def time_Equal_def split: option.splits)

lemma Consider_applied:
  "ConsiderReleaseDecision t d = Inr (t', True) \<longleftrightarrow>
     track_ok t \<and> decision_ok d \<and> rt_LastDecision t \<noteq> Some d \<and> rt_Generation t \<noteq> - 1 \<and>
     \<not> time_IsZero (rd_EvaluatedAt d) \<and> compareDecisionTime t d = NewerDecision \<and> t' = applyDecision t d"
  by (auto simp: ConsiderReleaseDecision_def split: if_splits decision_order.splits)

lemma Consider_unchanged:
  "ConsiderReleaseDecision t d = Inr (t', False) \<longleftrightarrow>
     t' = t \<and> track_ok t \<and> decision_ok d \<and>
     (rt_LastDecision t = Some d \<or>
      rt_Generation t \<noteq> - 1 \<and> \<not> time_IsZero (rd_EvaluatedAt d) \<and> compareDecisionTime t d = StaleDecision)"
  by (auto simp: ConsiderReleaseDecision_def split: if_splits decision_order.splits)

lemma Promote_Inr:
  "PromoteReleaseRevision t r = Inr t' \<longleftrightarrow>
     track_ok t \<and> rt_Mode t = ReleaseModePinned \<and> canonical r \<and> hasAcceptedDecision t r \<and>
     (if rt_CandidateRevisionID t = [] then rt_CurrentRevisionID t = r \<and> t' = t
      else rt_CandidateRevisionID t = r \<and> rt_Generation t \<noteq> - 1 \<and>
        t' = t\<lparr>rt_Generation := rt_Generation t + 1, rt_CurrentRevisionID := r, rt_CandidateRevisionID := []\<rparr>)"
  by (auto simp: PromoteReleaseRevision_def validateCanonicalReleaseIdentity_def canonical_ne)

lemma hasAcceptedDecision_iff:
  "hasAcceptedDecision t r \<longleftrightarrow>
     (\<exists>d. rt_LastDecision t = Some d \<and> rd_Accepted d \<and> rd_Verdict d = VerdictPass \<and> rd_RevisionID d = r)"
  by (simp add: hasAcceptedDecision_def split: option.split)

lemma unat_Suc_word: "g \<noteq> - 1 \<Longrightarrow> unat (g + 1 :: 'a::len word) = Suc (unat g)"
  using unatSuc [of g] by (auto simp: add.commute add_eq_0_iff)

lemma word_Suc_ne_0: "g \<noteq> - 1 \<Longrightarrow> g + 1 \<noteq> (0 :: 'a::len word)"
  by (auto simp: add.commute add_eq_0_iff)

lemma track_step_iff:
  "track_step t t' \<longleftrightarrow> track_ok t \<and> rt_Generation t \<noteq> - 1 \<and>
     ((\<exists>d. decision_ok d \<and> \<not> time_IsZero (rd_EvaluatedAt d) \<and> rt_LastDecision t \<noteq> Some d \<and>
         compareDecisionTime t d = NewerDecision \<and> t' = applyDecision t d) \<or>
      (rt_Mode t = ReleaseModePinned \<and> rt_CandidateRevisionID t \<noteq> [] \<and>
       hasAcceptedDecision t (rt_CandidateRevisionID t) \<and>
       t' = t\<lparr>rt_Generation := rt_Generation t + 1, rt_CurrentRevisionID := rt_CandidateRevisionID t,
              rt_CandidateRevisionID := []\<rparr>))"
  (is "_ \<longleftrightarrow> ?R")
proof
  assume "track_step t t'"
  then show ?R
    by (cases rule: track_step.cases) (auto simp: Consider_applied Promote_Inr split: if_splits)
next
  assume r: ?R
  show "track_step t t'"
  proof (cases "\<exists>d. ConsiderReleaseDecision t d = Inr (t', True)")
    case False
    with r have p: "PromoteReleaseRevision t (rt_CandidateRevisionID t) = Inr t'"
      by (auto simp: Consider_applied Promote_Inr track_ok_def)
    have "rt_CandidateRevisionID t' = [] \<and> rt_CandidateRevisionID t \<noteq> []"
      using r False by (auto simp: Consider_applied)
    then have "t' \<noteq> t" by auto
    with p show ?thesis by (rule track_step.promote)
  qed (auto intro: track_step.decide)
qed

lemma applyDecision_fields [simp]:
  "rt_ID (applyDecision t d) = rt_ID t" "rt_ContractID (applyDecision t d) = rt_ContractID t"
  "rt_BoundRef (applyDecision t d) = rt_BoundRef t" "rt_Mode (applyDecision t d) = rt_Mode t"
  "rt_Generation (applyDecision t d) = rt_Generation t + 1"
  "rt_LastDecision (applyDecision t d) = Some d"
  by (simp_all add: applyDecision_def Let_def)

lemma applyDecision_ok:
  assumes "track_ok t" "decision_ok d" "rt_Generation t \<noteq> - 1" "\<not> time_IsZero (rd_EvaluatedAt d)"
  shows "track_ok (applyDecision t d)"
proof -
  have "canonical (rd_RevisionID d)" using assms by (simp add: decision_ok_def)
  moreover have "rt_Generation t + 1 \<noteq> 0"
    using assms(3) by (simp add: word_Suc_ne_0)
  ultimately show ?thesis
    using assms by (auto simp: track_ok_def evidence_ok_def applyDecision_def Let_def canonical_ne)
qed

lemma track_step_ok: "track_ok t \<Longrightarrow> track_step t t' \<Longrightarrow> track_ok t'"
proof -
  assume ok: "track_ok t" and "track_step t t'"
  then consider (decide) d where "decision_ok d" "\<not> time_IsZero (rd_EvaluatedAt d)" "rt_Generation t \<noteq> - 1"
      "t' = applyDecision t d"
    | (promote) "rt_CandidateRevisionID t \<noteq> []" "hasAcceptedDecision t (rt_CandidateRevisionID t)"
      "rt_Generation t \<noteq> - 1"
      "t' = t\<lparr>rt_Generation := rt_Generation t + 1, rt_CurrentRevisionID := rt_CandidateRevisionID t,
              rt_CandidateRevisionID := []\<rparr>"
    by (auto simp: track_step_iff)
  then show "track_ok t'"
  proof cases
    case decide
    with ok show ?thesis by (simp add: applyDecision_ok)
  next
    case promote
    moreover have "rt_Generation t + 1 \<noteq> 0"
      using promote(3) by (simp add: word_Suc_ne_0)
    ultimately show ?thesis
      using ok by (auto simp: track_ok_def hasAcceptedDecision_def evidence_ok_def split: option.splits)
  qed
qed

interpretation release_machine: ranked_system track_step track_ok "\<lambda>t. unat (rt_Generation t)"
proof
  show "track_ok s'" if "track_ok s" "track_step s s'" for s s' using that by (rule track_step_ok)
  show "unat (rt_Generation s') = Suc (unat (rt_Generation s))" if "track_ok s" "track_step s s'" for s s'
    using that unat_Suc_word [of "rt_Generation s"] by (auto simp: track_step_iff)
qed

section \<open>Properties of release tracks\<close>

lemma track_step_frame:
  "track_step t t' \<Longrightarrow> rt_ID t' = rt_ID t \<and> rt_ContractID t' = rt_ContractID t \<and>
     rt_BoundRef t' = rt_BoundRef t \<and> rt_Mode t' = rt_Mode t"
  by (auto simp: track_step_iff)

lemma transition_ok_iff:
  "ValidateReleaseTrackTransition t t' = None \<longleftrightarrow> track_ok t \<and> (t' = t \<or> track_step t t')"
  (is "?L \<longleftrightarrow> ?R")
proof
  assume ?L
  then show ?R
    by (auto simp: ValidateReleaseTrackTransition_def intro: track_step.intros split: if_splits option.splits sum.splits)
next
  assume R: ?R
  show ?L
  proof (cases "t' = t")
    case False
    with R have ok: "track_ok t" and st: "track_step t t'" by auto
    note frame = track_step_frame [OF st] and ok' = track_step_ok [OF ok st]
    from st show ?thesis
    proof (cases rule: track_step.cases)
      case (decide d)
      then have "rt_LastDecision t' = Some d" "rt_LastDecision t \<noteq> Some d" by (auto simp: Consider_applied)
      with False ok ok' frame decide show ?thesis by (simp add: ValidateReleaseTrackTransition_def)
    next
      case (promote r)
      then have "r = rt_CandidateRevisionID t" "rt_CandidateRevisionID t \<noteq> []" "rt_Mode t = ReleaseModePinned"
        "rt_LastDecision t \<noteq> None" "rt_LastDecision t = rt_LastDecision t'"
        by (auto simp: Promote_Inr hasAcceptedDecision_iff split: if_splits)
      with False ok ok' frame promote show ?thesis by (simp add: ValidateReleaseTrackTransition_def)
    qed
  qed (use R in \<open>simp add: ValidateReleaseTrackTransition_def\<close>)
qed

text \<open>
  C15: The persistence check accepts exactly the domain's own transitions: from a valid track, no
  change, a decision that \<open>ConsiderReleaseDecision\<close> applies, or a promotion that
  \<open>PromoteReleaseRevision\<close> performs; every other replacement of a stored track is refused.
\<close>

theorem transition_exactly_domain_steps:
  "ValidateReleaseTrackTransition t t' = None \<longleftrightarrow>
     ValidateReleaseTrack t = None \<and>
     (t' = t \<or> (\<exists>d. ConsiderReleaseDecision t d = Inr (t', True)) \<or> (\<exists>r. PromoteReleaseRevision t r = Inr t'))"
  by (auto simp: transition_ok_iff intro: track_step.intros elim: track_stepE)

lemma last_decision_time:
  assumes "track_step t t'" and "rt_LastDecision t = Some l"
  obtains l' where "rt_LastDecision t' = Some l'"
    "l' = l \<or> time_Before (rd_EvaluatedAt l) (rd_EvaluatedAt l')"
proof -
  have "\<not> time_IsZero (rd_EvaluatedAt l)"
    using assms by (auto simp: track_step_iff track_ok_def evidence_ok_def)
  then show thesis
    using assms that by (auto simp: track_step_iff compareDecisionTime_Newer)
qed

lemma reach_decision_time:
  assumes "track_step\<^sup>*\<^sup>* t t'" and "rt_LastDecision t = Some l"
  shows "\<exists>l'. rt_LastDecision t' = Some l' \<and> (l' = l \<or> time_Before (rd_EvaluatedAt l) (rd_EvaluatedAt l'))"
  using assms
proof (induction rule: rtranclp_induct)
  case (step y z)
  then obtain l1 where l1: "rt_LastDecision y = Some l1" "l1 = l \<or> time_Before (rd_EvaluatedAt l) (rd_EvaluatedAt l1)"
    by blast
  from last_decision_time [OF step(2) l1(1)] obtain l2 where "rt_LastDecision z = Some l2"
    "l2 = l1 \<or> time_Before (rd_EvaluatedAt l1) (rd_EvaluatedAt l2)" .
  with l1 show ?case by (auto simp: time_Before_def)
qed simp

text \<open>
  C16: In every track reachable by decisions and promotions from a valid track the invariant of
  \<open>ValidateReleaseTrack\<close> holds, identity, contract, bound ref and mode are those of the start, the
  64-bit generation never wraps (it grows strictly with every change, so no earlier state recurs),
  and decision evidence is never lost and only moves forward in evaluation time.
\<close>

theorem reachable_track_safe:
  assumes "ValidateReleaseTrack t = None" and "track_step\<^sup>*\<^sup>* t t'"
  shows "ValidateReleaseTrack t' = None \<and>
    (rt_ID t' = rt_ID t \<and> rt_ContractID t' = rt_ContractID t \<and> rt_BoundRef t' = rt_BoundRef t \<and> rt_Mode t' = rt_Mode t) \<and>
    (t' = t \<or> unat (rt_Generation t) < unat (rt_Generation t')) \<and>
    (\<forall>l. rt_LastDecision t = Some l \<longrightarrow> (\<exists>l'. rt_LastDecision t' = Some l' \<and>
           (l' = l \<or> time_Before (rd_EvaluatedAt l) (rd_EvaluatedAt l'))))"
proof (intro conjI)
  have ok: "track_ok t" using assms by simp
  show "ValidateReleaseTrack t' = None" using release_machine.reach_inv [OF assms(2) ok] by simp
  have "(rt_ID t', rt_ContractID t', rt_BoundRef t', rt_Mode t') = (rt_ID t, rt_ContractID t, rt_BoundRef t, rt_Mode t)"
    using track_step_frame
    by (intro release_machine.reach_preserves [OF assms(2) ok, of "\<lambda>t. (rt_ID t, rt_ContractID t, rt_BoundRef t, rt_Mode t)"]) simp
  then show "rt_ID t' = rt_ID t" "rt_ContractID t' = rt_ContractID t" "rt_BoundRef t' = rt_BoundRef t" "rt_Mode t' = rt_Mode t"
    by simp_all
  show "t' = t \<or> unat (rt_Generation t) < unat (rt_Generation t')"
    using release_machine.reach_rank [OF assms(2) ok] .
  show "\<forall>l. rt_LastDecision t = Some l \<longrightarrow> (\<exists>l'. rt_LastDecision t' = Some l' \<and>
           (l' = l \<or> time_Before (rd_EvaluatedAt l) (rd_EvaluatedAt l')))"
    using reach_decision_time [OF assms(2)] by blast
qed

lemma step_current:
  assumes st: "track_step t t'" and ne: "rt_CurrentRevisionID t' \<noteq> rt_CurrentRevisionID t"
  shows "\<exists>d. rt_LastDecision t' = Some d \<and> rd_Accepted d \<and> rd_Verdict d = VerdictPass \<and>
           rd_RevisionID d = rt_CurrentRevisionID t'"
  using st
proof (cases rule: track_step.cases)
  case (decide d)
  then have "t' = applyDecision t d" "decision_ok d" by (simp_all add: Consider_applied)
  with ne show ?thesis by (auto simp: applyDecision_def Let_def decision_ok_def split: if_splits)
next
  case (promote r)
  then show ?thesis using ne by (auto simp: Promote_Inr hasAcceptedDecision_iff split: if_splits)
qed

text \<open>
  C17: No revision becomes current without a passing, accepted decision for it: if the current
  revision of a reachable track differs from the start's, some track on the way carried a decision
  with verdict pass that accepted exactly that revision, at the moment it became current.
\<close>

theorem current_revision_was_accepted:
  assumes "track_step\<^sup>*\<^sup>* t t'" and "rt_CurrentRevisionID t' \<noteq> rt_CurrentRevisionID t"
  shows "\<exists>u d. track_step\<^sup>*\<^sup>* t u \<and> track_step\<^sup>*\<^sup>* u t' \<and> rt_CurrentRevisionID u = rt_CurrentRevisionID t' \<and>
           rt_LastDecision u = Some d \<and> rd_Accepted d \<and> rd_Verdict d = VerdictPass \<and>
           rd_RevisionID d = rt_CurrentRevisionID t'"
  using assms
proof (induction rule: rtranclp_induct)
  case (step y z)
  show ?case
  proof (cases "rt_CurrentRevisionID z = rt_CurrentRevisionID y")
    case True
    with step obtain u d where "track_step\<^sup>*\<^sup>* t u" "track_step\<^sup>*\<^sup>* u y" "rt_CurrentRevisionID u = rt_CurrentRevisionID z"
      "rt_LastDecision u = Some d" "rd_Accepted d" "rd_Verdict d = VerdictPass" "rd_RevisionID d = rt_CurrentRevisionID z"
      by auto
    moreover from this step(2) have "track_step\<^sup>*\<^sup>* u z" by simp
    ultimately show ?thesis by blast
  next
    case False
    then obtain d where "rt_LastDecision z = Some d" "rd_Accepted d" "rd_Verdict d = VerdictPass"
      "rd_RevisionID d = rt_CurrentRevisionID z"
      using step_current [OF step(2)] by blast
    moreover have "track_step\<^sup>*\<^sup>* t z" using step(1,2) by simp
    ultimately show ?thesis by blast
  qed
qed simp

text \<open>
  An applied decision is never applied again. In the resulting track and in every track
  reachable from it, considering the same decision changes nothing: it reports the track unchanged
  unless the generation counter is exhausted and the decision has been superseded, when it is refused.
\<close>

theorem applied_decision_never_reapplied:
  assumes "ConsiderReleaseDecision t d = Inr (t', True)" and "track_step\<^sup>*\<^sup>* t' t''"
  shows "ConsiderReleaseDecision t'' d =
    (if rt_LastDecision t'' = Some d \<or> rt_Generation t'' \<noteq> - 1 then Inr (t'', False)
     else Inl (Errorf ''release track generation is exhausted'' []))"
proof -
  have ok: "track_ok t'" and d: "decision_ok d" "\<not> time_IsZero (rd_EvaluatedAt d)" and l: "rt_LastDecision t' = Some d"
    using assms(1) by (auto simp: Consider_applied applyDecision_ok)
  have ok2: "track_ok t''" using release_machine.reach_inv [OF assms(2) ok] .
  from reach_decision_time [OF assms(2) l] obtain l' where l': "rt_LastDecision t'' = Some l'"
    "l' = d \<or> time_Before (rd_EvaluatedAt d) (rd_EvaluatedAt l')" by blast
  have "\<not> time_IsZero (rd_EvaluatedAt l')" using ok2 l'(1) by (simp add: track_ok_def evidence_ok_def)
  then have "l' \<noteq> d \<Longrightarrow> compareDecisionTime t'' d = StaleDecision"
    using l' by (simp add: compareDecisionTime_def)
  with ok2 d l' show ?thesis
    by (auto simp: ConsiderReleaseDecision_def)
qed

text \<open>
  What a decision does, on every branch. On a valid track with an available generation, a
  well-formed dated decision strictly newer than the track's evidence is always applied; it bumps the
  generation by one; a rejected decision, and any decision on a pinned track, leaves the current
  revision alone and records the revision as candidate; an accepted one on a following track makes
  its revision current and clears the candidate. Older decisions change nothing, and a different
  decision with the same evaluation time is an error.
\<close>

theorem consider_decision_behaviour:
  assumes "ValidateReleaseTrack t = None" and "validateReleaseDecision d = None"
    and "rt_LastDecision t = Some l" and "rt_Generation t \<noteq> - 1" and "\<not> time_IsZero (rd_EvaluatedAt d)"
  shows "ConsiderReleaseDecision t d =
    (if d = l then Inr (t, False)
     else if t_ns (rd_EvaluatedAt d) < t_ns (rd_EvaluatedAt l) then Inr (t, False)
     else if t_ns (rd_EvaluatedAt d) = t_ns (rd_EvaluatedAt l)
       then Inl (Errorf ''different release decisions have the same evaluation time'' [])
     else Inr (t\<lparr>rt_Generation := rt_Generation t + 1, rt_LastDecision := Some d,
                 rt_CurrentRevisionID := (if rd_Accepted d \<and> rt_Mode t = ReleaseModeFollowing
                                          then rd_RevisionID d else rt_CurrentRevisionID t),
                 rt_CandidateRevisionID := (if rd_Accepted d \<and> rt_Mode t = ReleaseModeFollowing
                                            then [] else rd_RevisionID d)\<rparr>, True))"
proof -
  have ok: "track_ok t" "decision_ok d" using assms by simp_all
  have nz: "\<not> time_IsZero (rd_EvaluatedAt l)" and m: "rt_Mode t \<in> {ReleaseModePinned, ReleaseModeFollowing}"
    using ok assms(3) by (auto simp: track_ok_def evidence_ok_def)
  have "applyDecision t d = t\<lparr>rt_Generation := rt_Generation t + 1, rt_LastDecision := Some d,
                 rt_CurrentRevisionID := (if rd_Accepted d \<and> rt_Mode t = ReleaseModeFollowing
                                          then rd_RevisionID d else rt_CurrentRevisionID t),
                 rt_CandidateRevisionID := (if rd_Accepted d \<and> rt_Mode t = ReleaseModeFollowing
                                            then [] else rd_RevisionID d)\<rparr>"
    using m by (auto simp: applyDecision_def)
  moreover have "compareDecisionTime t d =
      (if t_ns (rd_EvaluatedAt d) < t_ns (rd_EvaluatedAt l) then StaleDecision
       else if t_ns (rd_EvaluatedAt d) = t_ns (rd_EvaluatedAt l) then SameTimeDecision else NewerDecision)"
    using nz assms(3) by (simp add: compareDecisionTime_def time_Before_def time_Equal_def)
  ultimately show ?thesis using ok assms by (auto simp: ConsiderReleaseDecision_def)
qed

lemma legacyDecision_ok:
  assumes "canonical r" and "track_ok t"
  shows "decision_ok (legacyDecision t r a)"
proof -
  have "canonical legacyReviewID"
    by (rule canonical_ascii) (simp_all add: legacyReviewID_def)
  moreover have "t_loc unix_epoch = LocUTC" by (simp add: unix_epoch_def)
  moreover have "rt_LastDecision t = Some l \<Longrightarrow> t_loc (rd_EvaluatedAt l) = LocUTC" for l
    using assms(2) by (auto simp: track_ok_def evidence_ok_def decision_ok_def)
  ultimately show ?thesis
    using assms(1)
    by (auto simp: decision_ok_def legacyDecision_def Let_def time_Add_def split: option.splits)
qed

lemma legacyDecision_fields [simp]:
  "rd_Accepted (legacyDecision t r a) = a" "rd_RevisionID (legacyDecision t r a) = r"
  "rd_ReviewID (legacyDecision t r a) = legacyReviewID"
  by (simp_all add: legacyDecision_def Let_def split: option.split)

lemma unix_epoch_not_zero [simp]: "\<not> time_IsZero unix_epoch"
  by (simp add: time_IsZero_def unix_epoch_def)

lemma legacyDecision_later:
  "rt_LastDecision t = Some l \<Longrightarrow> rd_Accepted l \<noteq> a \<Longrightarrow> \<not> time_IsZero (rd_EvaluatedAt l) \<Longrightarrow>
     rd_EvaluatedAt (legacyDecision t r a) = time_Add (rd_EvaluatedAt l) 1"
  by (auto simp: legacyDecision_def Let_def sameReleaseDecisionWithoutTime_def
      dest: arg_cong [where f = rd_Accepted])

lemma ConsiderReleaseRevision_fresh:
  assumes "track_ok t" "rt_LastDecision t = None" "canonical r" "rt_Generation t \<noteq> - 1"
  shows "ConsiderReleaseRevision t r a = Inr (applyDecision t (legacyDecision t r a))"
proof -
  have "rd_EvaluatedAt (legacyDecision t r a) = unix_epoch"
    using assms(2) by (simp add: legacyDecision_def)
  then have "ConsiderReleaseDecision t (legacyDecision t r a) = Inr (applyDecision t (legacyDecision t r a), True)"
    using assms legacyDecision_ok [of r t a] by (simp add: Consider_applied compareDecisionTime_Newer)
  with assms show ?thesis
    by (simp add: ConsiderReleaseRevision_def validateCanonicalReleaseIdentity_def bind_res_def)
qed

lemma ConsiderReleaseRevision_rejected:
  assumes "track_ok t" "rt_LastDecision t = Some l" "rd_ReviewID l = legacyReviewID" "\<not> rd_Accepted l"
    "canonical r" "rt_Generation t \<noteq> - 1" "t_ns (rd_EvaluatedAt l) \<noteq> - 1"
  shows "ConsiderReleaseRevision t r True = Inr (applyDecision t (legacyDecision t r True))"
proof -
  have nz: "\<not> time_IsZero (rd_EvaluatedAt l)"
    using assms(1,2) by (simp add: track_ok_def evidence_ok_def)
  have time: "rd_EvaluatedAt (legacyDecision t r True) = time_Add (rd_EvaluatedAt l) 1"
    using legacyDecision_later [OF assms(2)] assms(4) nz by simp
  have ne: "legacyDecision t r True \<noteq> l" using assms(4) legacyDecision_fields(1) [of t r True] by metis
  have "ConsiderReleaseDecision t (legacyDecision t r True) = Inr (applyDecision t (legacyDecision t r True), True)"
    using assms legacyDecision_ok [of r t True] nz time ne
    by (auto simp: Consider_applied compareDecisionTime_Newer time_Before_def time_Add_def time_IsZero_def)
  with assms show ?thesis
    by (simp add: ConsiderReleaseRevision_def validateCanonicalReleaseIdentity_def bind_res_def)
qed

lemma ConsiderReleaseRevision_accepted:
  assumes "track_ok t" "rt_LastDecision t = Some l" "rd_ReviewID l = legacyReviewID" "rd_Accepted l"
  shows "ConsiderReleaseRevision t r a = Inr t' \<longleftrightarrow> a \<and> r = rd_RevisionID l \<and> t' = t"
  using assms
  by (auto simp: ConsiderReleaseRevision_def validateCanonicalReleaseIdentity_def track_ok_def evidence_ok_def decision_ok_def)

text \<open>
  The boolean helper supports rejection followed by acceptance and nothing beyond it: on a
  valid track without evidence and with two generations left, rejecting a canonical revision
  keeps the current revision, accepting it afterwards succeeds with accepted evidence for it, and
  from then on the helper changes nothing: it repeats the same acceptance or refuses.
\<close>

theorem legacy_reject_then_accept_is_final:
  assumes "ValidateReleaseTrack t = None" and "rt_LastDecision t = None"
    and "canonical r" and "rt_Generation t \<noteq> - 1" and "rt_Generation t + 1 \<noteq> - 1"
  shows "\<exists>t1 t2 l. ConsiderReleaseRevision t r False = Inr t1 \<and> rt_CurrentRevisionID t1 = rt_CurrentRevisionID t \<and>
    ConsiderReleaseRevision t1 r True = Inr t2 \<and> rt_LastDecision t2 = Some l \<and> rd_Accepted l \<and> rd_RevisionID l = r \<and>
    (\<forall>r' a' t'. ConsiderReleaseRevision t2 r' a' = Inr t' \<longleftrightarrow> a' \<and> r' = r \<and> t' = t2)"
proof -
  define d1 where "d1 = legacyDecision t r False"
  define t1 where "t1 = applyDecision t d1"
  define d2 where "d2 = legacyDecision t1 r True"
  define t2 where "t2 = applyDecision t1 d2"
  have ok: "track_ok t" using assms(1) by simp
  have e1: "rd_EvaluatedAt d1 = unix_epoch"
    using assms(2) by (simp add: d1_def legacyDecision_def)
  have step1: "ConsiderReleaseRevision t r False = Inr t1"
    using ConsiderReleaseRevision_fresh [OF ok assms(2-4)] by (simp add: t1_def d1_def)
  have ok1: "track_ok t1"
    using ok assms(3,4) e1 unfolding t1_def by (intro applyDecision_ok) (simp_all add: d1_def legacyDecision_ok)
  have l1: "rt_LastDecision t1 = Some d1" "rt_Generation t1 = rt_Generation t + 1"
    by (simp_all add: t1_def)
  have step2: "ConsiderReleaseRevision t1 r True = Inr t2"
    unfolding t2_def d2_def using assms(3,5) ok1 l1 e1
    by (intro ConsiderReleaseRevision_rejected [OF ok1 l1(1)]) (simp_all add: d1_def unix_epoch_def)
  have "\<not> time_IsZero (rd_EvaluatedAt d2)"
    using legacyDecision_later [OF l1(1), of True r] e1
    by (simp add: d2_def d1_def time_Add_def time_IsZero_def unix_epoch_def)
  then have ok2: "track_ok t2"
    using ok1 assms(3,5) l1 unfolding t2_def by (intro applyDecision_ok) (simp_all add: d2_def legacyDecision_ok)
  have l2: "rt_LastDecision t2 = Some d2" "rd_Accepted d2" "rd_RevisionID d2 = r" "rd_ReviewID d2 = legacyReviewID"
    by (simp_all add: t2_def d2_def)
  have "rt_CurrentRevisionID t1 = rt_CurrentRevisionID t"
    by (simp add: t1_def applyDecision_def d1_def)
  with step1 step2 l2 ConsiderReleaseRevision_accepted [OF ok2 l2(1,4,2)] show ?thesis by blast
qed

section \<open>A concrete track\<close>

text \<open>A following track, a rejection and a later acceptance of the same revision.\<close>

definition sample_track :: release_track where
  "sample_track = \<lparr>rt_ID = ''production'', rt_ContractID = ''petstore'', rt_BoundRef = ''main'',
     rt_Mode = ReleaseModeFollowing, rt_Generation = 0, rt_CurrentRevisionID = [],
     rt_CandidateRevisionID = [], rt_LastDecision = None\<rparr>"

definition sample_decision :: "bool \<Rightarrow> int \<Rightarrow> release_decision" where
  "sample_decision a ns = \<lparr>rd_RevisionID = ''rev-1'', rd_ReviewID = ''review-1'', rd_ReviewDigest = sha256Hex ''review'',
     rd_Verdict = (if a then VerdictPass else VerdictFail), rd_Accepted = a,
     rd_EvaluatedAt = \<lparr>t_ns = ns, t_loc = LocUTC\<rparr>\<rparr>"

lemma sample_canonical [simp]:
  "canonical ''production''" "canonical ''petstore''" "canonical ''main''" "canonical ''rev-1''" "canonical ''review-1''"
  by (rule canonical_ascii; simp)+

lemma sample_track_ok [simp]: "track_ok sample_track"
  by (simp add: sample_track_def track_ok_def)

lemma sample_decision_ok [simp]: "decision_ok (sample_decision a ns)"
  by (simp add: decision_ok_def sample_decision_def)

lemma sample_decision_fields [simp]:
  "rd_EvaluatedAt (sample_decision a ns) = \<lparr>t_ns = ns, t_loc = LocUTC\<rparr>" "rd_Accepted (sample_decision a ns) = a"
  "rd_RevisionID (sample_decision a ns) = ''rev-1''"
  "rd_Verdict (sample_decision a ns) = (if a then VerdictPass else VerdictFail)"
  by (simp_all add: sample_decision_def)

definition sample_rejected :: release_track where
  "sample_rejected = applyDecision sample_track (sample_decision False 1)"

definition sample_accepted :: release_track where
  "sample_accepted = applyDecision sample_rejected (sample_decision True 2)"

lemma sample_fields [simp]:
  "rt_LastDecision sample_track = None" "rt_Generation sample_track = 0"
  "rt_Mode sample_track = ReleaseModeFollowing" "rt_CurrentRevisionID sample_track = []"
  by (simp_all add: sample_track_def)

lemma sample_steps:
  "ConsiderReleaseDecision sample_track (sample_decision False 1) = Inr (sample_rejected, True)"
  "ConsiderReleaseDecision sample_rejected (sample_decision True 2) = Inr (sample_accepted, True)"
proof -
  show c: "ConsiderReleaseDecision sample_track (sample_decision False 1) = Inr (sample_rejected, True)"
    by (simp add: Consider_applied sample_rejected_def compareDecisionTime_Newer time_IsZero_def)
  have "track_ok sample_rejected"
    using track_step_ok [OF sample_track_ok track_step.decide [OF c]] .
  moreover have "rt_LastDecision sample_rejected = Some (sample_decision False 1)" "rt_Generation sample_rejected = 1"
    by (simp_all add: sample_rejected_def)
  moreover have "sample_decision False 1 \<noteq> sample_decision True 2" by (simp add: sample_decision_def)
  ultimately show "ConsiderReleaseDecision sample_rejected (sample_decision True 2) = Inr (sample_accepted, True)"
    by (simp add: Consider_applied sample_accepted_def compareDecisionTime_Newer time_IsZero_def time_Before_def)
qed

lemma sample_reach: "track_step\<^sup>*\<^sup>* sample_track sample_accepted"
  "track_step\<^sup>*\<^sup>* sample_rejected sample_accepted"
  using sample_steps [THEN track_step.decide] by auto

lemma sample_accepted_fields [simp]:
  "rt_CurrentRevisionID sample_accepted = ''rev-1''" "rt_Generation sample_accepted = 2"
  "rt_LastDecision sample_accepted = Some (sample_decision True 2)"
  by (simp_all add: sample_accepted_def sample_rejected_def applyDecision_def Let_def)

theorem reachable_track_safe_witness: "ValidateReleaseTrack sample_accepted = None"
  using reachable_track_safe [OF _ sample_reach(1)] by simp

theorem current_revision_was_accepted_witness:
  "\<exists>u d. track_step\<^sup>*\<^sup>* sample_track u \<and> rt_LastDecision u = Some d \<and> rd_Accepted d \<and> rd_RevisionID d = ''rev-1''"
  using current_revision_was_accepted [OF sample_reach(1)] by auto

theorem applied_decision_never_reapplied_witness:
  "ConsiderReleaseDecision sample_accepted (sample_decision False 1) = Inr (sample_accepted, False)"
  using applied_decision_never_reapplied [OF sample_steps(1) sample_reach(2)] by simp

theorem consider_decision_behaviour_witness:
  "ConsiderReleaseDecision sample_accepted (sample_decision False 2) =
     Inl (Errorf ''different release decisions have the same evaluation time'' [])"
proof -
  have "track_ok sample_accepted" using release_machine.reach_inv [OF sample_reach(1)] by simp
  moreover have "sample_decision False 2 \<noteq> sample_decision True 2" by (simp add: sample_decision_def)
  ultimately show ?thesis
    using consider_decision_behaviour [of sample_accepted "sample_decision False 2" "sample_decision True 2"]
    by (simp add: time_IsZero_def)
qed

theorem legacy_reject_then_accept_is_final_witness:
  "\<exists>t1 t2. ConsiderReleaseRevision sample_track ''rev-1'' False = Inr t1 \<and>
     ConsiderReleaseRevision t1 ''rev-1'' True = Inr t2 \<and> (\<forall>t'. ConsiderReleaseRevision t2 ''rev-1'' False \<noteq> Inr t')"
proof -
  have "\<exists>t1 t2 l. ConsiderReleaseRevision sample_track ''rev-1'' False = Inr t1 \<and>
    rt_CurrentRevisionID t1 = rt_CurrentRevisionID sample_track \<and>
    ConsiderReleaseRevision t1 ''rev-1'' True = Inr t2 \<and> rt_LastDecision t2 = Some l \<and> rd_Accepted l \<and> rd_RevisionID l = ''rev-1'' \<and>
    (\<forall>r' a' t'. ConsiderReleaseRevision t2 r' a' = Inr t' \<longleftrightarrow> a' \<and> r' = ''rev-1'' \<and> t' = t2)"
    by (rule legacy_reject_then_accept_is_final) simp_all
  then show ?thesis by auto
qed

end
