(* ===== verification/Policy.thy ===== *)
theory Policy
  imports Spec_Diff Release
begin

text \<open>
  \<open>domain/policy.go\<close>: layered compatibility policy, its composition and the evaluation of findings.
  A layer's rules are a Go map. The order in which \<open>MergePolicy\<close> visits a server layer's rules only
  selects which of several weakening rules its error names; the model visits them in map order.
  Verdict names are those of \<open>Release\<close>.
\<close>

section \<open>Data\<close>

definition RuleLevelAllow :: string where "RuleLevelAllow = ''allow''"
definition RuleLevelWarn :: string where "RuleLevelWarn = ''warn''"
definition RuleLevelFail :: string where "RuleLevelFail = ''fail''"
definition PolicySourceRepository :: string where "PolicySourceRepository = ''repository''"
definition PolicySourceServer :: string where "PolicySourceServer = ''server''"
definition ExceptionDispositionApplied :: string where "ExceptionDispositionApplied = ''applied''"
definition ExceptionDispositionExpired :: string where "ExceptionDispositionExpired = ''expired''"
definition ExceptionDispositionNotApplicable :: string where "ExceptionDispositionNotApplicable = ''not_applicable''"

record policy_exception =
  pe_FindingID :: string
  pe_RuleID :: string
  pe_Reason :: string
  pe_Author :: string
  pe_ExpiresAt :: gotime
  pe_Source :: string

record policy_layer =
  pl_Name :: string
  pl_Source :: string
  pl_RequireReleaseBaseline :: bool
  pl_Rules :: "(string, string) go_map"
  pl_Exceptions :: "policy_exception list"

record effective_policy =
  ep_Layers :: "policy_layer list"
  ep_RequireReleaseBaseline :: bool

record finding_decision =
  fd_Finding :: spec_change
  fd_Level :: string
  fd_Source :: string
  fd_LayerName :: string
  fd_Excepted :: bool

record exception_disposition =
  pd_LayerName :: string
  pd_Disposition :: string
  pd_Exception :: policy_exception

record policy_result =
  po_Verdict :: string
  po_Decisions :: "finding_decision slice"
  po_AppliedExceptions :: "policy_exception slice"
  po_ExceptionDispositions :: "exception_disposition slice"

section \<open>Rules and levels\<close>

definition supportedRuleRegistry :: "(string \<times> string) list" where
  "supportedRuleRegistry =
     [(RuleOperationRemoved, RuleLevelFail), (RuleOperationAdded, RuleLevelAllow),
      (RuleRequiredParameterAdded, RuleLevelFail), (RuleParameterBecameRequired, RuleLevelFail),
      (RuleRequestBodyBecameRequired, RuleLevelFail), (RuleResponseStatusRemoved, RuleLevelFail),
      (RuleResponseStatusAdded, RuleLevelAllow), (RuleSchemaRemoved, RuleLevelFail),
      (RuleSchemaAdded, RuleLevelAllow)]"

definition isSupportedRuleID :: "string \<Rightarrow> bool" where
  "isSupportedRuleID ruleID = list_ex (\<lambda>(i, lvl). i = ruleID) supportedRuleRegistry"

definition repositoryDefaultRules :: "(string, string) go_map" where
  "repositoryDefaultRules = map_from fst snd supportedRuleRegistry"

definition validRuleLevel :: "string \<Rightarrow> bool" where
  "validRuleLevel level \<longleftrightarrow> level = RuleLevelAllow \<or> level = RuleLevelWarn \<or> level = RuleLevelFail"

definition levelRank :: "string \<Rightarrow> int" where
  "levelRank level =
     (if level = RuleLevelAllow then 0 else if level = RuleLevelWarn then 1
      else if level = RuleLevelFail then 2 else - 1)"

definition sortedRuleIDs :: "(string, string) go_map \<Rightarrow> string list" where
  "sortedRuleIDs rules = sort_strings (map_keys rules)"

text \<open>Reading a missing key of a Go map of strings gives the empty string.\<close>

definition rule_level :: "(string, string) go_map \<Rightarrow> string \<Rightarrow> string" where
  "rule_level rules ruleID = (case map_of rules ruleID of Some level \<Rightarrow> level | None \<Rightarrow> [])"

section \<open>Validation and composition of layers\<close>

definition validatePolicyException :: "policy_exception \<Rightarrow> string \<Rightarrow> err" where
  "validatePolicyException e layerSource =
     (let hasFindingID = pe_FindingID e \<noteq> []; hasRuleID = pe_RuleID e \<noteq> [] in first_error
       [validateCanonicalIdentity ''finding id'' (pe_FindingID e) True,
        validateCanonicalIdentity ''rule id'' (pe_RuleID e) True,
        fail_if (hasFindingID = hasRuleID) (Errorf ''exactly one finding id or rule id is required'' []),
        fail_if (hasFindingID \<and> \<not> isLowerSHA256 (pe_FindingID e))
          (Errorf ''finding id must be exactly 64 lowercase hexadecimal characters'' []),
        fail_if (hasRuleID \<and> \<not> isSupportedRuleID (pe_RuleID e)) (Errorf ''unknown rule %q'' [pe_RuleID e]),
        fail_if (TrimSpace (pe_Reason e) = []) (Errorf ''reason is required'' []),
        fail_if (\<not> utf8_valid (pe_Reason e)) (Errorf ''reason must contain valid UTF-8'' []),
        validateCanonicalIdentity ''author'' (pe_Author e) False,
        fail_if (time_IsZero (pe_ExpiresAt e)) (Errorf ''expiry is required'' []),
        fail_if (pe_Source e \<noteq> layerSource)
          (Errorf ''source %q does not match layer source %q'' [pe_Source e, layerSource])])"

definition validPolicyException :: "policy_exception \<Rightarrow> string \<Rightarrow> bool" where
  "validPolicyException e layerSource \<longleftrightarrow> validatePolicyException e layerSource = None"

definition validateLayer :: "policy_layer \<Rightarrow> err" where
  "validateLayer layer = first_error
     [validateCanonicalIdentity ''name'' (pl_Name layer) False,
      fail_if (pl_Source layer \<noteq> PolicySourceRepository \<and> pl_Source layer \<noteq> PolicySourceServer)
        (Errorf ''source %q is invalid'' [pl_Source layer]),
      each (\<lambda>ruleID. first_error
        [validateCanonicalIdentity ''rule id'' ruleID False,
         fail_if (\<not> isSupportedRuleID ruleID) (Errorf ''unknown rule %q'' [ruleID]),
         fail_if (\<not> validRuleLevel (rule_level (pl_Rules layer) ruleID))
           (Errorf ''rule %q has invalid level %q'' [ruleID, rule_level (pl_Rules layer) ruleID])])
        (sortedRuleIDs (pl_Rules layer)),
      each_index (\<lambda>i e. wrap_err (Wrapf ''exception %d: %w'' [itoa i]) (validatePolicyException e (pl_Source layer)))
        (pl_Exceptions layer)]"

definition clonePolicyException :: "policy_exception \<Rightarrow> policy_exception" where
  "clonePolicyException e = e\<lparr>pe_ExpiresAt := time_UTC (pe_ExpiresAt e)\<rparr>"

definition clonePolicyLayer :: "policy_layer \<Rightarrow> policy_layer" where
  "clonePolicyLayer layer = layer\<lparr>pl_Rules := map_from fst snd (pl_Rules layer),
     pl_Exceptions := map clonePolicyException (pl_Exceptions layer)\<rparr>"

definition normalizedRepositoryLayer :: "policy_layer \<Rightarrow> policy_layer result" where
  "normalizedRepositoryLayer layer =
     require (wrap_err (Wrapf ''repository policy layer %q: %w'' [pl_Name layer]) (validateLayer layer))
       (Inr ((clonePolicyLayer layer)\<lparr>pl_Rules :=
          fold (\<lambda>(ruleID, level). map_put ruleID level) (pl_Rules layer) repositoryDefaultRules\<rparr>))"

text \<open>The check of one server layer against the repository layer.\<close>

definition validateServerLayer :: "policy_layer \<Rightarrow> nat \<Rightarrow> policy_layer \<Rightarrow> err" where
  "validateServerLayer repository i layer = first_error
     [fail_if (pl_Source layer \<noteq> PolicySourceServer) (Errorf ''policy layer %d must be server'' [itoa (i + 1)]),
      wrap_err (Wrapf ''policy layer %q: %w'' [pl_Name layer]) (validateLayer layer),
      each (\<lambda>(ruleID, level). fail_if (levelRank level < levelRank (rule_level (pl_Rules repository) ruleID))
          (Errorf ''server rule %q cannot weaken repository level %q'' [ruleID, rule_level (pl_Rules repository) ruleID]))
        (pl_Rules layer)]"

definition MergePolicy :: "policy_layer list \<Rightarrow> effective_policy result" where
  "MergePolicy layers =
     (case layers of
        [] \<Rightarrow> Inl (Errorf ''policy requires one repository layer'' [])
      | first # servers \<Rightarrow>
          if pl_Source first \<noteq> PolicySourceRepository
            then Inl (Errorf ''first policy layer must be repository'' [])
          else bind_res (normalizedRepositoryLayer first) (\<lambda>repository.
            require (each_index (validateServerLayer repository) servers)
              (Inr \<lparr>ep_Layers = repository # map clonePolicyLayer servers,
                    ep_RequireReleaseBaseline =
                      pl_RequireReleaseBaseline repository \<or> list_ex pl_RequireReleaseBaseline servers\<rparr>)))"

section \<open>Evaluation\<close>

definition defaultLevelForFinding :: "spec_change \<Rightarrow> string" where
  "defaultLevelForFinding finding =
     (if ch_Severity finding = SpecChangeBreaking then RuleLevelFail else RuleLevelAllow)"

definition contributionLevel :: "policy_layer \<Rightarrow> spec_change \<Rightarrow> string \<times> bool" where
  "contributionLevel layer finding =
     (case map_of (pl_Rules layer) (ch_RuleID finding) of
        Some level \<Rightarrow> (level, True)
      | None \<Rightarrow> if pl_Source layer = PolicySourceRepository then (defaultLevelForFinding finding, True)
                else ([], False))"

definition exceptionMatches :: "policy_layer \<Rightarrow> spec_change \<Rightarrow> gotime \<Rightarrow> policy_exception \<Rightarrow> bool" where
  "exceptionMatches layer finding evaluatedAt e \<longleftrightarrow>
     pe_Source e = pl_Source layer \<and> validPolicyException e (pl_Source layer) \<and>
     time_Before evaluatedAt (pe_ExpiresAt e) \<and>
     ((pe_FindingID e \<noteq> [] \<and> pe_FindingID e = ch_ID finding) \<or>
      (pe_RuleID e \<noteq> [] \<and> pe_RuleID e = ch_RuleID finding))"

definition matchingExceptions :: "policy_layer \<Rightarrow> spec_change \<Rightarrow> gotime \<Rightarrow> nat list" where
  "matchingExceptions layer finding evaluatedAt =
     map fst (filter (\<lambda>(i, e). exceptionMatches layer finding evaluatedAt e) (enumerate 0 (pl_Exceptions layer)))"

record eval_state =
  es_Verdict :: string
  es_Decisions :: "finding_decision list"
  es_Applied :: "policy_exception list"
  es_Dispositions :: "exception_disposition list"
  es_Seen :: "(nat \<times> nat) list"

text \<open>The exceptions of all layers, as the references and initial dispositions of the first loop.\<close>

definition exception_refs :: "policy_layer list \<Rightarrow> (nat \<times> nat) list" where
  "exception_refs layers =
     concat (map (\<lambda>(li, layer). map (Pair li) [0..<length (pl_Exceptions layer)]) (enumerate 0 layers))"

definition initial_dispositions :: "policy_layer list \<Rightarrow> gotime \<Rightarrow> exception_disposition list" where
  "initial_dispositions layers evaluatedAt =
     concat (map (\<lambda>layer. map (\<lambda>e. \<lparr>pd_LayerName = pl_Name layer,
        pd_Disposition = (if \<not> time_Before evaluatedAt (pe_ExpiresAt e)
                          then ExceptionDispositionExpired else ExceptionDispositionNotApplicable),
        pd_Exception = clonePolicyException e\<rparr>) (pl_Exceptions layer)) layers)"

definition dispositionIndexes :: "policy_layer list \<Rightarrow> ((nat \<times> nat), nat) go_map" where
  "dispositionIndexes layers = (let refs = exception_refs layers in zip refs [0..<length refs])"

definition apply_exception ::
    "((nat \<times> nat), nat) go_map \<Rightarrow> nat \<Rightarrow> policy_layer \<Rightarrow> nat \<Rightarrow> eval_state \<Rightarrow> eval_state" where
  "apply_exception indexes li layer ei st =
     (let ref = (li, ei);
          k = (case map_of indexes ref of Some k \<Rightarrow> k | None \<Rightarrow> 0);
          st = st\<lparr>es_Dispositions := (es_Dispositions st)[k := (es_Dispositions st ! k)\<lparr>pd_Disposition := ExceptionDispositionApplied\<rparr>]\<rparr>
      in if ref \<in> set (es_Seen st) then st
         else st\<lparr>es_Seen := ref # es_Seen st,
                 es_Applied := es_Applied st @ [clonePolicyException (pl_Exceptions layer ! ei)]\<rparr>)"

definition evaluate_contribution ::
    "((nat \<times> nat), nat) go_map \<Rightarrow> gotime \<Rightarrow> spec_change \<Rightarrow> nat \<times> policy_layer \<Rightarrow> eval_state \<Rightarrow> eval_state" where
  "evaluate_contribution indexes evaluatedAt finding lay st =
     (let li = fst lay; layer = snd lay in
      case contributionLevel layer finding of (level, contributes) \<Rightarrow>
        if \<not> contributes then st
        else (let matching = matchingExceptions layer finding evaluatedAt;
                  decision = \<lparr>fd_Finding = finding, fd_Level = level, fd_Source = pl_Source layer,
                              fd_LayerName = pl_Name layer, fd_Excepted = matching \<noteq> []\<rparr>;
                  st = st\<lparr>es_Decisions := es_Decisions st @ [decision]\<rparr>;
                  st = fold (apply_exception indexes li layer) matching st
              in if level = RuleLevelFail \<and> \<not> fd_Excepted decision
                   then st\<lparr>es_Verdict := VerdictFail\<rparr> else st))"

definition evaluate_finding ::
    "((nat \<times> nat), nat) go_map \<Rightarrow> gotime \<Rightarrow> policy_layer list \<Rightarrow> spec_change \<Rightarrow> eval_state \<Rightarrow> eval_state" where
  "evaluate_finding indexes evaluatedAt layers finding st =
     fold (evaluate_contribution indexes evaluatedAt finding) (enumerate 0 layers) st"

definition EvaluateFindings :: "effective_policy \<Rightarrow> spec_change list \<Rightarrow> gotime \<Rightarrow> policy_result" where
  "EvaluateFindings policy findings evaluatedAt =
     (let layers = ep_Layers policy;
          st0 = \<lparr>es_Verdict = VerdictPass, es_Decisions = [], es_Applied = [],
                 es_Dispositions = initial_dispositions layers evaluatedAt, es_Seen = []\<rparr>;
          st = fold (evaluate_finding (dispositionIndexes layers) evaluatedAt layers) findings st0
      in \<lparr>po_Verdict = es_Verdict st, po_Decisions = nil_append (es_Decisions st),
          po_AppliedExceptions = nil_append (es_Applied st),
          po_ExceptionDispositions = nil_append (es_Dispositions st)\<rparr>)"

section \<open>The verdict\<close>

text \<open>A layer blocks a finding when it contributes level fail and none of its exceptions is in force.\<close>

definition layer_blocks :: "gotime \<Rightarrow> spec_change \<Rightarrow> policy_layer \<Rightarrow> bool" where
  "layer_blocks evaluatedAt finding layer \<longleftrightarrow>
     contributionLevel layer finding = (RuleLevelFail, True) \<and>
     (\<forall>e \<in> set (pl_Exceptions layer). \<not> exceptionMatches layer finding evaluatedAt e)"

lemma matchingExceptions_Nil:
  "matchingExceptions layer finding t = [] \<longleftrightarrow> (\<forall>e \<in> set (pl_Exceptions layer). \<not> exceptionMatches layer finding t e)"
  using ball_enumerate [of "pl_Exceptions layer" "\<lambda>e. \<not> exceptionMatches layer finding t e"]
  by (auto simp: matchingExceptions_def filter_empty_conv case_prod_unfold)

lemma apply_exception_keeps [simp]:
  "es_Verdict (apply_exception ix li layer ei st) = es_Verdict st"
  "es_Decisions (apply_exception ix li layer ei st) = es_Decisions st"
  by (simp_all add: apply_exception_def Let_def)

lemma fold_apply_keeps [simp]:
  "es_Verdict (fold (apply_exception ix li layer) es st) = es_Verdict st"
  "es_Decisions (fold (apply_exception ix li layer) es st) = es_Decisions st"
  by (induction es arbitrary: st) auto

lemma evaluate_contribution_verdict:
  "es_Verdict (evaluate_contribution ix t finding (li, layer) st) =
     (if layer_blocks t finding layer then VerdictFail else es_Verdict st)"
  by (auto simp: evaluate_contribution_def Let_def layer_blocks_def matchingExceptions_Nil split: prod.split)

lemma fold_if_const:
  "(\<And>x s. v (f x s) = (if P x then c else v s)) \<Longrightarrow> v (fold f xs s) = (if \<exists>x \<in> set xs. P x then c else v s)"
  by (induction xs arbitrary: s) auto

lemma evaluate_finding_verdict:
  "es_Verdict (evaluate_finding ix t layers finding st) =
     (if \<exists>layer \<in> set layers. layer_blocks t finding layer then VerdictFail else es_Verdict st)"
proof -
  have "es_Verdict (evaluate_finding ix t layers finding st) =
     (if \<exists>lay \<in> set (enumerate 0 layers). layer_blocks t finding (snd lay) then VerdictFail else es_Verdict st)"
    unfolding evaluate_finding_def
    by (rule fold_if_const) (metis evaluate_contribution_verdict prod.collapse)
  then show ?thesis by simp
qed

lemma EvaluateFindings_verdict:
  "po_Verdict (EvaluateFindings policy findings t) =
     (if \<exists>finding \<in> set findings. \<exists>layer \<in> set (ep_Layers policy). layer_blocks t finding layer
      then VerdictFail else VerdictPass)"
  unfolding EvaluateFindings_def Let_def
  by (simp add: fold_if_const [where v = es_Verdict, OF evaluate_finding_verdict])

text \<open>
  C25: The verdict is exactly the policy's meaning: it is fail when some layer contributes level fail to
  some finding and has no valid, unexpired exception of its own source for that finding or its
  rule, and pass otherwise; no other verdict occurs.
\<close>

theorem verdict_iff_uncovered_failure:
  "po_Verdict (EvaluateFindings policy findings evaluatedAt) =
     (if \<exists>finding \<in> set findings. \<exists>layer \<in> set (ep_Layers policy).
          contributionLevel layer finding = (RuleLevelFail, True) \<and>
          \<not> (\<exists>e \<in> set (pl_Exceptions layer). validatePolicyException e (pl_Source layer) = None \<and>
               time_Before evaluatedAt (pe_ExpiresAt e) \<and>
               ((pe_FindingID e \<noteq> [] \<and> pe_FindingID e = ch_ID finding) \<or>
                (pe_RuleID e \<noteq> [] \<and> pe_RuleID e = ch_RuleID finding)))
      then VerdictFail else VerdictPass)"
proof -
  have "exceptionMatches layer finding evaluatedAt e \<longleftrightarrow>
      validatePolicyException e (pl_Source layer) = None \<and> time_Before evaluatedAt (pe_ExpiresAt e) \<and>
      ((pe_FindingID e \<noteq> [] \<and> pe_FindingID e = ch_ID finding) \<or> (pe_RuleID e \<noteq> [] \<and> pe_RuleID e = ch_RuleID finding))"
    for layer finding e
    by (auto simp: exceptionMatches_def validPolicyException_def validatePolicyException_def Let_def)
  then show ?thesis by (simp add: EvaluateFindings_verdict layer_blocks_def)
qed

section \<open>Composition\<close>

lemma map_from_fst_snd: "distinct (map_keys m) \<Longrightarrow> map_of (map_from fst snd m) = map_of m"
proof (induction m rule: rev_induct)
  case Nil
  show ?case by (simp add: map_from_def)
next
  case (snoc p m)
  then show ?case by (cases p) (simp add: map_from_snoc map_keys_def map_of_snoc del: map_of_append)
qed

lemma map_of_fold_put_pairs:
  "distinct (map_keys xs) \<Longrightarrow> map_of (fold (\<lambda>(k, v). map_put k v) xs m) = map_of m ++ map_of xs"
proof (induction xs rule: rev_induct)
  case (snoc p xs)
  then have "map_of (fold (\<lambda>(k, v). map_put k v) (xs @ [p]) m) = (map_of m ++ map_of xs)(fst p \<mapsto> snd p)"
    by (cases p) (simp add: map_keys_def)
  moreover have "map_of (xs @ [p]) = (map_of xs)(fst p \<mapsto> snd p)"
    using snoc.prems map_of_snoc [of "fst p" xs "snd p"] by (simp add: map_keys_def)
  moreover have "(map_of m ++ map_of xs)(fst p \<mapsto> snd p) = map_of m ++ (map_of xs)(fst p \<mapsto> snd p)"
    by (rule map_add_upd [symmetric])
  ultimately show ?case by (simp only:)
qed simp

lemma MergePolicy_Inr:
  "MergePolicy layers = Inr p \<longleftrightarrow>
     (\<exists>first servers repo. layers = first # servers \<and> pl_Source first = PolicySourceRepository \<and>
        normalizedRepositoryLayer first = Inr repo \<and>
        (\<forall>i < length servers. validateServerLayer repo i (servers ! i) = None) \<and>
        p = \<lparr>ep_Layers = repo # map clonePolicyLayer servers,
             ep_RequireReleaseBaseline = pl_RequireReleaseBaseline repo \<or> list_ex pl_RequireReleaseBaseline servers\<rparr>)"
  by (auto simp: MergePolicy_def split: list.splits)

text \<open>
  C27: Server layers only tighten a policy. Adding server layers to an accepted composition never
  removes a requirement for a release baseline and never turns a failing evaluation into a passing
  one, for any findings at any time.
\<close>

theorem server_layers_only_tighten:
  assumes "MergePolicy layers = Inr p" and "MergePolicy (layers @ extra) = Inr p'"
  shows "(ep_RequireReleaseBaseline p \<longrightarrow> ep_RequireReleaseBaseline p') \<and>
    (po_Verdict (EvaluateFindings p findings evaluatedAt) = VerdictFail \<longrightarrow>
     po_Verdict (EvaluateFindings p' findings evaluatedAt) = VerdictFail)"
proof -
  have "set (ep_Layers p) \<subseteq> set (ep_Layers p')" "ep_RequireReleaseBaseline p \<longrightarrow> ep_RequireReleaseBaseline p'"
    using assms by (auto simp: MergePolicy_Inr)
  then show ?thesis by (auto simp: EvaluateFindings_verdict split: if_splits)
qed

lemma distinct_default_rules: "distinct (map_keys repositoryDefaultRules)"
  by (simp add: repositoryDefaultRules_def map_from_props)

lemma isSupported_iff: "isSupportedRuleID r \<longleftrightarrow> r \<in> fst ` set supportedRuleRegistry"
  by (auto simp: isSupportedRuleID_def list_ex_iff rev_image_eqI)

lemma registry_distinct: "distinct (map fst supportedRuleRegistry)"
  by (simp add: supportedRuleRegistry_def RuleOperationRemoved_def RuleOperationAdded_def RuleRequiredParameterAdded_def
      RuleParameterBecameRequired_def RuleRequestBodyBecameRequired_def RuleResponseStatusRemoved_def
      RuleResponseStatusAdded_def RuleSchemaRemoved_def RuleSchemaAdded_def)

lemma default_rules_lookup: "map_of repositoryDefaultRules = map_of supportedRuleRegistry"
  unfolding repositoryDefaultRules_def
  by (rule map_from_fst_snd) (use registry_distinct in \<open>simp add: map_keys_def\<close>)

lemma repository_rules:
  assumes "normalizedRepositoryLayer layer = Inr repo" and "distinct (map_keys (pl_Rules layer))"
  shows "map_of (pl_Rules repo) = map_of supportedRuleRegistry ++ map_of (pl_Rules layer)"
  using assms by (auto simp: normalizedRepositoryLayer_def map_of_fold_put_pairs default_rules_lookup)

text \<open>
  No composition weakens the repository. In every accepted composition each rule of each server
  layer is a supported rule with a valid level that ranks at least as high as the level the
  repository gives that rule: its own override or else the built-in default.
\<close>

theorem merge_never_weakens:
  assumes "MergePolicy (repository # servers) = Inr p" and "distinct (map_keys (pl_Rules repository))"
    and "server \<in> set servers" and "(ruleID, level) \<in> set (pl_Rules server)"
    and "distinct (map_keys (pl_Rules server))"
  shows "isSupportedRuleID ruleID \<and> validRuleLevel level \<and>
    (\<exists>base. (map_of supportedRuleRegistry ++ map_of (pl_Rules repository)) ruleID = Some base \<and>
       levelRank base \<le> levelRank level)"
proof -
  obtain repo where repo: "normalizedRepositoryLayer repository = Inr repo"
    and sv: "\<forall>i < length servers. validateServerLayer repo i (servers ! i) = None"
    using assms(1) by (auto simp: MergePolicy_Inr)
  obtain i where i: "i < length servers" "servers ! i = server" using assms(3) by (auto simp: in_set_conv_nth)
  have look: "rule_level (pl_Rules server) ruleID = level"
    using assms(4,5) by (simp add: rule_level_def map_keys_def)
  have v: "validateServerLayer repo i server = None" using sv i by auto
  then have rank: "levelRank (rule_level (pl_Rules repo) ruleID) \<le> levelRank level"
    using assms(4) by (auto simp: validateServerLayer_def)
  have "ruleID \<in> set (sortedRuleIDs (pl_Rules server))"
    using assms(4) by (force simp: sortedRuleIDs_def map_keys_def)
  then have sup: "isSupportedRuleID ruleID" "validRuleLevel level"
    using v look by (auto simp: validateServerLayer_def validateLayer_def)
  have "map_of supportedRuleRegistry ruleID \<noteq> None"
    using sup(1) by (simp add: isSupported_iff map_of_eq_None_iff)
  then obtain base where "(map_of supportedRuleRegistry ++ map_of (pl_Rules repository)) ruleID = Some base"
    by (cases "map_of (pl_Rules repository) ruleID") (auto simp: map_add_def)
  then show ?thesis
    using sup rank repository_rules [OF repo assms(2)] by (auto simp: rule_level_def)
qed

section \<open>What happens to each exception\<close>

definition disposition_of :: "gotime \<Rightarrow> spec_change list \<Rightarrow> policy_layer \<Rightarrow> policy_exception \<Rightarrow> string" where
  "disposition_of t findings layer e =
     (if \<exists>f \<in> set findings. snd (contributionLevel layer f) \<and> exceptionMatches layer f t e
        then ExceptionDispositionApplied
      else if \<not> time_Before t (pe_ExpiresAt e) then ExceptionDispositionExpired
      else ExceptionDispositionNotApplicable)"

definition ref_hit :: "gotime \<Rightarrow> policy_layer list \<Rightarrow> spec_change \<Rightarrow> (nat \<times> nat) set" where
  "ref_hit t layers f = {(li, ei). li < length layers \<and> snd (contributionLevel (layers ! li) f) \<and>
     ei \<in> set (matchingExceptions (layers ! li) f t)}"

lemma set_matching:
  "ei \<in> set (matchingExceptions layer f t) \<longleftrightarrow>
     ei < length (pl_Exceptions layer) \<and> exceptionMatches layer f t (pl_Exceptions layer ! ei)"
  by (auto simp: matchingExceptions_def set_enumerate0 image_iff)

lemma refs_set:
  "set (exception_refs layers) = {(li, ei). li < length layers \<and> ei < length (pl_Exceptions (layers ! li))}"
  by (auto simp: exception_refs_def set_enumerate0)

lemma distinct_concat_pairs: "distinct (map fst xs) \<Longrightarrow> distinct (concat (map (\<lambda>(a, b). map (Pair a) [0..<g b]) xs))"
proof (induction xs)
  case (Cons p xs)
  have "fst p \<notin> fst ` set xs" using Cons.prems by simp
  then show ?case using Cons by (auto simp: distinct_map inj_on_def case_prod_unfold)
qed simp

lemma refs_distinct: "distinct (exception_refs layers)"
  unfolding exception_refs_def
  using distinct_concat_pairs [of "enumerate 0 layers" "\<lambda>l. length (pl_Exceptions l)"] by simp

lemma index_of_ref:
  "k < length (exception_refs layers) \<Longrightarrow> map_of (dispositionIndexes layers) (exception_refs layers ! k) = Some k"
  by (simp add: dispositionIndexes_def Let_def map_of_zip_nth refs_distinct)

definition ref_exception :: "policy_layer list \<Rightarrow> nat \<times> nat \<Rightarrow> policy_exception" where
  "ref_exception layers r = pl_Exceptions (layers ! fst r) ! snd r"

definition ref_disposition :: "gotime \<Rightarrow> policy_layer list \<Rightarrow> (nat \<times> nat) set \<Rightarrow> nat \<times> nat \<Rightarrow> exception_disposition" where
  "ref_disposition t layers H r = \<lparr>pd_LayerName = pl_Name (layers ! fst r),
     pd_Disposition = (if r \<in> H then ExceptionDispositionApplied
       else if \<not> time_Before t (pe_ExpiresAt (ref_exception layers r)) then ExceptionDispositionExpired
       else ExceptionDispositionNotApplicable),
     pd_Exception = clonePolicyException (ref_exception layers r)\<rparr>"

lemma map_refs:
  "map g (exception_refs layers) =
     concat (map (\<lambda>(li, layer). map (\<lambda>ei. g (li, ei)) [0..<length (pl_Exceptions layer)]) (enumerate 0 layers))"
  by (simp add: exception_refs_def map_concat case_prod_unfold comp_def)

lemma concat_layers_refs:
  assumes "\<And>li ei. li < length layers \<Longrightarrow> ei < length (pl_Exceptions (layers ! li)) \<Longrightarrow>
    g (li, ei) = d (layers ! li) (pl_Exceptions (layers ! li) ! ei)"
  shows "map g (exception_refs layers) = concat (map (\<lambda>layer. map (d layer) (pl_Exceptions layer)) layers)"
proof -
  have "map (\<lambda>ei. g (li, ei)) [0..<length (pl_Exceptions layer)] = map (d layer) (pl_Exceptions layer)"
    if "(li, layer) \<in> set (enumerate 0 layers)" for li layer
    using that assms by (intro nth_equalityI) (auto simp: set_enumerate0)
  then have "map g (exception_refs layers) =
      concat (map (\<lambda>(li, layer). map (d layer) (pl_Exceptions layer)) (enumerate 0 layers))"
    unfolding map_refs by (intro arg_cong [where f = concat] map_cong refl) auto
  also have "\<dots> = concat (map ((\<lambda>layer. map (d layer) (pl_Exceptions layer)) \<circ> snd) (enumerate 0 layers))"
    by (simp add: case_prod_unfold comp_def)
  finally show ?thesis unfolding map_map [symmetric] by simp
qed

definition eval_inv :: "gotime \<Rightarrow> policy_layer list \<Rightarrow> (nat \<times> nat) set \<Rightarrow> eval_state \<Rightarrow> bool" where
  "eval_inv t layers H st \<longleftrightarrow> H \<subseteq> set (exception_refs layers) \<and> set (es_Seen st) = H \<and> distinct (es_Seen st) \<and>
     es_Dispositions st = map (ref_disposition t layers H) (exception_refs layers) \<and>
     es_Applied st = map (\<lambda>r. clonePolicyException (ref_exception layers r)) (rev (es_Seen st))"

lemma apply_exception_inv:
  assumes inv: "eval_inv t layers H st" and r: "(li, ei) \<in> set (exception_refs layers)"
  shows "eval_inv t layers (insert (li, ei) H) (apply_exception (dispositionIndexes layers) li (layers ! li) ei st)"
proof -
  let ?refs = "exception_refs layers"
  obtain k where k: "k < length ?refs" "?refs ! k = (li, ei)" using r by (auto simp: in_set_conv_nth)
  have ix: "map_of (dispositionIndexes layers) (li, ei) = Some k" using index_of_ref [OF k(1)] k(2) by simp
  have other: "?refs ! j = (li, ei) \<longleftrightarrow> j = k" if "j < length ?refs" for j
    using nth_eq_iff_index_eq [OF refs_distinct that k(1)] k(2) by simp
  have "(map (ref_disposition t layers H) ?refs)
      [k := (map (ref_disposition t layers H) ?refs ! k)\<lparr>pd_Disposition := ExceptionDispositionApplied\<rparr>] =
      map (ref_disposition t layers (insert (li, ei) H)) ?refs"
    using k other by (intro nth_equalityI) (auto simp: nth_list_update ref_disposition_def)
  then show ?thesis
    using inv r ix by (auto simp: eval_inv_def apply_exception_def Let_def ref_exception_def insert_absorb)
qed

lemma fold_apply_inv:
  assumes "eval_inv t layers H st" and "\<forall>ei \<in> set es. (li, ei) \<in> set (exception_refs layers)"
  shows "eval_inv t layers (H \<union> Pair li ` set es) (fold (apply_exception (dispositionIndexes layers) li (layers ! li)) es st)"
  using assms
proof (induction es arbitrary: st H)
  case (Cons ei es)
  then show ?case using Cons.IH [OF apply_exception_inv [OF Cons.prems(1)], of li ei] by (simp add: Un_insert_left)
qed simp

lemma evaluate_contribution_inv:
  assumes "eval_inv t layers H st" and "li < length layers"
  shows "eval_inv t layers (H \<union> (if snd (contributionLevel (layers ! li) f)
      then Pair li ` set (matchingExceptions (layers ! li) f t) else {}))
    (evaluate_contribution (dispositionIndexes layers) t f (li, layers ! li) st)"
proof (cases "contributionLevel (layers ! li) f")
  case (Pair level contributes)
  show ?thesis
  proof (cases contributes)
    case True
    have i: "eval_inv t layers H (st\<lparr>es_Decisions := ds\<rparr>)" for ds using assms by (simp add: eval_inv_def)
    have v: "eval_inv t layers H' (s\<lparr>es_Verdict := w\<rparr>) = eval_inv t layers H' s" for H' s w by (simp add: eval_inv_def)
    show ?thesis
      using fold_apply_inv [OF i, of "matchingExceptions (layers ! li) f t" li] assms(2) Pair True
      by (auto simp: evaluate_contribution_def Let_def v i set_matching refs_set)
  qed (use assms Pair in \<open>simp add: evaluate_contribution_def\<close>)
qed

lemma evaluate_finding_inv:
  assumes "eval_inv t layers H st"
  shows "eval_inv t layers (H \<union> ref_hit t layers f) (evaluate_finding (dispositionIndexes layers) t layers f st)"
proof -
  let ?hit = "\<lambda>li. if snd (contributionLevel (layers ! li) f) then Pair li ` set (matchingExceptions (layers ! li) f t) else {}"
  have "eval_inv t layers (H \<union> (\<Union>li < n. ?hit li))
      (fold (evaluate_contribution (dispositionIndexes layers) t f) (enumerate 0 (take n layers)) st)"
    if "n \<le> length layers" for n
    using that
  proof (induction n)
    case (Suc n)
    have "enumerate 0 (take (Suc n) layers) = enumerate 0 (take n layers) @ [(n, layers ! n)]"
      using Suc.prems by (simp add: take_Suc_conv_app_nth enumerate_append_eq)
    moreover have "eval_inv t layers ((H \<union> (\<Union>li < n. ?hit li)) \<union> ?hit n)
        (evaluate_contribution (dispositionIndexes layers) t f (n, layers ! n)
          (fold (evaluate_contribution (dispositionIndexes layers) t f) (enumerate 0 (take n layers)) st))"
      using Suc by (intro evaluate_contribution_inv) auto
    moreover have "(H \<union> (\<Union>li < n. ?hit li)) \<union> ?hit n = H \<union> (\<Union>li < Suc n. ?hit li)"
      by (simp only: lessThan_Suc UN_insert) blast
    ultimately show ?case by (simp only: fold_append fold_simps comp_apply)
  qed (use assms in simp)
  from this [of "length layers"] have "eval_inv t layers (H \<union> (\<Union>li < length layers. ?hit li))
      (evaluate_finding (dispositionIndexes layers) t layers f st)"
    by (simp add: evaluate_finding_def)
  moreover have "(\<Union>li < length layers. ?hit li) = ref_hit t layers f"
    by (auto simp: ref_hit_def split: if_splits)
  ultimately show ?thesis by simp
qed

lemma fold_findings_inv:
  "eval_inv t layers H st \<Longrightarrow>
     eval_inv t layers (H \<union> (\<Union>f \<in> set fs. ref_hit t layers f))
       (fold (evaluate_finding (dispositionIndexes layers) t layers) fs st)"
proof (induction fs arbitrary: st H)
  case (Cons f fs)
  show ?case using Cons.IH [OF evaluate_finding_inv [OF Cons.prems, of f]] by (simp add: Un_assoc)
qed simp

lemma initial_inv:
  "eval_inv t layers {} \<lparr>es_Verdict = VerdictPass, es_Decisions = [], es_Applied = [],
     es_Dispositions = initial_dispositions layers t, es_Seen = []\<rparr>"
proof -
  have "map (ref_disposition t layers {}) (exception_refs layers) = initial_dispositions layers t"
    unfolding initial_dispositions_def
    by (rule concat_layers_refs) (simp add: ref_disposition_def ref_exception_def)
  then show ?thesis by (simp add: eval_inv_def)
qed

lemma ref_disposition_final:
  assumes "li < length layers" and "ei < length (pl_Exceptions (layers ! li))"
  shows "pd_Disposition (ref_disposition t layers (\<Union>f \<in> set fs. ref_hit t layers f) (li, ei)) =
    disposition_of t fs (layers ! li) (pl_Exceptions (layers ! li) ! ei)"
  using assms by (auto simp: ref_disposition_def disposition_of_def ref_hit_def set_matching ref_exception_def)

lemma length_filter_refs:
  assumes "distinct refs" and "H \<subseteq> set refs"
  shows "length (filter (\<lambda>r. r \<in> H) refs) = card H"
proof -
  have "card (set (filter (\<lambda>r. r \<in> H) refs)) = card H"
    using assms(2) by (intro arg_cong [where f = card]) auto
  then show ?thesis using distinct_card [OF distinct_filter [OF assms(1)]] by metis
qed

lemma dispositions_differ [simp]:
  "ExceptionDispositionExpired \<noteq> ExceptionDispositionApplied"
  "ExceptionDispositionNotApplicable \<noteq> ExceptionDispositionApplied"
  by (simp_all add: ExceptionDispositionExpired_def ExceptionDispositionApplied_def ExceptionDispositionNotApplicable_def)

text \<open>
  Every exception is accounted for exactly once. The result lists, layer by layer and in order,
  each exception with its disposition: applied when a contributing finding of its layer matches
  it while valid and unexpired, else expired when its time has come, else not applicable; and the
  applied exceptions are as many as the dispositions that say so.
\<close>

theorem every_exception_disposed_once:
  "elems (po_ExceptionDispositions (EvaluateFindings policy findings evaluatedAt)) =
     concat (map (\<lambda>layer. map (\<lambda>e. \<lparr>pd_LayerName = pl_Name layer,
        pd_Disposition = disposition_of evaluatedAt findings layer e,
        pd_Exception = clonePolicyException e\<rparr>) (pl_Exceptions layer)) (ep_Layers policy)) \<and>
   length (elems (po_AppliedExceptions (EvaluateFindings policy findings evaluatedAt))) =
     length (filter (\<lambda>d. pd_Disposition d = ExceptionDispositionApplied)
       (elems (po_ExceptionDispositions (EvaluateFindings policy findings evaluatedAt))))"
proof -
  let ?layers = "ep_Layers policy"
  let ?H = "\<Union>f \<in> set findings. ref_hit evaluatedAt ?layers f"
  let ?refs = "exception_refs ?layers"
  define st where "st = fold (evaluate_finding (dispositionIndexes ?layers) evaluatedAt ?layers) findings
     \<lparr>es_Verdict = VerdictPass, es_Decisions = [], es_Applied = [],
      es_Dispositions = initial_dispositions ?layers evaluatedAt, es_Seen = []\<rparr>"
  have inv: "eval_inv evaluatedAt ?layers ?H st"
    using fold_findings_inv [OF initial_inv, of evaluatedAt ?layers findings] by (simp add: st_def)
  have res: "elems (po_ExceptionDispositions (EvaluateFindings policy findings evaluatedAt)) = es_Dispositions st"
    "elems (po_AppliedExceptions (EvaluateFindings policy findings evaluatedAt)) = es_Applied st"
    by (simp_all add: EvaluateFindings_def Let_def st_def)
  have d: "es_Dispositions st = map (ref_disposition evaluatedAt ?layers ?H) ?refs"
    and s: "?H \<subseteq> set ?refs" "set (es_Seen st) = ?H" "distinct (es_Seen st)" "length (es_Applied st) = length (es_Seen st)"
    using inv by (simp_all add: eval_inv_def)
  have "pd_Disposition (ref_disposition evaluatedAt ?layers ?H r) = ExceptionDispositionApplied \<longleftrightarrow> r \<in> ?H" for r
    by (simp add: ref_disposition_def)
  then have "length (filter (\<lambda>d. pd_Disposition d = ExceptionDispositionApplied) (es_Dispositions st)) =
      length (filter (\<lambda>r. r \<in> ?H) ?refs)"
    unfolding d by (simp add: filter_map comp_def)
  moreover have "length (filter (\<lambda>r. r \<in> ?H) ?refs) = card ?H" by (rule length_filter_refs [OF refs_distinct s(1)])
  moreover have "length (es_Applied st) = card ?H" using s by (metis distinct_card)
  moreover have "map (ref_disposition evaluatedAt ?layers ?H) ?refs =
     concat (map (\<lambda>layer. map (\<lambda>e. \<lparr>pd_LayerName = pl_Name layer,
        pd_Disposition = disposition_of evaluatedAt findings layer e,
        pd_Exception = clonePolicyException e\<rparr>) (pl_Exceptions layer)) ?layers)"
    by (rule concat_layers_refs)
      (use ref_disposition_final [of _ ?layers _ evaluatedAt findings] in
        \<open>simp add: ref_disposition_def ref_exception_def split del: if_split\<close>)
  ultimately show ?thesis unfolding res d by simp
qed

section \<open>The built-in policy\<close>

text \<open>The repository policy that only states its name: built-in levels and no exceptions.\<close>

definition default_layer :: "string \<Rightarrow> policy_layer" where
  "default_layer name = \<lparr>pl_Name = name, pl_Source = PolicySourceRepository, pl_RequireReleaseBaseline = False,
     pl_Rules = [], pl_Exceptions = []\<rparr>"

definition default_policy :: "string \<Rightarrow> effective_policy" where
  "default_policy name = \<lparr>ep_Layers = [(default_layer name)\<lparr>pl_Rules := repositoryDefaultRules\<rparr>],
     ep_RequireReleaseBaseline = False\<rparr>"

lemma MergePolicy_default: "canonical name \<Longrightarrow> MergePolicy [default_layer name] = Inr (default_policy name)"
  by (simp add: MergePolicy_Inr default_layer_def default_policy_def normalizedRepositoryLayer_def validateLayer_def
      sortedRuleIDs_def map_keys_def clonePolicyLayer_def)

lemmas rule_defs = RuleOperationRemoved_def RuleOperationAdded_def RuleRequiredParameterAdded_def
  RuleParameterBecameRequired_def RuleRequestBodyBecameRequired_def RuleResponseStatusRemoved_def
  RuleResponseStatusAdded_def RuleSchemaRemoved_def RuleSchemaAdded_def

lemma default_level:
  "r \<in> set breaking_rules \<Longrightarrow> map_of supportedRuleRegistry r = Some RuleLevelFail"
  "r \<in> set additive_rules \<Longrightarrow> map_of supportedRuleRegistry r = Some RuleLevelAllow"
  by (auto simp: breaking_rules_def additive_rules_def supportedRuleRegistry_def rule_defs)

lemma levels_differ [simp]: "RuleLevelAllow \<noteq> RuleLevelFail" "RuleLevelWarn \<noteq> RuleLevelFail"
  by (simp_all add: RuleLevelAllow_def RuleLevelFail_def RuleLevelWarn_def)

text \<open>
  Under the built-in policy the verdict is the compatibility of the two surfaces: evaluating all
  findings of a comparison passes exactly when the candidate keeps every promise of the baseline.
\<close>

theorem default_policy_passes_iff_compatible:
  assumes "canonical name" and "MergePolicy [default_layer name] = Inr policy"
    and "ValidateContractSnapshot uc baseline = None" and "ValidateContractSnapshot uc candidate = None"
    and "plain_surface baseline" and "plain_surface candidate"
    and "DiffContractSnapshots uc baseline candidate = Inr d"
  shows "po_Verdict (EvaluateFindings policy (df_BreakingChanges d @ df_AdditiveChanges d) evaluatedAt) = VerdictPass \<longleftrightarrow>
    surface_compatible baseline candidate"
proof -
  have p: "policy = default_policy name" using assms(1,2) MergePolicy_default by simp
  have d: "d = diffValidatedContractSnapshots baseline candidate" using assms(7) by (simp add: DiffContractSnapshots_def)
  let ?layer = "(default_layer name)\<lparr>pl_Rules := repositoryDefaultRules\<rparr>"
  have lvl: "contributionLevel ?layer f = (RuleLevelFail, True)" if "finding_ok breaking_rules s f" for f s
    using that default_level(1) by (auto simp: contributionLevel_def default_rules_lookup finding_ok_def)
  have lvl': "contributionLevel ?layer f = (RuleLevelAllow, True)" if "finding_ok additive_rules s f" for f s
    using that default_level(2) by (auto simp: contributionLevel_def default_rules_lookup finding_ok_def)
  have "layer_blocks evaluatedAt f ?layer" if "f \<in> set (df_BreakingChanges d)" for f
    using lvl [OF breaking_changes_ok [OF that [unfolded d]]] by (simp add: layer_blocks_def default_layer_def)
  moreover have "\<not> layer_blocks evaluatedAt f ?layer" if "f \<in> set (df_AdditiveChanges d)" for f
    using lvl' [OF additive_changes_ok [OF that [unfolded d]]] by (simp add: layer_blocks_def)
  ultimately have "po_Verdict (EvaluateFindings policy (df_BreakingChanges d @ df_AdditiveChanges d) evaluatedAt) = VerdictPass \<longleftrightarrow>
      df_BreakingChanges d = []"
    by (cases "df_BreakingChanges d") (auto simp: EvaluateFindings_verdict p default_policy_def)
  then show ?thesis using breaking_Nil_iff [of uc baseline candidate] assms by (simp add: d)
qed

section \<open>Witnesses\<close>

lemma canonical_local: "canonical ''local''" by (rule canonical_ascii) simp_all

definition strict_server :: policy_layer where
  "strict_server = \<lparr>pl_Name = ''central'', pl_Source = PolicySourceServer, pl_RequireReleaseBaseline = True,
     pl_Rules = [(RuleSchemaAdded, RuleLevelFail)], pl_Exceptions = []\<rparr>"

lemma strict_server_valid: "validateLayer strict_server = None"
proof -
  have "canonical ''central''" "canonical RuleSchemaAdded"
    by (rule canonical_ascii; simp add: RuleSchemaAdded_def)+
  then show ?thesis
    by (simp add: validateLayer_def strict_server_def sortedRuleIDs_def map_keys_def sort_slice_def rule_level_def
        validRuleLevel_def isSupportedRuleID_def supportedRuleRegistry_def)
qed

lemma merge_strict:
  "MergePolicy [default_layer ''local'', strict_server] =
     Inr \<lparr>ep_Layers = [(default_layer ''local'')\<lparr>pl_Rules := repositoryDefaultRules\<rparr>, clonePolicyLayer strict_server],
          ep_RequireReleaseBaseline = True\<rparr>"
proof -
  have "normalizedRepositoryLayer (default_layer ''local'') = Inr ((default_layer ''local'')\<lparr>pl_Rules := repositoryDefaultRules\<rparr>)"
    using MergePolicy_default [OF canonical_local] by (simp add: MergePolicy_Inr default_policy_def default_layer_def)
  moreover have "validateServerLayer ((default_layer ''local'')\<lparr>pl_Rules := repositoryDefaultRules\<rparr>) 0 strict_server = None"
    using strict_server_valid default_level(2) [of RuleSchemaAdded]
    by (simp add: validateServerLayer_def) (simp add: strict_server_def rule_level_def default_rules_lookup additive_rules_def
        levelRank_def RuleLevelAllow_def RuleLevelFail_def RuleLevelWarn_def)
  ultimately show ?thesis
    by (simp add: MergePolicy_Inr) (simp add: default_layer_def strict_server_def)
qed

theorem server_layers_only_tighten_witness:
  "\<exists>p'. MergePolicy ([default_layer ''local''] @ [strict_server]) = Inr p' \<and>
     po_Verdict (EvaluateFindings p' [removedSchema ''Pet''] unix_epoch) = VerdictFail"
proof -
  let ?p = "default_policy ''local''"
  have m: "MergePolicy ([default_layer ''local''] @ [strict_server]) =
     Inr \<lparr>ep_Layers = [(default_layer ''local'')\<lparr>pl_Rules := repositoryDefaultRules\<rparr>, clonePolicyLayer strict_server],
          ep_RequireReleaseBaseline = True\<rparr>"
    using merge_strict by simp
  have "contributionLevel ((default_layer ''local'')\<lparr>pl_Rules := repositoryDefaultRules\<rparr>) (removedSchema ''Pet'') = (RuleLevelFail, True)"
    using default_level(1) [of RuleSchemaRemoved]
    by (simp add: contributionLevel_def default_rules_lookup removedSchema_def newSpecChange_def Let_def breaking_rules_def)
  then have "po_Verdict (EvaluateFindings ?p [removedSchema ''Pet''] unix_epoch) = VerdictFail"
    by (simp add: EvaluateFindings_verdict default_policy_def layer_blocks_def) (simp add: default_layer_def)
  then show ?thesis
    using server_layers_only_tighten [OF MergePolicy_default [OF canonical_local] m] m by blast
qed

theorem merge_never_weakens_witness: "levelRank RuleLevelAllow \<le> levelRank RuleLevelFail \<and> isSupportedRuleID RuleSchemaAdded"
proof -
  have "isSupportedRuleID RuleSchemaAdded \<and> validRuleLevel RuleLevelFail \<and>
    (\<exists>base. (map_of supportedRuleRegistry ++ map_of (pl_Rules (default_layer ''local''))) RuleSchemaAdded = Some base \<and>
       levelRank base \<le> levelRank RuleLevelFail)"
    by (rule merge_never_weakens [OF merge_strict, of strict_server])
      (simp_all add: default_layer_def strict_server_def map_keys_def)
  then show ?thesis using default_level(2) [of RuleSchemaAdded] by (simp add: default_layer_def additive_rules_def)
qed

theorem default_policy_passes_iff_compatible_witness:
  "\<exists>d. DiffContractSnapshots ascii_case plain_baseline plain_candidate = Inr d \<and>
     po_Verdict (EvaluateFindings (default_policy ''local'') (df_BreakingChanges d @ df_AdditiveChanges d) unix_epoch) \<noteq> VerdictPass"
proof -
  let ?d = "diffValidatedContractSnapshots plain_baseline plain_candidate"
  have d: "DiffContractSnapshots ascii_case plain_baseline plain_candidate = Inr ?d"
    by (simp add: DiffContractSnapshots_def plain_props)
  have "\<not> surface_compatible plain_baseline plain_candidate"
    by (simp add: surface_compatible_def plain_props verb_operation_def)
  then have "po_Verdict (EvaluateFindings (default_policy ''local'') (df_BreakingChanges ?d @ df_AdditiveChanges ?d) unix_epoch) \<noteq> VerdictPass"
    using default_policy_passes_iff_compatible [OF canonical_local MergePolicy_default [OF canonical_local] _ _ plain_props(5,6) d, of unix_epoch]
      plain_props(1,2) by simp
  with d show ?thesis by blast
qed

end
