(* ===== verification/Review.thy ===== *)
theory Review
  imports Policy
begin

text \<open>
  \<open>domain/review.go\<close>: canonical review reports, their evaluation from snapshots and policy, and the
  validation that rebuilds a release report from independently persisted snapshots. Slices whose
  nil-ness \<open>reflect.DeepEqual\<close> or the JSON encoding sees are kept as slices.
\<close>

section \<open>Data\<close>

definition ReviewSchemaVersion :: string where "ReviewSchemaVersion = ''manja.review/v1''"
definition ComparisonPullRequest :: string where "ComparisonPullRequest = ''pull_request_delta''"
definition ComparisonReleaseImpact :: string where "ComparisonReleaseImpact = ''release_impact''"

record snapshot_ref =
  sf_RevisionID :: string
  sf_SpecDigest :: string
  sf_ContractDigest :: string

record comparison_report =
  cr_Kind :: string
  cr_Baseline :: snapshot_ref
  cr_Candidate :: snapshot_ref
  cr_Findings :: "spec_change slice"
  cr_Policy :: policy_result

record policy_rule_projection =
  rp_RuleID :: string
  rp_Level :: string

record policy_layer_projection =
  lp_Name :: string
  lp_Source :: string
  lp_RequireReleaseBaseline :: bool
  lp_Rules :: "policy_rule_projection slice"
  lp_Exceptions :: "policy_exception slice"

record effective_policy_projection =
  pp_RequireReleaseBaseline :: bool
  pp_Layers :: "policy_layer_projection slice"

record review_report =
  rr_SchemaVersion :: string
  rr_EngineVersion :: string
  rr_ContractID :: string
  rr_EvaluatedAt :: gotime
  rr_EffectivePolicy :: effective_policy_projection
  rr_PolicyDigest :: string
  rr_Verdict :: string
  rr_Comparisons :: "comparison_report slice"

record review_request =
  rq_ContractID :: string
  rq_Target :: contract_snapshot
  rq_Candidate :: contract_snapshot
  rq_Release :: "contract_snapshot option"
  rq_Policy :: effective_policy
  rq_EvaluatedAt :: gotime
  rq_EngineVersion :: string

text \<open>\<open>domain/release.go\<close> declares the persisted review and the evidence bundle.\<close>

record contract_review =
  cv_ID :: string
  cv_ContractID :: string
  cv_BaselineRevisionID :: string
  cv_BaselineSpecDigest :: string
  cv_BaselineContractDigest :: string
  cv_CandidateRevisionID :: string
  cv_CandidateSpecDigest :: string
  cv_CandidateContractDigest :: string
  cv_Report :: review_report

definition zero_report :: review_report where
  "zero_report = \<lparr>rr_SchemaVersion = [], rr_EngineVersion = [], rr_ContractID = [], rr_EvaluatedAt = zero_time,
     rr_EffectivePolicy = \<lparr>pp_RequireReleaseBaseline = False, pp_Layers = NilSlice\<rparr>,
     rr_PolicyDigest = [], rr_Verdict = [], rr_Comparisons = NilSlice\<rparr>"

section \<open>Orders\<close>

text \<open>The loops over pairs of strings that return at the first difference.\<close>

fun compare_fields :: "(string \<times> string) list \<Rightarrow> int" where
  "compare_fields [] = 0"
| "compare_fields ((a, b) # ps) = (if a < b then - 1 else if a > b then 1 else compare_fields ps)"

definition compareSpecChanges :: "spec_change \<Rightarrow> spec_change \<Rightarrow> int" where
  "compareSpecChanges l r = compare_fields
     [(ch_RuleID l, ch_RuleID r), (ch_Subject l, ch_Subject r), (ch_ID l, ch_ID r),
      (ch_Severity l, ch_Severity r), (ch_Kind l, ch_Kind r), (ch_Description l, ch_Description r)]"

definition expiry_text :: "policy_exception \<Rightarrow> string" where
  "expiry_text e = format_rfc3339nano (time_UTC (pe_ExpiresAt e))"

definition comparePolicyExceptions :: "policy_exception \<Rightarrow> policy_exception \<Rightarrow> int" where
  "comparePolicyExceptions l r = compare_fields
     [(pe_FindingID l, pe_FindingID r), (pe_RuleID l, pe_RuleID r), (pe_Reason l, pe_Reason r),
      (pe_Author l, pe_Author r), (expiry_text l, expiry_text r), (pe_Source l, pe_Source r)]"

definition exception_less :: "policy_exception \<Rightarrow> policy_exception \<Rightarrow> bool" where
  "exception_less l r \<longleftrightarrow> comparePolicyExceptions l r < 0"

definition decision_less :: "finding_decision \<Rightarrow> finding_decision \<Rightarrow> bool" where
  "decision_less l r =
     (let comparison = compareSpecChanges (fd_Finding l) (fd_Finding r) in
      if comparison \<noteq> 0 then comparison < 0
      else if fd_Source l \<noteq> fd_Source r then fd_Source l < fd_Source r
      else if fd_LayerName l \<noteq> fd_LayerName r then fd_LayerName l < fd_LayerName r
      else if fd_Level l \<noteq> fd_Level r then fd_Level l < fd_Level r
      else \<not> fd_Excepted l \<and> fd_Excepted r)"

definition disposition_less :: "exception_disposition \<Rightarrow> exception_disposition \<Rightarrow> bool" where
  "disposition_less l r =
     (if pe_Source (pd_Exception l) \<noteq> pe_Source (pd_Exception r)
        then pe_Source (pd_Exception l) < pe_Source (pd_Exception r)
      else if pd_LayerName l \<noteq> pd_LayerName r then pd_LayerName l < pd_LayerName r
      else (let comparison = comparePolicyExceptions (pd_Exception l) (pd_Exception r) in
        if comparison \<noteq> 0 then comparison < 0 else pd_Disposition l < pd_Disposition r))"

definition sortPolicyResult :: "policy_result \<Rightarrow> policy_result" where
  "sortPolicyResult r = r\<lparr>po_Decisions := map_slice (sort_slice decision_less) (po_Decisions r),
     po_AppliedExceptions := map_slice (sort_slice exception_less) (po_AppliedExceptions r),
     po_ExceptionDispositions := map_slice (sort_slice disposition_less) (po_ExceptionDispositions r)\<rparr>"

section \<open>The JSON forms\<close>

definition json_exception :: "policy_exception \<Rightarrow> json" where
  "json_exception e = JObj (omit_str ''findingId'' (pe_FindingID e) @ omit_str ''ruleId'' (pe_RuleID e) @
     field ''reason'' (JStr (pe_Reason e)) @ field ''author'' (JStr (pe_Author e)) @
     field ''expiresAt'' (json_time (pe_ExpiresAt e)) @ field ''source'' (JStr (pe_Source e)))"

definition json_rule :: "policy_rule_projection \<Rightarrow> json" where
  "json_rule r = JObj [(''ruleId'', JStr (rp_RuleID r)), (''level'', JStr (rp_Level r))]"

definition json_layer :: "policy_layer_projection \<Rightarrow> json" where
  "json_layer l = JObj [(''name'', JStr (lp_Name l)), (''source'', JStr (lp_Source l)),
     (''requireReleaseBaseline'', JBool (lp_RequireReleaseBaseline l)),
     (''rules'', json_slice json_rule (lp_Rules l)), (''exceptions'', json_slice json_exception (lp_Exceptions l))]"

definition json_policy :: "effective_policy_projection \<Rightarrow> json" where
  "json_policy p = JObj [(''requireReleaseBaseline'', JBool (pp_RequireReleaseBaseline p)),
     (''layers'', json_slice json_layer (pp_Layers p))]"

definition json_finding :: "spec_change \<Rightarrow> json" where
  "json_finding f = JObj [(''id'', JStr (ch_ID f)), (''ruleId'', JStr (ch_RuleID f)), (''severity'', JStr (ch_Severity f)),
     (''kind'', JStr (ch_Kind f)), (''subject'', JStr (ch_Subject f)), (''description'', JStr (ch_Description f))]"

definition json_decision :: "finding_decision \<Rightarrow> json" where
  "json_decision d = JObj [(''finding'', json_finding (fd_Finding d)), (''level'', JStr (fd_Level d)),
     (''source'', JStr (fd_Source d)), (''layerName'', JStr (fd_LayerName d)), (''excepted'', JBool (fd_Excepted d))]"

definition json_disposition :: "exception_disposition \<Rightarrow> json" where
  "json_disposition d = JObj [(''layerName'', JStr (pd_LayerName d)), (''disposition'', JStr (pd_Disposition d)),
     (''exception'', json_exception (pd_Exception d))]"

definition json_result :: "policy_result \<Rightarrow> json" where
  "json_result r = JObj (field ''verdict'' (JStr (po_Verdict r)) @
     field ''decisions'' (json_slice json_decision (po_Decisions r)) @
     omit_slice ''appliedExceptions'' json_exception (po_AppliedExceptions r) @
     omit_slice ''exceptionDispositions'' json_disposition (po_ExceptionDispositions r))"

definition json_ref :: "snapshot_ref \<Rightarrow> json" where
  "json_ref r = JObj [(''revisionId'', JStr (sf_RevisionID r)), (''specDigest'', JStr (sf_SpecDigest r)),
     (''contractDigest'', JStr (sf_ContractDigest r))]"

definition json_comparison :: "comparison_report \<Rightarrow> json" where
  "json_comparison c = JObj [(''kind'', JStr (cr_Kind c)), (''baseline'', json_ref (cr_Baseline c)),
     (''candidate'', json_ref (cr_Candidate c)), (''findings'', json_slice json_finding (cr_Findings c)),
     (''policy'', json_result (cr_Policy c))]"

definition json_report :: "review_report \<Rightarrow> json" where
  "json_report r = JObj [(''schemaVersion'', JStr (rr_SchemaVersion r)), (''engineVersion'', JStr (rr_EngineVersion r)),
     (''contractId'', JStr (rr_ContractID r)), (''evaluatedAt'', json_time (rr_EvaluatedAt r)),
     (''effectivePolicy'', json_policy (rr_EffectivePolicy r)), (''policyDigest'', JStr (rr_PolicyDigest r)),
     (''verdict'', JStr (rr_Verdict r)), (''comparisons'', json_slice json_comparison (rr_Comparisons r))]"

text \<open>Marshalling fails exactly on a time it cannot format.\<close>

definition layer_times_ok :: "policy_layer_projection \<Rightarrow> bool" where
  "layer_times_ok l \<longleftrightarrow> list_all (\<lambda>e. time_marshal_ok (pe_ExpiresAt e)) (elems (lp_Exceptions l))"

definition policy_times_ok :: "effective_policy_projection \<Rightarrow> bool" where
  "policy_times_ok p \<longleftrightarrow> list_all layer_times_ok (elems (pp_Layers p))"

definition result_times_ok :: "policy_result \<Rightarrow> bool" where
  "result_times_ok r \<longleftrightarrow> list_all (\<lambda>e. time_marshal_ok (pe_ExpiresAt e)) (elems (po_AppliedExceptions r)) \<and>
     list_all (\<lambda>d. time_marshal_ok (pe_ExpiresAt (pd_Exception d))) (elems (po_ExceptionDispositions r))"

definition report_times_ok :: "review_report \<Rightarrow> bool" where
  "report_times_ok r \<longleftrightarrow> time_marshal_ok (rr_EvaluatedAt r) \<and> policy_times_ok (rr_EffectivePolicy r) \<and>
     list_all (\<lambda>c. result_times_ok (cr_Policy c)) (elems (rr_Comparisons r))"

section \<open>The report as the reflective walk sees it\<close>

definition rv_slice :: "('a \<Rightarrow> rvalue) \<Rightarrow> 'a slice \<Rightarrow> rvalue" where
  "rv_slice f s = RSeq (map f (elems s))"

definition rv_exception :: "policy_exception \<Rightarrow> rvalue" where
  "rv_exception e = RStruct [(''FindingID'', RStr (pe_FindingID e)), (''RuleID'', RStr (pe_RuleID e)),
     (''Reason'', RStr (pe_Reason e)), (''Author'', RStr (pe_Author e)), (''ExpiresAt'', RStruct []),
     (''Source'', RStr (pe_Source e))]"

definition rv_layer_projection :: "policy_layer_projection \<Rightarrow> rvalue" where
  "rv_layer_projection l = RStruct [(''Name'', RStr (lp_Name l)), (''Source'', RStr (lp_Source l)),
     (''RequireReleaseBaseline'', ROther),
     (''Rules'', rv_slice (\<lambda>r. RStruct [(''RuleID'', RStr (rp_RuleID r)), (''Level'', RStr (rp_Level r))]) (lp_Rules l)),
     (''Exceptions'', rv_slice rv_exception (lp_Exceptions l))]"

definition rv_change :: "spec_change \<Rightarrow> rvalue" where
  "rv_change f = RStruct [(''ID'', RStr (ch_ID f)), (''RuleID'', RStr (ch_RuleID f)), (''Severity'', RStr (ch_Severity f)),
     (''Kind'', RStr (ch_Kind f)), (''Subject'', RStr (ch_Subject f)), (''Description'', RStr (ch_Description f))]"

definition rv_ref :: "snapshot_ref \<Rightarrow> rvalue" where
  "rv_ref r = RStruct [(''RevisionID'', RStr (sf_RevisionID r)), (''SpecDigest'', RStr (sf_SpecDigest r)),
     (''ContractDigest'', RStr (sf_ContractDigest r))]"

definition rv_result :: "policy_result \<Rightarrow> rvalue" where
  "rv_result r = RStruct [(''Verdict'', RStr (po_Verdict r)),
     (''Decisions'', rv_slice (\<lambda>d. RStruct [(''Finding'', rv_change (fd_Finding d)), (''Level'', RStr (fd_Level d)),
        (''Source'', RStr (fd_Source d)), (''LayerName'', RStr (fd_LayerName d)), (''Excepted'', ROther)]) (po_Decisions r)),
     (''AppliedExceptions'', rv_slice rv_exception (po_AppliedExceptions r)),
     (''ExceptionDispositions'', rv_slice (\<lambda>d. RStruct [(''LayerName'', RStr (pd_LayerName d)),
        (''Disposition'', RStr (pd_Disposition d)), (''Exception'', rv_exception (pd_Exception d))])
        (po_ExceptionDispositions r))]"

definition rv_comparison :: "comparison_report \<Rightarrow> rvalue" where
  "rv_comparison c = RStruct [(''Kind'', RStr (cr_Kind c)), (''Baseline'', rv_ref (cr_Baseline c)),
     (''Candidate'', rv_ref (cr_Candidate c)), (''Findings'', rv_slice rv_change (cr_Findings c)),
     (''Policy'', rv_result (cr_Policy c))]"

definition rv_report :: "review_report \<Rightarrow> rvalue" where
  "rv_report r = RStruct [(''SchemaVersion'', RStr (rr_SchemaVersion r)), (''EngineVersion'', RStr (rr_EngineVersion r)),
     (''ContractID'', RStr (rr_ContractID r)), (''EvaluatedAt'', RStruct []),
     (''EffectivePolicy'', RStruct [(''RequireReleaseBaseline'', ROther),
        (''Layers'', rv_slice rv_layer_projection (pp_Layers (rr_EffectivePolicy r)))]),
     (''PolicyDigest'', RStr (rr_PolicyDigest r)), (''Verdict'', RStr (rr_Verdict r)),
     (''Comparisons'', rv_slice rv_comparison (rr_Comparisons r))]"

definition rv_review :: "contract_review \<Rightarrow> rvalue" where
  "rv_review v = RStruct [(''ID'', RStr (cv_ID v)), (''ContractID'', RStr (cv_ContractID v)),
     (''BaselineRevisionID'', RStr (cv_BaselineRevisionID v)), (''BaselineSpecDigest'', RStr (cv_BaselineSpecDigest v)),
     (''BaselineContractDigest'', RStr (cv_BaselineContractDigest v)),
     (''CandidateRevisionID'', RStr (cv_CandidateRevisionID v)), (''CandidateSpecDigest'', RStr (cv_CandidateSpecDigest v)),
     (''CandidateContractDigest'', RStr (cv_CandidateContractDigest v)), (''Report'', rv_report (cv_Report v))]"

definition CanonicalReviewJSON :: "review_report \<Rightarrow> string result" where
  "CanonicalReviewJSON report =
     require (validateUTF8Strings [] ''review report'' (rv_report report))
       (if report_times_ok report then Inr (json_bytes (json_report report)) else Inl json_time_error)"

section \<open>Canonical policy\<close>

definition policySourceRank :: "string \<Rightarrow> int" where
  "policySourceRank source = (if source = PolicySourceRepository then 0 else 1)"

definition projectPolicyLayer :: "policy_layer \<Rightarrow> policy_layer_projection" where
  "projectPolicyLayer layer =
     \<lparr>lp_Name = pl_Name layer, lp_Source = pl_Source layer, lp_RequireReleaseBaseline = pl_RequireReleaseBaseline layer,
      lp_Rules = nil_append (map (\<lambda>ruleID. \<lparr>rp_RuleID = ruleID, rp_Level = rule_level (pl_Rules layer) ruleID\<rparr>)
        (sortedRuleIDs (pl_Rules layer))),
      lp_Exceptions = nil_append (sort_slice exception_less (pl_Exceptions layer))\<rparr>"

record sortable_policy_layer =
  sl_layer :: policy_layer
  sl_projection :: policy_layer_projection
  sl_key :: string

definition sortable_less :: "sortable_policy_layer \<Rightarrow> sortable_policy_layer \<Rightarrow> bool" where
  "sortable_less a b =
     (let leftRank = policySourceRank (pl_Source (sl_layer a)); rightRank = policySourceRank (pl_Source (sl_layer b)) in
      if leftRank \<noteq> rightRank then leftRank < rightRank
      else if pl_Name (sl_layer a) \<noteq> pl_Name (sl_layer b) then pl_Name (sl_layer a) < pl_Name (sl_layer b)
      else sl_key a < sl_key b)"

definition sortable_layer :: "policy_layer \<Rightarrow> sortable_policy_layer" where
  "sortable_layer layer =
     (let cloned = clonePolicyLayer layer;
          cloned = cloned\<lparr>pl_Exceptions := sort_slice exception_less (pl_Exceptions cloned)\<rparr>;
          projection = projectPolicyLayer cloned
      in \<lparr>sl_layer = cloned, sl_projection = projection, sl_key = json_bytes (json_layer projection)\<rparr>)"

definition canonicalReviewPolicy ::
    "effective_policy \<Rightarrow> (effective_policy \<times> effective_policy_projection \<times> string) result" where
  "canonicalReviewPolicy policy =
     (let sortables = map sortable_layer (ep_Layers policy) in
      if \<not> list_all (\<lambda>s. layer_times_ok (sl_projection s)) sortables then Inl json_time_error
      else (let sortedLayers = sort_slice sortable_less sortables;
                normalized = \<lparr>ep_Layers = map sl_layer sortedLayers,
                              ep_RequireReleaseBaseline = ep_RequireReleaseBaseline policy\<rparr>;
                projection = \<lparr>pp_RequireReleaseBaseline = ep_RequireReleaseBaseline policy,
                              pp_Layers = nil_append (map sl_projection sortedLayers)\<rparr>
            in if \<not> policy_times_ok projection then Inl json_time_error
               else Inr (normalized, projection, sha256Hex (json_bytes (json_policy projection)))))"

text \<open>The \<open>%t\<close> verb.\<close>

definition bool_text :: "bool \<Rightarrow> string" where
  "bool_text b = (if b then ''true'' else ''false'')"

definition normalizeEffectivePolicy :: "effective_policy \<Rightarrow> effective_policy result" where
  "normalizeEffectivePolicy policy =
     bind_res (MergePolicy (ep_Layers policy)) (\<lambda>normalized.
       if ep_RequireReleaseBaseline normalized \<noteq> ep_RequireReleaseBaseline policy
         then Inl (Errorf ''release baseline aggregate %t does not match policy layers %t''
                [bool_text (ep_RequireReleaseBaseline policy), bool_text (ep_RequireReleaseBaseline normalized)])
       else Inr normalized)"

text \<open>A layer rebuilt from its projection; a repeated rule is an error.\<close>

definition rebuildLayer :: "nat \<Rightarrow> policy_layer_projection \<Rightarrow> policy_layer result" where
  "rebuildLayer i projected =
     (case first_dup 0 [] (map rp_RuleID (elems (lp_Rules projected))) of
        Some (k, ruleID) \<Rightarrow> Inl (Errorf ''policy layer %d contains duplicate rule %q'' [itoa i, ruleID])
      | None \<Rightarrow> Inr \<lparr>pl_Name = lp_Name projected, pl_Source = lp_Source projected,
          pl_RequireReleaseBaseline = lp_RequireReleaseBaseline projected,
          pl_Rules = map_from rp_RuleID rp_Level (elems (lp_Rules projected)),
          pl_Exceptions = elems (lp_Exceptions projected)\<rparr>)"

fun rebuildLayers :: "nat \<Rightarrow> policy_layer_projection list \<Rightarrow> policy_layer list result" where
  "rebuildLayers i [] = Inr []"
| "rebuildLayers i (p # ps) = bind_res (rebuildLayer i p) (\<lambda>l. bind_res (rebuildLayers (Suc i) ps) (\<lambda>ls. Inr (l # ls)))"

definition validateCanonicalPolicyProjection :: "effective_policy_projection \<Rightarrow> (effective_policy \<times> string) result" where
  "validateCanonicalPolicyProjection projection =
     bind_res (rebuildLayers 0 (elems (pp_Layers projection))) (\<lambda>layers.
     bind_res (normalizeEffectivePolicy \<lparr>ep_Layers = layers, ep_RequireReleaseBaseline = pp_RequireReleaseBaseline projection\<rparr>) (\<lambda>normalized.
     bind_res (canonicalReviewPolicy normalized) (\<lambda>(canonicalPolicy, canonicalProjection, digest).
       if projection \<noteq> canonicalProjection then Inl (Errorf ''effective policy projection is not canonical'' [])
       else Inr (canonicalPolicy, digest))))"

section \<open>Comparison\<close>

definition snapshotRef :: "contract_snapshot \<Rightarrow> snapshot_ref" where
  "snapshotRef s = \<lparr>sf_RevisionID = cs_RevisionID s, sf_SpecDigest = cs_SpecDigest s, sf_ContractDigest = cs_ContractDigest s\<rparr>"

definition evaluateComparison ::
    "string \<Rightarrow> contract_snapshot \<Rightarrow> contract_snapshot \<Rightarrow> effective_policy \<Rightarrow> gotime \<Rightarrow> comparison_report" where
  "evaluateComparison kind baseline candidate policy evaluatedAt =
     (let diff = diffValidatedContractSnapshots baseline candidate;
          findings = nil_append (sortSpecChanges (df_BreakingChanges diff @ df_AdditiveChanges diff));
          result = sortPolicyResult (EvaluateFindings policy (elems findings) evaluatedAt)
      in \<lparr>cr_Kind = kind, cr_Baseline = snapshotRef baseline, cr_Candidate = snapshotRef candidate,
          cr_Findings = findings, cr_Policy = result\<rparr>)"

section \<open>Validation of reviews\<close>

definition validateReviewFindingIdentities :: "string \<Rightarrow> spec_change \<Rightarrow> err" where
  "validateReviewFindingIdentities prefix finding = first_error
     [validateCanonicalIdentity (prefix @ '' id'') (ch_ID finding) False,
      validateCanonicalIdentity (prefix @ '' rule id'') (ch_RuleID finding) False]"

definition validateReviewExceptionIdentities :: "string \<Rightarrow> policy_exception \<Rightarrow> err" where
  "validateReviewExceptionIdentities prefix e = check_identities
     [(prefix @ '' finding id'', pe_FindingID e, True), (prefix @ '' rule id'', pe_RuleID e, True),
      (prefix @ '' author'', pe_Author e, False), (prefix @ '' source'', pe_Source e, False)]"

definition validateSnapshotRef :: "string \<Rightarrow> snapshot_ref \<Rightarrow> err" where
  "validateSnapshotRef role ref = first_error
     [validateCanonicalIdentity (''review '' @ role @ '' revision id'') (sf_RevisionID ref) False,
      fail_if (\<not> isLowerSHA256 (sf_SpecDigest ref)) (Errorf ''review %s spec digest must be lowercase SHA-256'' [role]),
      fail_if (\<not> isLowerSHA256 (sf_ContractDigest ref)) (Errorf ''review %s contract digest must be lowercase SHA-256'' [role])]"

definition validateExpectedSnapshotRef :: "string \<Rightarrow> snapshot_ref \<Rightarrow> snapshot_ref \<Rightarrow> err" where
  "validateExpectedSnapshotRef role actual expected = first_error
     [validateSnapshotRef role actual, validateSnapshotRef (''expected '' @ role) expected,
      fail_if (sf_RevisionID actual \<noteq> sf_RevisionID expected)
        (Errorf ''review %s revision id %q does not match expected revision %q'' [role, sf_RevisionID actual, sf_RevisionID expected]),
      fail_if (sf_SpecDigest actual \<noteq> sf_SpecDigest expected)
        (Errorf ''review %s spec digest %q does not match expected digest %q'' [role, sf_SpecDigest actual, sf_SpecDigest expected]),
      fail_if (sf_ContractDigest actual \<noteq> sf_ContractDigest expected)
        (Errorf ''review %s contract digest %q does not match expected digest %q''
          [role, sf_ContractDigest actual, sf_ContractDigest expected])]"

definition validateReviewLayerIdentities :: "nat \<Rightarrow> policy_layer_projection \<Rightarrow> err" where
  "validateReviewLayerIdentities i layer =
     (let prefix = ''review policy layer '' @ itoa i in first_error
       [validateCanonicalIdentity (prefix @ '' name'') (lp_Name layer) False,
        validateCanonicalIdentity (prefix @ '' source'') (lp_Source layer) False,
        each_index (\<lambda>j r. validateCanonicalIdentity (prefix @ '' rule '' @ itoa j @ '' id'') (rp_RuleID r) False)
          (elems (lp_Rules layer)),
        each_index (\<lambda>j e. validateReviewExceptionIdentities (prefix @ '' exception '' @ itoa j) e)
          (elems (lp_Exceptions layer))])"

definition validateReviewComparisonIdentities :: "nat \<Rightarrow> comparison_report \<Rightarrow> err" where
  "validateReviewComparisonIdentities i c =
     (let prefix = ''review comparison '' @ itoa i in first_error
       [validateCanonicalIdentity (prefix @ '' kind'') (cr_Kind c) False,
        validateSnapshotRef (prefix @ '' baseline'') (cr_Baseline c),
        validateSnapshotRef (prefix @ '' candidate'') (cr_Candidate c),
        each_index (\<lambda>j f. validateReviewFindingIdentities (prefix @ '' finding '' @ itoa j) f) (elems (cr_Findings c)),
        each_index (\<lambda>j d. let decisionPrefix = prefix @ '' policy decision '' @ itoa j in first_error
          [validateReviewFindingIdentities (decisionPrefix @ '' finding'') (fd_Finding d),
           validateCanonicalIdentity (decisionPrefix @ '' source'') (fd_Source d) False,
           validateCanonicalIdentity (decisionPrefix @ '' layer name'') (fd_LayerName d) False])
          (elems (po_Decisions (cr_Policy c))),
        each_index (\<lambda>j e. validateReviewExceptionIdentities (prefix @ '' applied exception '' @ itoa j) e)
          (elems (po_AppliedExceptions (cr_Policy c))),
        each_index (\<lambda>j d. let dispositionPrefix = prefix @ '' exception disposition '' @ itoa j in first_error
          [validateCanonicalIdentity (dispositionPrefix @ '' layer name'') (pd_LayerName d) False,
           validateReviewExceptionIdentities dispositionPrefix (pd_Exception d)])
          (elems (po_ExceptionDispositions (cr_Policy c)))])"

definition ValidateContractReviewIdentities :: "contract_review \<Rightarrow> err" where
  "ValidateContractReviewIdentities review =
     and_then (first_error
       [validateUTF8Strings [] ''contract review'' (rv_review review),
        each (\<lambda>(name, v). validateCanonicalIdentity name v False)
          [(''review id'', cv_ID review), (''review contract id'', cv_ContractID review),
           (''review baseline revision id'', cv_BaselineRevisionID review),
           (''review candidate revision id'', cv_CandidateRevisionID review)]])
      (let report = cv_Report review in
       if report = zero_report then None
       else first_error
         [check_identities
            [(''review schema version'', rr_SchemaVersion report, True),
             (''review engine version'', rr_EngineVersion report, True),
             (''review report contract id'', rr_ContractID report, True)],
          each_index validateReviewLayerIdentities (elems (pp_Layers (rr_EffectivePolicy report))),
          each_index validateReviewComparisonIdentities (elems (rr_Comparisons report))])"

definition validateReleaseReviewReport ::
    "review_report \<Rightarrow> string \<Rightarrow> snapshot_ref \<Rightarrow> snapshot_ref \<Rightarrow> (effective_policy \<times> comparison_report) result" where
  "validateReleaseReviewReport report contractID baseline candidate =
     require (first_error
       [fail_if (rr_SchemaVersion report \<noteq> ReviewSchemaVersion)
          (Errorf ''unsupported review schema version %q'' [rr_SchemaVersion report]),
        fail_if (rr_ContractID report \<noteq> contractID)
          (Errorf ''review contract id %q does not match release contract id %q'' [rr_ContractID report, contractID]),
        validateCanonicalIdentity ''review contract id'' (rr_ContractID report) False,
        validateCanonicalIdentity ''review engine version'' (rr_EngineVersion report) False,
        fail_if (time_IsZero (rr_EvaluatedAt report)) (Errorf ''review evaluation time is required'' []),
        fail_if (t_loc (rr_EvaluatedAt report) \<noteq> LocUTC) (Errorf ''review evaluation time must be UTC'' []),
        fail_if (\<not> isLowerSHA256 (rr_PolicyDigest report)) (Errorf ''review policy digest must be lowercase SHA-256'' [])])
      (bind_res (wrap_res (Wrapf ''review effective policy is invalid: %w'' [])
          (validateCanonicalPolicyProjection (rr_EffectivePolicy report))) (\<lambda>(canonicalPolicy, canonicalPolicyDigest).
        if rr_PolicyDigest report \<noteq> canonicalPolicyDigest
          then Inl (Errorf ''review policy digest %q does not match effective policy digest %q''
                 [rr_PolicyDigest report, canonicalPolicyDigest])
        else (case elems (rr_Comparisons report) of
            [comparison] \<Rightarrow>
              require (first_error
                [fail_if (cr_Kind comparison \<noteq> ComparisonReleaseImpact)
                   (Errorf ''release review comparison kind %q is not %q'' [cr_Kind comparison, ComparisonReleaseImpact]),
                 validateExpectedSnapshotRef ''baseline'' (cr_Baseline comparison) baseline,
                 validateExpectedSnapshotRef ''candidate'' (cr_Candidate comparison) candidate,
                 fail_if (po_Verdict (cr_Policy comparison) \<noteq> VerdictPass \<and> po_Verdict (cr_Policy comparison) \<noteq> VerdictFail)
                   (Errorf ''unsupported comparison verdict %q'' [po_Verdict (cr_Policy comparison)]),
                 fail_if (rr_Verdict report \<noteq> po_Verdict (cr_Policy comparison))
                   (Errorf ''review verdict %q does not match comparison verdict %q''
                     [rr_Verdict report, po_Verdict (cr_Policy comparison)])])
               (Inr (canonicalPolicy, comparison))
          | _ \<Rightarrow> Inl (Errorf ''release review must contain exactly one comparison'' []))))"

definition ValidateReleaseReviewReport :: "review_report \<Rightarrow> string \<Rightarrow> snapshot_ref \<Rightarrow> snapshot_ref \<Rightarrow> err" where
  "ValidateReleaseReviewReport report contractID baseline candidate =
     to_err (validateReleaseReviewReport report contractID baseline candidate)"

definition ValidateReleaseReviewReportAgainstSnapshots ::
    "unicode_case \<Rightarrow> review_report \<Rightarrow> string \<Rightarrow> contract_snapshot \<Rightarrow> contract_snapshot \<Rightarrow> err" where
  "ValidateReleaseReviewReportAgainstSnapshots uc report contractID baseline candidate = to_err
     (bind_res (wrap_res (Wrapf ''validate persisted review baseline: %w'' [])
        (validateAndCloneContractSnapshot uc baseline)) (\<lambda>validatedBaseline.
      bind_res (wrap_res (Wrapf ''validate persisted review candidate: %w'' [])
        (validateAndCloneContractSnapshot uc candidate)) (\<lambda>validatedCandidate.
      if cs_ContractID validatedBaseline \<noteq> contractID
        then Inl (Errorf ''persisted review baseline contract id %q does not match release contract id %q''
               [cs_ContractID validatedBaseline, contractID])
      else if cs_ContractID validatedCandidate \<noteq> contractID
        then Inl (Errorf ''persisted review candidate contract id %q does not match release contract id %q''
               [cs_ContractID validatedCandidate, contractID])
      else bind_res (validateReleaseReviewReport report contractID
             (snapshotRef validatedBaseline) (snapshotRef validatedCandidate)) (\<lambda>(canonicalPolicy, comparison).
        (let expectedComparison = evaluateComparison ComparisonReleaseImpact validatedBaseline validatedCandidate
               canonicalPolicy (rr_EvaluatedAt report) in
         if comparison \<noteq> expectedComparison
           then Inl (Errorf ''release review result does not match canonical evaluation'' [])
         else if rr_Verdict report \<noteq> po_Verdict (cr_Policy expectedComparison)
           then Inl (Errorf ''review verdict %q does not match canonical comparison verdict %q''
                  [rr_Verdict report, po_Verdict (cr_Policy expectedComparison)])
         else Inr ())))))"

definition ValidateContractReviewAgainstSnapshots ::
    "unicode_case \<Rightarrow> contract_review \<Rightarrow> contract_snapshot \<Rightarrow> contract_snapshot \<Rightarrow> err" where
  "ValidateContractReviewAgainstSnapshots uc review baseline candidate = first_error
     [ValidateContractReviewIdentities review,
      each (\<lambda>(name, v). fail_if (\<not> isLowerSHA256 v) (Errorf ''%s must be lowercase SHA-256'' [name]))
        [(''review baseline spec digest'', cv_BaselineSpecDigest review),
         (''review baseline contract digest'', cv_BaselineContractDigest review),
         (''review candidate spec digest'', cv_CandidateSpecDigest review),
         (''review candidate contract digest'', cv_CandidateContractDigest review)],
      fail_if (cs_ContractID baseline \<noteq> cv_ContractID review \<or> cs_RevisionID baseline \<noteq> cv_BaselineRevisionID review \<or>
          cs_SpecDigest baseline \<noteq> cv_BaselineSpecDigest review \<or> cs_ContractDigest baseline \<noteq> cv_BaselineContractDigest review)
        (Errorf ''review baseline evidence does not match canonical snapshot'' []),
      fail_if (cs_ContractID candidate \<noteq> cv_ContractID review \<or> cs_RevisionID candidate \<noteq> cv_CandidateRevisionID review \<or>
          cs_SpecDigest candidate \<noteq> cv_CandidateSpecDigest review \<or> cs_ContractDigest candidate \<noteq> cv_CandidateContractDigest review)
        (Errorf ''review candidate evidence does not match canonical snapshot'' []),
      ValidateReleaseReviewReportAgainstSnapshots uc (cv_Report review) (cv_ContractID review) baseline candidate]"

section \<open>Evaluation of a review\<close>

definition validateReviewRequest :: "review_request \<Rightarrow> err" where
  "validateReviewRequest request = first_error
     [validateCanonicalIdentity ''review contract id'' (rq_ContractID request) False,
      fail_if (cs_ContractID (rq_Target request) \<noteq> rq_ContractID request)
        (Errorf ''target contract id %q does not match review contract id %q'' [cs_ContractID (rq_Target request), rq_ContractID request]),
      fail_if (cs_ContractID (rq_Candidate request) \<noteq> rq_ContractID request)
        (Errorf ''candidate contract id %q does not match review contract id %q'' [cs_ContractID (rq_Candidate request), rq_ContractID request]),
      (case rq_Release request of
         None \<Rightarrow> None
       | Some release \<Rightarrow> fail_if (cs_ContractID release \<noteq> rq_ContractID request)
           (Errorf ''release contract id %q does not match review contract id %q'' [cs_ContractID release, rq_ContractID request])),
      fail_if (time_IsZero (rq_EvaluatedAt request)) (Errorf ''evaluation time is required'' []),
      validateCanonicalIdentity ''engine version'' (rq_EngineVersion request) False]"

definition validateReleaseSnapshot :: "unicode_case \<Rightarrow> contract_snapshot option \<Rightarrow> contract_snapshot option result" where
  "validateReleaseSnapshot uc release =
     (case release of
        None \<Rightarrow> Inr None
      | Some s \<Rightarrow> bind_res (wrap_res (Wrapf ''validate release snapshot: %w'' []) (validateAndCloneContractSnapshot uc s))
          (\<lambda>v. Inr (Some v)))"

definition EvaluateReview :: "unicode_case \<Rightarrow> review_request \<Rightarrow> review_report result" where
  "EvaluateReview uc request =
     require (validateReviewRequest request)
     (bind_res (wrap_res (Wrapf ''validate target snapshot: %w'' []) (validateAndCloneContractSnapshot uc (rq_Target request))) (\<lambda>target.
      bind_res (wrap_res (Wrapf ''validate candidate snapshot: %w'' []) (validateAndCloneContractSnapshot uc (rq_Candidate request))) (\<lambda>candidate.
      bind_res (validateReleaseSnapshot uc (rq_Release request)) (\<lambda>release.
      bind_res (wrap_res (Wrapf ''validate effective policy: %w'' []) (normalizeEffectivePolicy (rq_Policy request))) (\<lambda>effectivePolicy.
      if ep_RequireReleaseBaseline effectivePolicy \<and> release = None
        then Inl (Errorf ''release baseline is required by policy'' [])
      else bind_res (wrap_res (Wrapf ''canonicalize policy: %w'' []) (canonicalReviewPolicy effectivePolicy)) (\<lambda>(policy, policyProjection, policyDigest).
        (let evaluatedAt = time_UTC (rq_EvaluatedAt request);
             comparisons = evaluateComparison ComparisonPullRequest target candidate policy evaluatedAt #
               (case release of None \<Rightarrow> []
                | Some r \<Rightarrow> [evaluateComparison ComparisonReleaseImpact r candidate policy evaluatedAt])
         in Inr \<lparr>rr_SchemaVersion = ReviewSchemaVersion, rr_EngineVersion = rq_EngineVersion request,
              rr_ContractID = rq_ContractID request, rr_EvaluatedAt = evaluatedAt,
              rr_EffectivePolicy = policyProjection, rr_PolicyDigest = policyDigest,
              rr_Verdict = (if list_ex (\<lambda>c. po_Verdict (cr_Policy c) = VerdictFail) comparisons then VerdictFail else VerdictPass),
              rr_Comparisons = Slice comparisons\<rparr>)))))))"

end
