(* ===== verification/Operational_Records.thy ===== *)
theory Operational_Records
  imports Review
begin

text \<open>
  The records the operational store keeps beside release tracks and reviews: immutable contract
  revisions (\<open>domain/spec.go\<close>), audit events, outbox messages and the evidence bundle
  (\<open>domain/release.go\<close>), their validation (\<open>domain/spec_validation.go\<close>), content-addressed blob
  keys (\<open>application/port/blob.go\<close>), and the JSON forms by which the store compares and clones
  immutable records.
\<close>

section \<open>Data\<close>

record contract_revision =
  vr_ID :: string
  vr_ContractID :: string
  vr_SourceID :: string
  vr_SpecBlobKey :: string
  vr_SpecDigest :: string
  vr_ContractDigest :: string
  vr_ReviewSnapshot :: "contract_snapshot option"
  vr_Ref :: string
  vr_CommitSHA :: string
  vr_Version :: string
  vr_AuthorName :: string
  vr_AuthorEmail :: string
  vr_Message :: string

record audit_event =
  ae_ID :: string
  ae_ContractID :: string
  ae_TrackID :: string
  ae_RevisionID :: string
  ae_Kind :: string
  ae_ActorID :: string
  ae_OccurredAt :: gotime

record outbox_message =
  om_ID :: string
  om_ContractID :: string
  om_TrackID :: string
  om_RevisionID :: string
  om_Topic :: string
  om_Payload :: "char slice"
  om_CreatedAt :: gotime

record release_evidence =
  ev_Authorization :: release_authorization
  ev_Review :: contract_review
  ev_SyncRecord :: sync_record

section \<open>Validation\<close>

definition rv_snapshot :: "contract_snapshot \<Rightarrow> rvalue" where
  "rv_snapshot s = RStruct [(''ContractID'', RStr (cs_ContractID s)), (''RevisionID'', RStr (cs_RevisionID s)),
     (''SpecDigest'', RStr (cs_SpecDigest s)), (''ContractDigest'', RStr (cs_ContractDigest s)),
     (''Operations'', rv_slice (\<lambda>a. RStruct [(''Method'', RStr (co_Method a)), (''Path'', RStr (co_Path a)),
        (''Parameters'', rv_slice (\<lambda>p. RStruct [(''Name'', RStr (cp_Name p)), (''In'', RStr (cp_In p)), (''Required'', ROther)])
          (co_Parameters a)),
        (''RequestBodyRequired'', ROther), (''ResponseStatuses'', rv_slice RStr (co_ResponseStatuses a))]) (cs_Operations s)),
     (''Schemas'', rv_slice RStr (cs_Schemas s))]"

definition rv_revision :: "contract_revision \<Rightarrow> rvalue" where
  "rv_revision r = RStruct [(''ID'', RStr (vr_ID r)), (''ContractID'', RStr (vr_ContractID r)),
     (''SourceID'', RStr (vr_SourceID r)), (''SpecBlobKey'', RStr (vr_SpecBlobKey r)),
     (''SpecDigest'', RStr (vr_SpecDigest r)), (''ContractDigest'', RStr (vr_ContractDigest r)),
     (''ReviewSnapshot'', case vr_ReviewSnapshot r of None \<Rightarrow> RNil | Some s \<Rightarrow> rv_snapshot s),
     (''Ref'', RStr (vr_Ref r)), (''CommitSHA'', RStr (vr_CommitSHA r)), (''Version'', RStr (vr_Version r)),
     (''AuthorName'', RStr (vr_AuthorName r)), (''AuthorEmail'', RStr (vr_AuthorEmail r)), (''Message'', RStr (vr_Message r))]"

definition ValidateContractRevision :: "unicode_case \<Rightarrow> contract_revision \<Rightarrow> err" where
  "ValidateContractRevision uc revision = first_error
     [validateUTF8Strings [] ''contract revision'' (rv_revision revision),
      check_identities
        [(''revision id'', vr_ID revision, False), (''revision contract id'', vr_ContractID revision, True),
         (''revision source id'', vr_SourceID revision, True), (''revision blob key'', vr_SpecBlobKey revision, True),
         (''revision ref'', vr_Ref revision, True), (''revision commit sha'', vr_CommitSHA revision, True)],
      each (\<lambda>(name, v). fail_if (v \<noteq> [] \<and> \<not> isLowerSHA256 v) (Errorf ''%s must be lowercase SHA-256'' [name]))
        [(''revision spec digest'', vr_SpecDigest revision), (''revision contract digest'', vr_ContractDigest revision)],
      (case vr_ReviewSnapshot revision of
         None \<Rightarrow> None
       | Some s \<Rightarrow> wrap_err (Wrapf ''revision review snapshot: %w'' []) (ValidateContractSnapshot uc s))]"

definition rv_sync :: "sync_record \<Rightarrow> rvalue" where
  "rv_sync r = RStruct [(''ID'', RStr (sr_ID r)), (''ProjectID'', RStr (sr_ProjectID r)), (''SourceID'', RStr (sr_SourceID r)),
     (''RevisionID'', RStr (sr_RevisionID r)), (''Trigger'', RStr (sr_Trigger r)), (''Ref'', RStr (sr_Ref r)),
     (''CommitSHA'', RStr (sr_CommitSHA r)), (''SpecPath'', RStr (sr_SpecPath r)), (''Result'', RStr (sr_Result r)),
     (''ErrorSummary'', RStr (sr_ErrorSummary r)), (''StartedAt'', RStruct []), (''FinishedAt'', RStruct [])]"

definition ValidateSyncRecord :: "sync_record \<Rightarrow> err" where
  "ValidateSyncRecord record = first_error
     [validateUTF8Strings [] ''sync record'' (rv_sync record),
      check_identities
        [(''sync id'', sr_ID record, False), (''sync project id'', sr_ProjectID record, True),
         (''sync source id'', sr_SourceID record, True), (''sync revision id'', sr_RevisionID record, True),
         (''sync trigger'', sr_Trigger record, True), (''sync ref'', sr_Ref record, True),
         (''sync commit sha'', sr_CommitSHA record, True), (''sync spec path'', sr_SpecPath record, True),
         (''sync result'', sr_Result record, True)]]"

section \<open>Blob keys\<close>

definition ContentAddressedBlobKey :: "string \<Rightarrow> string" where
  "ContentAddressedBlobKey data = ''sha256:'' @ sha256Hex data"

definition BlobKey_Valid :: "unicode_case \<Rightarrow> string \<Rightarrow> bool" where
  "BlobKey_Valid uc k =
     (if take 7 k \<noteq> ''sha256:'' then False
      else (let digest = drop 7 k in
        if length digest \<noteq> 64 \<or> digest \<noteq> ToLower uc digest then False
        else list_all (\<lambda>c. lower_hex_char c \<or> (65 \<le> bv c \<and> bv c \<le> 70)) digest))"

section \<open>JSON forms\<close>

definition json_snapshot :: "contract_snapshot \<Rightarrow> json" where
  "json_snapshot s = JObj [(''contractId'', JStr (cs_ContractID s)), (''revisionId'', JStr (cs_RevisionID s)),
     (''specDigest'', JStr (cs_SpecDigest s)), (''contractDigest'', JStr (cs_ContractDigest s)),
     (''operations'', json_slice json_operation (cs_Operations s)), (''schemas'', json_slice JStr (cs_Schemas s))]"

definition json_revision :: "contract_revision \<Rightarrow> json" where
  "json_revision r = JObj (field ''ID'' (JStr (vr_ID r)) @ omit_str ''contractId'' (vr_ContractID r) @
     field ''SourceID'' (JStr (vr_SourceID r)) @ omit_str ''specBlobKey'' (vr_SpecBlobKey r) @
     omit_str ''specDigest'' (vr_SpecDigest r) @ omit_str ''contractDigest'' (vr_ContractDigest r) @
     (case vr_ReviewSnapshot r of None \<Rightarrow> [] | Some s \<Rightarrow> field ''reviewSnapshot'' (json_snapshot s)) @
     field ''Ref'' (JStr (vr_Ref r)) @ field ''CommitSHA'' (JStr (vr_CommitSHA r)) @ field ''Version'' (JStr (vr_Version r)) @
     field ''AuthorName'' (JStr (vr_AuthorName r)) @ field ''AuthorEmail'' (JStr (vr_AuthorEmail r)) @
     field ''Message'' (JStr (vr_Message r)))"

definition json_review :: "contract_review \<Rightarrow> json" where
  "json_review v = JObj [(''id'', JStr (cv_ID v)), (''contractId'', JStr (cv_ContractID v)),
     (''baselineRevisionId'', JStr (cv_BaselineRevisionID v)), (''baselineSpecDigest'', JStr (cv_BaselineSpecDigest v)),
     (''baselineContractDigest'', JStr (cv_BaselineContractDigest v)),
     (''candidateRevisionId'', JStr (cv_CandidateRevisionID v)), (''candidateSpecDigest'', JStr (cv_CandidateSpecDigest v)),
     (''candidateContractDigest'', JStr (cv_CandidateContractDigest v)), (''report'', json_report (cv_Report v))]"

definition json_authorization :: "release_authorization \<Rightarrow> json" where
  "json_authorization a = JObj [(''contractId'', JStr (ra_ContractID a)), (''trackId'', JStr (ra_TrackID a)),
     (''reviewId'', JStr (ra_ReviewID a)), (''syncRecordId'', JStr (ra_SyncRecordID a)),
     (''baselineRevisionId'', JStr (ra_BaselineRevisionID a)), (''candidateRevisionId'', JStr (ra_CandidateRevisionID a)),
     (''sourceId'', JStr (ra_SourceID a)), (''boundRef'', JStr (ra_BoundRef a)), (''publicPath'', JStr (ra_PublicPath a)),
     (''policyDigest'', JStr (ra_PolicyDigest a))]"

definition json_event :: "audit_event \<Rightarrow> json" where
  "json_event e = JObj (field ''id'' (JStr (ae_ID e)) @ field ''contractId'' (JStr (ae_ContractID e)) @
     omit_str ''trackId'' (ae_TrackID e) @ omit_str ''revisionId'' (ae_RevisionID e) @ field ''kind'' (JStr (ae_Kind e)) @
     omit_str ''actorId'' (ae_ActorID e) @ field ''occurredAt'' (json_time (ae_OccurredAt e)))"

text \<open>Standard base64 with padding, as byte slices marshal.\<close>

definition base64_char :: "nat \<Rightarrow> char" where
  "base64_char n = char_of (if n < 26 then 65 + n else if n < 52 then 71 + n else if n < 62 then n - 4
     else if n = 62 then 43 else 47 :: nat)"

fun base64 :: "string \<Rightarrow> string" where
  "base64 (a # b # c # r) =
     (let n = of_char a * 65536 + of_char b * 256 + of_char c
      in [base64_char (n div 262144), base64_char (n div 4096 mod 64), base64_char (n div 64 mod 64), base64_char (n mod 64)] @ base64 r)"
| "base64 [a, b] =
     (let n = of_char a * 65536 + of_char b * 256
      in [base64_char (n div 262144), base64_char (n div 4096 mod 64), base64_char (n div 64 mod 64), CHR ''=''])"
| "base64 [a] =
     (let n = of_char a * 65536 in [base64_char (n div 262144), base64_char (n div 4096 mod 64), CHR ''='', CHR ''=''])"
| "base64 [] = []"

definition json_message :: "outbox_message \<Rightarrow> json" where
  "json_message m = JObj (field ''id'' (JStr (om_ID m)) @ field ''contractId'' (JStr (om_ContractID m)) @
     omit_str ''trackId'' (om_TrackID m) @ omit_str ''revisionId'' (om_RevisionID m) @ field ''topic'' (JStr (om_Topic m)) @
     (if elems (om_Payload m) = [] then [] else field ''payload'' (JStr (base64 (elems (om_Payload m))))) @
     field ''createdAt'' (json_time (om_CreatedAt m)))"

section \<open>Comparing and cloning immutable records\<close>

text \<open>Marshalling fails only on times; \<open>ok\<close> says whether the times of a record can be formatted.\<close>

definition marshal :: "('a \<Rightarrow> bool) \<Rightarrow> ('a \<Rightarrow> json) \<Rightarrow> 'a \<Rightarrow> string result" where
  "marshal ok js v = (if ok v then Inr (json_bytes (js v)) else Inl json_time_error)"

definition immutableRecordsEqual :: "('a \<Rightarrow> bool) \<Rightarrow> ('a \<Rightarrow> json) \<Rightarrow> 'a \<Rightarrow> 'a \<Rightarrow> bool result" where
  "immutableRecordsEqual ok js left right =
     bind_res (wrap_res (Wrapf ''encode persisted immutable record: %w'' []) (marshal ok js left)) (\<lambda>leftJSON.
     bind_res (wrap_res (Wrapf ''encode replayed immutable record: %w'' []) (marshal ok js right)) (\<lambda>rightJSON.
       Inr (leftJSON = rightJSON)))"

text \<open>
  The clone through JSON. Decoding what \<open>Marshal\<close> wrote gives the value back, except that an empty
  slice under \<open>omitempty\<close> comes back nil and a time comes back in UTC or in a fixed zone. It is used
  on records whose strings have passed the UTF-8 validation, which the encoding keeps unchanged.
\<close>

definition decoded_omitempty :: "'a slice \<Rightarrow> 'a slice" where
  "decoded_omitempty s = (if elems s = [] then NilSlice else s)"

definition decoded_time :: "gotime \<Rightarrow> gotime" where
  "decoded_time t = (let off = loc_offset (t_loc t); minutes = \<bar>off\<bar> div 60 * 60 in
     t\<lparr>t_loc := (if minutes = 0 then LocUTC else LocZone [] (if off < 0 then - minutes else minutes))\<rparr>)"

definition decoded_exception :: "policy_exception \<Rightarrow> policy_exception" where
  "decoded_exception e = e\<lparr>pe_ExpiresAt := decoded_time (pe_ExpiresAt e)\<rparr>"

definition decoded_result :: "policy_result \<Rightarrow> policy_result" where
  "decoded_result r = r\<lparr>
     po_AppliedExceptions := decoded_omitempty (map_slice (map decoded_exception) (po_AppliedExceptions r)),
     po_ExceptionDispositions := decoded_omitempty (map_slice (map (\<lambda>d. d\<lparr>pd_Exception := decoded_exception (pd_Exception d)\<rparr>))
       (po_ExceptionDispositions r))\<rparr>"

definition decoded_report :: "review_report \<Rightarrow> review_report" where
  "decoded_report r = r\<lparr>rr_EvaluatedAt := decoded_time (rr_EvaluatedAt r),
     rr_EffectivePolicy := (rr_EffectivePolicy r)\<lparr>pp_Layers := map_slice (map (\<lambda>l.
       l\<lparr>lp_Exceptions := map_slice (map decoded_exception) (lp_Exceptions l)\<rparr>)) (pp_Layers (rr_EffectivePolicy r))\<rparr>,
     rr_Comparisons := map_slice (map (\<lambda>c. c\<lparr>cr_Policy := decoded_result (cr_Policy c)\<rparr>)) (rr_Comparisons r)\<rparr>"

definition decoded_review :: "contract_review \<Rightarrow> contract_review" where
  "decoded_review v = v\<lparr>cv_Report := decoded_report (cv_Report v)\<rparr>"

definition decoded_snapshot :: "contract_snapshot \<Rightarrow> contract_snapshot" where
  "decoded_snapshot s = s\<lparr>cs_Operations := map_slice (map (\<lambda>a.
     a\<lparr>co_Parameters := decoded_omitempty (co_Parameters a),
       co_ResponseStatuses := decoded_omitempty (co_ResponseStatuses a)\<rparr>)) (cs_Operations s)\<rparr>"

definition decoded_revision :: "contract_revision \<Rightarrow> contract_revision" where
  "decoded_revision r = r\<lparr>vr_ReviewSnapshot := map_option decoded_snapshot (vr_ReviewSnapshot r)\<rparr>"

definition cloneImmutableRecord :: "('a \<Rightarrow> bool) \<Rightarrow> ('a \<Rightarrow> 'a) \<Rightarrow> 'a \<Rightarrow> 'a result" where
  "cloneImmutableRecord ok decoded v =
     (if ok v then Inr (decoded v) else Inl (Wrapf ''encode immutable record clone: %w'' [] json_time_error))"

end
