(* ===== verification/Operational_State.thy ===== *)
theory Operational_State
  imports Operational_Records
begin

text \<open>
  The file store's operational state (\<open>internal/adapters/store/fs.go\<close>): its maps and keys, the
  operations of a transaction, the validators of a persisted state and the commit protocol of
  \<open>Within\<close>. A Go map is an association list with distinct keys; loops over a map visit it in list
  order, which stands for any of Go's iteration orders. A context is the error it would report at
  the call (\<open>None\<close> when it is live). Reading a blob file is a parameter.
\<close>

section \<open>State\<close>

definition legacyOperationalStateVersion :: int where "legacyOperationalStateVersion = 1"
definition decisionOperationalStateVersion :: int where "decisionOperationalStateVersion = 2"
definition authenticatedStateVersion :: int where "authenticatedStateVersion = 3"
definition operationalStateVersion :: int where "operationalStateVersion = 4"
definition releaseTrackAuthorityVersion :: int where "releaseTrackAuthorityVersion = 1"

record release_track_authority =
  au_Version :: int
  au_Generation :: "64 word"
  au_DecisionPresent :: bool
  au_Decision :: release_decision

record operational_state =
  os_Version :: int
  os_Revisions :: "(string, contract_revision) go_map"
  os_Reviews :: "(string, contract_review) go_map"
  os_SyncRecords :: "(string, sync_record) go_map"
  os_ReleaseTracks :: "(string, release_track) go_map"
  os_ReleaseTrackAuthorities :: "(string, release_track_authority) go_map"
  os_ReleaseAuthorizations :: "(string, release_authorization) go_map"
  os_Publications :: "(string, publication) go_map"
  os_AuditEvents :: "(string, audit_event) go_map"
  os_Outbox :: "(string, outbox_message) go_map"
  os_migratedRevisions :: "string list"

record operational_transaction =
  tx_state :: operational_state
  tx_validatedReleaseTracks :: "(string, release_track) go_map"
  tx_mutatedRevisions :: "string list"

definition newOperationalState :: operational_state where
  "newOperationalState = \<lparr>os_Version = operationalStateVersion, os_Revisions = [], os_Reviews = [], os_SyncRecords = [],
     os_ReleaseTracks = [], os_ReleaseTrackAuthorities = [], os_ReleaseAuthorizations = [], os_Publications = [],
     os_AuditEvents = [], os_Outbox = [], os_migratedRevisions = []\<rparr>"

section \<open>Errors, maps and keys\<close>

definition ErrNotExist :: go_error where "ErrNotExist = Errorf ''file does not exist'' []"
definition ErrGenerationConflict :: go_error where "ErrGenerationConflict = Errorf ''operational generation conflict'' []"
definition ErrCommitOutcomeUnknown :: go_error where "ErrCommitOutcomeUnknown = Errorf ''operational commit outcome unknown'' []"
definition errUnsafeStorePath :: go_error where "errUnsafeStorePath = Errorf ''unsafe store path'' []"

text \<open>\<open>errors.Is\<close>: the error or one it wraps.\<close>

fun errors_Is :: "go_error \<Rightarrow> go_error \<Rightarrow> bool" where
  "errors_Is (Errorf f xs) target \<longleftrightarrow> Errorf f xs = target"
| "errors_Is (Wrapf f xs e) target \<longleftrightarrow> Wrapf f xs e = target \<or> errors_Is e target"

definition map_delete :: "'k \<Rightarrow> ('k, 'v) go_map \<Rightarrow> ('k, 'v) go_map" where
  "map_delete k m = filter (\<lambda>(k', v). k' \<noteq> k) m"

definition set_add :: "string \<Rightarrow> string list \<Rightarrow> string list" where
  "set_add x xs = (if x \<in> set xs then xs else xs @ [x])"

definition set_remove :: "string \<Rightarrow> string list \<Rightarrow> string list" where
  "set_remove x xs = filter (\<lambda>y. y \<noteq> x) xs"

text \<open>\<open>reflect.DeepEqual\<close> on maps.\<close>

definition maps_equal :: "('k, 'v) go_map \<Rightarrow> ('k, 'v) go_map \<Rightarrow> bool" where
  "maps_equal a b \<longleftrightarrow> list_all (\<lambda>(k, v). map_of b k = Some v) a \<and> list_all (\<lambda>(k, v). map_of a k = Some v) b"

text \<open>A loop over a map whose body may return an error.\<close>

definition each_entry :: "('k \<Rightarrow> 'v \<Rightarrow> err) \<Rightarrow> ('k, 'v) go_map \<Rightarrow> err" where
  "each_entry f m = each (\<lambda>(k, v). f k v) m"

definition nul :: string where "nul = [CHR 0x00]"

definition revisionKey :: "string \<Rightarrow> string \<Rightarrow> string" where
  "revisionKey contractID revisionID = (if contractID = [] then revisionID else contractID @ nul @ revisionID)"

definition revisionStorageKey :: "contract_revision \<Rightarrow> string" where
  "revisionStorageKey revision = revisionKey (vr_ContractID revision) (vr_ID revision)"

definition releaseTrackKey :: "string \<Rightarrow> string \<Rightarrow> string" where
  "releaseTrackKey contractID trackID = contractID @ nul @ trackID"

definition publicationKey :: "string \<Rightarrow> string \<Rightarrow> string" where
  "publicationKey projectID revisionID = projectID @ nul @ revisionID"

definition revisionForContract :: "operational_state \<Rightarrow> string \<Rightarrow> string \<Rightarrow> contract_revision option" where
  "revisionForContract state contractID revisionID =
     (case map_of (os_Revisions state) (revisionKey contractID revisionID) of
        None \<Rightarrow> None
      | Some revision \<Rightarrow>
          if vr_ContractID revision \<noteq> contractID \<or> vr_ID revision \<noteq> revisionID then None else Some revision)"

definition validateID :: "string \<Rightarrow> err" where
  "validateID i =
     (if \<not> utf8_valid i then Some (Errorf ''identity must contain valid UTF-8'' [])
      else if i \<noteq> TrimSpace i then Some (Errorf ''identity must not contain leading or trailing whitespace'' [])
      else if i = [] \<or> i = ''.'' \<or> i = ''..'' \<or> has_prefix ''/'' i then Some errUnsafeStorePath
      else if contains_any i [CHR ''/'', CHR 0x5C] \<or> path_clean i \<noteq> i then Some errUnsafeStorePath
      else if containsControlCharacter i then Some (Errorf ''identity must not contain control characters'' [])
      else None)"

definition validatePublicPath :: "string \<Rightarrow> err" where
  "validatePublicPath publicPath =
     (if ValidateCanonicalPublicPath ''public path'' publicPath False \<noteq> None then Some errUnsafeStorePath else None)"

section \<open>Release track authorities\<close>

definition zero_decision :: release_decision where
  "zero_decision = \<lparr>rd_RevisionID = [], rd_ReviewID = [], rd_ReviewDigest = [], rd_Verdict = [], rd_Accepted = False,
     rd_EvaluatedAt = zero_time\<rparr>"

definition newReleaseTrackAuthority :: "release_track \<Rightarrow> release_track_authority" where
  "newReleaseTrackAuthority track =
     \<lparr>au_Version = releaseTrackAuthorityVersion, au_Generation = rt_Generation track,
      au_DecisionPresent = (rt_LastDecision track \<noteq> None),
      au_Decision = (case rt_LastDecision track of None \<Rightarrow> zero_decision | Some d \<Rightarrow> d)\<rparr>"

definition validateReleaseTrackAuthority :: "string \<Rightarrow> release_track \<Rightarrow> release_track_authority \<Rightarrow> err" where
  "validateReleaseTrackAuthority key track authority =
     (if au_Version authority \<noteq> releaseTrackAuthorityVersion
        then Some (Errorf ''release track %q authority version %d is unsupported'' [key])
      else if au_Generation authority \<noteq> rt_Generation track
        then Some (Errorf ''release track %q authority generation %d does not match track generation %d''
               [key, itoa (unat (au_Generation authority)), itoa (unat (rt_Generation track))])
      else (case rt_LastDecision track of
          None \<Rightarrow> fail_if (au_DecisionPresent authority \<or> au_Decision authority \<noteq> zero_decision)
            (Errorf ''release track %q baseline authority contains decision evidence'' [key])
        | Some d \<Rightarrow> fail_if (\<not> au_DecisionPresent authority \<or> au_Decision authority \<noteq> d)
            (Errorf ''release track %q decision authority does not match its latest decision'' [key])))"

definition validateReleaseTrackAuthorities :: "operational_state \<Rightarrow> err" where
  "validateReleaseTrackAuthorities state = first_error
     [fail_if (length (os_ReleaseTrackAuthorities state) \<noteq> length (os_ReleaseTracks state))
        (Errorf ''release track authority count does not match release track count'' []),
      each_entry (\<lambda>key track. and_then
        (wrap_err (Wrapf ''release track %q is invalid: %w'' [key]) (ValidateReleaseTrack track))
        (case map_of (os_ReleaseTrackAuthorities state) key of
           None \<Rightarrow> Some (Errorf ''release track %q has no decision authority marker'' [key])
         | Some authority \<Rightarrow> validateReleaseTrackAuthority key track authority)) (os_ReleaseTracks state),
      each_entry (\<lambda>key authority. fail_if (map_of (os_ReleaseTracks state) key = None)
        (Errorf ''release track authority %q has no track'' [key])) (os_ReleaseTrackAuthorities state)]"

section \<open>Revision ownership\<close>

text \<open>A reference adopts a legacy revision without a contract; the flag says whether it did.\<close>

definition bindRevisionOwner ::
    "operational_state \<Rightarrow> string \<Rightarrow> string \<Rightarrow> string \<Rightarrow> (operational_state \<times> bool) result" where
  "bindRevisionOwner state contractID revisionID owner =
     (if TrimSpace contractID = [] then Inl (Errorf ''%s has no owning contract'' [owner])
      else (let key = revisionKey contractID revisionID in
        case map_of (os_Revisions state) key of
          Some revision \<Rightarrow>
            if vr_ContractID revision \<noteq> contractID \<or> vr_ID revision \<noteq> revisionID
              then Inl (Errorf ''%s references malformed contract-scoped revision %q'' [owner, revisionID])
            else Inr (state, False)
        | None \<Rightarrow>
            (case map_of (os_Revisions state) revisionID of
               None \<Rightarrow> Inl (Errorf ''%s references uncommitted revision %q'' [owner, revisionID])
             | Some revision \<Rightarrow>
                 if vr_ContractID revision = contractID then Inr (state, False)
                 else if vr_ContractID revision \<noteq> []
                   then Inl (Errorf ''%s references revision %q owned by contract %q, not %q''
                          [owner, revisionID, vr_ContractID revision, contractID])
                 else Inr (state\<lparr>os_Revisions := map_put key (revision\<lparr>vr_ContractID := contractID\<rparr>)
                        (map_delete revisionID (os_Revisions state))\<rparr>, True))))"

definition requireOwnedRevision :: "operational_state \<Rightarrow> string \<Rightarrow> string \<Rightarrow> string \<Rightarrow> err" where
  "requireOwnedRevision state contractID revisionID owner =
     (if TrimSpace contractID = [] then Some (Errorf ''%s has no owning contract'' [owner])
      else (case revisionForContract state contractID revisionID of
          None \<Rightarrow> Some (Errorf ''%s references uncommitted revision %q'' [owner, revisionID])
        | Some revision \<Rightarrow> fail_if (vr_ContractID revision \<noteq> contractID)
            (Errorf ''%s references revision %q owned by contract %q, not %q''
              [owner, revisionID, vr_ContractID revision, contractID])))"

definition tx_bindRevisionOwner ::
    "string \<Rightarrow> string \<Rightarrow> string \<Rightarrow> operational_transaction \<Rightarrow> operational_transaction result" where
  "tx_bindRevisionOwner contractID revisionID owner t =
     bind_res (bindRevisionOwner (tx_state t) contractID revisionID owner) (\<lambda>(state, changed).
       Inr (if changed then t\<lparr>tx_state := state,
              tx_mutatedRevisions := set_remove revisionID (set_add (revisionKey contractID revisionID) (tx_mutatedRevisions t))\<rparr>
            else t\<lparr>tx_state := state\<rparr>))"

section \<open>The operations of a transaction\<close>

definition canEnrichLegacyRevisionEvidence :: "contract_revision \<Rightarrow> contract_revision \<Rightarrow> bool" where
  "canEnrichLegacyRevisionEvidence existing enriched =
     (if vr_ReviewSnapshot existing \<noteq> None \<or> vr_ReviewSnapshot enriched = None then False
      else (let existingMetadata = existing\<lparr>vr_SpecDigest := [], vr_ContractDigest := [], vr_ReviewSnapshot := None\<rparr>;
                enrichedMetadata = enriched\<lparr>vr_SpecDigest := [], vr_ContractDigest := [], vr_ReviewSnapshot := None\<rparr>;
                enrichedMetadata = (if vr_ContractID existing = [] then enrichedMetadata\<lparr>vr_ContractID := []\<rparr> else enrichedMetadata)
            in existingMetadata = enrichedMetadata))"

definition canCanonicalizeLegacyRevisionRef :: "contract_revision \<Rightarrow> contract_revision \<Rightarrow> bool" where
  "canCanonicalizeLegacyRevisionRef existing canonicalRev =
     (if vr_CommitSHA existing = [] \<or> vr_CommitSHA canonicalRev \<noteq> vr_CommitSHA existing \<or>
         vr_Ref canonicalRev \<noteq> vr_CommitSHA canonicalRev then False
      else existing\<lparr>vr_Ref := vr_Ref canonicalRev\<rparr> = canonicalRev)"

abbreviation marshals_always :: "'a \<Rightarrow> bool" where "marshals_always \<equiv> \<lambda>_. True"

abbreviation review_times_ok :: "contract_review \<Rightarrow> bool" where "review_times_ok v \<equiv> report_times_ok (cv_Report v)"
abbreviation event_times_ok :: "audit_event \<Rightarrow> bool" where "event_times_ok e \<equiv> time_marshal_ok (ae_OccurredAt e)"
abbreviation message_times_ok :: "outbox_message \<Rightarrow> bool" where "message_times_ok m \<equiv> time_marshal_ok (om_CreatedAt m)"

definition validateRevisionArgument :: "unicode_case \<Rightarrow> err \<Rightarrow> contract_revision \<Rightarrow> err" where
  "validateRevisionArgument uc ctx revision = first_error
     [ctx, validateID (vr_ID revision), ValidateContractRevision uc revision,
      check_identities
        [(''revision contract id'', vr_ContractID revision, True), (''revision source id'', vr_SourceID revision, True),
         (''revision ref'', vr_Ref revision, True), (''revision commit sha'', vr_CommitSHA revision, True)],
      (case vr_ReviewSnapshot revision of
         None \<Rightarrow> None
       | Some s \<Rightarrow> wrap_err (Wrapf ''revision canonical review snapshot: %w'' []) (ValidateContractSnapshot uc s))]"

text \<open>The record an incoming revision meets: under its own key, or a legacy record under its bare id.\<close>

definition existingRevision :: "operational_state \<Rightarrow> contract_revision \<Rightarrow> (string \<times> contract_revision) option" where
  "existingRevision state revision =
     (let key = revisionStorageKey revision in
      case map_of (os_Revisions state) key of
        Some existing \<Rightarrow> Some (key, existing)
      | None \<Rightarrow>
          if vr_ContractID revision = [] then None
          else (case map_of (os_Revisions state) (vr_ID revision) of
              Some legacy \<Rightarrow> if vr_ContractID legacy = [] then Some (vr_ID revision, legacy) else None
            | None \<Rightarrow> None))"

definition tx_SaveRevision ::
    "unicode_case \<Rightarrow> err \<Rightarrow> contract_revision \<Rightarrow> operational_transaction \<Rightarrow> operational_transaction result" where
  "tx_SaveRevision uc ctx revision t =
     require (validateRevisionArgument uc ctx revision)
      (let key = revisionStorageKey revision;
           store = (\<lambda>t. bind_res (cloneImmutableRecord marshals_always decoded_revision revision) (\<lambda>cloned.
             Inr (t\<lparr>tx_state := (tx_state t)\<lparr>os_Revisions := map_put key cloned (os_Revisions (tx_state t))\<rparr>,
                    tx_mutatedRevisions := set_add key (tx_mutatedRevisions t)\<rparr>)))
       in case existingRevision (tx_state t) revision of
            None \<Rightarrow> store t
          | Some (existingKey, existing) \<Rightarrow>
              bind_res (immutableRecordsEqual marshals_always json_revision existing revision) (\<lambda>equal.
                if equal then Inr t
                else if \<not> canEnrichLegacyRevisionEvidence existing revision \<and> \<not> canCanonicalizeLegacyRevisionRef existing revision
                  then Inl (Errorf ''revision %q conflicts with immutable persisted evidence'' [vr_ID revision])
                else store (if existingKey \<noteq> key
                  then t\<lparr>tx_state := (tx_state t)\<lparr>os_Revisions := map_delete existingKey (os_Revisions (tx_state t))\<rparr>,
                         tx_mutatedRevisions := set_remove existingKey (tx_mutatedRevisions t)\<rparr>
                  else t)))"

text \<open>Saving an immutable record under its id: a replay of the same record changes nothing.\<close>

definition save_immutable ::
    "('a \<Rightarrow> bool) \<Rightarrow> ('a \<Rightarrow> json) \<Rightarrow> go_error \<Rightarrow> ('a option) \<Rightarrow> 'a \<Rightarrow> 't result \<Rightarrow> 't \<Rightarrow> 't result" where
  "save_immutable ok js conflict existing record saved unchanged =
     (case existing of
        Some e \<Rightarrow> bind_res (immutableRecordsEqual ok js e record) (\<lambda>equal. if equal then Inr unchanged else Inl conflict)
      | None \<Rightarrow> saved)"

definition tx_SaveReview ::
    "unicode_case \<Rightarrow> err \<Rightarrow> contract_review \<Rightarrow> operational_transaction \<Rightarrow> operational_transaction result" where
  "tx_SaveReview uc ctx review t =
     require (first_error [ctx, ValidateContractReviewIdentities review])
     (bind_res (tx_bindRevisionOwner (cv_ContractID review) (cv_BaselineRevisionID review)
        (''review '' @ cv_ID review @ '' baseline'') t) (\<lambda>t.
      bind_res (tx_bindRevisionOwner (cv_ContractID review) (cv_CandidateRevisionID review)
        (''review '' @ cv_ID review @ '' candidate'') t) (\<lambda>t.
      case Option.bind (revisionForContract (tx_state t) (cv_ContractID review) (cv_BaselineRevisionID review)) vr_ReviewSnapshot of
        None \<Rightarrow> Inl (Errorf ''review %q baseline has no canonical snapshot'' [cv_ID review])
      | Some baseline \<Rightarrow>
        (case Option.bind (revisionForContract (tx_state t) (cv_ContractID review) (cv_CandidateRevisionID review)) vr_ReviewSnapshot of
           None \<Rightarrow> Inl (Errorf ''review %q candidate has no canonical snapshot'' [cv_ID review])
         | Some candidate \<Rightarrow>
           require (wrap_err (Wrapf ''review %q is not canonical: %w'' [cv_ID review])
              (ValidateContractReviewAgainstSnapshots uc review baseline candidate))
            (save_immutable review_times_ok json_review
               (Errorf ''review %q conflicts with immutable persisted evidence'' [cv_ID review])
               (map_of (os_Reviews (tx_state t)) (cv_ID review)) review
               (bind_res (cloneImmutableRecord review_times_ok decoded_review review) (\<lambda>cloned.
                  Inr (t\<lparr>tx_state := (tx_state t)\<lparr>os_Reviews := map_put (cv_ID review) cloned (os_Reviews (tx_state t))\<rparr>\<rparr>)))
               t)))))"

definition tx_SaveSyncRecord ::
    "err \<Rightarrow> sync_record \<Rightarrow> operational_transaction \<Rightarrow> operational_transaction result" where
  "tx_SaveSyncRecord ctx record t =
     require (first_error
       [ctx, validateID (sr_ID record), ValidateSyncRecord record,
        check_identities
          [(''sync project id'', sr_ProjectID record, True), (''sync source id'', sr_SourceID record, True),
           (''sync revision id'', sr_RevisionID record, True), (''sync trigger'', sr_Trigger record, True),
           (''sync ref'', sr_Ref record, True), (''sync commit sha'', sr_CommitSHA record, True),
           (''sync spec path'', sr_SpecPath record, True)]])
      (bind_res (if sr_Result record = SyncResultSuccess \<and> sr_RevisionID record \<noteq> []
         then tx_bindRevisionOwner (sr_ProjectID record) (sr_RevisionID record) (''sync record '' @ sr_ID record) t
         else Inr t) (\<lambda>t.
       case map_of (os_SyncRecords (tx_state t)) (sr_ID record) of
         Some existing \<Rightarrow>
           if \<not> SameSyncEvidence existing record
             then Inl (Errorf ''sync record %q conflicts with immutable persisted evidence'' [sr_ID record])
           else Inr t
       | None \<Rightarrow> Inr (t\<lparr>tx_state := (tx_state t)\<lparr>os_SyncRecords := map_put (sr_ID record) record (os_SyncRecords (tx_state t))\<rparr>\<rparr>)))"

definition tx_SyncRecord :: "err \<Rightarrow> string \<Rightarrow> operational_transaction \<Rightarrow> sync_record result" where
  "tx_SyncRecord ctx i t =
     require (first_error [ctx, validateID i])
      (case map_of (os_SyncRecords (tx_state t)) i of
         None \<Rightarrow> Inl ErrNotExist
       | Some record \<Rightarrow>
           if sr_ID record \<noteq> i then Inl (Errorf ''sync lookup %q returned transactional id %q'' [i, sr_ID record])
           else Inr record)"

definition saveReleaseAuthorization ::
    "err \<Rightarrow> release_authorization \<Rightarrow> operational_transaction \<Rightarrow> operational_transaction result" where
  "saveReleaseAuthorization ctx authorization t =
     require (first_error [ctx, ValidateReleaseAuthorization authorization])
      (save_immutable marshals_always json_authorization
        (Errorf ''release authorization %q conflicts with immutable persisted evidence'' [ra_ReviewID authorization])
        (map_of (os_ReleaseAuthorizations (tx_state t)) (ra_ReviewID authorization)) authorization
        (Inr (t\<lparr>tx_state := (tx_state t)\<lparr>os_ReleaseAuthorizations :=
           map_put (ra_ReviewID authorization) authorization (os_ReleaseAuthorizations (tx_state t))\<rparr>\<rparr>))
        t)"

definition tx_ReleaseTrack :: "err \<Rightarrow> string \<Rightarrow> string \<Rightarrow> operational_transaction \<Rightarrow> release_track result" where
  "tx_ReleaseTrack ctx contractID trackID t =
     require (first_error [ctx, validateID contractID, validateID trackID])
      (case map_of (os_ReleaseTracks (tx_state t)) (releaseTrackKey contractID trackID) of
         None \<Rightarrow> Inl ErrNotExist
       | Some track \<Rightarrow>
           require (wrap_err (Wrapf ''invalid persisted release track: %w'' []) (ValidateReleaseTrack track))
             (Inr (CloneReleaseTrack track)))"

definition validateReleaseTrackInitialization :: "release_track \<Rightarrow> err" where
  "validateReleaseTrackInitialization track =
     and_then (ValidateReleaseTrack track)
      (case rt_LastDecision track of
         None \<Rightarrow> fail_if (rt_Generation track \<noteq> 0) (Errorf ''release track baseline initialization requires generation zero'' [])
       | Some d \<Rightarrow>
           if rt_Generation track \<noteq> 1 then Some (Errorf ''first release decision requires generation one'' [])
           else (let baseline = (CloneReleaseTrack track)\<lparr>rt_Generation := 0, rt_CandidateRevisionID := [], rt_LastDecision := None\<rparr>;
                     baseline = (if rt_Mode track = ReleaseModeFollowing \<and> rd_Accepted d
                                 then baseline\<lparr>rt_CurrentRevisionID := []\<rparr> else baseline)
                 in case ConsiderReleaseDecision baseline d of
                      Inl e \<Rightarrow> Some (Wrapf ''derive first release decision: %w'' [] e)
                    | Inr (expected, changed) \<Rightarrow> fail_if (\<not> changed \<or> expected \<noteq> track)
                        (Errorf ''release track does not match a first authoritative decision'' [])))"

definition tx_SaveReleaseTrack ::
    "err \<Rightarrow> 64 word \<Rightarrow> release_track \<Rightarrow> operational_transaction \<Rightarrow> operational_transaction result" where
  "tx_SaveReleaseTrack ctx expectedGeneration track t =
     require (first_error
       [ctx, validateID (rt_ContractID track), validateID (rt_ID track),
        wrap_err (Wrapf ''invalid release track: %w'' []) (ValidateReleaseTrack track)])
      (let key = releaseTrackKey (rt_ContractID track) (rt_ID track);
           existing = map_of (os_ReleaseTracks (tx_state t)) key in
       require (case existing of None \<Rightarrow> None
         | Some current \<Rightarrow> wrap_err (Wrapf ''invalid persisted release track: %w'' []) (ValidateReleaseTrack current))
        (if existing = Some track then Inr t
         else if (case existing of Some current \<Rightarrow> rt_Generation current \<noteq> expectedGeneration | None \<Rightarrow> expectedGeneration \<noteq> 0)
           then Inl ErrGenerationConflict
         else require (case existing of Some current \<Rightarrow> ValidateReleaseTrackTransition current track
             | None \<Rightarrow> validateReleaseTrackInitialization track)
          (bind_res (if rt_CurrentRevisionID track \<noteq> []
             then tx_bindRevisionOwner (rt_ContractID track) (rt_CurrentRevisionID track) (''release track '' @ key @ '' current'') t
             else Inr t) (\<lambda>t.
           bind_res (if rt_CandidateRevisionID track \<noteq> []
             then tx_bindRevisionOwner (rt_ContractID track) (rt_CandidateRevisionID track) (''release track '' @ key @ '' candidate'') t
             else Inr t) (\<lambda>t.
           Inr (t\<lparr>tx_state := (tx_state t)\<lparr>
                    os_ReleaseTracks := map_put key (CloneReleaseTrack track) (os_ReleaseTracks (tx_state t)),
                    os_ReleaseTrackAuthorities := map_put key (newReleaseTrackAuthority track) (os_ReleaseTrackAuthorities (tx_state t))\<rparr>,
                  tx_validatedReleaseTracks := map_put key (CloneReleaseTrack track) (tx_validatedReleaseTracks t)\<rparr>))))))"

text \<open>A new public route takes the path from every other public publication.\<close>

definition withdrawOthers :: "string \<Rightarrow> publication \<Rightarrow> (string, publication) go_map \<Rightarrow> (string, publication) go_map" where
  "withdrawOthers key publication pubs =
     map (\<lambda>(k, existing). if k = key \<or> \<not> pub_Public existing \<or> pub_Path existing \<noteq> pub_Path publication
       then (k, existing) else (k, existing\<lparr>pub_Public := False\<rparr>)) pubs"

definition tx_SavePublication ::
    "err \<Rightarrow> publication \<Rightarrow> operational_transaction \<Rightarrow> operational_transaction result" where
  "tx_SavePublication ctx publication t =
     require (first_error
       [ctx, validateID (pub_ProjectID publication), validateID (pub_RevisionID publication),
        validatePublicPath (pub_Path publication),
        ValidateCanonicalIdentity ''publication hostname'' (pub_Hostname publication) True])
      (let key = publicationKey (pub_ProjectID publication) (pub_RevisionID publication) in
       bind_res (tx_bindRevisionOwner (pub_ProjectID publication) (pub_RevisionID publication) (''publication '' @ key) t) (\<lambda>t.
         let pubs = os_Publications (tx_state t);
             pubs = (if pub_Public publication then withdrawOthers key publication pubs else pubs)
         in Inr (t\<lparr>tx_state := (tx_state t)\<lparr>os_Publications := map_put key publication pubs\<rparr>\<rparr>)))"

definition tx_AppendAuditEvent ::
    "err \<Rightarrow> audit_event \<Rightarrow> operational_transaction \<Rightarrow> operational_transaction result" where
  "tx_AppendAuditEvent ctx event t =
     require (first_error
       [ctx, validateID (ae_ID event),
        check_identities
          [(''audit contract id'', ae_ContractID event, True), (''audit track id'', ae_TrackID event, True),
           (''audit revision id'', ae_RevisionID event, True), (''audit actor id'', ae_ActorID event, True),
           (''audit kind'', ae_Kind event, True)]])
      (bind_res (if ae_RevisionID event \<noteq> []
         then tx_bindRevisionOwner (ae_ContractID event) (ae_RevisionID event) (''audit event '' @ ae_ID event) t
         else Inr t) (\<lambda>t.
       save_immutable event_times_ok json_event
         (Errorf ''audit event %q conflicts with immutable persisted evidence'' [ae_ID event])
         (map_of (os_AuditEvents (tx_state t)) (ae_ID event)) event
         (Inr (t\<lparr>tx_state := (tx_state t)\<lparr>os_AuditEvents := map_put (ae_ID event) event (os_AuditEvents (tx_state t))\<rparr>\<rparr>))
         t))"

definition tx_Enqueue ::
    "err \<Rightarrow> outbox_message \<Rightarrow> operational_transaction \<Rightarrow> operational_transaction result" where
  "tx_Enqueue ctx message t =
     require (first_error
       [ctx, validateID (om_ID message),
        check_identities
          [(''outbox contract id'', om_ContractID message, True), (''outbox track id'', om_TrackID message, True),
           (''outbox revision id'', om_RevisionID message, True), (''outbox topic'', om_Topic message, True)]])
      (bind_res (if om_RevisionID message \<noteq> []
         then tx_bindRevisionOwner (om_ContractID message) (om_RevisionID message) (''outbox message '' @ om_ID message) t
         else Inr t) (\<lambda>t.
       save_immutable message_times_ok json_message
         (Errorf ''outbox message %q conflicts with immutable persisted evidence'' [om_ID message])
         (map_of (os_Outbox (tx_state t)) (om_ID message)) message
         (Inr (t\<lparr>tx_state := (tx_state t)\<lparr>os_Outbox := map_put (om_ID message)
            (message\<lparr>om_Payload := nil_append (elems (om_Payload message))\<rparr>) (os_Outbox (tx_state t))\<rparr>\<rparr>))
         t))"

end
