(* ===== verification/Operational_Store.thy ===== *)
theory Operational_Store
  imports Operational_State
begin

text \<open>
  The file store around its transactions (\<open>internal/adapters/store/fs.go\<close>): the validators of a
  persisted state, the evidence of a release decision they demand, and \<open>Within\<close>, which runs a
  callback on a copy of the state and publishes the copy only when every validator accepts it. A callback passes on every error of the store, as
  the callbacks of the application services do. \<open>read_blob\<close> reads the file of a valid blob key.
\<close>

section \<open>Revision evidence\<close>

definition validateRevisionEvidence ::
    "unicode_case \<Rightarrow> (string \<Rightarrow> string result) \<Rightarrow> err \<Rightarrow> contract_revision \<Rightarrow> err" where
  "validateRevisionEvidence uc read_blob ctx revision =
     (let hasReviewEvidence = (vr_SpecDigest revision \<noteq> [] \<or> vr_ContractDigest revision \<noteq> [] \<or> vr_ReviewSnapshot revision \<noteq> None) in
      if vr_SpecBlobKey revision = [] then fail_if hasReviewEvidence (Errorf ''review evidence requires a spec blob'' [])
      else (let key = vr_SpecBlobKey revision in
        if \<not> BlobKey_Valid uc key then Some (Errorf ''invalid blob key %q'' [key])
        else (case read_blob key of
            Inl e \<Rightarrow> Some (Wrapf ''references missing blob %q: %w'' [key] e)
          | Inr data \<Rightarrow>
            (let contentKey = ContentAddressedBlobKey data in
             if contentKey \<noteq> key then Some (Errorf ''references corrupt blob %q'' [key])
             else and_then ctx
               (if \<not> hasReviewEvidence then None
                else if TrimSpace (vr_ContractID revision) = [] \<or> vr_SpecDigest revision = [] \<or> vr_ContractDigest revision = [] \<or>
                        vr_ReviewSnapshot revision = None
                  then Some (Errorf ''review evidence is incomplete'' [])
                else (let s = the (vr_ReviewSnapshot revision) in first_error
                  [wrap_err (Wrapf ''canonical review snapshot: %w'' []) (ValidateContractSnapshot uc s),
                   fail_if (cs_ContractID s \<noteq> vr_ContractID revision \<or> cs_RevisionID s \<noteq> vr_ID revision)
                     (Errorf ''canonical review snapshot identity does not match revision'' []),
                   fail_if (cs_SpecDigest s \<noteq> vr_SpecDigest revision)
                     (Errorf ''spec digest does not match canonical review snapshot'' []),
                   fail_if (cs_ContractDigest s \<noteq> vr_ContractDigest revision)
                     (Errorf ''contract digest does not match canonical review snapshot'' []),
                   fail_if (vr_SpecDigest revision \<noteq> trim_prefix ''sha256:'' contentKey)
                     (Errorf ''spec digest does not match stored blob'' [])]))))))"

definition validateReleaseAuthorizationRevisionEvidence ::
    "unicode_case \<Rightarrow> (string \<Rightarrow> string result) \<Rightarrow> err \<Rightarrow> operational_state \<Rightarrow> release_authorization \<Rightarrow> err" where
  "validateReleaseAuthorizationRevisionEvidence uc read_blob ctx state authorization =
     each (\<lambda>revisionID.
       case revisionForContract state (ra_ContractID authorization) revisionID of
         None \<Rightarrow> Some (Errorf ''authorized revision %q is missing'' [revisionID])
       | Some revision \<Rightarrow> wrap_err (Wrapf ''authorized revision %q has invalid persisted evidence: %w'' [revisionID])
           (validateRevisionEvidence uc read_blob ctx revision))
       [ra_BaselineRevisionID authorization, ra_CandidateRevisionID authorization]"

definition validateAuthorizationBaseline :: "operational_state \<Rightarrow> release_authorization \<Rightarrow> err" where
  "validateAuthorizationBaseline previous authorization =
     (case map_of (os_ReleaseTracks previous) (releaseTrackKey (ra_ContractID authorization) (ra_TrackID authorization)) of
        None \<Rightarrow> Some (Errorf ''authorized release track has no persisted pre-transition state'' [])
      | Some track \<Rightarrow> fail_if (rt_CurrentRevisionID track \<noteq> ra_BaselineRevisionID authorization)
          (Errorf ''authorized baseline %q does not match pre-transition current revision %q''
            [ra_BaselineRevisionID authorization, rt_CurrentRevisionID track]))"

definition validateChangedReleaseEvidence ::
    "unicode_case \<Rightarrow> (string \<Rightarrow> string result) \<Rightarrow> err \<Rightarrow> operational_state \<Rightarrow> operational_state \<Rightarrow> err" where
  "validateChangedReleaseEvidence uc read_blob ctx previous state = first_error
     [each_entry (\<lambda>reviewID authorization.
        if map_of (os_ReleaseAuthorizations previous) reviewID = Some authorization then None
        else first_error
          [wrap_err (Wrapf ''release authorization %q baseline binding: %w'' [reviewID])
             (validateAuthorizationBaseline previous authorization),
           wrap_err (Wrapf ''release authorization %q evidence: %w'' [reviewID])
             (validateReleaseAuthorizationRevisionEvidence uc read_blob ctx state authorization)])
        (os_ReleaseAuthorizations state),
      each_entry (\<lambda>key track.
        if map_of (os_ReleaseTracks previous) key = Some track then None
        else (case rt_LastDecision track of
            None \<Rightarrow> None
          | Some d \<Rightarrow>
            (case map_of (os_ReleaseAuthorizations state) (rd_ReviewID d) of
               None \<Rightarrow> Some (Errorf ''changed release track %q has no persisted authorization'' [key])
             | Some authorization \<Rightarrow> first_error
                 [wrap_err (Wrapf ''changed release track %q baseline binding: %w'' [key])
                    (validateAuthorizationBaseline previous authorization),
                  wrap_err (Wrapf ''changed release track %q evidence: %w'' [key])
                    (validateReleaseAuthorizationRevisionEvidence uc read_blob ctx state authorization)])))
        (os_ReleaseTracks state)]"

section \<open>Release evidence\<close>

definition transitionEvidenceValue :: "release_authorization \<Rightarrow> bool \<Rightarrow> 64 word \<Rightarrow> string" where
  "transitionEvidenceValue authorization accepted generation =
     ra_ContractID authorization @ nul @ ra_TrackID authorization @ nul @ ra_CandidateRevisionID authorization @ nul @
     ra_ReviewID authorization @ nul @ itoa (unat generation) @ nul @ bool_text accepted"

definition TrackConsidered :: string where "TrackConsidered = ''release.track.considered''"
definition TrackUpdated :: string where "TrackUpdated = ''release.track.updated''"
definition TrackPromoted :: string where "TrackPromoted = ''release.track.promoted''"

definition releaseTransitionEvidenceID :: "release_authorization \<Rightarrow> bool \<Rightarrow> 64 word \<Rightarrow> string \<Rightarrow> string" where
  "releaseTransitionEvidenceID authorization accepted generation kind =
     (let v = transitionEvidenceValue authorization accepted generation;
          v = (if kind \<noteq> TrackConsidered then v @ nul @ kind else v)
      in ''audit-'' @ take 24 (sha256Hex v))"

definition outboxID :: "string \<Rightarrow> string" where
  "outboxID eventID = ''outbox-'' @ trim_prefix ''audit-'' eventID"

definition requireReleaseTransitionEffects ::
    "operational_state \<Rightarrow> release_authorization \<Rightarrow> bool \<Rightarrow> 64 word \<Rightarrow> string \<Rightarrow> string \<Rightarrow> err" where
  "requireReleaseTransitionEffects state authorization accepted generation auditKind outboxTopic =
     (let eventID = releaseTransitionEvidenceID authorization accepted generation auditKind;
          auditMissing = Some (Errorf ''release transition is missing deterministic audit event %q'' [eventID]) in
      case map_of (os_AuditEvents state) eventID of
        None \<Rightarrow> auditMissing
      | Some event \<Rightarrow>
          if ae_ContractID event \<noteq> ra_ContractID authorization \<or> ae_TrackID event \<noteq> ra_TrackID authorization \<or>
             ae_RevisionID event \<noteq> ra_CandidateRevisionID authorization \<or> ae_Kind event \<noteq> auditKind \<or>
             time_IsZero (ae_OccurredAt event) \<or> t_loc (ae_OccurredAt event) \<noteq> LocUTC then auditMissing
          else (let messageID = outboxID eventID;
                    outboxMissing = Some (Errorf ''release transition is missing deterministic outbox message %q'' [messageID]) in
            case map_of (os_Outbox state) messageID of
              None \<Rightarrow> outboxMissing
            | Some message \<Rightarrow>
                if om_ContractID message \<noteq> ra_ContractID authorization \<or> om_TrackID message \<noteq> ra_TrackID authorization \<or>
                   om_RevisionID message \<noteq> ra_CandidateRevisionID authorization \<or> om_Topic message \<noteq> outboxTopic \<or>
                   time_IsZero (om_CreatedAt message) \<or> t_loc (om_CreatedAt message) \<noteq> LocUTC \<or>
                   \<not> time_Equal (om_CreatedAt message) (ae_OccurredAt event) then outboxMissing
                else None))"

definition validateReleaseAuthorizationBundle ::
    "unicode_case \<Rightarrow> operational_state \<Rightarrow> release_authorization \<Rightarrow> err" where
  "validateReleaseAuthorizationBundle uc state authorization =
     and_then (ValidateReleaseAuthorization authorization)
     (case map_of (os_ReleaseTracks state) (releaseTrackKey (ra_ContractID authorization) (ra_TrackID authorization)) of
        None \<Rightarrow> Some (Errorf ''references uncommitted release track'' [])
      | Some track \<Rightarrow>
        if rt_BoundRef track \<noteq> ra_BoundRef authorization then Some (Errorf ''bound ref does not match release track'' [])
        else (case revisionForContract state (ra_ContractID authorization) (ra_BaselineRevisionID authorization) of
          None \<Rightarrow> Some (Errorf ''baseline revision is missing or belongs to another contract'' [])
        | Some baseline \<Rightarrow>
          (case revisionForContract state (ra_ContractID authorization) (ra_CandidateRevisionID authorization) of
            None \<Rightarrow> Some (Errorf ''candidate revision is missing or belongs to another contract'' [])
          | Some candidate \<Rightarrow>
            if vr_SourceID candidate \<noteq> ra_SourceID authorization \<or>
               \<not> (vr_Ref candidate = ra_BoundRef authorization \<or>
                  (vr_CommitSHA candidate \<noteq> [] \<and> vr_Ref candidate = vr_CommitSHA candidate))
              then Some (Errorf ''candidate revision source/ref does not match authorization'' [])
            else (case (vr_ReviewSnapshot baseline, vr_ReviewSnapshot candidate) of
              (Some baselineSnapshot, Some candidateSnapshot) \<Rightarrow>
              (case map_of (os_Reviews state) (ra_ReviewID authorization) of
                None \<Rightarrow> Some (Errorf ''references uncommitted review'' [])
              | Some review \<Rightarrow>
                and_then (first_error
                  [fail_if (cv_ID review \<noteq> ra_ReviewID authorization \<or> cv_ContractID review \<noteq> ra_ContractID authorization \<or>
                      cv_BaselineRevisionID review \<noteq> ra_BaselineRevisionID authorization \<or>
                      cv_CandidateRevisionID review \<noteq> ra_CandidateRevisionID authorization \<or>
                      cv_BaselineSpecDigest review \<noteq> vr_SpecDigest baseline \<or>
                      cv_BaselineContractDigest review \<noteq> vr_ContractDigest baseline \<or>
                      cv_CandidateSpecDigest review \<noteq> vr_SpecDigest candidate \<or>
                      cv_CandidateContractDigest review \<noteq> vr_ContractDigest candidate \<or>
                      rr_PolicyDigest (cv_Report review) \<noteq> ra_PolicyDigest authorization)
                     (Errorf ''persisted review does not match authorization and revisions'' []),
                   wrap_err (Wrapf ''canonical review validation: %w'' [])
                     (ValidateReleaseReviewReportAgainstSnapshots uc (cv_Report review) (ra_ContractID authorization)
                        baselineSnapshot candidateSnapshot)])
                (case map_of (os_SyncRecords state) (ra_SyncRecordID authorization) of
                  None \<Rightarrow> Some (Errorf ''references uncommitted sync'' [])
                | Some syncRecord \<Rightarrow>
                  fail_if (sr_ID syncRecord \<noteq> ra_SyncRecordID authorization \<or> sr_ProjectID syncRecord \<noteq> ra_ContractID authorization \<or>
                      sr_SourceID syncRecord \<noteq> ra_SourceID authorization \<or>
                      sr_RevisionID syncRecord \<noteq> ra_CandidateRevisionID authorization \<or>
                      sr_Ref syncRecord \<noteq> ra_BoundRef authorization \<or> sr_CommitSHA syncRecord \<noteq> vr_CommitSHA candidate)
                    (Errorf ''persisted sync does not match authorization'' [])))
              | _ \<Rightarrow> Some (Errorf ''authorized revisions require canonical review snapshots'' [])))))"

definition zero_review :: contract_review where
  "zero_review = \<lparr>cv_ID = [], cv_ContractID = [], cv_BaselineRevisionID = [], cv_BaselineSpecDigest = [],
     cv_BaselineContractDigest = [], cv_CandidateRevisionID = [], cv_CandidateSpecDigest = [],
     cv_CandidateContractDigest = [], cv_Report = zero_report\<rparr>"

definition reviewOf :: "operational_state \<Rightarrow> string \<Rightarrow> contract_review" where
  "reviewOf state reviewID = (case map_of (os_Reviews state) reviewID of None \<Rightarrow> zero_review | Some v \<Rightarrow> v)"

definition syncResultOf :: "operational_state \<Rightarrow> string \<Rightarrow> string" where
  "syncResultOf state i = (case map_of (os_SyncRecords state) i of None \<Rightarrow> [] | Some r \<Rightarrow> sr_Result r)"

definition track_promoted :: "release_track \<Rightarrow> release_decision \<Rightarrow> bool" where
  "track_promoted track decision \<longleftrightarrow> rt_Mode track = ReleaseModePinned \<and> rt_CandidateRevisionID track = [] \<and>
     rt_CurrentRevisionID track = rd_RevisionID decision"

definition validateReleaseDecisionBundle ::
    "operational_state \<Rightarrow> release_track \<Rightarrow> release_decision \<Rightarrow> release_authorization \<Rightarrow> err" where
  "validateReleaseDecisionBundle state track decision authorization =
     (if rt_CandidateRevisionID track \<noteq> [] \<and> rt_CurrentRevisionID track \<noteq> ra_BaselineRevisionID authorization
        then Some (Errorf ''outstanding decision current revision %q does not match authorization baseline %q''
               [rt_CurrentRevisionID track, ra_BaselineRevisionID authorization])
      else (let review = reviewOf state (ra_ReviewID authorization) in
        case CanonicalReviewJSON (cv_Report review) of
          Inl e \<Rightarrow> Some (Wrapf ''canonical review digest: %w'' [] e)
        | Inr bytes \<Rightarrow>
          (let promoted = track_promoted track decision in
           if rd_RevisionID decision \<noteq> ra_CandidateRevisionID authorization \<or> rd_ReviewID decision \<noteq> ra_ReviewID authorization \<or>
              rd_ReviewDigest decision \<noteq> sha256Hex bytes \<or> rd_Verdict decision \<noteq> rr_Verdict (cv_Report review) \<or>
              \<not> time_Equal (rd_EvaluatedAt decision) (rr_EvaluatedAt (cv_Report review))
             then Some (Errorf ''decision identity does not match immutable review'' [])
           else if rd_Accepted decision \<and> syncResultOf state (ra_SyncRecordID authorization) \<noteq> SyncResultSuccess
             then Some (Errorf ''accepted decision requires successful authorized sync'' [])
           else if promoted \<and> rt_Generation track = 0
             then Some (Errorf ''promoted decision has no consideration generation'' [])
           else first_error
             [requireReleaseTransitionEffects state authorization (rd_Accepted decision)
                (if promoted then rt_Generation track - 1 else rt_Generation track) TrackConsidered TrackUpdated,
              (if rd_Accepted decision \<and> (rt_Mode track = ReleaseModeFollowing \<or> promoted)
               then (case map_of (os_Publications state)
                        (publicationKey (ra_ContractID authorization) (ra_CandidateRevisionID authorization)) of
                   None \<Rightarrow> Some (Errorf ''accepted published decision is missing its authorized publication'' [])
                 | Some publication \<Rightarrow>
                     fail_if (\<not> pub_Public publication \<or> pub_Path publication \<noteq> ra_PublicPath authorization \<or>
                         pub_ProjectID publication \<noteq> ra_ContractID authorization \<or>
                         pub_RevisionID publication \<noteq> ra_CandidateRevisionID authorization)
                       (Errorf ''accepted published decision is missing its authorized publication'' []))
               else None),
              (if promoted then requireReleaseTransitionEffects state authorization (rd_Accepted decision)
                 (rt_Generation track) TrackPromoted TrackPromoted else None)])))"

definition validateReleaseEvidenceAuthorities :: "unicode_case \<Rightarrow> operational_state \<Rightarrow> err" where
  "validateReleaseEvidenceAuthorities uc state = first_error
     [each_entry (\<lambda>reviewID authorization. first_error
        [fail_if (reviewID \<noteq> ra_ReviewID authorization)
           (Errorf ''release authorization key %q does not match review id %q'' [reviewID, ra_ReviewID authorization]),
         wrap_err (Wrapf ''release authorization %q is invalid: %w'' [reviewID])
           (validateReleaseAuthorizationBundle uc state authorization)]) (os_ReleaseAuthorizations state),
      each_entry (\<lambda>key track.
        case rt_LastDecision track of
          None \<Rightarrow> None
        | Some d \<Rightarrow>
          (case map_of (os_ReleaseAuthorizations state) (rd_ReviewID d) of
             None \<Rightarrow> Some (Errorf ''release track %q decision references missing authorization %q'' [key, rd_ReviewID d])
           | Some authorization \<Rightarrow> first_error
               [fail_if (ra_ContractID authorization \<noteq> rt_ContractID track \<or> ra_TrackID authorization \<noteq> rt_ID track)
                  (Errorf ''release track %q decision authorization belongs to another track'' [key]),
                fail_if (ra_BoundRef authorization \<noteq> rt_BoundRef track)
                  (Errorf ''release track %q decision authorization ref does not match bound ref'' [key]),
                wrap_err (Wrapf ''release track %q has invalid decision authority: %w'' [key])
                  (validateReleaseDecisionBundle state track d authorization)])) (os_ReleaseTracks state)]"

section \<open>References and identities of a persisted state\<close>

definition validateUniquePublicPaths :: "(string, publication) go_map \<Rightarrow> err" where
  "validateUniquePublicPaths publications =
     (let keys = sort_strings (map_keys publications);
          public = filter (\<lambda>p. pub_Public p) (map (\<lambda>k. the (map_of publications k)) keys)
      in dup_error (\<lambda>i p. Errorf ''public path %q is claimed by both %q and %q'' [p]) (map pub_Path public))"

definition validatePersistedOperationalIdentities :: "unicode_case \<Rightarrow> operational_state \<Rightarrow> err" where
  "validatePersistedOperationalIdentities uc state = first_error
     [each_entry (\<lambda>_ revision. first_error
        [wrap_err (Wrapf ''persisted revision id: %w'' []) (validateID (vr_ID revision)),
         wrap_err (Wrapf ''persisted revision: %w'' []) (ValidateContractRevision uc revision),
         check_identities
           [(''persisted revision contract id'', vr_ContractID revision, True), (''persisted revision source id'', vr_SourceID revision, True),
            (''persisted revision ref'', vr_Ref revision, True), (''persisted revision commit sha'', vr_CommitSHA revision, True)],
         (case vr_ReviewSnapshot revision of None \<Rightarrow> None
          | Some s \<Rightarrow> wrap_err (Wrapf ''persisted revision canonical review snapshot: %w'' []) (ValidateContractSnapshot uc s))])
        (os_Revisions state),
      each_entry (\<lambda>_ review. wrap_err (Wrapf ''persisted review identities: %w'' []) (ValidateContractReviewIdentities review))
        (os_Reviews state),
      each_entry (\<lambda>_ record. first_error
        [wrap_err (Wrapf ''persisted sync id: %w'' []) (validateID (sr_ID record)),
         wrap_err (Wrapf ''persisted sync record: %w'' []) (ValidateSyncRecord record),
         check_identities
           [(''persisted sync project id'', sr_ProjectID record, True), (''persisted sync source id'', sr_SourceID record, True),
            (''persisted sync revision id'', sr_RevisionID record, True), (''persisted sync trigger'', sr_Trigger record, True),
            (''persisted sync ref'', sr_Ref record, True), (''persisted sync commit sha'', sr_CommitSHA record, True),
            (''persisted sync spec path'', sr_SpecPath record, True)]]) (os_SyncRecords state),
      each_entry (\<lambda>_ publication. first_error
        [wrap_err (Wrapf ''persisted publication contract id: %w'' []) (validateID (pub_ProjectID publication)),
         wrap_err (Wrapf ''persisted publication revision id: %w'' []) (validateID (pub_RevisionID publication)),
         wrap_err (Wrapf ''persisted publication path: %w'' []) (validatePublicPath (pub_Path publication)),
         ValidateCanonicalIdentity ''persisted publication hostname'' (pub_Hostname publication) True]) (os_Publications state),
      each_entry (\<lambda>_ event. first_error
        [wrap_err (Wrapf ''persisted audit id: %w'' []) (validateID (ae_ID event)),
         check_identities
           [(''persisted audit contract id'', ae_ContractID event, True), (''persisted audit track id'', ae_TrackID event, True),
            (''persisted audit revision id'', ae_RevisionID event, True), (''persisted audit actor id'', ae_ActorID event, True),
            (''persisted audit kind'', ae_Kind event, True)]]) (os_AuditEvents state),
      each_entry (\<lambda>_ message. first_error
        [wrap_err (Wrapf ''persisted outbox id: %w'' []) (validateID (om_ID message)),
         check_identities
           [(''persisted outbox contract id'', om_ContractID message, True), (''persisted outbox track id'', om_TrackID message, True),
            (''persisted outbox revision id'', om_RevisionID message, True), (''persisted outbox topic'', om_Topic message, True)]])
        (os_Outbox state)]"

text \<open>The reference checks of tracks, publications, reviews, sync records, events and messages.\<close>

definition trackReferences :: "operational_state \<Rightarrow> string \<Rightarrow> release_track \<Rightarrow> err" where
  "trackReferences state key track = first_error
     [fail_if (key \<noteq> releaseTrackKey (rt_ContractID track) (rt_ID track))
        (Errorf ''release track key %q does not match its identity'' [key]),
      each (\<lambda>(role, revisionID). if revisionID = [] then None
         else requireOwnedRevision state (rt_ContractID track) revisionID (''release track '' @ key @ '' '' @ role))
        [(''current'', rt_CurrentRevisionID track), (''candidate'', rt_CandidateRevisionID track)]]"

definition reviewReferences :: "operational_state \<Rightarrow> string \<Rightarrow> contract_review \<Rightarrow> err" where
  "reviewReferences state key review = first_error
     [fail_if (key \<noteq> cv_ID review) (Errorf ''review key %q does not match review id %q'' [key, cv_ID review]),
      requireOwnedRevision state (cv_ContractID review) (cv_BaselineRevisionID review) (''review '' @ key @ '' baseline''),
      requireOwnedRevision state (cv_ContractID review) (cv_CandidateRevisionID review) (''review '' @ key @ '' candidate'')]"

definition syncReferences :: "operational_state \<Rightarrow> string \<Rightarrow> sync_record \<Rightarrow> err" where
  "syncReferences state key record = first_error
     [fail_if (key \<noteq> sr_ID record) (Errorf ''sync record key %q does not match record id %q'' [key, sr_ID record]),
      (if sr_Result record = SyncResultSuccess \<and> sr_RevisionID record \<noteq> []
       then requireOwnedRevision state (sr_ProjectID record) (sr_RevisionID record) (''sync record '' @ key) else None)]"

definition trackExists :: "operational_state \<Rightarrow> string \<Rightarrow> string \<Rightarrow> bool" where
  "trackExists state contractID trackID \<longleftrightarrow> map_of (os_ReleaseTracks state) (releaseTrackKey contractID trackID) \<noteq> None"

definition eventReferences :: "operational_state \<Rightarrow> string \<Rightarrow> audit_event \<Rightarrow> err" where
  "eventReferences state key event = first_error
     [fail_if (key \<noteq> ae_ID event) (Errorf ''audit event key %q does not match event id %q'' [key, ae_ID event]),
      (if ae_RevisionID event \<noteq> [] then requireOwnedRevision state (ae_ContractID event) (ae_RevisionID event) (''audit event '' @ key)
       else None),
      fail_if (ae_TrackID event \<noteq> [] \<and> \<not> trackExists state (ae_ContractID event) (ae_TrackID event))
        (Errorf ''audit event %q references an uncommitted release track'' [key])]"

definition messageReferences :: "operational_state \<Rightarrow> string \<Rightarrow> outbox_message \<Rightarrow> err" where
  "messageReferences state key message = first_error
     [fail_if (key \<noteq> om_ID message) (Errorf ''outbox message key %q does not match message id %q'' [key, om_ID message]),
      (if om_RevisionID message \<noteq> [] then requireOwnedRevision state (om_ContractID message) (om_RevisionID message) (''outbox message '' @ key)
       else None),
      fail_if (om_TrackID message \<noteq> [] \<and> \<not> trackExists state (om_ContractID message) (om_TrackID message))
        (Errorf ''outbox message %q references an uncommitted release track'' [key])]"

definition validateOperationalReferences :: "unicode_case \<Rightarrow> operational_state \<Rightarrow> err" where
  "validateOperationalReferences uc state = first_error
     [validatePersistedOperationalIdentities uc state,
      validateUniquePublicPaths (os_Publications state),
      each_entry (\<lambda>key revision. fail_if (key \<noteq> revisionStorageKey revision)
        (Errorf ''revision key %q does not match revision identity'' [key])) (os_Revisions state),
      each_entry (trackReferences state) (os_ReleaseTracks state),
      each_entry (\<lambda>key publication. first_error
        [fail_if (key \<noteq> publicationKey (pub_ProjectID publication) (pub_RevisionID publication))
           (Errorf ''publication key %q does not match its identity'' [key]),
         requireOwnedRevision state (pub_ProjectID publication) (pub_RevisionID publication) (''publication '' @ key)])
        (os_Publications state),
      each_entry (reviewReferences state) (os_Reviews state),
      each_entry (syncReferences state) (os_SyncRecords state),
      each_entry (eventReferences state) (os_AuditEvents state),
      each_entry (messageReferences state) (os_Outbox state),
      validateReleaseEvidenceAuthorities uc state]"

section \<open>Committing a transaction\<close>

definition validateOperationalState ::
    "unicode_case \<Rightarrow> (string \<Rightarrow> string result) \<Rightarrow> err \<Rightarrow> operational_state \<Rightarrow> operational_state \<Rightarrow> string list \<Rightarrow> err" where
  "validateOperationalState uc read_blob ctx previous state mutatedRevisions = first_error
     [fail_if (os_Version state \<noteq> operationalStateVersion) (Errorf ''operational state version %d is not current'' []),
      validateReleaseTrackAuthorities state,
      validateOperationalReferences uc state,
      each (\<lambda>key. case map_of (os_Revisions state) key of
          None \<Rightarrow> Some (Errorf ''mutated revision %q is missing'' [key])
        | Some revision \<Rightarrow> wrap_err (Wrapf ''revision %q has invalid persisted evidence: %w'' [vr_ID revision])
            (validateRevisionEvidence uc read_blob ctx revision)) mutatedRevisions,
      validateChangedReleaseEvidence uc read_blob ctx previous state]"

definition cloneReleaseTracks :: "(string, release_track) go_map \<Rightarrow> (string, release_track) go_map" where
  "cloneReleaseTracks tracks = map_from fst (\<lambda>(k, t). CloneReleaseTrack t) tracks"

definition cloneOperationalState :: "operational_state \<Rightarrow> operational_state" where
  "cloneOperationalState state = state\<lparr>os_ReleaseTracks := cloneReleaseTracks (os_ReleaseTracks state),
     os_ReleaseTrackAuthorities := map_from fst snd (os_ReleaseTrackAuthorities state),
     os_ReleaseAuthorizations := map_from fst snd (os_ReleaseAuthorizations state)\<rparr>"

definition validateCommittedReleaseTracks ::
    "(string, release_track) go_map \<Rightarrow> (string, release_track) go_map \<Rightarrow> err" where
  "validateCommittedReleaseTracks validated committed =
     fail_if (\<not> maps_equal validated committed) (Errorf ''committed release tracks differ from validated transitions'' [])"

definition begin_transaction :: "operational_state \<Rightarrow> operational_transaction" where
  "begin_transaction state = \<lparr>tx_state = cloneOperationalState state,
     tx_validatedReleaseTracks = cloneReleaseTracks (os_ReleaseTracks state),
     tx_mutatedRevisions = os_migratedRevisions state\<rparr>"

text \<open>
  What writing the state file and its schema marker can do: fail before the atomic replacement; replace
  the file and fail to confirm the replacement (\<open>durableAtomicWriteFuncWithConfirmation\<close>) or to persist
  the schema marker, where the caller learns that the outcome is unknown and the new state survives; or
  succeed. The unexported set of migrated revisions is not part of the encoded state.
\<close>

datatype publish_outcome =
    PublishRejected go_error | PublishUnconfirmed go_error | MarkerFailed go_error | PublishConfirmed

definition publishCurrentOperationalState ::
    "publish_outcome \<Rightarrow> operational_state \<Rightarrow> operational_state \<Rightarrow> operational_state \<times> err" where
  "publishCurrentOperationalState outcome persisted state =
     (if os_Version state \<noteq> operationalStateVersion
        then (persisted, Some (Errorf ''cannot publish non-current operational state version %d'' []))
      else (case outcome of
          PublishRejected e \<Rightarrow> (persisted, Some e)
        | PublishUnconfirmed e \<Rightarrow> (state\<lparr>os_migratedRevisions := []\<rparr>,
            Some (Wrapf ''%w: confirm atomic replacement of %q: %v'' [] ErrCommitOutcomeUnknown))
        | MarkerFailed e \<Rightarrow> (state\<lparr>os_migratedRevisions := []\<rparr>,
            Some (Wrapf ''%w: persist operational schema marker after state commit: %v'' [] ErrCommitOutcomeUnknown))
        | PublishConfirmed \<Rightarrow> (state\<lparr>os_migratedRevisions := []\<rparr>, None)))"

text \<open>
  One transaction on the persisted state \<open>persisted\<close>, which \<open>loadOperationalStateLocked\<close> has read:
  the callback returns an error, or a value and the transaction after its operations.
\<close>

definition Within ::
    "unicode_case \<Rightarrow> (string \<Rightarrow> string result) \<Rightarrow> err \<Rightarrow> err \<Rightarrow> publish_outcome \<Rightarrow>
     (operational_transaction \<Rightarrow> 'e + 'a \<times> operational_transaction) \<Rightarrow> (go_error \<Rightarrow> 'e) \<Rightarrow>
     operational_state \<Rightarrow> operational_state \<times> ('e + 'a)" where
  "Within uc read_blob ctx0 ctx outcome callback failure persisted =
     (case ctx0 of
        Some e \<Rightarrow> (persisted, Inl (failure e))
      | None \<Rightarrow>
        (case callback (begin_transaction persisted) of
           Inl e \<Rightarrow> (persisted, Inl e)
         | Inr (v, t) \<Rightarrow>
           (case first_error [validateOperationalState uc read_blob ctx persisted (tx_state t) (tx_mutatedRevisions t),
                validateCommittedReleaseTracks (tx_validatedReleaseTracks t) (os_ReleaseTracks (tx_state t))] of
              Some e \<Rightarrow> (persisted, Inl (failure e))
            | None \<Rightarrow>
              (case publishCurrentOperationalState outcome persisted (tx_state t) of
                 (s, Some e) \<Rightarrow> (s, Inl (failure e))
               | (s, None) \<Rightarrow> (s, Inr v)))))"

end
