(* ===== verification/Durable_Write.thy ===== *)
theory Durable_Write
  imports Operational_Store
begin

text \<open>
  Durable files (\<open>internal/adapters/store/fs.go\<close>, \<open>atomic_file_unix.go\<close>, \<open>catalog_primitives.go\<close>):
  the atomic replacement of a file through a staging file, the removal of staging files an interrupted
  process left behind, and the schema marker beside the state file. The file system is a partial map
  from paths to contents, and what the operating system answers to each call is a record of the model,
  so every error path is taken by some answer. A write returns the contents the directory passes
  through, in order: a process that dies during the write leaves one of them.
\<close>

section \<open>Atomic replacement\<close>

type_synonym files = "string \<rightharpoonup> string"

record write_faults =
  wf_MkdirAll :: err
  wf_CreateTemp :: "string result"
  wf_Chmod :: err
  wf_Sync :: err
  wf_Close :: err
  wf_Replace :: err
  wf_Confirm :: err
  wf_Remove :: err

text \<open>\<open>os.Rename\<close> on one file system: the destination holds the source's content, in one step.\<close>

definition atomicReplaceFile :: "string \<Rightarrow> string \<Rightarrow> files \<Rightarrow> files" where
  "atomicReplaceFile source destination fs = (fs(destination := fs source))(source := None)"

text \<open>
  The callback writes its parts one after the other and may return an error. The deferred function
  removes the staging file unless it has replaced the destination; a removal that fails is ignored and
  leaves the file.
\<close>

definition removeStaging :: "err \<Rightarrow> string \<Rightarrow> files \<Rightarrow> files" where
  "removeStaging removeErr temporaryPath fs = (if removeErr = None then fs(temporaryPath := None) else fs)"

definition durableAtomicWriteFuncWithConfirmation ::
    "write_faults \<Rightarrow> string \<Rightarrow> (string list \<times> err) option \<Rightarrow> files \<Rightarrow> files list \<times> err" where
  "durableAtomicWriteFuncWithConfirmation faults filePath write fs =
     (case write of
        None \<Rightarrow> ([fs], Some (Errorf ''atomic write callback is nil'' []))
      | Some (parts, writeErr) \<Rightarrow>
        (case wf_MkdirAll faults of
           Some e \<Rightarrow> ([fs], Some e)
         | None \<Rightarrow>
           (case wf_CreateTemp faults of
              Inl e \<Rightarrow> ([fs], Some e)
            | Inr temporaryPath \<Rightarrow>
              (case wf_Chmod faults of
                 Some e \<Rightarrow> ([fs, fs(temporaryPath \<mapsto> []), removeStaging (wf_Remove faults) temporaryPath (fs(temporaryPath \<mapsto> []))], Some e)
               | None \<Rightarrow>
                 (let writing = map (\<lambda>n. fs(temporaryPath \<mapsto> concat (take n parts))) [0..<Suc (length parts)];
                      written = last writing in
                  case first_error [writeErr, wf_Sync faults, wf_Close faults, wf_Replace faults] of
                    Some e \<Rightarrow> (fs # writing @ [removeStaging (wf_Remove faults) temporaryPath written], Some e)
                  | None \<Rightarrow> (fs # writing @ [atomicReplaceFile temporaryPath filePath written],
                      wrap_err (\<lambda>_. Wrapf ''%w: confirm atomic replacement of %q: %v'' [filePath] ErrCommitOutcomeUnknown)
                        (wf_Confirm faults)))))))"

text \<open>\<open>writer.Write(data)\<close> writes all of the data, or a prefix of it and returns an error.\<close>

definition writeData :: "string \<Rightarrow> (nat \<times> go_error) option \<Rightarrow> string list \<times> err" where
  "writeData data short = (case short of None \<Rightarrow> ([data], None) | Some (n, e) \<Rightarrow> ([take n data], Some e))"

definition durableAtomicWriteWithConfirmation ::
    "write_faults \<Rightarrow> (nat \<times> go_error) option \<Rightarrow> string \<Rightarrow> string \<Rightarrow> files \<Rightarrow> files list \<times> err" where
  "durableAtomicWriteWithConfirmation faults short filePath data fs =
     durableAtomicWriteFuncWithConfirmation faults filePath (Some (writeData data short)) fs"

section \<open>Staging files\<close>

definition atomicWriteStagingPattern :: "string \<times> string" where
  "atomicWriteStagingPattern = (''.write-'', ''.tmp'')"

text \<open>\<open>filepath.Glob\<close> on a directory and the staging pattern: the star matches any name without a slash.\<close>

definition staging_match :: "string \<Rightarrow> string \<Rightarrow> bool" where
  "staging_match directory path =
     (let (before, after) = atomicWriteStagingPattern; start = directory @ ''/'' @ before in
      has_prefix start path \<and> has_suffix after path \<and> length start + length after \<le> length path \<and>
      CHR ''/'' \<notin> set (drop (length start) path))"

text \<open>A file that cannot be removed stays; the error is ignored.\<close>

definition discardIncompleteOperationalStaging :: "(string \<Rightarrow> bool) \<Rightarrow> string \<Rightarrow> files \<Rightarrow> files" where
  "discardIncompleteOperationalStaging removable directory fs =
     (\<lambda>path. if staging_match directory path \<and> removable path then None else fs path)"

definition DurableRenameNew :: "err \<Rightarrow> err \<Rightarrow> err \<Rightarrow> string \<Rightarrow> string \<Rightarrow> files \<Rightarrow> files \<times> err" where
  "DurableRenameNew lstat renameErr confirm source destination fs =
     (if fs destination \<noteq> None then (fs, Some (Errorf ''file already exists'' []))
      else case lstat of
        Some e \<Rightarrow> (fs, Some e)
      | None \<Rightarrow>
        (case renameErr of
           Some e \<Rightarrow> (fs, Some e)
         | None \<Rightarrow> (atomicReplaceFile source destination fs,
             wrap_err (Wrapf ''confirm immutable directory publication: %w'' []) confirm)))"

section \<open>Crash consistency\<close>

definition outcome_unknown :: "err \<Rightarrow> bool" where
  "outcome_unknown e \<longleftrightarrow> (case e of None \<Rightarrow> False | Some x \<Rightarrow> errors_Is x ErrCommitOutcomeUnknown)"

lemma outcome_known_first: "(\<forall>e \<in> set es. \<not> outcome_unknown e) \<Longrightarrow> \<not> outcome_unknown (first_error es)"
  by (induction es) (auto simp: first_error.simps outcome_unknown_def simp del: first_error_None split: option.splits)

lemma last_writing [simp]:
  "last (map (\<lambda>n. fs(t \<mapsto> concat (take n parts))) [0..<Suc (length parts)]) = fs(t \<mapsto> concat parts)"
  by simp

text \<open>What the operating system promises of a write: a new staging file, and no error of the store's own.\<close>

definition honest_faults :: "write_faults \<Rightarrow> err \<Rightarrow> string \<Rightarrow> files \<Rightarrow> bool" where
  "honest_faults faults writeErr directory fs \<longleftrightarrow>
     (case wf_CreateTemp faults of Inl x \<Rightarrow> \<not> outcome_unknown (Some x)
      | Inr t \<Rightarrow> fs t = None \<and> staging_match directory t) \<and>
     list_all (\<lambda>e. \<not> outcome_unknown e)
       [wf_MkdirAll faults, wf_Chmod faults, writeErr, wf_Sync faults, wf_Close faults, wf_Replace faults]"

lemma durable_write_result:
  assumes "durableAtomicWriteFuncWithConfirmation faults filePath (Some (parts, writeErr)) fs = (trace, e)"
    and "honest_faults faults writeErr directory fs" and "\<not> staging_match directory filePath"
  shows "(if e = None \<or> outcome_unknown e then last trace = fs(filePath \<mapsto> concat parts)
     else (wf_Remove faults = None \<longrightarrow> last trace = fs) \<and> (\<forall>path. \<not> staging_match directory path \<longrightarrow> last trace path = fs path))"
proof -
  have ne: "wf_CreateTemp faults = Inr t \<Longrightarrow> t \<noteq> filePath \<and> fs t = None" for t
    using assms(2,3) by (auto simp: honest_faults_def)
  have un: "outcome_unknown (Some (Wrapf f xs ErrCommitOutcomeUnknown))" for f xs
    by (simp add: outcome_unknown_def ErrCommitOutcomeUnknown_def)
  have known: "\<not> outcome_unknown (first_error [writeErr, wf_Sync faults, wf_Close faults, wf_Replace faults])"
    using assms(2) by (intro outcome_known_first) (auto simp: honest_faults_def)
  show ?thesis
    using assms(1,2) ne un known
    by (auto simp: durableAtomicWriteFuncWithConfirmation_def honest_faults_def Let_def wrap_err_def atomicReplaceFile_def removeStaging_def
        fun_upd_twist fun_upd_idem simp del: upt_Suc first_error_None split: option.splits sum.splits)
qed

text \<open>
  C12: A process may die at any moment of a durable write: once the next process has removed the
  staging files, the destination holds its old content or all of the new one, and nothing else
  differs. A write that returns leaves exactly the new content when it succeeds or reports that
  the outcome is unknown; on every other error the directory is as it was, but for the staging file when
  its removal failed.
\<close>

theorem interrupted_write_recovers:
  assumes "durableAtomicWriteFuncWithConfirmation faults filePath (Some (parts, writeErr)) fs = (trace, e)"
    and "honest_faults faults writeErr directory fs" and "\<not> staging_match directory filePath"
  shows "(\<forall>fs' \<in> set trace. discardIncompleteOperationalStaging (\<lambda>_. True) directory fs' \<in>
      {discardIncompleteOperationalStaging (\<lambda>_. True) directory fs,
       (discardIncompleteOperationalStaging (\<lambda>_. True) directory fs)(filePath \<mapsto> concat parts)}) \<and>
    (if e = None \<or> outcome_unknown e then last trace = fs(filePath \<mapsto> concat parts)
     else (wf_Remove faults = None \<longrightarrow> last trace = fs) \<and> (\<forall>path. \<not> staging_match directory path \<longrightarrow> last trace path = fs path))"
proof
  let ?d = "discardIncompleteOperationalStaging (\<lambda>_. True) directory"
  have st: "wf_CreateTemp faults = Inr t \<Longrightarrow> staging_match directory t \<and> t \<noteq> filePath" for t
    using assms(2,3) by (auto simp: honest_faults_def)
  have drop: "staging_match directory t \<Longrightarrow> ?d (fs'(t := x)) = ?d fs'" for t fs' x
    by (auto simp: discardIncompleteOperationalStaging_def)
  have target: "?d (fs'(filePath := x)) = (?d fs')(filePath := x)" for fs' x
    using assms(3) by (auto simp: discardIncompleteOperationalStaging_def)
  show "\<forall>fs' \<in> set trace. ?d fs' \<in> {?d fs, (?d fs)(filePath \<mapsto> concat parts)}"
    using assms(1) st
    by (auto simp: durableAtomicWriteFuncWithConfirmation_def Let_def atomicReplaceFile_def removeStaging_def drop target
        simp del: upt_Suc split: option.splits sum.splits)
  show "(if e = None \<or> outcome_unknown e then last trace = fs(filePath \<mapsto> concat parts)
     else (wf_Remove faults = None \<longrightarrow> last trace = fs) \<and> (\<forall>path. \<not> staging_match directory path \<longrightarrow> last trace path = fs path))"
    by (rule durable_write_result [OF assms])
qed

definition sample_faults :: write_faults where
  "sample_faults = \<lparr>wf_MkdirAll = None, wf_CreateTemp = Inr ''operational/.write-1.tmp'', wf_Chmod = None, wf_Sync = None,
     wf_Close = None, wf_Replace = None, wf_Confirm = Some (Errorf ''sync'' []), wf_Remove = None\<rparr>"

lemma sample_faults_honest: "honest_faults sample_faults None ''operational'' Map.empty"
  "\<not> staging_match ''operational'' ''operational/state.json''"
  by (simp_all add: honest_faults_def sample_faults_def outcome_unknown_def staging_match_def atomicWriteStagingPattern_def
      has_suffix_def)

text \<open>The replacement happened and could not be confirmed: the new content is in place.\<close>

theorem interrupted_write_recovers_witness:
  "last (fst (durableAtomicWriteFuncWithConfirmation sample_faults ''operational/state.json'' (Some ([''new''], None)) Map.empty)) =
     [''operational/state.json'' \<mapsto> ''new'']"
proof -
  let ?w = "durableAtomicWriteFuncWithConfirmation sample_faults ''operational/state.json'' (Some ([''new''], None)) Map.empty"
  have "outcome_unknown (snd ?w)"
    by (simp add: durableAtomicWriteFuncWithConfirmation_def sample_faults_def first_error.simps Let_def wrap_err_def
        outcome_unknown_def ErrCommitOutcomeUnknown_def)
  then show ?thesis
    using interrupted_write_recovers [OF prod.collapse [symmetric] sample_faults_honest,
        of "[''new'']"] by simp
qed

end
