(* ===== verification/Store_History.thy ===== *)
theory Store_History
  imports Operational_Store
begin

text \<open>
  What the file store guarantees over time: within and across transactions, committed evidence is
  append-only, every release track moves only by the steps of its state machine, reviewed snapshots
  never change, and a public path has one owner.
\<close>

section \<open>Reading the validators\<close>

lemma each_entry_None [simp, go_err]: "each_entry f m = None \<longleftrightarrow> (\<forall>(k, v) \<in> set m. f k v = None)"
  by (auto simp: each_entry_def)

lemma map_of_delete: "map_of (map_delete k m) = (map_of m)(k := None)"
  by (induction m) (auto simp: map_delete_def fun_eq_iff)

lemma CloneReleaseTrack_id [simp]: "CloneReleaseTrack t = t"
  by (simp add: CloneReleaseTrack_def option.map_ident)

lemma validateID_canonical: "validateID i = None \<Longrightarrow> canonical i"
  using runes_ne [of i] TrimSpace_id [of i]
  by (auto simp: validateID_def canonical_def containsControlCharacter_def list_ex_iff split: if_splits)

section \<open>Adopting a legacy revision\<close>

text \<open>The state outside the revisions.\<close>

definition same_records :: "operational_transaction \<Rightarrow> operational_transaction \<Rightarrow> bool" where
  "same_records t t' \<longleftrightarrow> tx_validatedReleaseTracks t' = tx_validatedReleaseTracks t \<and>
     tx_state t' = (tx_state t)\<lparr>os_Revisions := os_Revisions (tx_state t')\<rparr>"

text \<open>A reviewed revision of a contract stays under its key; only its ref may be canonicalised.\<close>

definition revisions_kept :: "operational_state \<Rightarrow> operational_state \<Rightarrow> bool" where
  "revisions_kept s s' \<longleftrightarrow> (\<forall>k r. map_of (os_Revisions s) k = Some r \<and> vr_ContractID r \<noteq> [] \<and> vr_ReviewSnapshot r \<noteq> None \<longrightarrow>
     (\<exists>ref. map_of (os_Revisions s') k = Some (r\<lparr>vr_Ref := ref\<rparr>)))"

lemma revisions_kept_refl: "revisions_kept s s"
  by (auto simp: revisions_kept_def) (metis contract_revision.surjective contract_revision.update_convs(8))

lemma revisions_kept_trans: "revisions_kept a b \<Longrightarrow> revisions_kept b c \<Longrightarrow> revisions_kept a c"
proof (unfold revisions_kept_def, intro allI impI)
  fix k r
  assume ab: "\<forall>k r. map_of (os_Revisions a) k = Some r \<and> vr_ContractID r \<noteq> [] \<and> vr_ReviewSnapshot r \<noteq> None \<longrightarrow>
      (\<exists>ref. map_of (os_Revisions b) k = Some (r\<lparr>vr_Ref := ref\<rparr>))"
    and bc: "\<forall>k r. map_of (os_Revisions b) k = Some r \<and> vr_ContractID r \<noteq> [] \<and> vr_ReviewSnapshot r \<noteq> None \<longrightarrow>
      (\<exists>ref. map_of (os_Revisions c) k = Some (r\<lparr>vr_Ref := ref\<rparr>))"
    and r: "map_of (os_Revisions a) k = Some r \<and> vr_ContractID r \<noteq> [] \<and> vr_ReviewSnapshot r \<noteq> None"
  obtain ref where "map_of (os_Revisions b) k = Some (r\<lparr>vr_Ref := ref\<rparr>)" using ab r by blast
  then obtain ref' where "map_of (os_Revisions c) k = Some (r\<lparr>vr_Ref := ref\<rparr>\<lparr>vr_Ref := ref'\<rparr>)" using bc r by fastforce
  then show "\<exists>ref. map_of (os_Revisions c) k = Some (r\<lparr>vr_Ref := ref\<rparr>)" by auto
qed

lemma bindRevisionOwner_Inr:
  assumes "bindRevisionOwner s c r owner = Inr (s', changed)"
  shows "s' = s\<lparr>os_Revisions := os_Revisions s'\<rparr>" and "revisions_kept s s'"
proof -
  show "s' = s\<lparr>os_Revisions := os_Revisions s'\<rparr>"
    using assms by (auto simp: bindRevisionOwner_def Let_def split: option.splits if_splits)
  show "revisions_kept s s'"
  proof (cases "s' = s")
    case False
    then obtain rev where rev: "map_of (os_Revisions s) (revisionKey c r) = None" "map_of (os_Revisions s) r = Some rev"
      "vr_ContractID rev = []"
      "s' = s\<lparr>os_Revisions := map_put (revisionKey c r) (rev\<lparr>vr_ContractID := c\<rparr>) (map_delete r (os_Revisions s))\<rparr>"
      using assms by (auto simp: bindRevisionOwner_def Let_def split: option.splits if_splits)
    have "map_of (os_Revisions s') k = Some q"
      if "map_of (os_Revisions s) k = Some q" "vr_ContractID q \<noteq> []" for k q
    proof -
      have "k \<noteq> revisionKey c r" "k \<noteq> r" using that rev(1-3) by auto
      then show ?thesis using that by (simp add: rev(4) map_of_delete)
    qed
    then show ?thesis using revisions_kept_refl [of s] by (auto simp: revisions_kept_def)
  qed (simp add: revisions_kept_refl)
qed

lemma tx_bind_Inr:
  assumes "tx_bindRevisionOwner c r owner t = Inr t'"
  shows "same_records t t'" and "revisions_kept (tx_state t) (tx_state t')"
proof -
  obtain s changed where b: "bindRevisionOwner (tx_state t) c r owner = Inr (s, changed)"
    "tx_state t' = s" "tx_validatedReleaseTracks t' = tx_validatedReleaseTracks t"
    using assms by (auto simp: tx_bindRevisionOwner_def split: if_splits)
  show "same_records t t'" "revisions_kept (tx_state t) (tx_state t')"
    using bindRevisionOwner_Inr [OF b(1)] b(2,3) by (simp_all add: same_records_def)
qed

lemma if_bind_Inr:
  assumes "(if b then tx_bindRevisionOwner c r owner t else Inr t) = Inr t'"
  shows "same_records t t'" and "revisions_kept (tx_state t) (tx_state t')"
  using assms tx_bind_Inr by (auto simp: same_records_def revisions_kept_refl split: if_splits)

lemma same_records_trans: "same_records a b \<Longrightarrow> same_records b c \<Longrightarrow> same_records a c"
  unfolding same_records_def by (metis operational_state.surjective operational_state.update_convs(2))

section \<open>What every operation keeps\<close>

definition kept :: "('k, 'v) go_map \<Rightarrow> ('k, 'v) go_map \<Rightarrow> bool" where
  "kept m m' \<longleftrightarrow> (\<forall>k v. map_of m k = Some v \<longrightarrow> map_of m' k = Some v)"

definition tracks_advance :: "operational_state \<Rightarrow> operational_state \<Rightarrow> bool" where
  "tracks_advance s s' \<longleftrightarrow> (\<forall>k t. map_of (os_ReleaseTracks s) k = Some t \<longrightarrow>
     (\<exists>t'. map_of (os_ReleaseTracks s') k = Some t' \<and> track_step\<^sup>*\<^sup>* t t'))"

definition history_kept :: "operational_state \<Rightarrow> operational_state \<Rightarrow> bool" where
  "history_kept s s' \<longleftrightarrow> kept (os_Reviews s) (os_Reviews s') \<and> kept (os_SyncRecords s) (os_SyncRecords s') \<and>
     kept (os_ReleaseAuthorizations s) (os_ReleaseAuthorizations s') \<and> kept (os_AuditEvents s) (os_AuditEvents s') \<and>
     kept (os_Outbox s) (os_Outbox s') \<and> tracks_advance s s' \<and> revisions_kept s s'"

lemma kept_refl [simp]: "kept m m" and kept_trans: "kept a b \<Longrightarrow> kept b c \<Longrightarrow> kept a c"
  by (auto simp: kept_def)

lemma kept_put: "map_of m k = None \<Longrightarrow> kept m (map_put k v m)"
  by (auto simp: kept_def)

lemma tracks_advance_refl: "os_ReleaseTracks s' = os_ReleaseTracks s \<Longrightarrow> tracks_advance s s'"
  by (auto simp: tracks_advance_def)

lemma tracks_advance_trans: "tracks_advance a b \<Longrightarrow> tracks_advance b c \<Longrightarrow> tracks_advance a c"
  unfolding tracks_advance_def by (meson rtranclp_trans)

lemma history_kept_refl: "history_kept s s"
  by (simp add: history_kept_def tracks_advance_refl revisions_kept_refl)

lemma history_kept_trans: "history_kept a b \<Longrightarrow> history_kept b c \<Longrightarrow> history_kept a c"
proof -
  assume h: "history_kept a b" "history_kept b c"
  show ?thesis
    using h tracks_advance_trans [of a b c] revisions_kept_trans [of a b c] unfolding history_kept_def
    by (blast intro: kept_trans)
qed

lemma same_records_fields:
  assumes "same_records t t'"
  shows "os_Reviews (tx_state t') = os_Reviews (tx_state t)" "os_SyncRecords (tx_state t') = os_SyncRecords (tx_state t)"
    "os_ReleaseAuthorizations (tx_state t') = os_ReleaseAuthorizations (tx_state t)"
    "os_AuditEvents (tx_state t') = os_AuditEvents (tx_state t)" "os_Outbox (tx_state t') = os_Outbox (tx_state t)"
    "os_ReleaseTracks (tx_state t') = os_ReleaseTracks (tx_state t)"
    "os_Publications (tx_state t') = os_Publications (tx_state t)"
    "os_ReleaseTrackAuthorities (tx_state t') = os_ReleaseTrackAuthorities (tx_state t)"
    "tx_validatedReleaseTracks t' = tx_validatedReleaseTracks t"
proof -
  have e: "tx_state t' = (tx_state t)\<lparr>os_Revisions := os_Revisions (tx_state t')\<rparr>"
    and "tx_validatedReleaseTracks t' = tx_validatedReleaseTracks t"
    using assms by (simp_all add: same_records_def)
  then show "tx_validatedReleaseTracks t' = tx_validatedReleaseTracks t" by simp
  show "os_Reviews (tx_state t') = os_Reviews (tx_state t)" using arg_cong [OF e, of os_Reviews] by simp
  show "os_SyncRecords (tx_state t') = os_SyncRecords (tx_state t)" using arg_cong [OF e, of os_SyncRecords] by simp
  show "os_ReleaseAuthorizations (tx_state t') = os_ReleaseAuthorizations (tx_state t)"
    using arg_cong [OF e, of os_ReleaseAuthorizations] by simp
  show "os_AuditEvents (tx_state t') = os_AuditEvents (tx_state t)" using arg_cong [OF e, of os_AuditEvents] by simp
  show "os_Outbox (tx_state t') = os_Outbox (tx_state t)" using arg_cong [OF e, of os_Outbox] by simp
  show "os_ReleaseTracks (tx_state t') = os_ReleaseTracks (tx_state t)" using arg_cong [OF e, of os_ReleaseTracks] by simp
  show "os_ReleaseTrackAuthorities (tx_state t') = os_ReleaseTrackAuthorities (tx_state t)"
    using arg_cong [OF e, of os_ReleaseTrackAuthorities] by simp
  show "os_Publications (tx_state t') = os_Publications (tx_state t)" using arg_cong [OF e, of os_Publications] by simp
qed

lemma same_records_history:
  assumes "same_records t t'" and "revisions_kept (tx_state t) (tx_state t')"
  shows "history_kept (tx_state t) (tx_state t')"
proof -
  note f = same_records_fields [OF assms(1)]
  show ?thesis using assms(2) by (simp add: history_kept_def f tracks_advance_refl)
qed

text \<open>
  The invariant of a transaction: its validated tracks are its tracks, a public path has one owner, and
  the maps that \<open>Within\<close> copies and the publications have distinct keys.
\<close>

definition maps_wf :: "operational_state \<Rightarrow> bool" where
  "maps_wf s \<longleftrightarrow> distinct (map_keys (os_ReleaseTracks s)) \<and> distinct (map_keys (os_ReleaseTrackAuthorities s)) \<and>
     distinct (map_keys (os_ReleaseAuthorizations s)) \<and> distinct (map_keys (os_Publications s))"

definition unique_public :: "(string, publication) go_map \<Rightarrow> bool" where
  "unique_public pubs \<longleftrightarrow> (\<forall>k k' p p'. map_of pubs k = Some p \<and> map_of pubs k' = Some p' \<and> pub_Public p \<and> pub_Public p' \<and>
     pub_Path p = pub_Path p' \<longrightarrow> k = k')"

definition tx_ok :: "operational_transaction \<Rightarrow> bool" where
  "tx_ok t \<longleftrightarrow> map_of (tx_validatedReleaseTracks t) = map_of (os_ReleaseTracks (tx_state t)) \<and>
     unique_public (os_Publications (tx_state t)) \<and> maps_wf (tx_state t)"

lemma same_records_ok: "same_records t t' \<Longrightarrow> tx_ok t \<Longrightarrow> tx_ok t'"
  by (simp add: tx_ok_def same_records_fields maps_wf_def)

definition op_ok :: "operational_transaction \<Rightarrow> operational_transaction \<Rightarrow> bool" where
  "op_ok t t' \<longleftrightarrow> history_kept (tx_state t) (tx_state t') \<and> (tx_ok t \<longrightarrow> tx_ok t')"

lemma op_ok_refl: "op_ok t t"
  by (simp add: op_ok_def history_kept_refl)

lemma op_ok_trans: "op_ok a b \<Longrightarrow> op_ok b c \<Longrightarrow> op_ok a c"
  using history_kept_trans by (auto simp: op_ok_def)

lemma bind_op_ok: "tx_bindRevisionOwner c r owner t = Inr t' \<Longrightarrow> op_ok t t'"
  using tx_bind_Inr [of c r owner t t'] same_records_history same_records_ok by (auto simp: op_ok_def)

lemma if_bind_op_ok: "(if b then tx_bindRevisionOwner c r owner t else Inr t) = Inr t' \<Longrightarrow> op_ok t t'"
  using bind_op_ok op_ok_refl by (auto split: if_splits)

section \<open>The operations\<close>

lemma case_None_Inl: "(case x of None \<Rightarrow> Inl e | Some y \<Rightarrow> f y) = Inr v \<longleftrightarrow> (\<exists>y. x = Some y \<and> f y = Inr v)"
  by (cases x) auto

lemma save_immutable_Inr:
  "save_immutable ok js conflict existing record saved unchanged = Inr t' \<Longrightarrow>
     (existing = None \<and> saved = Inr t') \<or> t' = unchanged"
  by (auto simp: save_immutable_def split: option.splits if_splits)

lemma op_ok_update:
  assumes "op_ok t u" and "kept (os_Reviews (tx_state u)) (os_Reviews s)" and "kept (os_SyncRecords (tx_state u)) (os_SyncRecords s)"
    and "kept (os_ReleaseAuthorizations (tx_state u)) (os_ReleaseAuthorizations s)"
    and "kept (os_AuditEvents (tx_state u)) (os_AuditEvents s)" and "kept (os_Outbox (tx_state u)) (os_Outbox s)"
    and "os_ReleaseTracks s = os_ReleaseTracks (tx_state u)" and "os_Revisions s = os_Revisions (tx_state u)"
    and "os_Publications s = os_Publications (tx_state u)"
    and "os_ReleaseTrackAuthorities s = os_ReleaseTrackAuthorities (tx_state u)"
    and "distinct (map_keys (os_ReleaseAuthorizations (tx_state u))) \<Longrightarrow> distinct (map_keys (os_ReleaseAuthorizations s))"
  shows "op_ok t (u\<lparr>tx_state := s\<rparr>)"
proof -
  have "revisions_kept (tx_state u) s" using revisions_kept_refl [of s] assms(8) by (simp add: revisions_kept_def)
  then have "history_kept (tx_state u) s" using assms by (simp add: history_kept_def tracks_advance_refl)
  then have "op_ok u (u\<lparr>tx_state := s\<rparr>)" using assms by (simp add: op_ok_def tx_ok_def maps_wf_def)
  then show ?thesis using assms(1) op_ok_trans by blast
qed

lemma SaveReview_ok:
  assumes "tx_SaveReview uc ctx review t = Inr t'" shows "op_ok t t'"
proof -
  obtain t1 t2 where b: "tx_bindRevisionOwner (cv_ContractID review) (cv_BaselineRevisionID review)
      (''review '' @ cv_ID review @ '' baseline'') t = Inr t1"
    "tx_bindRevisionOwner (cv_ContractID review) (cv_CandidateRevisionID review)
      (''review '' @ cv_ID review @ '' candidate'') t1 = Inr t2"
    and t': "t' = t2 \<or> (map_of (os_Reviews (tx_state t2)) (cv_ID review) = None \<and>
      (\<exists>v. t' = t2\<lparr>tx_state := (tx_state t2)\<lparr>os_Reviews := map_put (cv_ID review) v (os_Reviews (tx_state t2))\<rparr>\<rparr>))"
    using assms unfolding tx_SaveReview_def require_Inr bind_res_Inr case_None_Inl
    by - (elim conjE exE, drule save_immutable_Inr, auto simp: cloneImmutableRecord_def)
  have "op_ok t t2" using b bind_op_ok op_ok_trans by blast
  with t' show ?thesis by (auto intro!: op_ok_update simp: kept_put distinct_keys_put)
qed

lemma SaveSyncRecord_ok:
  assumes "tx_SaveSyncRecord ctx record t = Inr t'" shows "op_ok t t'"
proof -
  obtain u where b: "(if sr_Result record = SyncResultSuccess \<and> sr_RevisionID record \<noteq> []
      then tx_bindRevisionOwner (sr_ProjectID record) (sr_RevisionID record) (''sync record '' @ sr_ID record) t else Inr t) = Inr u"
    and t': "t' = u \<or> (map_of (os_SyncRecords (tx_state u)) (sr_ID record) = None \<and>
      t' = u\<lparr>tx_state := (tx_state u)\<lparr>os_SyncRecords := map_put (sr_ID record) record (os_SyncRecords (tx_state u))\<rparr>\<rparr>)"
    using assms unfolding tx_SaveSyncRecord_def require_Inr bind_res_Inr
    by - (elim conjE exE, split option.split_asm, auto simp del: if_Inl_Inr split: if_split_asm)
  show ?thesis using if_bind_op_ok [OF b] t' by (auto intro!: op_ok_update simp: kept_put distinct_keys_put)
qed

lemma saveReleaseAuthorization_ok:
  assumes "saveReleaseAuthorization ctx authorization t = Inr t'" shows "op_ok t t'"
  using assms op_ok_refl [of t]
  by (auto simp: saveReleaseAuthorization_def kept_put distinct_keys_put intro!: op_ok_update dest!: save_immutable_Inr)

lemma AppendAuditEvent_ok:
  assumes "tx_AppendAuditEvent ctx event t = Inr t'" shows "op_ok t t'"
proof -
  obtain u where b: "(if ae_RevisionID event \<noteq> []
      then tx_bindRevisionOwner (ae_ContractID event) (ae_RevisionID event) (''audit event '' @ ae_ID event) t else Inr t) = Inr u"
    and t': "t' = u \<or> (map_of (os_AuditEvents (tx_state u)) (ae_ID event) = None \<and>
      t' = u\<lparr>tx_state := (tx_state u)\<lparr>os_AuditEvents := map_put (ae_ID event) event (os_AuditEvents (tx_state u))\<rparr>\<rparr>)"
    using assms unfolding tx_AppendAuditEvent_def require_Inr bind_res_Inr
    by - (elim conjE exE, drule save_immutable_Inr, blast)
  show ?thesis using if_bind_op_ok [OF b] t' by (auto intro!: op_ok_update simp: kept_put distinct_keys_put)
qed

lemma Enqueue_ok:
  assumes "tx_Enqueue ctx message t = Inr t'" shows "op_ok t t'"
proof -
  obtain u where b: "(if om_RevisionID message \<noteq> []
      then tx_bindRevisionOwner (om_ContractID message) (om_RevisionID message) (''outbox message '' @ om_ID message) t else Inr t) = Inr u"
    and t': "t' = u \<or> (map_of (os_Outbox (tx_state u)) (om_ID message) = None \<and>
      (\<exists>m. t' = u\<lparr>tx_state := (tx_state u)\<lparr>os_Outbox := map_put (om_ID message) m (os_Outbox (tx_state u))\<rparr>\<rparr>))"
    using assms unfolding tx_Enqueue_def require_Inr bind_res_Inr
    by - (elim conjE exE, drule save_immutable_Inr, blast)
  show ?thesis using if_bind_op_ok [OF b] t' by (auto intro!: op_ok_update simp: kept_put distinct_keys_put)
qed

lemma withdrawOthers_lookup:
  "map_of (withdrawOthers key p pubs) k = map_option (\<lambda>e.
     if k = key \<or> \<not> pub_Public e \<or> pub_Path e \<noteq> pub_Path p then e else e\<lparr>pub_Public := False\<rparr>) (map_of pubs k)"
proof (induction pubs)
  case (Cons a pubs)
  then show ?case by (cases a) (simp add: withdrawOthers_def)
qed (simp add: withdrawOthers_def)

lemma withdrawOthers_keys [simp]: "map_keys (withdrawOthers key p pubs) = map_keys pubs"
  by (auto simp: withdrawOthers_def map_keys_def)

lemma withdrawn_differs [simp]: "pub_Public r \<Longrightarrow> r\<lparr>pub_Public := False\<rparr> \<noteq> r"
  by (cases r) auto

lemma unique_public_put:
  assumes "unique_public pubs"
  shows "unique_public (map_put key p (if pub_Public p then withdrawOthers key p pubs else pubs))"
    (is "unique_public (map_put key p ?pubs)")
  unfolding unique_public_def
proof (intro allI impI, elim conjE)
  fix k k' q q'
  assume k: "map_of (map_put key p ?pubs) k = Some q" and k': "map_of (map_put key p ?pubs) k' = Some q'"
    and pub: "pub_Public q" "pub_Public q'" and path: "pub_Path q = pub_Path q'"
  have old: "map_of pubs j = Some r" "pub_Public p \<Longrightarrow> pub_Path r \<noteq> pub_Path p"
    if "j \<noteq> key" "map_of (map_put key p ?pubs) j = Some r" "pub_Public r" for j r
    using that by (auto simp: withdrawOthers_lookup split: if_split_asm)
  show "k = k'"
  proof (cases "k = key \<or> k' = key")
    case True
    then show ?thesis using old(2) [of k q] old(2) [of k' q'] k k' pub path by (cases "k = key"; cases "k' = key") auto
  next
    case False
    then show ?thesis using old(1) [of k q] old(1) [of k' q'] k k' pub path assms unfolding unique_public_def by blast
  qed
qed

lemma SavePublication_ok:
  assumes "tx_SavePublication ctx publication t = Inr t'" shows "op_ok t t'"
proof -
  let ?key = "publicationKey (pub_ProjectID publication) (pub_RevisionID publication)"
  obtain u where b: "tx_bindRevisionOwner (pub_ProjectID publication) (pub_RevisionID publication) (''publication '' @ ?key) t = Inr u"
    and t': "t' = u\<lparr>tx_state := (tx_state u)\<lparr>os_Publications := map_put ?key publication
      (if pub_Public publication then withdrawOthers ?key publication (os_Publications (tx_state u)) else os_Publications (tx_state u))\<rparr>\<rparr>"
    using assms unfolding tx_SavePublication_def Let_def require_Inr bind_res_Inr by auto
  have "history_kept (tx_state u) (tx_state t')"
    using history_kept_refl [of "tx_state u"] by (simp add: t' history_kept_def tracks_advance_def revisions_kept_def)
  moreover have "tx_ok t'" if "tx_ok u"
    using that unique_public_put by (simp add: t' tx_ok_def maps_wf_def distinct_keys_put)
  ultimately show ?thesis using bind_op_ok [OF b] op_ok_trans by (auto simp: op_ok_def intro: history_kept_trans)
qed

lemma SaveReleaseTrack_cases:
  assumes "tx_SaveReleaseTrack ctx g track t = Inr t'"
  obtains (replay) "t' = t" "map_of (os_ReleaseTracks (tx_state t)) (releaseTrackKey (rt_ContractID track) (rt_ID track)) = Some track"
  | (saved) u v where
    "case map_of (os_ReleaseTracks (tx_state t)) (releaseTrackKey (rt_ContractID track) (rt_ID track)) of
       Some current \<Rightarrow> rt_Generation current = g \<and> ValidateReleaseTrackTransition current track = None | None \<Rightarrow> True"
    "(if rt_CurrentRevisionID track \<noteq> []
      then tx_bindRevisionOwner (rt_ContractID track) (rt_CurrentRevisionID track)
        (''release track '' @ releaseTrackKey (rt_ContractID track) (rt_ID track) @ '' current'') t
      else Inr t) = Inr u"
    "(if rt_CandidateRevisionID track \<noteq> []
      then tx_bindRevisionOwner (rt_ContractID track) (rt_CandidateRevisionID track)
        (''release track '' @ releaseTrackKey (rt_ContractID track) (rt_ID track) @ '' candidate'') u
      else Inr u) = Inr v"
    "t' = v\<lparr>tx_state := (tx_state v)\<lparr>
        os_ReleaseTracks := map_put (releaseTrackKey (rt_ContractID track) (rt_ID track)) track (os_ReleaseTracks (tx_state v)),
        os_ReleaseTrackAuthorities := map_put (releaseTrackKey (rt_ContractID track) (rt_ID track))
          (newReleaseTrackAuthority track) (os_ReleaseTrackAuthorities (tx_state v))\<rparr>,
       tx_validatedReleaseTracks := map_put (releaseTrackKey (rt_ContractID track) (rt_ID track)) track (tx_validatedReleaseTracks v)\<rparr>"
  using assms unfolding tx_SaveReleaseTrack_def Let_def require_Inr CloneReleaseTrack_id
  by (cases "map_of (os_ReleaseTracks (tx_state t)) (releaseTrackKey (rt_ContractID track) (rt_ID track)) = Some track")
    (simp_all add: if_Inl_Inr split: option.splits; blast)+

lemma SaveReleaseTrack_ok:
  assumes "tx_SaveReleaseTrack ctx g track t = Inr t'" shows "op_ok t t'"
proof -
  let ?key = "releaseTrackKey (rt_ContractID track) (rt_ID track)"
  show ?thesis using assms
  proof (cases rule: SaveReleaseTrack_cases)
    case (saved u v)
    note b = if_bind_op_ok [OF saved(2)] if_bind_op_ok [OF saved(3)]
    have tv: "os_ReleaseTracks (tx_state v) = os_ReleaseTracks (tx_state t)"
      using same_records_fields(6) [OF if_bind_Inr(1) [OF saved(2)]] same_records_fields(6) [OF if_bind_Inr(1) [OF saved(3)]] by simp
    have "\<exists>r'. map_of (os_ReleaseTracks (tx_state t')) k = Some r' \<and> track_step\<^sup>*\<^sup>* r r'"
      if "map_of (os_ReleaseTracks (tx_state v)) k = Some r" for k r
    proof (cases "k = ?key")
      case True
      then have "ValidateReleaseTrackTransition r track = None" using saved(1) that by (simp add: tv)
      then have "r = track \<or> track_step r track" by (auto simp: transition_ok_iff)
      then show ?thesis using True by (auto simp: saved(4))
    qed (use that in \<open>simp add: saved(4)\<close>)
    then have "history_kept (tx_state v) (tx_state t')"
      using history_kept_refl [of "tx_state v"] by (simp add: saved(4) history_kept_def tracks_advance_def revisions_kept_def)
    moreover have "tx_ok t'" if "tx_ok v" using that by (simp add: saved(4) tx_ok_def maps_wf_def distinct_keys_put)
    ultimately show ?thesis using b op_ok_trans by (meson op_ok_def)
  qed (simp add: op_ok_refl)
qed

lemma decoded_omitempty_nil [simp]: "decoded_omitempty (nil_append xs) = nil_append xs"
  by (simp add: decoded_omitempty_def nil_append_def)

lemma decoded_snapshot_id: "snapshot_ok uc s \<Longrightarrow> decoded_snapshot s = s"
proof -
  assume "snapshot_ok uc s"
  then obtain os where os: "cs_Operations s = Slice os" "\<forall>a \<in> set os. normal_slices a"
    using surface_normal_slices [of uc s] by (auto simp: snapshot_ok_def)
  have "map (\<lambda>a. a\<lparr>co_Parameters := decoded_omitempty (co_Parameters a),
      co_ResponseStatuses := decoded_omitempty (co_ResponseStatuses a)\<rparr>) os = os"
    using os(2) by (intro map_idI) (auto simp: normal_slices_def intro: contract_operation.equality)
  then show ?thesis using os(1) by (simp add: decoded_snapshot_def map_slice_def)
qed

lemma decoded_revision_id:
  assumes "ValidateContractRevision uc r = None" shows "decoded_revision r = r"
  using assms decoded_snapshot_id [of uc]
  by (auto simp: ValidateContractRevision_def decoded_revision_def split: option.splits intro: contract_revision.equality)

lemma revision_put_kept:
  assumes "\<And>r. map_of revs key = Some r \<Longrightarrow> vr_ContractID r \<noteq> [] \<Longrightarrow> vr_ReviewSnapshot r \<noteq> None \<Longrightarrow> \<exists>ref. v = r\<lparr>vr_Ref := ref\<rparr>"
    and "os_Revisions s = revs" and "os_Revisions s' = map_put key v revs"
  shows "revisions_kept s s'"
  unfolding revisions_kept_def
proof (intro allI impI, elim conjE)
  fix k r
  assume r: "map_of (os_Revisions s) k = Some r" "vr_ContractID r \<noteq> []" "vr_ReviewSnapshot r \<noteq> None"
  show "\<exists>ref. map_of (os_Revisions s') k = Some (r\<lparr>vr_Ref := ref\<rparr>)"
  proof (cases "k = key")
    case False
    then show ?thesis using r assms(2,3) by (intro exI [of _ "vr_Ref r"]) simp
  qed (use assms(1) [of r] r assms(2,3) in auto)
qed

lemma SaveRevision_ok:
  assumes "tx_SaveRevision uc ctx revision t = Inr t'" shows "op_ok t t'"
proof -
  let ?key = "revisionStorageKey revision"
  have v: "ValidateContractRevision uc revision = None"
    using assms by (simp add: tx_SaveRevision_def validateRevisionArgument_def Let_def)
  note d = decoded_revision_id [OF v]
  have store: "op_ok t t'"
    if u: "same_records t u" "revisions_kept (tx_state t) (tx_state u)"
      and put: "t' = u\<lparr>tx_state := (tx_state u)\<lparr>os_Revisions := map_put ?key revision (os_Revisions (tx_state u))\<rparr>,
        tx_mutatedRevisions := set_add ?key (tx_mutatedRevisions u)\<rparr>"
      and old: "\<And>r. map_of (os_Revisions (tx_state u)) ?key = Some r \<Longrightarrow> vr_ContractID r \<noteq> [] \<Longrightarrow> vr_ReviewSnapshot r \<noteq> None \<Longrightarrow>
        \<exists>ref. revision = r\<lparr>vr_Ref := ref\<rparr>" for u
  proof -
    have "revisions_kept (tx_state u) (tx_state t')" by (rule revision_put_kept [OF old refl]) (simp_all add: put)
    moreover have "same_records u t'" by (simp add: same_records_def put)
    ultimately show ?thesis
      using u same_records_trans revisions_kept_trans same_records_history same_records_ok unfolding op_ok_def by blast
  qed
  show ?thesis
  proof (cases "existingRevision (tx_state t) revision")
    case None
    then have "map_of (os_Revisions (tx_state t)) ?key = None"
      by (auto simp: existingRevision_def Let_def split: option.splits)
    moreover have "t' = t\<lparr>tx_state := (tx_state t)\<lparr>os_Revisions := map_put ?key revision (os_Revisions (tx_state t))\<rparr>,
        tx_mutatedRevisions := set_add ?key (tx_mutatedRevisions t)\<rparr>"
      using assms None by (simp add: tx_SaveRevision_def Let_def cloneImmutableRecord_def d)
    ultimately show ?thesis using store [of t] by (simp add: same_records_def revisions_kept_refl)
  next
    case (Some p)
    obtain ek existing where p: "p = (ek, existing)" by (cases p)
    have ex: "map_of (os_Revisions (tx_state t)) ek = Some existing"
      "ek \<noteq> ?key \<Longrightarrow> vr_ContractID existing = [] \<and> vr_ContractID revision \<noteq> [] \<and> map_of (os_Revisions (tx_state t)) ?key = None"
      using Some by (auto simp: p existingRevision_def Let_def split: option.splits if_splits)
    let ?u = "if ek \<noteq> ?key then t\<lparr>tx_state := (tx_state t)\<lparr>os_Revisions := map_delete ek (os_Revisions (tx_state t))\<rparr>,
        tx_mutatedRevisions := set_remove ek (tx_mutatedRevisions t)\<rparr> else t"
    consider "t' = t" | (put) "canEnrichLegacyRevisionEvidence existing revision \<or> canCanonicalizeLegacyRevisionRef existing revision"
      "t' = ?u\<lparr>tx_state := (tx_state ?u)\<lparr>os_Revisions := map_put ?key revision (os_Revisions (tx_state ?u))\<rparr>,
        tx_mutatedRevisions := set_add ?key (tx_mutatedRevisions ?u)\<rparr>"
      using assms Some by (auto simp: p tx_SaveRevision_def Let_def cloneImmutableRecord_def d split: if_split_asm)
    then show ?thesis
    proof cases
      case put
      have "same_records t ?u" by (simp add: same_records_def)
      moreover have "revisions_kept (tx_state t) (tx_state ?u)"
        using ex revisions_kept_refl [of "tx_state t"] by (auto simp: revisions_kept_def map_of_delete)
      moreover have "\<exists>ref. revision = r\<lparr>vr_Ref := ref\<rparr>"
        if r: "map_of (os_Revisions (tx_state ?u)) ?key = Some r" "vr_ContractID r \<noteq> []" "vr_ReviewSnapshot r \<noteq> None" for r
      proof -
        have "ek = ?key" using r ex by (auto simp: map_of_delete split: if_split_asm)
        then have "r = existing" using r ex by simp
        then show ?thesis using put(1) r(3)
          by (auto simp: canEnrichLegacyRevisionEvidence_def canCanonicalizeLegacyRevisionRef_def split: if_split_asm)
      qed
      ultimately show ?thesis using store [OF _ _ put(2)] by blast
    qed (simp add: op_ok_refl)
  qed
qed

section \<open>Transactions\<close>

inductive tx_op :: "unicode_case \<Rightarrow> operational_transaction \<Rightarrow> operational_transaction \<Rightarrow> bool" for uc where
  revision: "tx_SaveRevision uc ctx r t = Inr t' \<Longrightarrow> tx_op uc t t'"
| review: "tx_SaveReview uc ctx v t = Inr t' \<Longrightarrow> tx_op uc t t'"
| sync: "tx_SaveSyncRecord ctx sr t = Inr t' \<Longrightarrow> tx_op uc t t'"
| authorization: "saveReleaseAuthorization ctx a t = Inr t' \<Longrightarrow> tx_op uc t t'"
| track: "tx_SaveReleaseTrack ctx g tr t = Inr t' \<Longrightarrow> tx_op uc t t'"
| publication: "tx_SavePublication ctx p t = Inr t' \<Longrightarrow> tx_op uc t t'"
| event: "tx_AppendAuditEvent ctx e t = Inr t' \<Longrightarrow> tx_op uc t t'"
| message: "tx_Enqueue ctx m t = Inr t' \<Longrightarrow> tx_op uc t t'"

lemma tx_op_ok: "tx_op uc t t' \<Longrightarrow> op_ok t t'"
  by (induction rule: tx_op.induct)
    (blast intro: SaveRevision_ok SaveReview_ok SaveSyncRecord_ok saveReleaseAuthorization_ok SaveReleaseTrack_ok
      SavePublication_ok AppendAuditEvent_ok Enqueue_ok)+

interpretation transaction: invariant_system "tx_op uc" tx_ok for uc
  by unfold_locales (use tx_op_ok in \<open>auto simp: op_ok_def\<close>)

lemma tx_ops_history: "(tx_op uc)\<^sup>*\<^sup>* t t' \<Longrightarrow> history_kept (tx_state t) (tx_state t')"
  by (induction rule: rtranclp_induct) (auto simp: history_kept_refl op_ok_def dest!: tx_op_ok intro: history_kept_trans)

text \<open>A callback that does nothing to the store but call its operations.\<close>

definition uses_operations :: "unicode_case \<Rightarrow> (operational_transaction \<Rightarrow> 'e + 'a \<times> operational_transaction) \<Rightarrow> bool" where
  "uses_operations uc callback \<longleftrightarrow> (\<forall>t v t'. callback t = Inr (v, t') \<longrightarrow> (tx_op uc)\<^sup>*\<^sup>* t t')"

lemma begin_transaction_state:
  assumes "maps_wf s"
  shows "map_of (os_ReleaseTracks (tx_state (begin_transaction s))) = map_of (os_ReleaseTracks s)"
    "map_of (tx_validatedReleaseTracks (begin_transaction s)) = map_of (os_ReleaseTracks s)"
    "map_of (os_ReleaseAuthorizations (tx_state (begin_transaction s))) = map_of (os_ReleaseAuthorizations s)"
    "maps_wf (tx_state (begin_transaction s))"
proof -
  have t: "cloneReleaseTracks (os_ReleaseTracks s) = map_from fst snd (os_ReleaseTracks s)"
    by (simp add: cloneReleaseTracks_def case_prod_unfold snd_def [symmetric])
  show "map_of (os_ReleaseTracks (tx_state (begin_transaction s))) = map_of (os_ReleaseTracks s)"
    "map_of (tx_validatedReleaseTracks (begin_transaction s)) = map_of (os_ReleaseTracks s)"
    "map_of (os_ReleaseAuthorizations (tx_state (begin_transaction s))) = map_of (os_ReleaseAuthorizations s)"
    "maps_wf (tx_state (begin_transaction s))"
    using assms by (simp_all add: begin_transaction_def cloneOperationalState_def t map_from_fst_snd maps_wf_def map_from_props)
qed

lemma begin_transaction_ok:
  assumes "maps_wf s" and "unique_public (os_Publications s)"
  shows "tx_ok (begin_transaction s)" and "history_kept s (tx_state (begin_transaction s))"
proof -
  note b = begin_transaction_state [OF assms(1)]
  show "tx_ok (begin_transaction s)"
    using b assms(2) by (simp add: tx_ok_def) (simp add: begin_transaction_def cloneOperationalState_def)
  have "kept (os_ReleaseAuthorizations s) (os_ReleaseAuthorizations (tx_state (begin_transaction s)))"
    "tracks_advance s (tx_state (begin_transaction s))"
    using b by (simp_all add: kept_def tracks_advance_def)
  moreover have "revisions_kept s (tx_state (begin_transaction s))"
    using revisions_kept_refl [of s] by (simp add: revisions_kept_def begin_transaction_def cloneOperationalState_def)
  ultimately show "history_kept s (tx_state (begin_transaction s))"
    by (simp add: history_kept_def) (simp add: begin_transaction_def cloneOperationalState_def)
qed

section \<open>Commits\<close>

text \<open>A transaction changes nothing, or publishes exactly what its callback built and the validators accepted.\<close>

lemma Within_cases:
  assumes "Within uc read_blob ctx0 ctx outcome callback failure s = (s', r)"
  obtains "s' = s" "\<exists>e. r = Inl e"
  | v t where "callback (begin_transaction s) = Inr (v, t)" "s' = (tx_state t)\<lparr>os_migratedRevisions := []\<rparr>"
      "validateOperationalState uc read_blob ctx s (tx_state t) (tx_mutatedRevisions t) = None"
      "r = Inr v \<or> (\<exists>e. outcome = PublishUnconfirmed e \<or> outcome = MarkerFailed e)"
  using assms
  by (auto simp: Within_def publishCurrentOperationalState_def validateOperationalState_def
      split: option.splits sum.splits prod.splits if_splits publish_outcome.splits)

definition store_valid :: "unicode_case \<Rightarrow> operational_state \<Rightarrow> bool" where
  "store_valid uc s \<longleftrightarrow> os_Version s = operationalStateVersion \<and> validateReleaseTrackAuthorities s = None \<and>
     validateOperationalReferences uc s = None \<and> unique_public (os_Publications s) \<and> maps_wf s"

inductive store_step :: "unicode_case \<Rightarrow> operational_state \<Rightarrow> operational_state \<Rightarrow> bool" for uc where
  "uses_operations uc (callback :: operational_transaction \<Rightarrow> go_error + unit \<times> operational_transaction) \<Longrightarrow>
   Within uc read_blob ctx0 ctx outcome callback id s = (s', r) \<Longrightarrow> store_step uc s s'"

text \<open>The validators read every field but the unexported set of migrated revisions.\<close>

lemma migrated_fields:
  "os_Revisions (s\<lparr>os_migratedRevisions := xs\<rparr>) = os_Revisions s" "os_Reviews (s\<lparr>os_migratedRevisions := xs\<rparr>) = os_Reviews s"
  "os_SyncRecords (s\<lparr>os_migratedRevisions := xs\<rparr>) = os_SyncRecords s"
  "os_ReleaseTracks (s\<lparr>os_migratedRevisions := xs\<rparr>) = os_ReleaseTracks s"
  "os_ReleaseTrackAuthorities (s\<lparr>os_migratedRevisions := xs\<rparr>) = os_ReleaseTrackAuthorities s"
  "os_ReleaseAuthorizations (s\<lparr>os_migratedRevisions := xs\<rparr>) = os_ReleaseAuthorizations s"
  "os_Publications (s\<lparr>os_migratedRevisions := xs\<rparr>) = os_Publications s"
  "os_AuditEvents (s\<lparr>os_migratedRevisions := xs\<rparr>) = os_AuditEvents s" "os_Outbox (s\<lparr>os_migratedRevisions := xs\<rparr>) = os_Outbox s"
  by simp_all

lemmas reference_defs = revisionForContract_def requireOwnedRevision_def trackExists_def trackReferences_def reviewReferences_def
  syncReferences_def eventReferences_def messageReferences_def

lemma validators_migrated [simp]:
  "validateReleaseTrackAuthorities (s\<lparr>os_migratedRevisions := xs\<rparr>) = validateReleaseTrackAuthorities s"
  "validateReleaseEvidenceAuthorities uc (s\<lparr>os_migratedRevisions := xs\<rparr>) = validateReleaseEvidenceAuthorities uc s"
  "validateOperationalReferences uc (s\<lparr>os_migratedRevisions := xs\<rparr>) = validateOperationalReferences uc s"
proof -
  show "validateReleaseTrackAuthorities (s\<lparr>os_migratedRevisions := xs\<rparr>) = validateReleaseTrackAuthorities s"
    unfolding validateReleaseTrackAuthorities_def migrated_fields ..
  show e: "validateReleaseEvidenceAuthorities uc (s\<lparr>os_migratedRevisions := xs\<rparr>) = validateReleaseEvidenceAuthorities uc s"
    unfolding validateReleaseEvidenceAuthorities_def validateReleaseAuthorizationBundle_def validateReleaseDecisionBundle_def
      requireReleaseTransitionEffects_def reviewOf_def syncResultOf_def revisionForContract_def migrated_fields ..
  show "validateOperationalReferences uc (s\<lparr>os_migratedRevisions := xs\<rparr>) = validateOperationalReferences uc s"
    unfolding validateOperationalReferences_def e validatePersistedOperationalIdentities_def reference_defs migrated_fields ..
qed

lemma Within_step:
  assumes "store_valid uc s" and "uses_operations uc callback"
    and "Within uc read_blob ctx0 ctx outcome callback failure s = (s', r)"
  shows "store_valid uc s'" and "history_kept s s'"
proof (atomize (full), rule Within_cases [OF assms(3)], goal_cases)
  case 1
  then show ?case using assms(1) history_kept_refl by simp
next
  case (2 v t)
  have s: "maps_wf s" "unique_public (os_Publications s)" using assms(1) by (simp_all add: store_valid_def)
  note b = begin_transaction_ok [OF s]
  have ops: "(tx_op uc)\<^sup>*\<^sup>* (begin_transaction s) t" using assms(2) 2(1) by (auto simp: uses_operations_def)
  have "tx_ok t" using transaction.reach_inv [OF ops b(1)] .
  then have "store_valid uc s'"
    using 2(2,3) by (simp add: store_valid_def tx_ok_def maps_wf_def validateOperationalState_def)
  moreover have h: "history_kept s (tx_state t)" using b(2) tx_ops_history [OF ops] history_kept_trans by blast
  have "history_kept (tx_state t) s'"
    using history_kept_refl [of "tx_state t"] 2(2) by (simp add: history_kept_def tracks_advance_def revisions_kept_def)
  ultimately show ?case using h history_kept_trans by blast
qed

lemma store_valid_new: "store_valid uc newOperationalState"
  by (simp add: store_valid_def newOperationalState_def validateReleaseTrackAuthorities_def validateOperationalReferences_def
      validatePersistedOperationalIdentities_def validateUniquePublicPaths_def validateReleaseEvidenceAuthorities_def
      unique_public_def maps_wf_def map_keys_def)

interpretation store_machine: invariant_system "store_step uc" "store_valid uc" for uc
  by unfold_locales (auto elim!: store_step.cases dest: Within_step)

lemma store_steps_history:
  assumes "(store_step uc)\<^sup>*\<^sup>* s s'" and "store_valid uc s"
  shows "history_kept s s'"
  using assms
proof (induction rule: rtranclp_induct)
  case (step y z)
  have "store_valid uc y" using store_machine.reach_inv step.hyps(1) step.prems by blast
  then have "history_kept y z" using step.hyps(2) by (auto elim!: store_step.cases dest: Within_step(2))
  then show ?case using step history_kept_trans by blast
qed (simp add: history_kept_refl)


lemma reachable_store_valid: "(store_step uc)\<^sup>*\<^sup>* newOperationalState s \<Longrightarrow> store_valid uc s"
  by (rule store_machine.reach_inv [OF _ store_valid_new])

text \<open>
  C3: The committed history is append-only. Whatever transactions run on a valid state, and whatever
  their commits report, no review, sync record, release authorization, audit event or outbox
  message is changed or lost, a reviewed revision keeps everything but its ref, and a release track
  moves only by the steps of the release state machine.
\<close>

theorem committed_history_is_append_only:
  assumes "store_valid uc s" and "(store_step uc)\<^sup>*\<^sup>* s s'"
  shows "kept (os_Reviews s) (os_Reviews s') \<and> kept (os_SyncRecords s) (os_SyncRecords s') \<and>
    kept (os_ReleaseAuthorizations s) (os_ReleaseAuthorizations s') \<and> kept (os_AuditEvents s) (os_AuditEvents s') \<and>
    kept (os_Outbox s) (os_Outbox s') \<and> tracks_advance s s' \<and> revisions_kept s s'"
  using store_steps_history [OF assms(2,1)] unfolding history_kept_def .

section \<open>What a valid state holds\<close>

lemma store_valid_fields:
  assumes "store_valid uc s"
  shows "validateReleaseTrackAuthorities s = None" and "validateOperationalReferences uc s = None"
    and "validateReleaseEvidenceAuthorities uc s = None" and "validatePersistedOperationalIdentities uc s = None"
    and "unique_public (os_Publications s)"
  using assms by (simp_all add: store_valid_def validateOperationalReferences_def)

lemma valid_store_track:
  assumes "store_valid uc s" and "map_of (os_ReleaseTracks s) k = Some track"
  shows "ValidateReleaseTrack track = None" and "k = releaseTrackKey (rt_ContractID track) (rt_ID track)"
proof -
  note m = map_of_SomeD [OF assms(2)]
  show "ValidateReleaseTrack track = None"
    using m store_valid_fields(1) [OF assms(1)] by (fastforce simp: validateReleaseTrackAuthorities_def)
  show "k = releaseTrackKey (rt_ContractID track) (rt_ID track)"
    using m store_valid_fields(2) [OF assms(1)] by (fastforce simp: validateOperationalReferences_def trackReferences_def)
qed

lemma valid_store_decision:
  assumes "store_valid uc s" and "map_of (os_ReleaseTracks s) k = Some track" and "rt_LastDecision track = Some d"
  obtains authorization where "map_of (os_ReleaseAuthorizations s) (rd_ReviewID d) = Some authorization"
    "ra_ReviewID authorization = rd_ReviewID d"
    "ra_ContractID authorization = rt_ContractID track" "ra_TrackID authorization = rt_ID track"
    "validateReleaseAuthorizationBundle uc s authorization = None"
    "validateReleaseDecisionBundle s track d authorization = None"
proof -
  note v = store_valid_fields(3) [OF assms(1)]
  have "(k, track) \<in> set (os_ReleaseTracks s)" using assms(2) by (rule map_of_SomeD)
  then obtain authorization where a: "map_of (os_ReleaseAuthorizations s) (rd_ReviewID d) = Some authorization"
    and t: "ra_ContractID authorization = rt_ContractID track" "ra_TrackID authorization = rt_ID track"
      "validateReleaseDecisionBundle s track d authorization = None"
    using v assms(3) by (fastforce simp: validateReleaseEvidenceAuthorities_def split: option.splits)
  have "ra_ReviewID authorization = rd_ReviewID d" "validateReleaseAuthorizationBundle uc s authorization = None"
    using v map_of_SomeD [OF a] by (fastforce simp: validateReleaseEvidenceAuthorities_def)+
  then show thesis using that a t by blast
qed

lemma case_None_Some: "(case x of None \<Rightarrow> Some e | Some y \<Rightarrow> f y) = None \<longleftrightarrow> (\<exists>y. x = Some y \<and> f y = None)"
  by (cases x) simp_all

lemma case_both_Some:
  "(case (x, y) of (Some a, Some b) \<Rightarrow> f a b | _ \<Rightarrow> Some e) = None \<longleftrightarrow> (\<exists>a b. x = Some a \<and> y = Some b \<and> f a b = None)"
  by (cases x; cases y) simp_all

lemma authorization_bundle:
  assumes "validateReleaseAuthorizationBundle uc s a = None"
  obtains baseline candidate bs cs review syncRecord where
    "revisionForContract s (ra_ContractID a) (ra_BaselineRevisionID a) = Some baseline"
    "revisionForContract s (ra_ContractID a) (ra_CandidateRevisionID a) = Some candidate"
    "vr_ReviewSnapshot baseline = Some bs" "vr_ReviewSnapshot candidate = Some cs"
    "map_of (os_Reviews s) (ra_ReviewID a) = Some review" "cv_ContractID review = ra_ContractID a"
    "cv_BaselineRevisionID review = ra_BaselineRevisionID a" "cv_CandidateRevisionID review = ra_CandidateRevisionID a"
    "ValidateReleaseReviewReportAgainstSnapshots uc (cv_Report review) (ra_ContractID a) bs cs = None"
    "map_of (os_SyncRecords s) (ra_SyncRecordID a) = Some syncRecord"
    "sr_CommitSHA syncRecord = vr_CommitSHA candidate"
  using assms unfolding validateReleaseAuthorizationBundle_def case_None_Some case_both_Some and_then_None
    if_Some_None first_error_None fail_if_None wrap_err_None list.simps set_simps
  by (elim conjE exE) (auto simp del: prod.case)

lemma decision_bundle:
  assumes "validateReleaseDecisionBundle s track d a = None"
  obtains bytes where "CanonicalReviewJSON (cv_Report (reviewOf s (ra_ReviewID a))) = Inr bytes"
    "rd_RevisionID d = ra_CandidateRevisionID a" "rd_ReviewDigest d = sha256Hex bytes"
    "rd_Verdict d = rr_Verdict (cv_Report (reviewOf s (ra_ReviewID a)))"
    "rd_Accepted d \<Longrightarrow> syncResultOf s (ra_SyncRecordID a) = SyncResultSuccess"
    "rd_Accepted d \<Longrightarrow> rt_Mode track = ReleaseModeFollowing \<or> track_promoted track d \<Longrightarrow>
       \<exists>p. map_of (os_Publications s) (publicationKey (ra_ContractID a) (ra_CandidateRevisionID a)) = Some p \<and>
         pub_Public p \<and> pub_Path p = ra_PublicPath a"
    "requireReleaseTransitionEffects s a (rd_Accepted d)
       (if track_promoted track d then rt_Generation track - 1 else rt_Generation track) TrackConsidered TrackUpdated = None"
  using assms unfolding validateReleaseDecisionBundle_def Let_def
  by (auto split: sum.splits if_splits option.splits)

end
