(* ===== verification/Review_Evidence.thy ===== *)
theory Review_Evidence
  imports Review
begin

text \<open>
  What the reviews of \<open>domain/review.go\<close> establish: the canonical form of a policy is a fixed point of
  its own validation, the release comparison of an evaluated review is accepted as release evidence
  by the validation that rebuilds it from the persisted snapshots, and an accepted passing report
  means what its policy says about the two surfaces.
\<close>

section \<open>The comparison functions are orders\<close>

lemma compare_fields_less: "length as = length bs \<Longrightarrow> compare_fields (zip as bs) < 0 \<longleftrightarrow> as < bs"
  by (induction as bs rule: list_induct2) auto

lemma compare_fields_zero: "length as = length bs \<Longrightarrow> compare_fields (zip as bs) = 0 \<longleftrightarrow> as = bs"
  by (induction as bs rule: list_induct2) auto

definition exception_key :: "policy_exception \<Rightarrow> string list" where
  "exception_key e = [pe_FindingID e, pe_RuleID e, pe_Reason e, pe_Author e, expiry_text e, pe_Source e]"

lemma exception_less_key: "exception_less = (\<lambda>l r. exception_key l < exception_key r)"
  using compare_fields_less [of "exception_key l" "exception_key r" for l r]
  by (auto simp: fun_eq_iff exception_less_def comparePolicyExceptions_def exception_key_def)

interpretation exception_order: slice_order exception_less
  unfolding exception_less_key by (rule slice_order_key)

definition sortable_key :: "sortable_policy_layer \<Rightarrow> int \<times> string \<times> string" where
  "sortable_key s = (policySourceRank (pl_Source (sl_layer s)), pl_Name (sl_layer s), sl_key s)"

lemma sortable_less_key: "sortable_less = (\<lambda>a b. sortable_key a < sortable_key b)"
  by (auto simp: fun_eq_iff sortable_less_def sortable_key_def Let_def)

interpretation layer_order: slice_order sortable_less
  unfolding sortable_less_key by (rule slice_order_key)

section \<open>Layers that differ only in the insertion order of their rules\<close>

text \<open>A Go map has no order: two models of the same layer may list its rules differently.\<close>

definition same_layer :: "policy_layer \<Rightarrow> policy_layer \<Rightarrow> bool" where
  "same_layer a b \<longleftrightarrow> pl_Name a = pl_Name b \<and> pl_Source a = pl_Source b \<and>
     pl_RequireReleaseBaseline a = pl_RequireReleaseBaseline b \<and> pl_Exceptions a = pl_Exceptions b \<and>
     map_of (pl_Rules a) = map_of (pl_Rules b)"

definition rules_wf :: "policy_layer \<Rightarrow> bool" where
  "rules_wf l \<longleftrightarrow> distinct (map_keys (pl_Rules l))"

lemma same_layer_refl [simp]: "same_layer a a"
  by (simp add: same_layer_def)

lemma same_layer_contribution:
  "same_layer a b \<Longrightarrow> evaluate_contribution ix t f (i, a) = evaluate_contribution ix t f (i, b)"
proof -
  assume s: "same_layer a b"
  have c: "contributionLevel a f = contributionLevel b f" using s by (simp add: same_layer_def contributionLevel_def)
  have m: "matchingExceptions a f t = matchingExceptions b f t"
    using s by (simp add: same_layer_def matchingExceptions_def exceptionMatches_def)
  have n: "pl_Exceptions a = pl_Exceptions b" "pl_Name a = pl_Name b" "pl_Source a = pl_Source b"
    using s by (simp_all add: same_layer_def)
  have e: "apply_exception ix i a = apply_exception ix i b" by (simp add: fun_eq_iff apply_exception_def Let_def n(1))
  show ?thesis by (rule ext) (simp add: evaluate_contribution_def n c m e split: prod.split)
qed

lemma same_layers_fold:
  "list_all2 same_layer as bs \<Longrightarrow>
     fold (evaluate_contribution ix t f) (enumerate n as) st = fold (evaluate_contribution ix t f) (enumerate n bs) st"
  by (induction arbitrary: n st rule: list_all2_induct) (simp_all add: same_layer_contribution)

lemma same_layers_refs: "list_all2 same_layer as bs \<Longrightarrow> exception_refs as = exception_refs bs"
proof -
  assume l: "list_all2 same_layer as bs"
  have "map (\<lambda>(li, layer). map (Pair li) [0..<length (pl_Exceptions layer)]) (enumerate n as) =
      map (\<lambda>(li, layer). map (Pair li) [0..<length (pl_Exceptions layer)]) (enumerate n bs)" for n
    using l by (induction arbitrary: n rule: list_all2_induct) (simp_all add: same_layer_def)
  then show ?thesis by (simp add: exception_refs_def)
qed

lemma same_layers_dispositions:
  "list_all2 same_layer as bs \<Longrightarrow> initial_dispositions as t = initial_dispositions bs t"
  unfolding initial_dispositions_def
  by (induction rule: list_all2_induct) (simp_all add: same_layer_def)

lemma same_policy_evaluates_alike:
  assumes "list_all2 same_layer (ep_Layers p) (ep_Layers q)"
  shows "EvaluateFindings p fs t = EvaluateFindings q fs t"
proof -
  have "evaluate_finding ix t (ep_Layers p) = evaluate_finding ix t (ep_Layers q)" for ix
    by (simp add: fun_eq_iff evaluate_finding_def same_layers_fold [OF assms])
  then show ?thesis
    by (simp add: EvaluateFindings_def Let_def same_layers_dispositions [OF assms] dispositionIndexes_def
        same_layers_refs [OF assms])
qed

lemma same_layer_rule_level: "same_layer a b \<Longrightarrow> rule_level (pl_Rules a) = rule_level (pl_Rules b)"
  by (simp add: fun_eq_iff same_layer_def rule_level_def)

lemma same_rules_sorted:
  assumes "map_of r = map_of s" and "distinct (map_keys r)" and "distinct (map_keys s)"
  shows "sortedRuleIDs r = sortedRuleIDs s"
proof -
  have "set (map_keys r) = set (map_keys s)"
    using assms(1) by (simp add: map_keys_def dom_map_of_conv_image_fst [symmetric])
  then show ?thesis unfolding sortedRuleIDs_def
    by (intro sort_strings_perm) (simp add: set_eq_iff_mset_eq_distinct [symmetric] assms)
qed

lemma same_layer_sorted:
  "same_layer a b \<Longrightarrow> rules_wf a \<Longrightarrow> rules_wf b \<Longrightarrow> sortedRuleIDs (pl_Rules a) = sortedRuleIDs (pl_Rules b)"
  by (rule same_rules_sorted) (simp_all add: same_layer_def rules_wf_def)

lemma same_layer_projection:
  assumes "same_layer a b" and "rules_wf a" and "rules_wf b"
  shows "projectPolicyLayer a = projectPolicyLayer b"
  using assms same_layer_sorted [OF assms] same_layer_rule_level [OF assms(1)]
  by (simp add: projectPolicyLayer_def same_layer_def)

lemma same_layer_validates:
  assumes "same_layer a b" and "rules_wf a" and "rules_wf b"
  shows "validateLayer a = validateLayer b"
  using assms(1) same_layer_sorted [OF assms] same_layer_rule_level [OF assms(1)]
  by (simp add: validateLayer_def same_layer_def)

section \<open>Canonical policies\<close>

abbreviation utc_exceptions :: "policy_layer \<Rightarrow> bool" where
  "utc_exceptions l \<equiv> \<forall>e \<in> set (pl_Exceptions l). t_loc (pe_ExpiresAt e) = LocUTC"

abbreviation sorted_exceptions :: "policy_layer \<Rightarrow> bool" where
  "sorted_exceptions l \<equiv> sort_slice exception_less (pl_Exceptions l) = pl_Exceptions l"

definition canon_layer :: "policy_layer \<Rightarrow> policy_layer" where
  "canon_layer l = sl_layer (sortable_layer l)"

lemma clone_utc: "t_loc (pe_ExpiresAt e) = LocUTC \<Longrightarrow> clonePolicyException e = e"
  by (simp add: clonePolicyException_def time_UTC_id)

lemma clone_same: "rules_wf l \<Longrightarrow> utc_exceptions l \<Longrightarrow> same_layer (clonePolicyLayer l) l"
  by (simp add: same_layer_def clonePolicyLayer_def map_from_fst_snd rules_wf_def clone_utc map_idI)

lemma clone_wf [simp]: "rules_wf (clonePolicyLayer l)" "utc_exceptions (clonePolicyLayer l)"
  by (auto simp: rules_wf_def clonePolicyLayer_def map_from_props clonePolicyException_def)

lemma canon_layer_fields [simp]:
  "pl_Name (canon_layer l) = pl_Name l" "pl_Source (canon_layer l) = pl_Source l"
  "pl_RequireReleaseBaseline (canon_layer l) = pl_RequireReleaseBaseline l"
  "pl_Rules (canon_layer l) = map_from fst snd (pl_Rules l)"
  "set (pl_Exceptions (canon_layer l)) = clonePolicyException ` set (pl_Exceptions l)"
  by (simp_all add: canon_layer_def sortable_layer_def Let_def clonePolicyLayer_def)

lemma canon_layer_wf [simp]: "rules_wf (canon_layer l)" "utc_exceptions (canon_layer l)" "sorted_exceptions (canon_layer l)"
proof -
  show "rules_wf (canon_layer l)" by (simp add: rules_wf_def map_from_props)
  show "utc_exceptions (canon_layer l)" by (auto simp: clonePolicyException_def)
  show "sorted_exceptions (canon_layer l)"
    by (simp add: canon_layer_def sortable_layer_def Let_def exception_order.sort_slice_idem)
qed

lemma canon_layer_same:
  "rules_wf l \<Longrightarrow> utc_exceptions l \<Longrightarrow> sorted_exceptions l \<Longrightarrow> same_layer (canon_layer l) l"
proof -
  assume l: "rules_wf l" "utc_exceptions l" "sorted_exceptions l"
  then have "map clonePolicyException (pl_Exceptions l) = pl_Exceptions l" by (intro map_idI clone_utc) simp
  then have "pl_Exceptions (canon_layer l) = pl_Exceptions l"
    using l(3) by (simp add: canon_layer_def sortable_layer_def Let_def clonePolicyLayer_def)
  with l(1) show ?thesis by (simp add: same_layer_def map_from_fst_snd rules_wf_def)
qed

lemma sortable_fields:
  "sl_projection (sortable_layer l) = projectPolicyLayer (canon_layer l)"
  "sl_key (sortable_layer l) = json_bytes (json_layer (projectPolicyLayer (canon_layer l)))"
  "sortable_key (sortable_layer l) =
     (policySourceRank (pl_Source l), pl_Name l, json_bytes (json_layer (projectPolicyLayer (canon_layer l))))"
  unfolding sortable_key_def canon_layer_def sortable_layer_def Let_def clonePolicyLayer_def by simp_all

lemma same_layer_sortable:
  assumes "same_layer a b" and "rules_wf a" and "rules_wf b"
  shows "sortable_key (sortable_layer a) = sortable_key (sortable_layer b)"
    and "projectPolicyLayer (canon_layer a) = projectPolicyLayer (canon_layer b)"
    and "same_layer (canon_layer a) (canon_layer b)"
proof -
  show s: "same_layer (canon_layer a) (canon_layer b)"
    using assms by (simp add: same_layer_def map_from_fst_snd rules_wf_def)
      (simp add: canon_layer_def sortable_layer_def Let_def clonePolicyLayer_def)
  show p: "projectPolicyLayer (canon_layer a) = projectPolicyLayer (canon_layer b)"
    by (rule same_layer_projection [OF s]) simp_all
  show "sortable_key (sortable_layer a) = sortable_key (sortable_layer b)"
    using assms(1) by (simp add: sortable_fields p) (simp add: same_layer_def)
qed

lemma sort_sortables_id:
  assumes "map sortable_key ss = map sortable_key (sort_slice sortable_less ts)"
  shows "sort_slice sortable_less ss = ss"
proof (rule layer_order.sort_slice_id)
  have "sorted_wrt (\<lambda>x y. \<not> y < x) (map sortable_key (sort_slice sortable_less ts))"
    using layer_order.sorted_sort_slice [of ts] by (simp add: sorted_wrt_map sortable_less_key)
  then show "sorted_wrt (\<lambda>x y. \<not> sortable_less y x) ss"
    unfolding assms [symmetric] by (simp add: sorted_wrt_map sortable_less_key)
qed

lemma canonicalReviewPolicy_Inr:
  "canonicalReviewPolicy p = Inr (pol, proj, dig) \<longleftrightarrow>
     (let sorted = sort_slice sortable_less (map sortable_layer (ep_Layers p)) in
      (\<forall>l \<in> set (ep_Layers p). layer_times_ok (projectPolicyLayer (canon_layer l))) \<and>
      pol = \<lparr>ep_Layers = map sl_layer sorted, ep_RequireReleaseBaseline = ep_RequireReleaseBaseline p\<rparr> \<and>
      proj = \<lparr>pp_RequireReleaseBaseline = ep_RequireReleaseBaseline p,
              pp_Layers = nil_append (map projectPolicyLayer (ep_Layers pol))\<rparr> \<and>
      dig = sha256Hex (json_bytes (json_policy proj)))"
proof -
  have eq: "map sl_projection (sort_slice sortable_less (map sortable_layer ls)) =
      map (projectPolicyLayer \<circ> sl_layer) (sort_slice sortable_less (map sortable_layer ls))" for ls
    by (auto simp: sortable_fields canon_layer_def)
  show ?thesis
    by (auto simp: canonicalReviewPolicy_def Let_def list_all_iff sortable_fields(1) policy_times_ok_def eq canon_layer_def)
qed

section \<open>Composed policies\<close>

text \<open>What \<open>MergePolicy\<close> establishes of a list of layers, stated so that it survives the reordering of
  server layers and of rules: one repository layer that gives every supported rule a level, then
  server layers that never rank below it.\<close>

definition layer_fine :: "policy_layer \<Rightarrow> bool" where
  "layer_fine l \<longleftrightarrow> rules_wf l \<and> utc_exceptions l \<and> validateLayer l = None"

definition tightens :: "policy_layer \<Rightarrow> policy_layer \<Rightarrow> bool" where
  "tightens repo s \<longleftrightarrow> pl_Source s = PolicySourceServer \<and>
     (\<forall>r lv. map_of (pl_Rules s) r = Some lv \<longrightarrow> levelRank (rule_level (pl_Rules repo) r) \<le> levelRank lv)"

definition full_repository :: "policy_layer \<Rightarrow> bool" where
  "full_repository repo \<longleftrightarrow> pl_Source repo = PolicySourceRepository \<and> dom (map_of (pl_Rules repo)) = {r. isSupportedRuleID r}"

definition layers_fine :: "policy_layer list \<Rightarrow> bool" where
  "layers_fine ls \<longleftrightarrow> (\<exists>repo servers. ls = repo # servers \<and> full_repository repo \<and>
     (\<forall>l \<in> set ls. layer_fine l) \<and> (\<forall>s \<in> set servers. tightens repo s))"

definition merged_ok :: "effective_policy \<Rightarrow> bool" where
  "merged_ok p \<longleftrightarrow> layers_fine (ep_Layers p) \<and>
     ep_RequireReleaseBaseline p = list_ex pl_RequireReleaseBaseline (ep_Layers p)"

lemma sources_differ [simp]: "PolicySourceRepository \<noteq> PolicySourceServer" "PolicySourceServer \<noteq> PolicySourceRepository"
  by (simp_all add: PolicySourceRepository_def PolicySourceServer_def)

lemma same_layer_fine: "same_layer a b \<Longrightarrow> rules_wf b \<Longrightarrow> layer_fine a \<Longrightarrow> layer_fine b"
  using same_layer_validates [of a b] by (auto simp: layer_fine_def same_layer_def)

lemma same_layer_tightens: "same_layer a b \<Longrightarrow> same_layer s t \<Longrightarrow> tightens a s \<Longrightarrow> tightens b t"
  using same_layer_rule_level [of a b] by (auto simp: tightens_def same_layer_def)

lemma same_layer_full: "same_layer a b \<Longrightarrow> full_repository a \<Longrightarrow> full_repository b"
  by (auto simp: full_repository_def same_layer_def)

lemma same_layers_fine:
  assumes "list_all2 same_layer as bs" and "\<forall>b \<in> set bs. rules_wf b" and "layers_fine as"
  shows "layers_fine bs"
proof -
  obtain repo servers where as: "as = repo # servers" "full_repository repo" "\<forall>l \<in> set as. layer_fine l"
    "\<forall>s \<in> set servers. tightens repo s"
    using assms(3) by (auto simp: layers_fine_def)
  obtain repo' servers' where bs: "bs = repo' # servers'" "same_layer repo repo'" "list_all2 same_layer servers servers'"
    using assms(1) as(1) by (auto simp: list_all2_Cons1)
  have 1: "\<exists>a \<in> set as. same_layer a b" if "b \<in> set bs" for b
    using assms(1) that by (metis in_set_conv_nth list_all2_conv_all_nth)
  have 2: "\<exists>a \<in> set servers. same_layer a b" if "b \<in> set servers'" for b
    using bs(3) that by (metis in_set_conv_nth list_all2_conv_all_nth)
  have "\<forall>l \<in> set bs. layer_fine l" using 1 as(3) assms(2) same_layer_fine by blast
  moreover have "\<forall>s \<in> set servers'. tightens repo' s" using 2 as(4) bs(2) same_layer_tightens by blast
  ultimately show ?thesis using bs(1) same_layer_full [OF bs(2) as(2)] unfolding layers_fine_def by blast
qed

lemma validateLayer_None:
  "validateLayer l = None \<longleftrightarrow> canonical (pl_Name l) \<and>
     (pl_Source l = PolicySourceRepository \<or> pl_Source l = PolicySourceServer) \<and>
     (\<forall>r \<in> set (sortedRuleIDs (pl_Rules l)). canonical r \<and> isSupportedRuleID r \<and> validRuleLevel (rule_level (pl_Rules l) r)) \<and>
     (\<forall>e \<in> set (pl_Exceptions l). validatePolicyException e (pl_Source l) = None)"
  by (auto simp: validateLayer_def all_set_conv_all_nth)

lemma validateLayer_clone:
  assumes "rules_wf l" and "validateLayer l = None"
  shows "validateLayer (clonePolicyLayer l) = None"
proof -
  have "sortedRuleIDs (map_from fst snd (pl_Rules l)) = sortedRuleIDs (pl_Rules l)"
    "rule_level (map_from fst snd (pl_Rules l)) = rule_level (pl_Rules l)"
    using assms(1) by (auto simp: rules_wf_def map_from_fst_snd map_from_props fun_eq_iff rule_level_def intro: same_rules_sorted)
  moreover have "validatePolicyException (clonePolicyException e) src = validatePolicyException e src" for e src
    by (simp add: validatePolicyException_def clonePolicyException_def Let_def)
  ultimately show ?thesis using assms(2) by (simp add: validateLayer_def clonePolicyLayer_def)
qed

lemma layer_fine_clone: "rules_wf l \<Longrightarrow> validateLayer l = None \<Longrightarrow> layer_fine (clonePolicyLayer l)"
  by (simp add: layer_fine_def validateLayer_clone)

lemma fold_put_wf:
  "distinct (map_keys m) \<Longrightarrow> distinct (map_keys (fold (\<lambda>(k, v). map_put k v) xs m))"
  by (induction xs arbitrary: m) (auto simp: distinct_keys_put)

lemma valid_rules:
  assumes "validateLayer l = None"
  shows "map_of (pl_Rules l) r = Some lv \<Longrightarrow> isSupportedRuleID r"
proof -
  assume "map_of (pl_Rules l) r = Some lv"
  then have "r \<in> set (sortedRuleIDs (pl_Rules l))" by (force simp: sortedRuleIDs_def map_keys_def dest: map_of_SomeD)
  then show ?thesis using assms by (simp add: validateLayer_def)
qed

lemma canonical_rule_ids: "isSupportedRuleID r \<Longrightarrow> canonical r"
proof -
  assume "isSupportedRuleID r"
  then have "r \<in> set (map fst supportedRuleRegistry)" by (simp add: isSupported_iff)
  then show ?thesis
    by (simp add: supportedRuleRegistry_def rule_defs) (elim disjE; hypsubst; rule canonical_ascii; simp)
qed

lemma registry_levels: "map_of supportedRuleRegistry r = Some lv \<Longrightarrow> validRuleLevel lv"
  by (drule map_of_SomeD) (auto simp: supportedRuleRegistry_def validRuleLevel_def)

lemma supported_dom: "dom (map_of supportedRuleRegistry) = {r. isSupportedRuleID r}"
  by (auto simp: isSupported_iff dom_map_of_conv_image_fst)

lemma normalized_repository_fine:
  assumes "normalizedRepositoryLayer l = Inr repo" and "rules_wf l" and "pl_Source l = PolicySourceRepository"
  shows "layer_fine repo" and "full_repository repo"
proof -
  have v: "validateLayer l = None"
    and repo: "repo = (clonePolicyLayer l)\<lparr>pl_Rules := fold (\<lambda>(k, v). map_put k v) (pl_Rules l) repositoryDefaultRules\<rparr>"
    using assms(1) by (auto simp: normalizedRepositoryLayer_def)
  have m: "map_of (pl_Rules repo) = map_of supportedRuleRegistry ++ map_of (pl_Rules l)"
    using repository_rules [OF assms(1)] assms(2) by (simp add: rules_wf_def)
  have wf: "rules_wf repo" by (simp add: repo rules_wf_def fold_put_wf distinct_default_rules)
  have "dom (map_of (pl_Rules l)) \<subseteq> {r. isSupportedRuleID r}" using valid_rules [OF v] by auto
  then have d: "dom (map_of (pl_Rules repo)) = {r. isSupportedRuleID r}" using supported_dom by (simp add: m) blast
  then show "full_repository repo" using assms(3) by (simp add: full_repository_def) (simp add: repo clonePolicyLayer_def)
  have lv: "validRuleLevel (rule_level (pl_Rules repo) r)" if "isSupportedRuleID r" for r
  proof (cases "map_of (pl_Rules l) r")
    case None
    then show ?thesis using that supported_dom registry_levels [of r]
      by (cases "map_of supportedRuleRegistry r") (auto simp: rule_level_def m map_add_def)
  next
    case (Some a)
    then have "r \<in> set (sortedRuleIDs (pl_Rules l))" by (force simp: sortedRuleIDs_def map_keys_def dest: map_of_SomeD)
    then have "validRuleLevel (rule_level (pl_Rules l) r)" using v by (simp add: validateLayer_def)
    then show ?thesis using Some by (simp add: rule_level_def m)
  qed
  have "set (sortedRuleIDs (pl_Rules repo)) = {r. isSupportedRuleID r}"
    unfolding d [symmetric] by (simp add: sortedRuleIDs_def map_keys_def dom_map_of_conv_image_fst)
  then have "validateLayer repo = None"
    using validateLayer_clone [OF assms(2) v] lv canonical_rule_ids
    by (simp add: validateLayer_def) (simp add: repo)
  moreover have "utc_exceptions repo" using clone_wf(2) [of l] by (simp add: repo)
  ultimately show "layer_fine repo" using wf by (simp add: layer_fine_def)
qed

lemma validateServerLayer_None:
  assumes "rules_wf s"
  shows "validateServerLayer repo i s = None \<longleftrightarrow> validateLayer s = None \<and> tightens repo s"
proof -
  have "(\<forall>(r, lv) \<in> set (pl_Rules s). \<not> levelRank lv < levelRank (rule_level (pl_Rules repo) r)) \<longleftrightarrow>
      (\<forall>r lv. map_of (pl_Rules s) r = Some lv \<longrightarrow> levelRank (rule_level (pl_Rules repo) r) \<le> levelRank lv)"
    using assms by (auto simp: rules_wf_def map_keys_def not_less)
  then show ?thesis by (auto simp: validateServerLayer_def tightens_def case_prod_unfold)
qed

lemma MergePolicy_fine:
  assumes "MergePolicy layers = Inr p" and "\<forall>l \<in> set layers. rules_wf l"
  shows "merged_ok p"
proof -
  obtain first servers repo where l: "layers = first # servers" "pl_Source first = PolicySourceRepository"
    "normalizedRepositoryLayer first = Inr repo" "\<forall>i < length servers. validateServerLayer repo i (servers ! i) = None"
    "p = \<lparr>ep_Layers = repo # map clonePolicyLayer servers,
          ep_RequireReleaseBaseline = pl_RequireReleaseBaseline repo \<or> list_ex pl_RequireReleaseBaseline servers\<rparr>"
    using assms(1) by (auto simp: MergePolicy_Inr)
  have wf: "rules_wf first" "\<forall>s \<in> set servers. rules_wf s" using assms(2) l(1) by auto
  note r = normalized_repository_fine [OF l(3) wf(1) l(2)]
  have sv: "\<forall>s \<in> set servers. validateLayer s = None \<and> tightens repo s"
    using l(4) wf(2) validateServerLayer_None by (metis in_set_conv_nth)
  have "tightens repo (clonePolicyLayer s)" if "s \<in> set servers" for s
    using sv wf(2) that by (auto simp: tightens_def clonePolicyLayer_def map_from_fst_snd rules_wf_def)
  moreover have "pl_RequireReleaseBaseline (clonePolicyLayer s) = pl_RequireReleaseBaseline s" for s
    by (simp add: clonePolicyLayer_def)
  ultimately show ?thesis
    using r sv wf(2) layer_fine_clone by (auto simp: merged_ok_def layers_fine_def l(5) list_ex_iff)
qed

lemma MergePolicy_again:
  assumes "merged_ok p"
  shows "\<exists>q. MergePolicy (ep_Layers p) = Inr q \<and> list_all2 same_layer (ep_Layers p) (ep_Layers q) \<and>
    (\<forall>l \<in> set (ep_Layers q). rules_wf l) \<and> ep_RequireReleaseBaseline q = ep_RequireReleaseBaseline p"
proof -
  obtain repo servers where p: "ep_Layers p = repo # servers" "full_repository repo" "layer_fine repo"
    "\<forall>s \<in> set servers. layer_fine s \<and> tightens repo s"
    "ep_RequireReleaseBaseline p = list_ex pl_RequireReleaseBaseline (ep_Layers p)"
    using assms by (auto simp: merged_ok_def layers_fine_def)
  define repo' where "repo' = (clonePolicyLayer repo)\<lparr>pl_Rules := fold (\<lambda>(k, v). map_put k v) (pl_Rules repo) repositoryDefaultRules\<rparr>"
  have n: "normalizedRepositoryLayer repo = Inr repo'"
    using p(3) by (simp add: normalizedRepositoryLayer_def repo'_def layer_fine_def)
  have "map_of (pl_Rules repo') = map_of supportedRuleRegistry ++ map_of (pl_Rules repo)"
    using repository_rules [OF n] p(3) by (simp add: layer_fine_def rules_wf_def)
  moreover have "dom (map_of supportedRuleRegistry) \<subseteq> dom (map_of (pl_Rules repo))"
    using p(2) supported_dom by (simp add: full_repository_def)
  ultimately have m: "map_of (pl_Rules repo') = map_of (pl_Rules repo)"
    by (auto simp: fun_eq_iff map_add_def split: option.split)
  have same: "same_layer repo repo'"
    using clone_same [of repo] p(3) m by (simp add: layer_fine_def same_layer_def) (simp add: repo'_def)
  have wf: "rules_wf repo'" by (simp add: repo'_def rules_wf_def fold_put_wf distinct_default_rules)
  have sv: "same_layer s (clonePolicyLayer s)" if "s \<in> set servers" for s
    using clone_same [of s] p(4) that by (simp add: layer_fine_def same_layer_def)
  have "validateServerLayer repo' i (servers ! i) = None" if "i < length servers" for i
  proof -
    have i: "servers ! i \<in> set servers" using that by simp
    then have "tightens repo' (servers ! i)" using p(4) same_layer_tightens [OF same same_layer_refl] by blast
    then show ?thesis using p(4) i by (simp add: validateServerLayer_None layer_fine_def)
  qed
  then have "MergePolicy (ep_Layers p) = Inr \<lparr>ep_Layers = repo' # map clonePolicyLayer servers,
      ep_RequireReleaseBaseline = pl_RequireReleaseBaseline repo' \<or> list_ex pl_RequireReleaseBaseline servers\<rparr>"
    using n p(1,2) by (simp add: MergePolicy_Inr full_repository_def)
  moreover have "list_all2 same_layer servers (map clonePolicyLayer servers)"
    using sv by (simp add: list_all2_conv_all_nth)
  ultimately show ?thesis using same wf p(1,5) by (auto simp: same_layer_def)
qed

section \<open>The canonical projection passes its own validation\<close>

lemma rank_zero_head:
  assumes "layers_fine ls" and "mset (map f ms) = mset ls" and "sorted_wrt (\<lambda>a b. \<not> k b < k a) ms"
    and "\<And>m. fst (k m :: int \<times> 'b::linorder) = policySourceRank (pl_Source (f m))"
  shows "layers_fine (map f ms)"
proof -
  obtain repo servers where l: "ls = repo # servers" "full_repository repo" "\<forall>l \<in> set ls. layer_fine l"
    "\<forall>s \<in> set servers. tightens repo s"
    using assms(1) by (auto simp: layers_fine_def)
  obtain m ms' where ms: "ms = m # ms'" using assms(2) l(1) by (cases ms) auto
  have set: "set (map f ms) = set ls" using assms(2) by (rule mset_eq_setD)
  then obtain n where n: "n \<in> set ms" "f n = repo" using l(1) by (auto simp: set_eq_iff image_iff) metis
  have r0: "policySourceRank (pl_Source (f n)) = 0" using l(2) n(2) by (simp add: policySourceRank_def full_repository_def)
  have "f m = repo"
  proof (cases "n = m")
    case False
    then have "\<not> k n < k m" using n(1) assms(3) ms by auto
    then have "fst (k m) \<le> fst (k n)" by (auto simp: less_prod_def not_less)
    then have "policySourceRank (pl_Source (f m)) \<le> 0" using assms(4) r0 by simp
    then have "pl_Source (f m) = PolicySourceRepository" by (auto simp: policySourceRank_def split: if_splits)
    moreover have "f m \<in> set ls" using set ms by auto
    ultimately show ?thesis using l(1,4) by (auto simp: tightens_def)
  qed (use n in simp)
  then have "mset (map f ms') = mset servers" using assms(2) ms l(1) by simp
  then have "set (map f ms') = set servers" by (rule mset_eq_setD)
  then show ?thesis using l ms set \<open>f m = repo\<close> unfolding layers_fine_def by auto
qed

lemma canonical_policy_fine:
  assumes "merged_ok p" and "canonicalReviewPolicy p = Inr (pol, proj, dig)"
  shows "merged_ok pol" and "\<forall>l \<in> set (ep_Layers pol). sorted_exceptions l"
proof -
  let ?S = "sort_slice sortable_less (map sortable_layer (ep_Layers p))"
  have pol: "pol = \<lparr>ep_Layers = map sl_layer ?S, ep_RequireReleaseBaseline = ep_RequireReleaseBaseline p\<rparr>"
    using assms(2) by (simp add: canonicalReviewPolicy_Inr Let_def)
  have mp: "mset (map sl_layer ?S) = mset (map canon_layer (ep_Layers p))"
    by (simp add: canon_layer_def [abs_def] comp_def multiset.map_comp)
  have fine: "layer_fine (canon_layer l)" if "layer_fine l" for l
  proof -
    have "validateLayer (clonePolicyLayer l) = None" using that by (simp add: layer_fine_def validateLayer_clone)
    then have "validateLayer (canon_layer l) = None"
      by (simp add: validateLayer_None) (simp add: clonePolicyLayer_def)
    then show ?thesis by (simp add: layer_fine_def del: canon_layer_fields)
  qed
  have "layers_fine (map canon_layer (ep_Layers p))"
  proof -
    obtain repo servers where p: "ep_Layers p = repo # servers" "full_repository repo" "\<forall>l \<in> set (ep_Layers p). layer_fine l"
      "\<forall>s \<in> set servers. tightens repo s"
      using assms(1) by (auto simp: merged_ok_def layers_fine_def)
    have "map_of (map_from fst snd (pl_Rules l)) = map_of (pl_Rules l)" if "l \<in> set (ep_Layers p)" for l
      using p(3) that by (simp add: map_from_fst_snd layer_fine_def rules_wf_def)
    then have "full_repository (canon_layer repo)" "\<forall>s \<in> set servers. tightens (canon_layer repo) (canon_layer s)"
      using p by (auto simp: full_repository_def tightens_def rule_level_def)
    then show ?thesis using p(1,3) fine unfolding layers_fine_def by auto
  qed
  then have "layers_fine (map sl_layer ?S)"
    by (rule rank_zero_head [OF _ mp, where k = sortable_key])
      (use layer_order.sorted_sort_slice in \<open>simp_all add: sortable_less_key sortable_key_def\<close>)
  moreover have "set (map sl_layer ?S) = set (map canon_layer (ep_Layers p))" using mp by (rule mset_eq_setD)
  then have e: "set (ep_Layers pol) = canon_layer ` set (ep_Layers p)" by (simp add: pol)
  ultimately show "merged_ok pol" using assms(1) e by (auto simp: merged_ok_def pol list_ex_iff)
  show "\<forall>l \<in> set (ep_Layers pol). sorted_exceptions l" using e by auto
qed

lemma map_from_rules:
  "map_of (map_from rp_RuleID rp_Level (map (\<lambda>r. \<lparr>rp_RuleID = r, rp_Level = f r\<rparr>) ks)) r =
     (if r \<in> set ks then Some (f r) else None)"
  by (induction ks rule: rev_induct) (auto simp: map_from_snoc, simp_all add: map_from_def)

lemma rebuildLayer_project:
  assumes "rules_wf l" and "sorted_exceptions l"
  shows "\<exists>l'. rebuildLayer i (projectPolicyLayer l) = Inr l' \<and> same_layer l l' \<and> rules_wf l'"
proof -
  let ?ks = "sortedRuleIDs (pl_Rules l)"
  let ?rules = "map_from rp_RuleID rp_Level (map (\<lambda>r. \<lparr>rp_RuleID = r, rp_Level = rule_level (pl_Rules l) r\<rparr>) ?ks)"
  have "first_dup 0 [] ?ks = None"
    using assms(1) by (simp add: first_dup_None sortedRuleIDs_def rules_wf_def)
  then have r: "rebuildLayer i (projectPolicyLayer l) = Inr (l\<lparr>pl_Rules := ?rules\<rparr>)"
    using assms(2) by (simp add: rebuildLayer_def projectPolicyLayer_def comp_def)
  have "map_of ?rules = map_of (pl_Rules l)"
  proof (rule ext)
    fix r
    have "r \<in> set ?ks \<longleftrightarrow> map_of (pl_Rules l) r \<noteq> None"
      by (simp add: sortedRuleIDs_def map_keys_def map_of_eq_None_iff)
    then show "map_of ?rules r = map_of (pl_Rules l) r"
      by (cases "map_of (pl_Rules l) r") (simp_all add: map_from_rules rule_level_def)
  qed
  then have "same_layer l (l\<lparr>pl_Rules := ?rules\<rparr>)" by (simp add: same_layer_def)
  moreover have "rules_wf (l\<lparr>pl_Rules := ?rules\<rparr>)" by (simp add: rules_wf_def map_from_props)
  ultimately show ?thesis using r by blast
qed

lemma rebuildLayers_project:
  "\<forall>l \<in> set ls. rules_wf l \<and> sorted_exceptions l \<Longrightarrow>
     \<exists>ls'. rebuildLayers i (map projectPolicyLayer ls) = Inr ls' \<and> list_all2 same_layer ls ls' \<and> (\<forall>l \<in> set ls'. rules_wf l)"
proof (induction ls arbitrary: i)
  case (Cons l ls)
  obtain l' where "rebuildLayer i (projectPolicyLayer l) = Inr l'" "same_layer l l'" "rules_wf l'"
    using rebuildLayer_project Cons.prems by (meson list.set_intros(1))
  moreover obtain ls' where "rebuildLayers (Suc i) (map projectPolicyLayer ls) = Inr ls'" "list_all2 same_layer ls ls'"
    "\<forall>l \<in> set ls'. rules_wf l"
    using Cons.IH [of "Suc i"] Cons.prems by auto
  ultimately have "rebuildLayers i (map projectPolicyLayer (l # ls)) = Inr (l' # ls')" by (simp add: bind_res_def)
  then show ?case using \<open>same_layer l l'\<close> \<open>rules_wf l'\<close> \<open>list_all2 same_layer ls ls'\<close> \<open>\<forall>l \<in> set ls'. rules_wf l\<close>
    by (intro exI [of _ "l' # ls'"]) simp
qed simp

lemma same_layers_trans:
  "list_all2 same_layer as bs \<Longrightarrow> list_all2 same_layer bs cs \<Longrightarrow> list_all2 same_layer as cs"
proof -
  assume l: "list_all2 same_layer as bs" "list_all2 same_layer bs cs"
  show ?thesis by (rule list_all2_trans [OF _ l]) (simp add: same_layer_def)
qed

text \<open>Canonicalising the layers of a canonical policy, however their rules are listed, changes nothing.\<close>

lemma canonicalReviewPolicy_again:
  assumes p: "merged_ok p" "canonicalReviewPolicy p = Inr (pol, proj, dig)"
    and q: "list_all2 same_layer (ep_Layers pol) (ep_Layers q)" "\<forall>l \<in> set (ep_Layers q). rules_wf l"
      "ep_RequireReleaseBaseline q = ep_RequireReleaseBaseline pol"
  shows "\<exists>pol'. canonicalReviewPolicy q = Inr (pol', proj, dig) \<and> list_all2 same_layer (ep_Layers pol) (ep_Layers pol')"
proof -
  let ?S = "sort_slice sortable_less (map sortable_layer (ep_Layers p))"
  have c: "\<forall>l \<in> set (ep_Layers p). layer_times_ok (projectPolicyLayer (canon_layer l))"
    "pol = \<lparr>ep_Layers = map sl_layer ?S, ep_RequireReleaseBaseline = ep_RequireReleaseBaseline p\<rparr>"
    "proj = \<lparr>pp_RequireReleaseBaseline = ep_RequireReleaseBaseline p, pp_Layers = nil_append (map projectPolicyLayer (ep_Layers pol))\<rparr>"
    "dig = sha256Hex (json_bytes (json_policy proj))"
    using p(2) by (auto simp: canonicalReviewPolicy_Inr Let_def)
  have S: "\<exists>l \<in> set (ep_Layers p). s = sortable_layer l" if "s \<in> set ?S" for s using that by auto
  have each: "same_layer (canon_layer l) (canon_layer m)"
    "projectPolicyLayer (canon_layer m) = projectPolicyLayer (canon_layer l)"
    "sortable_key (sortable_layer m) = sortable_key (sortable_layer l)"
    if "same_layer (canon_layer l) m" "rules_wf m" for l m
  proof -
    have cc: "same_layer (canon_layer (canon_layer l)) (canon_layer l)" by (rule canon_layer_same) (simp_all del: canon_layer_fields)
    note t = same_layer_sortable [OF that(1) _ that(2), simplified]
    show "same_layer (canon_layer l) (canon_layer m)" using cc t(3) by (simp add: same_layer_def)
    show e: "projectPolicyLayer (canon_layer m) = projectPolicyLayer (canon_layer l)"
      using t(2) same_layer_projection [OF cc] by simp
    show "sortable_key (sortable_layer m) = sortable_key (sortable_layer l)"
      using that(1) by (simp add: sortable_fields e) (simp add: same_layer_def)
  qed
  have len: "length (ep_Layers q) = length ?S" using list_all2_lengthD [OF q(1)] by (simp add: c(2))
  have nth: "\<exists>l \<in> set (ep_Layers p). ?S ! i = sortable_layer l \<and> same_layer (canon_layer l) (ep_Layers q ! i) \<and> rules_wf (ep_Layers q ! i)"
    if "i < length ?S" for i
  proof -
    have "?S ! i \<in> set ?S" using that by (rule nth_mem)
    then obtain l where l: "l \<in> set (ep_Layers p)" "?S ! i = sortable_layer l" using S by blast
    have "same_layer (sl_layer (?S ! i)) (ep_Layers q ! i)" using q(1) that by (simp add: c(2) list_all2_conv_all_nth)
    then show ?thesis using l q(2) that len by (auto simp: canon_layer_def)
  qed
  have keys: "map sortable_key (map sortable_layer (ep_Layers q)) = map sortable_key ?S"
  proof (rule nth_equalityI)
    fix i assume "i < length (map sortable_key (map sortable_layer (ep_Layers q)))"
    then have i: "i < length ?S" using len by simp
    then show "map sortable_key (map sortable_layer (ep_Layers q)) ! i = map sortable_key ?S ! i"
      using nth [OF i] each(3) len by auto
  qed (use len in simp)
  have sorted: "sort_slice sortable_less (map sortable_layer (ep_Layers q)) = map sortable_layer (ep_Layers q)"
    by (rule sort_sortables_id [OF keys])
  let ?L = "map canon_layer (ep_Layers q)"
  have L: "map sl_layer (map sortable_layer (ep_Layers q)) = ?L" by (simp add: canon_layer_def)
  have same: "list_all2 same_layer (ep_Layers pol) ?L"
    unfolding list_all2_conv_all_nth using len nth each(1) by (fastforce simp: c(2) canon_layer_def [symmetric])
  have proj: "map projectPolicyLayer ?L = map projectPolicyLayer (ep_Layers pol)"
  proof (rule nth_equalityI)
    fix i assume "i < length (map projectPolicyLayer ?L)"
    then have i: "i < length ?S" using len by simp
    then show "map projectPolicyLayer ?L ! i = map projectPolicyLayer (ep_Layers pol) ! i"
      using nth [OF i] each(2) len by (auto simp: c(2) canon_layer_def [symmetric])
  qed (use len in \<open>simp add: c(2)\<close>)
  have "\<forall>m \<in> set (ep_Layers q). layer_times_ok (projectPolicyLayer (canon_layer m))"
  proof
    fix m assume "m \<in> set (ep_Layers q)"
    then obtain i where "i < length ?S" "m = ep_Layers q ! i" using len by (metis in_set_conv_nth)
    then show "layer_times_ok (projectPolicyLayer (canon_layer m))" using nth [of i] each(2) c(1) by auto
  qed
  then have "canonicalReviewPolicy q = Inr (\<lparr>ep_Layers = ?L, ep_RequireReleaseBaseline = ep_RequireReleaseBaseline q\<rparr>, proj, dig)"
    unfolding canonicalReviewPolicy_Inr Let_def sorted L using proj q(3) c by simp
  then show ?thesis using same by auto
qed

lemma canonical_projection_accepted:
  assumes "merged_ok p" and "canonicalReviewPolicy p = Inr (pol, proj, dig)"
  shows "\<exists>pol'. validateCanonicalPolicyProjection proj = Inr (pol', dig) \<and> list_all2 same_layer (ep_Layers pol) (ep_Layers pol')"
proof -
  note f = canonical_policy_fine [OF assms]
  have proj: "elems (pp_Layers proj) = map projectPolicyLayer (ep_Layers pol)"
    "pp_RequireReleaseBaseline proj = ep_RequireReleaseBaseline pol"
    using assms(2) by (auto simp: canonicalReviewPolicy_Inr Let_def)
  obtain ls where ls: "rebuildLayers 0 (map projectPolicyLayer (ep_Layers pol)) = Inr ls"
    "list_all2 same_layer (ep_Layers pol) ls" "\<forall>l \<in> set ls. rules_wf l"
    using rebuildLayers_project [of "ep_Layers pol" 0] f by (auto simp: merged_ok_def layers_fine_def layer_fine_def)
  let ?r = "\<lparr>ep_Layers = ls, ep_RequireReleaseBaseline = pp_RequireReleaseBaseline proj\<rparr>"
  have "list_ex pl_RequireReleaseBaseline (ep_Layers pol) = list_ex pl_RequireReleaseBaseline ls"
    using ls(2) by (induction rule: list_all2_induct) (auto simp: same_layer_def)
  then have "merged_ok ?r"
    using same_layers_fine [OF ls(2,3)] f(1) proj(2) by (simp add: merged_ok_def)
  then obtain q where q: "MergePolicy ls = Inr q" "list_all2 same_layer ls (ep_Layers q)" "\<forall>l \<in> set (ep_Layers q). rules_wf l"
    "ep_RequireReleaseBaseline q = ep_RequireReleaseBaseline pol"
    using MergePolicy_again [of ?r] proj(2) by auto
  have n: "normalizeEffectivePolicy ?r = Inr q" using q(1,4) proj(2) by (simp add: normalizeEffectivePolicy_def)
  obtain pol' where "canonicalReviewPolicy q = Inr (pol', proj, dig)" "list_all2 same_layer (ep_Layers pol) (ep_Layers pol')"
    using canonicalReviewPolicy_again [OF assms same_layers_trans [OF ls(2) q(2)] q(3,4)] by auto
  then show ?thesis using ls(1) n by (auto simp: validateCanonicalPolicyProjection_def proj)
qed

section \<open>From an evaluated review to release evidence\<close>

lemma sorted_verdict [simp]: "po_Verdict (sortPolicyResult r) = po_Verdict r"
  by (simp add: sortPolicyResult_def)

lemma evaluateComparison_fields [simp]:
  "cr_Kind (evaluateComparison k b c p t) = k" "cr_Baseline (evaluateComparison k b c p t) = snapshotRef b"
  "cr_Candidate (evaluateComparison k b c p t) = snapshotRef c"
  by (simp_all add: evaluateComparison_def Let_def)

lemma evaluateComparison_verdict:
  "po_Verdict (cr_Policy (evaluateComparison k b c p t)) =
     (if \<exists>f \<in> set (df_BreakingChanges (diffValidatedContractSnapshots b c)) \<union>
          set (df_AdditiveChanges (diffValidatedContractSnapshots b c)).
        \<exists>layer \<in> set (ep_Layers p). layer_blocks t f layer then VerdictFail else VerdictPass)"
  by (simp add: evaluateComparison_def Let_def EvaluateFindings_verdict bex_Un)

lemma comparison_verdict_cases:
  "po_Verdict (cr_Policy (evaluateComparison k b c p t)) = VerdictPass \<or>
   po_Verdict (cr_Policy (evaluateComparison k b c p t)) = VerdictFail"
  by (simp add: evaluateComparison_verdict)

lemma same_policy_compares_alike:
  "list_all2 same_layer (ep_Layers p) (ep_Layers q) \<Longrightarrow> evaluateComparison k b c p t = evaluateComparison k b c q t"
  by (simp add: evaluateComparison_def Let_def same_policy_evaluates_alike)

lemma EvaluateReview_Inr:
  assumes "EvaluateReview uc request = Inr report"
  obtains merged policy projection digest where
    "validateReviewRequest request = None"
    "snapshot_ok uc (rq_Target request)" "snapshot_ok uc (rq_Candidate request)"
    "\<And>release. rq_Release request = Some release \<Longrightarrow> snapshot_ok uc release"
    "MergePolicy (ep_Layers (rq_Policy request)) = Inr merged"
    "ep_RequireReleaseBaseline merged = ep_RequireReleaseBaseline (rq_Policy request)"
    "ep_RequireReleaseBaseline merged \<longrightarrow> rq_Release request \<noteq> None"
    "canonicalReviewPolicy merged = Inr (policy, projection, digest)"
    "rr_SchemaVersion report = ReviewSchemaVersion" "rr_EngineVersion report = rq_EngineVersion request"
    "rr_ContractID report = rq_ContractID request" "rr_EvaluatedAt report = time_UTC (rq_EvaluatedAt request)"
    "rr_EffectivePolicy report = projection" "rr_PolicyDigest report = digest"
    "rr_Comparisons report = Slice (evaluateComparison ComparisonPullRequest (rq_Target request) (rq_Candidate request)
         policy (time_UTC (rq_EvaluatedAt request)) #
       (case rq_Release request of None \<Rightarrow> []
        | Some r \<Rightarrow> [evaluateComparison ComparisonReleaseImpact r (rq_Candidate request) policy (time_UTC (rq_EvaluatedAt request))]))"
    "rr_Verdict report = (if \<exists>c \<in> set (elems (rr_Comparisons report)). po_Verdict (cr_Policy c) = VerdictFail
       then VerdictFail else VerdictPass)"
  using assms
  by (cases "rq_Release request")
    (auto simp: EvaluateReview_def validateReleaseSnapshot_def validateAndClone_Inr normalizeEffectivePolicy_def Let_def list_ex_iff
      split: prod.splits)

lemma snapshot_ref_ok: "snapshot_ok uc s \<Longrightarrow> validateSnapshotRef role (snapshotRef s) = None"
  by (simp add: snapshot_ok_def validateSnapshotRef_def snapshotRef_def)

lemma release_comparison_accepted:
  assumes "EvaluateReview uc request = Inr report" and "rq_Release request = Some release"
    and "\<forall>layer \<in> set (ep_Layers (rq_Policy request)). distinct (map_keys (pl_Rules layer))"
    and "elems (rr_Comparisons report) = [pullRequest, comparison]"
  shows "ValidateReleaseReviewReportAgainstSnapshots uc
    (report\<lparr>rr_Verdict := po_Verdict (cr_Policy comparison), rr_Comparisons := Slice [comparison]\<rparr>)
    (rq_ContractID request) release (rq_Candidate request) = None"
proof -
  obtain merged policy projection digest where e:
    "validateReviewRequest request = None" "snapshot_ok uc (rq_Candidate request)" "snapshot_ok uc release"
    "MergePolicy (ep_Layers (rq_Policy request)) = Inr merged"
    "canonicalReviewPolicy merged = Inr (policy, projection, digest)"
    "rr_SchemaVersion report = ReviewSchemaVersion" "rr_EngineVersion report = rq_EngineVersion request"
    "rr_ContractID report = rq_ContractID request" "rr_EvaluatedAt report = time_UTC (rq_EvaluatedAt request)"
    "rr_EffectivePolicy report = projection" "rr_PolicyDigest report = digest"
    "comparison = evaluateComparison ComparisonReleaseImpact release (rq_Candidate request) policy (time_UTC (rq_EvaluatedAt request))"
    by (rule EvaluateReview_Inr [OF assms(1)]) (use assms(2,4) in simp)
  have ids: "canonical (rq_ContractID request)" "cs_ContractID (rq_Candidate request) = rq_ContractID request"
    "cs_ContractID release = rq_ContractID request" "\<not> time_IsZero (rq_EvaluatedAt request)" "canonical (rq_EngineVersion request)"
    using e(1) assms(2) by (simp_all add: validateReviewRequest_def)
  have "merged_ok merged" using MergePolicy_fine [OF e(4)] assms(3) by (simp add: rules_wf_def)
  from canonical_projection_accepted [OF this e(5)] obtain policy' where
    p: "validateCanonicalPolicyProjection projection = Inr (policy', digest)"
      "list_all2 same_layer (ep_Layers policy) (ep_Layers policy')" by auto
  have dig: "isLowerSHA256 digest" using e(5) by (auto simp: canonicalReviewPolicy_Inr Let_def)
  have same: "evaluateComparison ComparisonReleaseImpact release (rq_Candidate request) policy' (time_UTC (rq_EvaluatedAt request)) = comparison"
    using same_policy_compares_alike [OF p(2)] e(12) by simp
  have v: "po_Verdict (cr_Policy comparison) = VerdictPass \<or> po_Verdict (cr_Policy comparison) = VerdictFail"
    unfolding e(12) by (rule comparison_verdict_cases)
  have refs: "cr_Kind comparison = ComparisonReleaseImpact" "cr_Baseline comparison = snapshotRef release"
    "cr_Candidate comparison = snapshotRef (rq_Candidate request)" using e(12) by simp_all
  show ?thesis
    using e(2,3) ids p(1) dig same v refs snapshot_ref_ok [OF e(2)] snapshot_ref_ok [OF e(3)]
    by (simp add: ValidateReleaseReviewReportAgainstSnapshots_def validateAndClone_Inr validateReleaseReviewReport_def
        validateExpectedSnapshotRef_def e(6-11))
qed

text \<open>
  C24: The release comparison of an evaluated review is valid release evidence. When a review with a
  release baseline is evaluated, the report reduced to its release comparison, with that
  comparison's verdict, passes the validation that rebuilds the whole comparison and the canonical
  policy from the independently persisted baseline and candidate snapshots.
\<close>

theorem evaluated_release_comparison_is_evidence:
  assumes "EvaluateReview uc request = Inr report" and "rq_Release request = Some release"
    and "\<forall>layer \<in> set (ep_Layers (rq_Policy request)). distinct (map_keys (pl_Rules layer))"
    and "elems (rr_Comparisons report) = [pullRequest, comparison]"
  shows "ValidateReleaseReviewReportAgainstSnapshots uc
    (report\<lparr>rr_Verdict := po_Verdict (cr_Policy comparison), rr_Comparisons := Slice [comparison]\<rparr>)
    (rq_ContractID request) release (rq_Candidate request) = None"
  using assms by (rule release_comparison_accepted)

text \<open>
  An evaluated review reports exactly the comparisons it was asked for: the pull-request
  comparison of target and candidate first, then the release comparison when a release baseline is
  given, which is mandatory when the policy requires one; every snapshot passed validation; and the
  review fails exactly when one of its comparisons fails.
\<close>

theorem review_fails_iff_a_comparison_fails:
  assumes "EvaluateReview uc request = Inr report"
  shows "map (\<lambda>c. (cr_Kind c, cr_Baseline c, cr_Candidate c)) (elems (rr_Comparisons report)) =
      (ComparisonPullRequest, snapshotRef (rq_Target request), snapshotRef (rq_Candidate request)) #
      (case rq_Release request of None \<Rightarrow> []
       | Some release \<Rightarrow> [(ComparisonReleaseImpact, snapshotRef release, snapshotRef (rq_Candidate request))]) \<and>
    (ep_RequireReleaseBaseline (rq_Policy request) \<longrightarrow> rq_Release request \<noteq> None) \<and>
    ValidateContractSnapshot uc (rq_Target request) = None \<and> ValidateContractSnapshot uc (rq_Candidate request) = None \<and>
    (rr_Verdict report = VerdictFail \<longleftrightarrow>
       (\<exists>c \<in> set (elems (rr_Comparisons report)). po_Verdict (cr_Policy c) = VerdictFail)) \<and>
    (rr_Verdict report = VerdictPass \<longleftrightarrow>
       (\<forall>c \<in> set (elems (rr_Comparisons report)). po_Verdict (cr_Policy c) = VerdictPass))"
proof -
  have d: "VerdictPass \<noteq> VerdictFail" by (simp add: VerdictPass_def VerdictFail_def)
  have vs: "\<forall>c \<in> set (elems (rr_Comparisons report)). po_Verdict (cr_Policy c) = VerdictPass \<or> po_Verdict (cr_Policy c) = VerdictFail"
    by (rule EvaluateReview_Inr [OF assms]) (auto simp: comparison_verdict_cases split: option.splits)
  show ?thesis
    by (rule EvaluateReview_Inr [OF assms]) (use d vs in \<open>auto split: option.split\<close>)
qed

section \<open>What accepted release evidence means\<close>

lemma validateCanonicalPolicyProjection_Inr:
  assumes "validateCanonicalPolicyProjection proj = Inr (policy, digest)"
  shows "elems (pp_Layers proj) = map projectPolicyLayer (ep_Layers policy)" "digest = sha256Hex (json_bytes (json_policy proj))"
  using assms by (auto simp: validateCanonicalPolicyProjection_def canonicalReviewPolicy_Inr Let_def split: prod.splits)

lemma single_case_Inr:
  "(case xs of [c] \<Rightarrow> f c | _ \<Rightarrow> Inl e) = Inr v \<longleftrightarrow> (\<exists>c. xs = [c] \<and> f c = Inr v)"
  by (auto split: list.splits)

lemma validateReleaseReviewReport_Inr:
  assumes "validateReleaseReviewReport report contractID baseline candidate = Inr (policy, comparison)"
  shows "validateCanonicalPolicyProjection (rr_EffectivePolicy report) = Inr (policy, rr_PolicyDigest report)"
    "elems (rr_Comparisons report) = [comparison]" "rr_ContractID report = contractID"
    "t_loc (rr_EvaluatedAt report) = LocUTC" "\<not> time_IsZero (rr_EvaluatedAt report)"
  using assms by (auto simp: validateReleaseReviewReport_def single_case_Inr split: prod.splits)

lemma accepted_report:
  assumes "ValidateReleaseReviewReportAgainstSnapshots uc report contractID baseline candidate = None"
  obtains policy where
    "snapshot_ok uc baseline" "snapshot_ok uc candidate"
    "cs_ContractID baseline = contractID" "cs_ContractID candidate = contractID"
    "elems (pp_Layers (rr_EffectivePolicy report)) = map projectPolicyLayer (ep_Layers policy)"
    "rr_PolicyDigest report = sha256Hex (json_bytes (json_policy (rr_EffectivePolicy report)))"
    "elems (rr_Comparisons report) =
       [evaluateComparison ComparisonReleaseImpact baseline candidate policy (rr_EvaluatedAt report)]"
    "rr_Verdict report = po_Verdict (cr_Policy (evaluateComparison ComparisonReleaseImpact baseline candidate policy (rr_EvaluatedAt report)))"
proof -
  obtain policy comparison where r: "snapshot_ok uc baseline" "snapshot_ok uc candidate"
    "cs_ContractID baseline = contractID" "cs_ContractID candidate = contractID"
    "validateReleaseReviewReport report contractID (snapshotRef baseline) (snapshotRef candidate) = Inr (policy, comparison)"
    "comparison = evaluateComparison ComparisonReleaseImpact baseline candidate policy (rr_EvaluatedAt report)"
    "rr_Verdict report = po_Verdict (cr_Policy comparison)"
    using assms by (auto simp: ValidateReleaseReviewReportAgainstSnapshots_def validateAndClone_Inr Let_def split: prod.splits)
  note v = validateReleaseReviewReport_Inr [OF r(5)]
  show thesis
    by (rule that [OF r(1-4) validateCanonicalPolicyProjection_Inr [OF v(1)]]) (use v(2) r(6,7) in simp_all)
qed

lemma projected_rule_blocks:
  assumes "\<lparr>rp_RuleID = ch_RuleID f, rp_Level = RuleLevelFail\<rparr> \<in> set (elems (lp_Rules (projectPolicyLayer layer)))"
    and "elems (lp_Exceptions (projectPolicyLayer layer)) = []"
  shows "layer_blocks t f layer"
proof -
  have "map_of (pl_Rules layer) (ch_RuleID f) = Some RuleLevelFail"
    using assms(1) by (auto simp: projectPolicyLayer_def rule_level_def RuleLevelFail_def split: option.splits)
  moreover have "pl_Exceptions layer = []" using assms(2) by (simp add: projectPolicyLayer_def)
  ultimately show ?thesis by (simp add: layer_blocks_def contributionLevel_def)
qed

text \<open>A comparison that does not fail under a policy that fails every breaking rule found nothing breaking.\<close>

lemma passing_comparison_compatible:
  assumes ok: "snapshot_ok uc baseline" "snapshot_ok uc candidate" and plain: "plain_surface baseline" "plain_surface candidate"
    and pass: "po_Verdict (cr_Policy (evaluateComparison kind baseline candidate policy t)) \<noteq> VerdictFail"
    and rules: "\<forall>rule \<in> set breaking_rules. \<exists>layer \<in> set (map projectPolicyLayer (ep_Layers policy)).
      elems (lp_Exceptions layer) = [] \<and> \<lparr>rp_RuleID = rule, rp_Level = RuleLevelFail\<rparr> \<in> set (elems (lp_Rules layer))"
  shows "surface_compatible baseline candidate"
proof -
  have "False" if f: "f \<in> set (df_BreakingChanges (diffValidatedContractSnapshots baseline candidate))" for f
  proof -
    have "ch_RuleID f \<in> set breaking_rules" using breaking_changes_ok [OF f] by (simp add: finding_ok_def)
    then obtain layer where "layer \<in> set (ep_Layers policy)" "layer_blocks t f layer"
      using rules projected_rule_blocks by fastforce
    then have "po_Verdict (cr_Policy (evaluateComparison kind baseline candidate policy t)) = VerdictFail"
      using f by (auto simp: evaluateComparison_verdict)
    then show False using pass by simp
  qed
  then have "df_BreakingChanges (diffValidatedContractSnapshots baseline candidate) = []"
    by (cases "df_BreakingChanges (diffValidatedContractSnapshots baseline candidate)") auto
  then show ?thesis using breaking_Nil_iff [OF ok plain] by simp
qed

lemma accepted_pass_compatible:
  assumes "ValidateReleaseReviewReportAgainstSnapshots uc report contractID baseline candidate = None"
    and "rr_Verdict report = VerdictPass"
    and "plain_surface baseline" and "plain_surface candidate"
    and "\<forall>rule \<in> set breaking_rules. \<exists>layer \<in> set (elems (pp_Layers (rr_EffectivePolicy report))).
      elems (lp_Exceptions layer) = [] \<and> \<lparr>rp_RuleID = rule, rp_Level = RuleLevelFail\<rparr> \<in> set (elems (lp_Rules layer))"
  shows "surface_compatible baseline candidate"
proof (rule accepted_report [OF assms(1)])
  fix policy
  assume ok: "snapshot_ok uc baseline" "snapshot_ok uc candidate"
    and layers: "elems (pp_Layers (rr_EffectivePolicy report)) = map projectPolicyLayer (ep_Layers policy)"
    and v: "rr_Verdict report = po_Verdict (cr_Policy (evaluateComparison ComparisonReleaseImpact baseline candidate policy (rr_EvaluatedAt report)))"
  have "po_Verdict (cr_Policy (evaluateComparison ComparisonReleaseImpact baseline candidate policy (rr_EvaluatedAt report))) \<noteq> VerdictFail"
    unfolding v [symmetric] assms(2) by (simp add: VerdictPass_def VerdictFail_def)
  then show ?thesis using passing_comparison_compatible [OF ok assms(3,4)] assms(5) unfolding layers by blast
qed

text \<open>
  C23: A passing report that release validation accepts is a proof of compatibility. If every breaking
  rule is at level fail in some layer of the report's own policy that grants no exceptions, and both
  snapshots are plain, that is no path of an operation contains a space and no location of a parameter a
  colon, the candidate keeps every operation, parameter, body, status and schema promise of the baseline.
  The condition on the snapshots is needed: see \<open>ambiguous_key_hides_removal\<close>.
\<close>

theorem accepted_pass_means_compatible:
  assumes "ValidateReleaseReviewReportAgainstSnapshots uc report contractID baseline candidate = None"
    and "rr_Verdict report = VerdictPass"
    and "plain_surface baseline" and "plain_surface candidate"
    and "\<forall>rule \<in> set breaking_rules. \<exists>layer \<in> set (elems (pp_Layers (rr_EffectivePolicy report))).
      elems (lp_Exceptions layer) = [] \<and> \<lparr>rp_RuleID = rule, rp_Level = RuleLevelFail\<rparr> \<in> set (elems (lp_Rules layer))"
  shows "surface_compatible baseline candidate"
  using assms by (rule accepted_pass_compatible)

section \<open>Witnesses\<close>

text \<open>A review of a candidate against the released snapshot, and one where it adds \<open>POST /pets\<close>.\<close>

definition sample_request_of :: "contract_snapshot \<Rightarrow> contract_snapshot \<Rightarrow> review_request" where
  "sample_request_of released candidate = \<lparr>rq_ContractID = ''petstore'', rq_Target = released, rq_Candidate = candidate,
     rq_Release = Some released,
     rq_Policy = \<lparr>ep_Layers = [default_layer ''local''], ep_RequireReleaseBaseline = False\<rparr>,
     rq_EvaluatedAt = unix_epoch, rq_EngineVersion = ''v1''\<rparr>"

abbreviation sample_request :: review_request where
  "sample_request \<equiv> sample_request_of plain_candidate plain_baseline"

abbreviation default_repository :: policy_layer where
  "default_repository \<equiv> (default_layer ''local'')\<lparr>pl_Rules := repositoryDefaultRules\<rparr>"

lemma sample_contract_ids: "cs_ContractID plain_baseline = ''petstore''" "cs_ContractID plain_candidate = ''petstore''"
  by (simp_all add: plain_baseline_def plain_candidate_def verbs_snapshot_def NewContractSnapshot_def Let_def)

lemma sequence_Inr: "bind_res (Inr x) f = f x" "wrap_res w (Inr x) = Inr x"
  by (simp_all add: bind_res_def wrap_res_def)

lemma canonical_v1: "canonical ''v1''" by (rule canonical_ascii) simp_all

lemma sample_policy:
  "\<exists>proj dig. canonicalReviewPolicy (default_policy ''local'') =
     Inr (\<lparr>ep_Layers = [canon_layer default_repository], ep_RequireReleaseBaseline = False\<rparr>, proj, dig)"
proof -
  have "layer_times_ok (projectPolicyLayer (canon_layer default_repository))"
    by (simp add: layer_times_ok_def projectPolicyLayer_def list_all_iff) (simp add: default_layer_def)
  then show ?thesis
    by (simp add: canonicalReviewPolicy_Inr Let_def default_policy_def sort_slice_def canon_layer_def)
qed

lemma sample_review_of:
  assumes "snapshot_ok ascii_case released" and "snapshot_ok ascii_case candidate"
    and "cs_ContractID released = ''petstore''" and "cs_ContractID candidate = ''petstore''"
  shows "\<exists>report pullRequest. EvaluateReview ascii_case (sample_request_of released candidate) = Inr report \<and>
     elems (rr_Comparisons report) = [pullRequest,
       evaluateComparison ComparisonReleaseImpact released candidate
         \<lparr>ep_Layers = [canon_layer default_repository], ep_RequireReleaseBaseline = False\<rparr> unix_epoch] \<and>
     elems (pp_Layers (rr_EffectivePolicy report)) = [projectPolicyLayer (canon_layer default_repository)] \<and>
     pullRequest = evaluateComparison ComparisonPullRequest released candidate
       \<lparr>ep_Layers = [canon_layer default_repository], ep_RequireReleaseBaseline = False\<rparr> unix_epoch"
proof -
  let ?request = "sample_request_of released candidate"
  obtain proj dig where c: "canonicalReviewPolicy (default_policy ''local'') =
     Inr (\<lparr>ep_Layers = [canon_layer default_repository], ep_RequireReleaseBaseline = False\<rparr>, proj, dig)"
    using sample_policy by blast
  have proj: "elems (pp_Layers proj) = [projectPolicyLayer (canon_layer default_repository)]"
    using c by (auto simp: canonicalReviewPolicy_Inr Let_def)
  have u: "time_UTC unix_epoch = unix_epoch" by (simp add: unix_epoch_def time_UTC_def)
  have f: "rq_Target ?request = released" "rq_Candidate ?request = candidate"
    "rq_Release ?request = Some released" "rq_EvaluatedAt ?request = unix_epoch"
    by (simp_all add: sample_request_of_def)
  have clone: "validateAndCloneContractSnapshot ascii_case released = Inr released"
    "validateAndCloneContractSnapshot ascii_case candidate = Inr candidate"
    by (simp_all add: validateAndClone_Inr assms)
  have v: "validateReviewRequest ?request = None"
    using sample_ids(1) canonical_v1 by (simp add: validateReviewRequest_def sample_request_of_def assms
        time_IsZero_def unix_epoch_def)
  have n: "normalizeEffectivePolicy (rq_Policy ?request) = Inr (default_policy ''local'')"
    using MergePolicy_default [OF canonical_local] by (simp add: normalizeEffectivePolicy_def sample_request_of_def default_policy_def)
  have "\<exists>report. EvaluateReview ascii_case ?request = Inr report \<and> rr_EffectivePolicy report = proj \<and>
      elems (rr_Comparisons report) = [evaluateComparison ComparisonPullRequest released candidate
         \<lparr>ep_Layers = [canon_layer default_repository], ep_RequireReleaseBaseline = False\<rparr> unix_epoch,
       evaluateComparison ComparisonReleaseImpact released candidate
         \<lparr>ep_Layers = [canon_layer default_repository], ep_RequireReleaseBaseline = False\<rparr> unix_epoch]"
    using c by (simp add: EvaluateReview_def validateReleaseSnapshot_def v n f clone sequence_Inr Let_def u
        default_policy_def split del: if_split del: bind_res_Inr wrap_res_Inr require_Inr if_Inl_Inr)
  then show ?thesis using proj by blast
qed

lemmas sample_review = sample_review_of [OF plain_props(2,1) sample_contract_ids(2,1)]

theorem evaluated_release_comparison_is_evidence_witness:
  "\<exists>report. ValidateReleaseReviewReportAgainstSnapshots ascii_case report ''petstore'' plain_candidate plain_baseline = None"
proof -
  obtain report pullRequest comparison where "EvaluateReview ascii_case sample_request = Inr report"
    "elems (rr_Comparisons report) = [pullRequest, comparison]"
    using sample_review by blast
  then show ?thesis
    using evaluated_release_comparison_is_evidence [of ascii_case sample_request report plain_candidate pullRequest comparison]
    by (auto simp: sample_request_of_def default_layer_def map_keys_def)
qed

theorem review_fails_iff_a_comparison_fails_witness:
  "\<exists>report. EvaluateReview ascii_case sample_request = Inr report \<and> length (elems (rr_Comparisons report)) = 2"
proof -
  obtain report where r: "EvaluateReview ascii_case sample_request = Inr report" using sample_review by blast
  have "map cr_Kind (elems (rr_Comparisons report)) = [ComparisonPullRequest, ComparisonReleaseImpact]"
    using review_fails_iff_a_comparison_fails [OF r]
    by (auto simp: sample_request_of_def)
  then have "length (map cr_Kind (elems (rr_Comparisons report))) = 2" by simp
  with r show ?thesis by auto
qed

lemma default_repository_rules:
  "r \<in> set breaking_rules \<Longrightarrow>
     \<lparr>rp_RuleID = r, rp_Level = RuleLevelFail\<rparr> \<in> set (elems (lp_Rules (projectPolicyLayer (canon_layer default_repository))))"
proof -
  assume r: "r \<in> set breaking_rules"
  have m: "map_of (pl_Rules (canon_layer default_repository)) = map_of supportedRuleRegistry"
    by (simp add: map_from_fst_snd distinct_default_rules default_rules_lookup)
  have "r \<in> set (sortedRuleIDs (pl_Rules (canon_layer default_repository)))"
    unfolding sortedRuleIDs_def map_keys_def set_sort_slice set_map dom_map_of_conv_image_fst [symmetric] m
    using default_level(1) [OF r] by auto
  moreover have "rule_level (pl_Rules (canon_layer default_repository)) r = RuleLevelFail"
    unfolding rule_level_def m using default_level(1) [OF r] by simp
  ultimately show ?thesis by (auto simp: projectPolicyLayer_def)
qed

lemma sample_compatible: "surface_compatible plain_candidate plain_baseline"
  by (simp add: surface_compatible_def plain_props verb_operation_def operation_compatible_def)
    (simp add: plain_candidate_def plain_baseline_def verbs_snapshot_def NewContractSnapshot_def Let_def
      normalizeContractSchemas_def verbs_index_def empty_index_def)

lemma sample_comparison_passes:
  "po_Verdict (cr_Policy (evaluateComparison kind plain_candidate plain_baseline
     \<lparr>ep_Layers = [canon_layer default_repository], ep_RequireReleaseBaseline = b\<rparr> unix_epoch)) = VerdictPass"
proof -
  have "df_BreakingChanges (diffValidatedContractSnapshots plain_candidate plain_baseline) = []"
    using sample_compatible breaking_Nil_iff [OF plain_props(2,1,6,5)] by simp
  moreover have "\<not> layer_blocks unix_epoch f (canon_layer default_repository)"
    if "f \<in> set (df_AdditiveChanges (diffValidatedContractSnapshots plain_candidate plain_baseline))" for f
    using additive_changes_ok [OF that] default_level(2)
    by (auto simp: layer_blocks_def contributionLevel_def map_from_fst_snd distinct_default_rules default_rules_lookup finding_ok_def)
  ultimately show ?thesis by (auto simp: evaluateComparison_verdict)
qed

lemma sample_layer_exceptions: "elems (lp_Exceptions (projectPolicyLayer (canon_layer default_repository))) = []"
  by (simp add: projectPolicyLayer_def flip: set_empty) (simp add: default_layer_def)

theorem accepted_pass_means_compatible_witness:
  "surface_compatible plain_candidate plain_baseline \<and>
   (\<exists>report. ValidateReleaseReviewReportAgainstSnapshots ascii_case report ''petstore'' plain_candidate plain_baseline = None \<and>
      rr_Verdict report = VerdictPass)"
proof -
  let ?policy = "\<lparr>ep_Layers = [canon_layer default_repository], ep_RequireReleaseBaseline = False\<rparr>"
  let ?c = "evaluateComparison ComparisonReleaseImpact plain_candidate plain_baseline ?policy unix_epoch"
  obtain report pullRequest where r: "EvaluateReview ascii_case sample_request = Inr report"
    "elems (rr_Comparisons report) = [pullRequest, ?c]"
    "elems (pp_Layers (rr_EffectivePolicy report)) = [projectPolicyLayer (canon_layer default_repository)]"
    using sample_review by blast
  let ?report = "report\<lparr>rr_Verdict := po_Verdict (cr_Policy ?c), rr_Comparisons := Slice [?c]\<rparr>"
  have ok: "ValidateReleaseReviewReportAgainstSnapshots ascii_case ?report ''petstore'' plain_candidate plain_baseline = None"
    using release_comparison_accepted [OF r(1) _ _ r(2), of plain_candidate]
    by (simp add: sample_request_of_def default_layer_def map_keys_def)
  have pass: "po_Verdict (cr_Policy ?c) = VerdictPass" by (rule sample_comparison_passes)
  note sample_layer_exceptions
  then have "surface_compatible plain_candidate plain_baseline"
    using accepted_pass_means_compatible [OF ok _ plain_props(6,5)] pass r(3) default_repository_rules by simp
  then show ?thesis using ok pass by auto
qed

end
