(* ===== verification/Release_Service.thy ===== *)
theory Release_Service
  imports Operational_Store Review_Evidence
begin

text \<open>
  The release service (\<open>application/release.go\<close>, \<open>application/errors.go\<close>): a command selects
  persisted evidence, the service binds that evidence to the persisted revisions and snapshots, and
  one transaction applies the resulting decision to the release track and writes its effects. The
  ports are parameters: the readers are functions, the transactional store is a record of its
  operations, the unit of work runs a callback on a store.
\<close>

section \<open>Errors of the application layer\<close>

definition ErrorDependency :: string where "ErrorDependency = ''dependency''"
definition ErrorValidation :: string where "ErrorValidation = ''validation''"
definition ErrorIntegrity :: string where "ErrorIntegrity = ''integrity''"
definition ErrorTransaction :: string where "ErrorTransaction = ''transaction''"

datatype app_error = AppError (ek: string) (eop: string) (eerr: go_error)

definition wrapError :: "string \<Rightarrow> string \<Rightarrow> go_error \<Rightarrow> app_error" where
  "wrapError kind operation e = AppError kind operation e"

definition validationError :: "string \<Rightarrow> go_error \<Rightarrow> app_error" where
  "validationError operation e = wrapError ErrorValidation operation e"

section \<open>Commands\<close>

record release_command =
  rc_ContractID :: string
  rc_TrackID :: string
  rc_RevisionID :: string
  rc_Accepted :: bool
  rc_Review :: contract_review
  rc_SyncRecord :: sync_record
  rc_PublicPath :: string
  rc_ActorID :: string

definition ReleaseReviewMaxFutureSkew :: int where
  "ReleaseReviewMaxFutureSkew = 5 * 60 * 1000000000"

definition validateReleaseCommand :: "release_command \<Rightarrow> err" where
  "validateReleaseCommand command = first_error
     [check_identities
        [(''contract id'', rc_ContractID command, False), (''track id'', rc_TrackID command, False),
         (''revision id'', rc_RevisionID command, False), (''review id'', cv_ID (rc_Review command), False),
         (''sync record id'', sr_ID (rc_SyncRecord command), False), (''actor id'', rc_ActorID command, True)],
      ValidateCanonicalPublicPath ''public path'' (rc_PublicPath command) True]"

definition validateSelectedReleaseEvidence :: "release_command \<Rightarrow> release_evidence \<Rightarrow> err" where
  "validateSelectedReleaseEvidence command evidence =
     (let authorization = ev_Authorization evidence; review = ev_Review evidence; syncRecord = ev_SyncRecord evidence in first_error
       [wrap_err (Wrapf ''validate persisted release authorization: %w'' []) (ValidateReleaseAuthorization authorization),
        fail_if (ra_ContractID authorization \<noteq> rc_ContractID command \<or> ra_TrackID authorization \<noteq> rc_TrackID command \<or>
            ra_ReviewID authorization \<noteq> cv_ID (rc_Review command) \<or> ra_SyncRecordID authorization \<noteq> sr_ID (rc_SyncRecord command) \<or>
            ra_CandidateRevisionID authorization \<noteq> rc_RevisionID command)
          (Errorf ''persisted release authorization does not match the selected command identity'' []),
        fail_if (cv_ID review \<noteq> ra_ReviewID authorization \<or> cv_ContractID review \<noteq> ra_ContractID authorization \<or>
            cv_BaselineRevisionID review \<noteq> ra_BaselineRevisionID authorization \<or>
            cv_CandidateRevisionID review \<noteq> ra_CandidateRevisionID authorization \<or>
            rr_PolicyDigest (cv_Report review) \<noteq> ra_PolicyDigest authorization)
          (Errorf ''persisted review does not match its track authorization'' []),
        fail_if (sr_ID syncRecord \<noteq> ra_SyncRecordID authorization \<or> sr_ProjectID syncRecord \<noteq> ra_ContractID authorization \<or>
            sr_SourceID syncRecord \<noteq> ra_SourceID authorization \<or> sr_RevisionID syncRecord \<noteq> ra_CandidateRevisionID authorization \<or>
            sr_Ref syncRecord \<noteq> ra_BoundRef authorization)
          (Errorf ''persisted sync does not match its track authorization'' []),
        fail_if (rc_Accepted command \<and> rr_Verdict (cv_Report review) \<noteq> VerdictPass)
          (Errorf ''accepted release requires a passing persisted review'' []),
        fail_if (rc_Accepted command \<and> sr_Result syncRecord \<noteq> SyncResultSuccess)
          (Errorf ''accepted release requires a successful persisted sync'' [])])"

definition validateReleaseRevisionIdentity :: "contract_revision \<Rightarrow> string \<Rightarrow> string \<Rightarrow> string \<Rightarrow> string \<Rightarrow> err" where
  "validateReleaseRevisionIdentity revision contractID revisionID sourceID boundRef =
     (let refMatches = (vr_Ref revision = boundRef \<or> (vr_CommitSHA revision \<noteq> [] \<and> vr_Ref revision = vr_CommitSHA revision)) in first_error
       [fail_if (vr_ContractID revision \<noteq> contractID \<or> vr_ID revision \<noteq> revisionID)
          (Errorf ''loaded revision identity does not match its authorized identity'' []),
        fail_if (sourceID \<noteq> [] \<and> vr_SourceID revision \<noteq> sourceID)
          (Errorf ''loaded revision source does not match its authorized source'' []),
        fail_if (boundRef \<noteq> [] \<and> \<not> refMatches) (Errorf ''loaded revision ref does not match its authorized ref'' [])])"

definition validateReleaseAuthorizationForTrack :: "release_authorization \<Rightarrow> release_track \<Rightarrow> err" where
  "validateReleaseAuthorizationForTrack authorization track = first_error
     [fail_if (rt_ContractID track \<noteq> ra_ContractID authorization \<or> rt_ID track \<noteq> ra_TrackID authorization)
        (Errorf ''release authorization belongs to another track'' []),
      fail_if (rt_BoundRef track \<noteq> ra_BoundRef authorization)
        (Errorf ''release authorization ref does not match the persisted track'' [])]"

definition revisionReviewSnapshot :: "unicode_case \<Rightarrow> contract_revision \<Rightarrow> contract_snapshot result" where
  "revisionReviewSnapshot uc revision =
     (case vr_ReviewSnapshot revision of
        None \<Rightarrow> Inl (Errorf ''revision %q has no canonical review snapshot'' [vr_ID revision])
      | Some s \<Rightarrow> require (first_error
          [wrap_err (Wrapf ''revision %q canonical review snapshot: %w'' [vr_ID revision]) (ValidateContractSnapshot uc s),
           fail_if (cs_ContractID s \<noteq> vr_ContractID revision \<or> cs_RevisionID s \<noteq> vr_ID revision)
             (Errorf ''revision %q canonical review snapshot identity does not match revision'' [vr_ID revision]),
           fail_if (cs_SpecDigest s \<noteq> vr_SpecDigest revision \<or> cs_ContractDigest s \<noteq> vr_ContractDigest revision)
             (Errorf ''revision %q digests do not match its canonical review snapshot'' [vr_ID revision])])
          (Inr s))"

definition validateContractReviewSnapshots :: "contract_review \<Rightarrow> contract_snapshot \<Rightarrow> contract_snapshot \<Rightarrow> err" where
  "validateContractReviewSnapshots review baseline candidate = first_error
     [fail_if (cv_BaselineRevisionID review \<noteq> cs_RevisionID baseline \<or> cv_BaselineSpecDigest review \<noteq> cs_SpecDigest baseline \<or>
          cv_BaselineContractDigest review \<noteq> cs_ContractDigest baseline)
        (Errorf ''review baseline evidence does not match persisted canonical snapshot'' []),
      fail_if (cv_CandidateRevisionID review \<noteq> cs_RevisionID candidate \<or> cv_CandidateSpecDigest review \<noteq> cs_SpecDigest candidate \<or>
          cv_CandidateContractDigest review \<noteq> cs_ContractDigest candidate)
        (Errorf ''review candidate evidence does not match persisted canonical snapshot'' [])]"

definition releaseDecision :: "contract_review \<Rightarrow> bool \<Rightarrow> release_decision result" where
  "releaseDecision review accepted =
     bind_res (CanonicalReviewJSON (cv_Report review)) (\<lambda>bytes.
       Inr \<lparr>rd_RevisionID = cv_CandidateRevisionID review, rd_ReviewID = cv_ID review, rd_ReviewDigest = sha256Hex bytes,
            rd_Verdict = rr_Verdict (cv_Report review), rd_Accepted = accepted,
            rd_EvaluatedAt = rr_EvaluatedAt (cv_Report review)\<rparr>)"

definition validateAppliedExceptionsAtReleaseTime :: "review_report \<Rightarrow> gotime \<Rightarrow> err" where
  "validateAppliedExceptionsAtReleaseTime report now =
     each_index (\<lambda>comparisonIndex comparison.
       each_index (\<lambda>exceptionIndex exception.
         fail_if (\<not> time_Before now (pe_ExpiresAt exception))
           (Errorf ''applied policy exception %d in comparison %d is expired at trusted release time''
             [itoa exceptionIndex, itoa comparisonIndex]))
         (elems (po_AppliedExceptions (cr_Policy comparison)))) (elems (rr_Comparisons report))"

definition releaseEvidenceID :: "release_authorization \<Rightarrow> bool \<Rightarrow> 64 word \<Rightarrow> string" where
  "releaseEvidenceID authorization accepted generation =
     ''audit-'' @ take 24 (sha256Hex (ra_ContractID authorization @ nul @ ra_TrackID authorization @ nul @
       ra_CandidateRevisionID authorization @ nul @ ra_ReviewID authorization @ nul @ itoa (unat generation) @ nul @
       bool_text accepted))"

section \<open>The transaction\<close>

text \<open>The operations of the transactional store the callback uses (\<open>application/port/operational.go\<close>).\<close>

record 't store_ops =
  so_ReleaseTrack :: "string \<Rightarrow> string \<Rightarrow> 't \<Rightarrow> release_track result"
  so_SaveReleaseTrack :: "64 word \<Rightarrow> release_track \<Rightarrow> 't \<Rightarrow> 't result"
  so_SavePublication :: "publication \<Rightarrow> 't \<Rightarrow> 't result"
  so_AppendAuditEvent :: "audit_event \<Rightarrow> 't \<Rightarrow> 't result"
  so_Enqueue :: "outbox_message \<Rightarrow> 't \<Rightarrow> 't result"

definition release_publication :: "release_authorization \<Rightarrow> publication" where
  "release_publication authorization = \<lparr>pub_ProjectID = ra_ContractID authorization,
     pub_RevisionID = ra_CandidateRevisionID authorization, pub_Public = True, pub_Path = ra_PublicPath authorization,
     pub_Hostname = []\<rparr>"

definition release_event :: "release_authorization \<Rightarrow> string \<Rightarrow> string \<Rightarrow> gotime \<Rightarrow> audit_event" where
  "release_event authorization eventID actorID now = \<lparr>ae_ID = eventID, ae_ContractID = ra_ContractID authorization,
     ae_TrackID = ra_TrackID authorization, ae_RevisionID = ra_CandidateRevisionID authorization,
     ae_Kind = ''release.track.considered'', ae_ActorID = actorID, ae_OccurredAt = now\<rparr>"

definition release_message :: "release_authorization \<Rightarrow> string \<Rightarrow> gotime \<Rightarrow> outbox_message" where
  "release_message authorization eventID now = \<lparr>om_ID = ''outbox-'' @ trim_prefix ''audit-'' eventID,
     om_ContractID = ra_ContractID authorization, om_TrackID = ra_TrackID authorization,
     om_RevisionID = ra_CandidateRevisionID authorization, om_Topic = ''release.track.updated'', om_Payload = NilSlice,
     om_CreatedAt = now\<rparr>"

definition baselineMismatch :: "release_track \<Rightarrow> release_authorization \<Rightarrow> go_error" where
  "baselineMismatch track authorization =
     Errorf ''release track baseline %q does not match authorized review baseline %q''
       [rt_CurrentRevisionID track, ra_BaselineRevisionID authorization]"

text \<open>The effects of a changed track; an error abandons the transaction.\<close>

definition saveReleaseEffects ::
    "'t store_ops \<Rightarrow> release_command \<Rightarrow> release_authorization \<Rightarrow> gotime \<Rightarrow> release_track \<Rightarrow> release_track \<Rightarrow> 't \<Rightarrow> 't result" where
  "saveReleaseEffects ops command authorization now track next t =
     bind_res (wrap_res (Wrapf ''save release track: %w'' []) (so_SaveReleaseTrack ops (rt_Generation track) next t)) (\<lambda>t.
     bind_res (if rc_Accepted command \<and> rt_CurrentRevisionID next = ra_CandidateRevisionID authorization
       then wrap_res (Wrapf ''save publication: %w'' []) (so_SavePublication ops (release_publication authorization) t)
       else Inr t) (\<lambda>t.
     let eventID = releaseEvidenceID authorization (rc_Accepted command) (rt_Generation next) in
     bind_res (wrap_res (Wrapf ''append audit event: %w'' [])
       (so_AppendAuditEvent ops (release_event authorization eventID (rc_ActorID command) now) t)) (\<lambda>t.
     wrap_res (Wrapf ''enqueue release event: %w'' []) (so_Enqueue ops (release_message authorization eventID now) t))))"

text \<open>The callback: an error carries whether it is a failure of temporal integrity.\<close>

definition releaseTransition ::
    "'t store_ops \<Rightarrow> gotime \<Rightarrow> release_command \<Rightarrow> release_evidence \<Rightarrow> release_decision \<Rightarrow> 't \<Rightarrow>
     (bool \<times> go_error) + release_track \<times> 't" where
  "releaseTransition ops clock command evidence decision t =
     (let authorization = ev_Authorization evidence in
      case so_ReleaseTrack ops (rc_ContractID command) (rc_TrackID command) t of
        Inl e \<Rightarrow> Inl (False, Wrapf ''load release track: %w'' [] e)
      | Inr track \<Rightarrow>
        (case first_error
           [wrap_err (Wrapf ''validate release track: %w'' []) (ValidateReleaseTrack track),
            validateReleaseAuthorizationForTrack authorization track,
            fail_if (rt_CandidateRevisionID track \<noteq> [] \<and> rt_CurrentRevisionID track \<noteq> ra_BaselineRevisionID authorization)
              (baselineMismatch track authorization)] of
           Some e \<Rightarrow> Inl (False, e)
         | None \<Rightarrow>
           if rt_LastDecision track = Some decision then Inr (CloneReleaseTrack track, t)
           else (let now = time_UTC clock in
             case first_error
               [fail_if (time_IsZero now) (Errorf ''trusted release time is required'' []),
                fail_if (time_After (rr_EvaluatedAt (cv_Report (ev_Review evidence))) (time_Add now ReleaseReviewMaxFutureSkew))
                  (Errorf ''release review evaluation time exceeds trusted clock skew'' []),
                validateAppliedExceptionsAtReleaseTime (cv_Report (ev_Review evidence)) now] of
               Some e \<Rightarrow> Inl (True, e)
             | None \<Rightarrow>
               (case ConsiderReleaseDecision track decision of
                  Inl e \<Rightarrow> Inl (False, Wrapf ''apply release transition: %w'' [] e)
                | Inr (next, changed) \<Rightarrow>
                  if \<not> changed then Inr (next, t)
                  else if rt_CurrentRevisionID track \<noteq> ra_BaselineRevisionID authorization
                    then Inl (False, baselineMismatch track authorization)
                  else (case saveReleaseEffects ops command authorization now track next t of
                      Inl e \<Rightarrow> Inl (False, e)
                    | Inr t \<Rightarrow> Inr (next, t))))))"

section \<open>Coordination\<close>

text \<open>The persisted evidence bound to a command: the decision, or an integrity error.\<close>

definition boundDecision ::
    "unicode_case \<Rightarrow> (string \<Rightarrow> string \<Rightarrow> contract_revision result) \<Rightarrow> release_command \<Rightarrow> release_evidence \<Rightarrow> release_decision result" where
  "boundDecision uc revisions command evidence =
     (let authorization = ev_Authorization evidence in
      require (validateSelectedReleaseEvidence command evidence)
      (bind_res (wrap_res (Wrapf ''load release review baseline: %w'' [])
         (revisions (rc_ContractID command) (ra_BaselineRevisionID authorization))) (\<lambda>baselineRevision.
       bind_res (wrap_res (Wrapf ''load release review candidate: %w'' [])
         (revisions (rc_ContractID command) (ra_CandidateRevisionID authorization))) (\<lambda>candidateRevision.
       require (first_error
         [wrap_err (Wrapf ''bind release baseline revision: %w'' [])
            (validateReleaseRevisionIdentity baselineRevision (ra_ContractID authorization) (ra_BaselineRevisionID authorization) [] []),
          wrap_err (Wrapf ''bind release candidate revision: %w'' [])
            (validateReleaseRevisionIdentity candidateRevision (ra_ContractID authorization) (ra_CandidateRevisionID authorization)
              (ra_SourceID authorization) (ra_BoundRef authorization)),
          fail_if (vr_CommitSHA candidateRevision \<noteq> sr_CommitSHA (ev_SyncRecord evidence))
            (Errorf ''bind release candidate revision: loaded revision commit does not match its authorized sync'' [])])
       (bind_res (wrap_res (Wrapf ''validate release review baseline: %w'' []) (revisionReviewSnapshot uc baselineRevision)) (\<lambda>baselineSnapshot.
        bind_res (wrap_res (Wrapf ''validate release review candidate: %w'' []) (revisionReviewSnapshot uc candidateRevision)) (\<lambda>candidateSnapshot.
        require (first_error
          [wrap_err (Wrapf ''bind release review to persisted revisions: %w'' [])
             (validateContractReviewSnapshots (ev_Review evidence) baselineSnapshot candidateSnapshot),
           wrap_err (Wrapf ''validate release review against persisted revisions: %w'' [])
             (ValidateReleaseReviewReportAgainstSnapshots uc (cv_Report (ev_Review evidence)) (rc_ContractID command)
                baselineSnapshot candidateSnapshot)])
        (wrap_res (Wrapf ''identify release decision: %w'' []) (releaseDecision (ev_Review evidence) (rc_Accepted command))))))))))"

definition Coordinate ::
    "unicode_case \<Rightarrow> (string \<Rightarrow> string \<Rightarrow> contract_revision result) \<Rightarrow>
     (string \<Rightarrow> string \<Rightarrow> string \<Rightarrow> release_evidence result) \<Rightarrow>
     (('t \<Rightarrow> (bool \<times> go_error) + release_track \<times> 't) \<Rightarrow> 's \<Rightarrow> 's \<times> ((bool \<times> go_error) + release_track)) \<Rightarrow>
     't store_ops \<Rightarrow> gotime \<Rightarrow> release_command \<Rightarrow> 's \<Rightarrow> 's \<times> (app_error + release_track)" where
  "Coordinate uc revisions evidenceReader within ops clock command s =
     (case validateReleaseCommand command of
        Some e \<Rightarrow> (s, Inl (validationError ''coordinate release'' e))
      | None \<Rightarrow>
        (case evidenceReader (rc_ContractID command) (rc_TrackID command) (cv_ID (rc_Review command)) of
           Inl e \<Rightarrow> (s, Inl (wrapError ErrorIntegrity ''coordinate release'' (Wrapf ''load persisted release evidence: %w'' [] e)))
         | Inr evidence \<Rightarrow>
           (case boundDecision uc revisions command evidence of
              Inl e \<Rightarrow> (s, Inl (wrapError ErrorIntegrity ''coordinate release'' e))
            | Inr decision \<Rightarrow>
              (case within (releaseTransition ops clock command evidence decision) s of
                 (s', Inl (temporal, e)) \<Rightarrow>
                   (s', Inl (wrapError (if temporal then ErrorIntegrity else ErrorTransaction) ''coordinate release'' e))
               | (s', Inr next) \<Rightarrow> (s', Inr next)))))"

end
