(* ===== verification/Store_Readers.thy ===== *)
theory Store_Readers
  imports Store_History Release_Service
begin

text \<open>
  Reading the file store (\<open>internal/adapters/store/fs.go\<close>) and the two services that serve what it
  holds: the public resolver (\<open>application/publication.go\<close>) and the revision service
  (\<open>application/revision.go\<close>). A reader first waits for admission and loads the operational state;
  \<open>admission\<close> and \<open>loaded\<close> are the outcomes of those calls. Records written before the operational
  state existed are files of their own: \<open>readJSON\<close> is the decoded file or the error of reading it,
  and a directory of them is the list of its entries.
\<close>

section \<open>Legacy directories\<close>

record 'a legacy_entry =
  le_Name :: string
  le_IsDir :: bool
  le_Value :: "'a result"

text \<open>\<open>os.ReadDir\<close>: an error, a missing directory, or the entries in the order of their names.\<close>

datatype 'a legacy_dir = DirError go_error | DirMissing | DirEntries "'a legacy_entry list"

definition filepath_Ext :: "string \<Rightarrow> string" where
  "filepath_Ext name =
     (let r = rev name; a = takeWhile (\<lambda>c. c \<noteq> CHR ''.'' \<and> c \<noteq> CHR ''/'') r; b = drop (length a) r
      in if take 1 b = ''.'' then CHR ''.'' # rev a else [])"

definition legacy_record :: "'a legacy_entry \<Rightarrow> bool" where
  "legacy_record e \<longleftrightarrow> \<not> le_IsDir e \<and> filepath_Ext (le_Name e) = ''.json''"

section \<open>Readers\<close>

definition revisionsByID :: "operational_state \<Rightarrow> string \<Rightarrow> contract_revision list" where
  "revisionsByID state revisionID =
     sort_slice (\<lambda>a b. vr_ContractID a < vr_ContractID b) (filter (\<lambda>r. vr_ID r = revisionID) (map snd (os_Revisions state)))"

definition Revision ::
    "err \<Rightarrow> operational_state result \<Rightarrow> (string \<Rightarrow> contract_revision result) \<Rightarrow> string \<Rightarrow> contract_revision result" where
  "Revision admission loaded readJSON i =
     require (first_error [validateID i, admission])
      (bind_res loaded (\<lambda>state.
        let matches = revisionsByID state i in
        if length matches = 1 then Inr (hd matches)
        else if length matches > 1 then Inl (Errorf ''revision %q is ambiguous across contracts'' [i])
        else bind_res (readJSON (i @ ''.json'')) (\<lambda>revision.
          if vr_ID revision \<noteq> i then Inl (Errorf ''revision lookup %q returned persisted id %q'' [i, vr_ID revision])
          else Inr revision)))"

definition ContractRevision ::
    "unicode_case \<Rightarrow> (string \<Rightarrow> string result) \<Rightarrow> err \<Rightarrow> err \<Rightarrow> operational_state result \<Rightarrow> string \<Rightarrow> string \<Rightarrow> contract_revision result" where
  "ContractRevision uc read_blob ctx admission loaded contractID revisionID =
     require (first_error [validateID contractID, validateID revisionID, admission])
      (bind_res loaded (\<lambda>state.
        case revisionForContract state contractID revisionID of
          None \<Rightarrow> Inl ErrNotExist
        | Some revision \<Rightarrow>
            if vr_ContractID revision \<noteq> contractID
              then Inl (Errorf ''revision %q belongs to contract %q, not %q'' [revisionID, vr_ContractID revision, contractID])
            else if vr_ID revision \<noteq> revisionID
              then Inl (Errorf ''revision lookup %q returned persisted id %q'' [revisionID, vr_ID revision])
            else require (wrap_err (Wrapf ''revision %q has invalid persisted evidence: %w'' [revisionID])
                (validateRevisionEvidence uc read_blob ctx revision))
              (Inr revision)))"

definition ReleaseEvidence ::
    "unicode_case \<Rightarrow> (string \<Rightarrow> string result) \<Rightarrow> err \<Rightarrow> err \<Rightarrow> operational_state result \<Rightarrow> string \<Rightarrow> string \<Rightarrow> string \<Rightarrow>
     release_evidence result" where
  "ReleaseEvidence uc read_blob ctx admission loaded contractID trackID reviewID =
     require (first_error [each validateID [contractID, trackID, reviewID], admission])
      (bind_res loaded (\<lambda>state.
        case map_of (os_ReleaseAuthorizations state) reviewID of
          None \<Rightarrow> Inl ErrNotExist
        | Some authorization \<Rightarrow>
            if ra_ContractID authorization \<noteq> contractID \<or> ra_TrackID authorization \<noteq> trackID
              then Inl (Errorf ''release authorization %q belongs to another track'' [reviewID])
            else (case map_of (os_Reviews state) (ra_ReviewID authorization) of
                None \<Rightarrow> Inl (Errorf ''release authorization %q has no persisted review'' [reviewID])
              | Some review \<Rightarrow>
                (case map_of (os_SyncRecords state) (ra_SyncRecordID authorization) of
                   None \<Rightarrow> Inl (Errorf ''release authorization %q has no persisted sync'' [reviewID])
                 | Some syncRecord \<Rightarrow>
                   require (wrap_err (Wrapf ''release authorization %q has unavailable evidence: %w'' [reviewID])
                      (validateReleaseAuthorizationRevisionEvidence uc read_blob ctx state authorization))
                    (Inr \<lparr>ev_Authorization = authorization, ev_Review = review, ev_SyncRecord = syncRecord\<rparr>)))))"

definition publicationIdentityMismatch :: go_error where
  "publicationIdentityMismatch = Errorf ''publication lookup identity does not match persisted record'' []"

definition Publication ::
    "err \<Rightarrow> operational_state result \<Rightarrow> (string \<Rightarrow> publication result) \<Rightarrow> string \<Rightarrow> string \<Rightarrow> publication result" where
  "Publication admission loaded readJSON projectID revisionID =
     require (first_error [validateID projectID, validateID revisionID, admission])
      (bind_res loaded (\<lambda>state.
        let checked = (\<lambda>publication. if pub_ProjectID publication \<noteq> projectID \<or> pub_RevisionID publication \<noteq> revisionID
              then Inl publicationIdentityMismatch else Inr publication) in
        case map_of (os_Publications state) (publicationKey projectID revisionID) of
          Some publication \<Rightarrow> checked publication
        | None \<Rightarrow> bind_res (readJSON (projectID @ ''-'' @ revisionID @ ''.json'')) checked))"

definition validatePublicationRevisionEvidence ::
    "unicode_case \<Rightarrow> (string \<Rightarrow> string result) \<Rightarrow> err \<Rightarrow> operational_state \<Rightarrow> publication \<Rightarrow> err" where
  "validatePublicationRevisionEvidence uc read_blob ctx state publication =
     (case revisionForContract state (pub_ProjectID publication) (pub_RevisionID publication) of
        None \<Rightarrow> Some (Errorf ''public publication references missing contract revision'' [])
      | Some revision \<Rightarrow> wrap_err (Wrapf ''public publication revision evidence is unavailable: %w'' [])
          (validateRevisionEvidence uc read_blob ctx revision))"

fun scanLegacyPublications ::
    "(publication \<Rightarrow> publication result) \<Rightarrow> string \<Rightarrow> publication legacy_entry list \<Rightarrow> publication result" where
  "scanLegacyPublications serve publicPath [] = Inl ErrNotExist"
| "scanLegacyPublications serve publicPath (e # es) =
     (if \<not> legacy_record e then scanLegacyPublications serve publicPath es
      else bind_res (le_Value e) (\<lambda>candidate.
        if pub_Public candidate \<and> pub_Path candidate = publicPath then serve candidate
        else scanLegacyPublications serve publicPath es))"

definition PublicPublicationByPath ::
    "unicode_case \<Rightarrow> (string \<Rightarrow> string result) \<Rightarrow> err \<Rightarrow> err \<Rightarrow> operational_state result \<Rightarrow> publication legacy_dir \<Rightarrow> string \<Rightarrow>
     publication result" where
  "PublicPublicationByPath uc read_blob ctx admission loaded legacy publicPath =
     require (first_error [validatePublicPath publicPath, ctx, admission])
      (bind_res loaded (\<lambda>state.
        let serve = (\<lambda>candidate. require (validatePublicationRevisionEvidence uc read_blob ctx state candidate) (Inr candidate)) in
        case find (\<lambda>candidate. pub_Public candidate \<and> pub_Path candidate = publicPath) (map snd (os_Publications state)) of
          Some candidate \<Rightarrow> serve candidate
        | None \<Rightarrow>
            (case legacy of
               DirMissing \<Rightarrow> Inl ErrNotExist
             | DirError e \<Rightarrow> Inl e
             | DirEntries entries \<Rightarrow> scanLegacyPublications serve publicPath entries)))"

definition SyncRecord ::
    "err \<Rightarrow> operational_state result \<Rightarrow> (string \<Rightarrow> sync_record result) \<Rightarrow> string \<Rightarrow> sync_record result" where
  "SyncRecord admission loaded readJSON i =
     require (first_error [validateID i, admission])
      (bind_res loaded (\<lambda>state.
        let checked = (\<lambda>record. if sr_ID record \<noteq> i
              then Inl (Errorf ''sync lookup %q returned persisted id %q'' [i, sr_ID record]) else Inr record) in
        case map_of (os_SyncRecords state) i of
          Some record \<Rightarrow> checked record
        | None \<Rightarrow> bind_res (readJSON (i @ ''.json'')) checked))"

definition ReleaseTrack :: "err \<Rightarrow> operational_state result \<Rightarrow> string \<Rightarrow> string \<Rightarrow> release_track result" where
  "ReleaseTrack admission loaded contractID trackID =
     require (first_error [validateID contractID, validateID trackID, admission])
      (bind_res loaded (\<lambda>state.
        case map_of (os_ReleaseTracks state) (releaseTrackKey contractID trackID) of
          None \<Rightarrow> Inl ErrNotExist
        | Some track \<Rightarrow>
            require (wrap_err (Wrapf ''invalid persisted release track: %w'' []) (ValidateReleaseTrack track))
              (Inr (CloneReleaseTrack track))))"

section \<open>Projects\<close>

definition validateProjectIdentities :: "project \<Rightarrow> err" where
  "validateProjectIdentities project = first_error
     [ValidateProject project, wrap_err (Wrapf ''project id: %w'' []) (validateID (pj_ID project))]"

definition SaveProject :: "(string \<Rightarrow> project \<Rightarrow> err) \<Rightarrow> project \<Rightarrow> err" where
  "SaveProject writeJSON project =
     and_then (validateProjectIdentities project) (writeJSON (pj_ID project @ ''.json'') project)"

definition Project :: "(string \<Rightarrow> project result) \<Rightarrow> string \<Rightarrow> project result" where
  "Project readJSON i =
     require (validateID i)
      (bind_res (readJSON (i @ ''.json'')) (\<lambda>project.
        if pj_ID project \<noteq> i then Inl (Errorf ''project lookup %q returned persisted id %q'' [i, pj_ID project])
        else require (wrap_err (Wrapf ''invalid persisted project: %w'' []) (validateProjectIdentities project))
          (Inr project)))"

section \<open>Blobs\<close>

text \<open>\<open>filepath.Rel\<close> of a cleaned relative name below a root is the name itself.\<close>

definition safeNamespacePath :: "string \<Rightarrow> err" where
  "safeNamespacePath name =
     (let clean = path_clean name in
      fail_if (clean \<noteq> name \<or> clean = ''.'' \<or> clean = ''..'' \<or> has_prefix ''/'' clean \<or> contains_any name [CHR 0x5C] \<or>
        has_prefix ''../'' clean) errUnsafeStorePath)"

definition blobPath :: "unicode_case \<Rightarrow> string \<Rightarrow> string result" where
  "blobPath uc key =
     (if \<not> BlobKey_Valid uc key then Inl errUnsafeStorePath
      else (let name = ''sha256/'' @ trim_prefix ''sha256:'' key in require (safeNamespacePath name) (Inr name)))"

text \<open>
  The three results of a durable write of one file: an error before the replacement, a replacement that
  could not be confirmed, and success. \<open>interrupted_write_recovers\<close> of \<open>Durable_Write\<close> shows there is no
  other.
\<close>

datatype write_outcome = WriteRejected go_error | WriteUnconfirmed go_error | WriteConfirmed

text \<open>
  The blob files of a store. Writing one is atomic: it is rejected, replaces the file without a confirmation, so
  that \<open>Put\<close> returns an error although the blob is in place, or succeeds. A blob file that exists is readable.
\<close>

type_synonym blob_files = "string \<rightharpoonup> string"

definition Blob_Put :: "unicode_case \<Rightarrow> err \<Rightarrow> write_outcome \<Rightarrow> string \<Rightarrow> blob_files \<Rightarrow> blob_files \<times> string result" where
  "Blob_Put uc ctx write data files =
     (case ctx of
        Some e \<Rightarrow> (files, Inl e)
      | None \<Rightarrow>
        (let key = ContentAddressedBlobKey data in
         case blobPath uc key of
           Inl e \<Rightarrow> (files, Inl e)
         | Inr path \<Rightarrow>
           (case files path of
              Some existing \<Rightarrow>
                if ContentAddressedBlobKey existing \<noteq> key
                  then (files, Inl (Errorf ''stored blob %q failed its content identity'' [key]))
                else (files, Inr key)
            | None \<Rightarrow>
                (case write of
                   WriteRejected e \<Rightarrow> (files, Inl e)
                 | WriteUnconfirmed e \<Rightarrow> (files(path \<mapsto> data),
                     Inl (Wrapf ''%w: confirm atomic replacement of %q: %v'' [path] ErrCommitOutcomeUnknown))
                 | WriteConfirmed \<Rightarrow> (files(path \<mapsto> data), Inr key)))))"

definition Blob_Get :: "unicode_case \<Rightarrow> err \<Rightarrow> string \<Rightarrow> blob_files \<Rightarrow> string result" where
  "Blob_Get uc ctx key files =
     require ctx (bind_res (blobPath uc key) (\<lambda>path. case files path of None \<Rightarrow> Inl ErrNotExist | Some data \<Rightarrow> Inr data))"

section \<open>Services\<close>

definition LoadSpec :: "unicode_case \<Rightarrow> (string \<Rightarrow> string result) \<Rightarrow> contract_revision \<Rightarrow> app_error + string" where
  "LoadSpec uc get revision =
     (case ValidateCanonicalIdentity ''revision id'' (vr_ID revision) False of
        Some e \<Rightarrow> Inl (validationError ''load revision'' e)
      | None \<Rightarrow>
        (let key = vr_SpecBlobKey revision in
         if \<not> BlobKey_Valid uc key
           then Inl (wrapError ErrorIntegrity ''load revision'' (Errorf ''revision has invalid blob key %q'' [key]))
         else (case get key of
             Inl e \<Rightarrow> Inl (wrapError ErrorIntegrity ''load revision blob'' e)
           | Inr data \<Rightarrow>
             (let got = ContentAddressedBlobKey data in
              if got \<noteq> key then Inl (wrapError ErrorIntegrity ''load revision blob''
                (Errorf ''blob content key %q does not match revision key %q'' [got, key]))
              else Inr data))))"

text \<open>A read error is passed on as it is; \<open>Inl (Inl e)\<close> is such an error.\<close>

definition PublicationByPath :: "(string \<Rightarrow> publication result) \<Rightarrow> string \<Rightarrow> (go_error + app_error) + publication" where
  "PublicationByPath reader publicPath =
     (case ValidateCanonicalPublicPath ''public path'' publicPath False of
        Some e \<Rightarrow> Inl (Inr (validationError ''resolve public publication'' e))
      | None \<Rightarrow>
        (case reader publicPath of
           Inl e \<Rightarrow> Inl (Inl e)
         | Inr publication \<Rightarrow>
           (case first_error
              [check_identities
                 [(''publication contract id'', pub_ProjectID publication, False),
                  (''publication revision id'', pub_RevisionID publication, False),
                  (''publication hostname'', pub_Hostname publication, True)],
               ValidateCanonicalPublicPath ''publication path'' (pub_Path publication) False,
               fail_if (pub_Path publication \<noteq> publicPath) (Errorf ''returned path does not match requested path'' [])] of
              Some e \<Rightarrow> Inl (Inr (wrapError ErrorIntegrity ''validate public publication'' e))
            | None \<Rightarrow>
                if \<not> VisibleTo publication \<lparr>ac_Anonymous = True, ac_UserID = [], ac_ProjectIDs = []\<rparr> then Inl (Inl ErrNotExist)
                else Inr publication)))"

section \<open>Blob files\<close>

lemma sha256Hex_chars: "c \<in> set (sha256Hex v) \<Longrightarrow> lower_hex_char c"
  by (simp add: sha256Hex_def lower_hex_encode)

lemma length_sha256Hex [simp]: "length (sha256Hex v) = 64"
  using isLowerSHA256_sha256Hex [of v] unfolding isLowerSHA256_def by blast

lemma content_key_valid [simp]: "BlobKey_Valid uc (ContentAddressedBlobKey data)"
proof -
  have "ToLower uc (sha256Hex data) = sha256Hex data"
    using sha256Hex_chars [of _ data] by (intro ToLower_ascii) (fastforce simp: lower_hex_char_def)
  moreover have "list_all (\<lambda>c. lower_hex_char c \<or> (65 \<le> bv c \<and> bv c \<le> 70)) (sha256Hex data)"
    using sha256Hex_chars [of _ data] by (auto simp: list_all_iff)
  ultimately show ?thesis by (simp add: BlobKey_Valid_def ContentAddressedBlobKey_def)
qed

lemma content_key_inject: "ContentAddressedBlobKey a = ContentAddressedBlobKey b \<longleftrightarrow> sha256Hex a = sha256Hex b"
  by (simp add: ContentAddressedBlobKey_def)

lemma hex_name_clean: "path_clean (''sha256/'' @ sha256Hex d) = ''sha256/'' @ sha256Hex d"
proof -
  have s: "slash \<notin> set (sha256Hex d)" using sha256Hex_chars [of slash d] by (auto simp: lower_hex_char_def)
  have "sha256Hex d \<noteq> []" "sha256Hex d \<noteq> ''.''" "sha256Hex d \<noteq> ''..''"
    using length_sha256Hex [of d] by fastforce+
  moreover have "split_char slash (''sha256'' @ slash # sha256Hex d) = [''sha256'', sha256Hex d]"
    using s by (subst split_char_sep) (simp_all add: split_char_word)
  ultimately show ?thesis by (simp add: path_clean_def)
qed

lemma blobPath_content [simp]: "blobPath uc (ContentAddressedBlobKey d) = Inr (''sha256/'' @ sha256Hex d)"
proof -
  have "CHR 0x5C \<notin> set (sha256Hex d)" using sha256Hex_chars [of "CHR 0x5C" d] by (auto simp: lower_hex_char_def)
  then have "safeNamespacePath (''sha256/'' @ sha256Hex d) = None"
    using hex_name_clean [of d] by (auto simp: safeNamespacePath_def Let_def contains_any_def list_ex_iff)
  moreover have "trim_prefix ''sha256:'' (ContentAddressedBlobKey d) = sha256Hex d"
    by (simp add: trim_prefix_def ContentAddressedBlobKey_def)
  ultimately show ?thesis by (simp add: blobPath_def Let_def)
qed

lemma Blob_Put_Inr:
  assumes "Blob_Put uc ctx write data files = (files', Inr key)"
  obtains stored where "key = ContentAddressedBlobKey data" "files' (''sha256/'' @ sha256Hex data) = Some stored"
    "ContentAddressedBlobKey stored = key" "\<forall>path old. files path = Some old \<longrightarrow> files' path = Some old"
  using assms by (auto simp: Blob_Put_def Let_def split: option.splits if_splits write_outcome.splits)

text \<open>
  C8: A blob that was put reads back under the key it was given. The key is the digest of the data,
  no blob that was there is changed, and the revision service hands out, for every revision that
  refers to the key, bytes with exactly that digest.
\<close>

theorem stored_blob_reads_back:
  assumes "Blob_Put uc ctx write data files = (files', Inr key)"
    and "canonical (vr_ID revision)" and "vr_SpecBlobKey revision = key"
  shows "key = ContentAddressedBlobKey data \<and> files \<subseteq>\<^sub>m files' \<and>
    (\<exists>stored. LoadSpec uc (\<lambda>k. Blob_Get uc None k files') revision = Inr stored \<and> sha256Hex stored = sha256Hex data)"
proof (rule Blob_Put_Inr [OF assms(1)])
  fix stored
  assume k: "key = ContentAddressedBlobKey data" and f: "files' (''sha256/'' @ sha256Hex data) = Some stored"
    and s: "ContentAddressedBlobKey stored = key" and keep: "\<forall>path old. files path = Some old \<longrightarrow> files' path = Some old"
  have "ValidateCanonicalIdentity ''revision id'' (vr_ID revision) False = None" using assms(2) by simp
  moreover have "Blob_Get uc None key files' = Inr stored" using k f by (simp add: Blob_Get_def sequence_Inr require_def)
  ultimately have "LoadSpec uc (\<lambda>k. Blob_Get uc None k files') revision = Inr stored"
    using assms(3) k s by (simp add: LoadSpec_def Let_def del: ValidateCanonicalIdentity_None)
  moreover have "files \<subseteq>\<^sub>m files'" using keep by (auto simp: map_le_def)
  ultimately show ?thesis using k s by (auto simp: content_key_inject)
qed

section \<open>Public routes\<close>

lemma find_unique:
  assumes "x \<in> set xs" and "P x" and "\<And>y. y \<in> set xs \<Longrightarrow> P y \<Longrightarrow> y = x"
  shows "find P xs = Some x"
  using assms
proof (induction xs)
  case (Cons a xs)
  show ?case
  proof (cases "P a")
    case True
    then have "a = x" using Cons.prems(3) [of a] by (metis list.set_intros(1))
    then show ?thesis using True by simp
  next
    case False
    then have "x \<in> set xs" using Cons.prems(1,2) by auto
    then have "find P xs = Some x" using Cons.IH Cons.prems(2,3) by (metis list.set_intros(2))
    then show ?thesis using False by simp
  qed
qed simp

lemma public_owner_found:
  assumes "unique_public pubs" and "distinct (map_keys pubs)" and "mset pubs' = mset pubs"
    and "map_of pubs k = Some p" and "pub_Public p"
  shows "find (\<lambda>c. pub_Public c \<and> pub_Path c = pub_Path p) (map snd pubs') = Some p"
proof (rule find_unique)
  have set: "set pubs' = set pubs" using assms(3) by (rule mset_eq_setD)
  have m: "map_of pubs k' = Some v" if "(k', v) \<in> set pubs" for k' v
    using that assms(2) by (auto simp: map_keys_def)
  show "p \<in> set (map snd pubs')" using map_of_SomeD [OF assms(4)] by (force simp: set)
  show "pub_Public p \<and> pub_Path p = pub_Path p" using assms(5) by simp
  fix q assume "q \<in> set (map snd pubs')" and q: "pub_Public q \<and> pub_Path q = pub_Path p"
  then obtain k' where "(k', q) \<in> set pubs" by (auto simp: set)
  then have k': "map_of pubs k' = Some q" by (rule m)
  then have "k' = k" using q assms(1,4,5) unfolding unique_public_def by blast
  then show "q = p" using k' assms(4) by simp
qed

text \<open>
  A public path has one owner, and the store finds it whatever the iteration order of its map: in
  a valid state every lookup of the path of a public publication whose revision evidence is intact
  returns that publication, and the legacy files are not consulted.
\<close>

theorem public_route_has_one_owner:
  assumes "store_valid uc state" and "mset pubs = mset (os_Publications state)"
    and "map_of (os_Publications state) k = Some p" and "pub_Public p"
    and "validatePublicationRevisionEvidence uc read_blob None (state\<lparr>os_Publications := pubs\<rparr>) p = None"
  shows "PublicPublicationByPath uc read_blob None None (Inr (state\<lparr>os_Publications := pubs\<rparr>)) legacy (pub_Path p) = Inr p"
proof -
  have d: "unique_public (os_Publications state)" "distinct (map_keys (os_Publications state))"
    using assms(1) by (simp_all add: store_valid_def maps_wf_def)
  have "validatePublicPath (pub_Path p) = None"
    using store_valid_fields(4) [OF assms(1)] map_of_SomeD [OF assms(3)]
    by (fastforce simp: validatePersistedOperationalIdentities_def)
  then show ?thesis
    using public_owner_found [OF d assms(2-4)] assms(5) by (simp add: PublicPublicationByPath_def Let_def sequence_Inr require_None)
qed

lemma scan_serves:
  "scanLegacyPublications serve publicPath es = Inr p \<Longrightarrow>
     \<exists>c. serve c = Inr p \<and> pub_Public c \<and> pub_Path c = publicPath"
  by (induction es) (auto split: if_splits)

text \<open>
  C7: What the public resolver hands to an anonymous reader is a public publication of exactly the
  requested path, of a revision the store holds, and when that revision has a specification the blob
  that is read has the revision's digest.
\<close>

theorem resolved_publication_is_public_and_intact:
  assumes "PublicationByPath (PublicPublicationByPath uc read_blob ctx admission (Inr state) legacy) publicPath = Inr p"
  shows "pub_Public p \<and> pub_Path p = publicPath \<and>
    (\<exists>revision. revisionForContract state (pub_ProjectID p) (pub_RevisionID p) = Some revision \<and>
       (vr_SpecBlobKey revision \<noteq> [] \<longrightarrow>
          (\<exists>data. read_blob (vr_SpecBlobKey revision) = Inr data \<and> vr_SpecBlobKey revision = ContentAddressedBlobKey data)))"
proof -
  have r: "PublicPublicationByPath uc read_blob ctx admission (Inr state) legacy publicPath = Inr p" "pub_Public p"
    "pub_Path p = publicPath"
    using assms by (auto simp: PublicationByPath_def VisibleTo_def split: option.splits sum.splits if_splits)
  let ?serve = "\<lambda>c. require (validatePublicationRevisionEvidence uc read_blob ctx state c) (Inr c)"
  have "\<exists>c. ?serve c = Inr p"
    using r(1) scan_serves [of ?serve publicPath _ p]
    by (auto simp: PublicPublicationByPath_def Let_def split: option.splits legacy_dir.splits)
  then obtain revision where "revisionForContract state (pub_ProjectID p) (pub_RevisionID p) = Some revision"
    "validateRevisionEvidence uc read_blob ctx revision = None"
    by (auto simp: validatePublicationRevisionEvidence_def split: option.splits)
  then show ?thesis using r(2,3)
    by (auto simp: validateRevisionEvidence_def Let_def split: if_splits sum.splits)
qed

end
