(* ===== verification/Store_Migration.thy ===== *)
theory Store_Migration
  imports Durable_Write Store_Readers
begin

text \<open>
  Loading the file store (\<open>loadOperationalStateLocked\<close> and the functions it calls in
  \<open>internal/adapters/store/fs.go\<close>): the schema marker, the migration of states written by older
  versions, the import of flat legacy records, and the transaction of \<open>Within\<close> on the files
  themselves. A file holds its decoded content; reading or decoding it may fail.
\<close>

section \<open>The files of the store\<close>

datatype 'a stored_file = FileMissing | FileError go_error | FileUndecodable go_error | FileHolds 'a

record store_disk =
  sd_State :: "operational_state stored_file"
  sd_Marker :: "int stored_file"
  sd_Revisions :: "contract_revision legacy_dir"
  sd_Publications :: "publication legacy_dir"
  sd_SyncRecords :: "sync_record legacy_dir"

definition writeFile :: "write_outcome \<Rightarrow> 'a \<Rightarrow> 'a stored_file \<Rightarrow> 'a stored_file \<times> err" where
  "writeFile w value file =
     (case w of
        WriteRejected e \<Rightarrow> (file, Some e)
      | WriteUnconfirmed e \<Rightarrow> (FileHolds value, Some (Wrapf ''%w: confirm atomic replacement of %q: %v'' [] ErrCommitOutcomeUnknown))
      | WriteConfirmed \<Rightarrow> (FileHolds value, None))"

section \<open>The schema marker\<close>

definition loadOperationalSchemaMarker :: "err \<Rightarrow> int stored_file \<Rightarrow> int option result" where
  "loadOperationalSchemaMarker ctx file =
     require ctx
      (case file of
         FileMissing \<Rightarrow> Inr None
       | FileError e \<Rightarrow> Inl e
       | FileUndecodable e \<Rightarrow> Inl (Wrapf ''decode operational schema marker: %w'' [] e)
       | FileHolds version \<Rightarrow>
           if version < authenticatedStateVersion then Inl (Errorf ''invalid operational schema marker version %d'' [])
           else Inr (Some version))"

definition persistOperationalSchemaMarker ::
    "err \<Rightarrow> write_outcome \<Rightarrow> int \<Rightarrow> int stored_file \<Rightarrow> int stored_file \<times> err" where
  "persistOperationalSchemaMarker ctx w version file =
     (case loadOperationalSchemaMarker ctx file of
        Inl e \<Rightarrow> (file, Some e)
      | Inr (Some marker) \<Rightarrow>
          if marker > version then (file, Some (Errorf ''refusing to lower operational schema marker from %d to %d'' []))
          else if marker = version then (file, None)
          else writeFile w version file
      | Inr None \<Rightarrow> writeFile w version file)"

text \<open>\<open>publishOperationalState\<close>, then the marker. Encoding the state drops the set of migrated revisions.\<close>

definition publishOnDisk :: "err \<Rightarrow> write_outcome \<Rightarrow> write_outcome \<Rightarrow> operational_state \<Rightarrow> store_disk \<Rightarrow> store_disk \<times> err" where
  "publishOnDisk ctx wState wMarker state disk =
     (if os_Version state \<noteq> operationalStateVersion
        then (disk, Some (Errorf ''cannot publish non-current operational state version %d'' []))
      else case ctx of
        Some e \<Rightarrow> (disk, Some e)
      | None \<Rightarrow>
        (case writeFile wState (state\<lparr>os_migratedRevisions := []\<rparr>) (sd_State disk) of
           (file, Some e) \<Rightarrow> (disk\<lparr>sd_State := file\<rparr>, Some e)
         | (file, None) \<Rightarrow>
           (let (marker, e) = persistOperationalSchemaMarker ctx wMarker operationalStateVersion (sd_Marker disk) in
            (disk\<lparr>sd_State := file, sd_Marker := marker\<rparr>,
             wrap_err (\<lambda>_. Wrapf ''%w: persist operational schema marker after state commit: %v'' [] ErrCommitOutcomeUnknown) e))))"

section \<open>Migration of older states\<close>

definition unauthenticatedTrack :: "release_track \<Rightarrow> release_track" where
  "unauthenticatedTrack track = track\<lparr>rt_CandidateRevisionID := [], rt_LastDecision := None\<rparr>"

definition migrateLegacyTracks :: "operational_state \<Rightarrow> operational_state result" where
  "migrateLegacyTracks state =
     (let tracks = map (\<lambda>(key, track). (key, unauthenticatedTrack track)) (os_ReleaseTracks state) in
      require (each_entry (\<lambda>key track. wrap_err (Wrapf ''migrate legacy release track %q: %w'' [key]) (ValidateReleaseTrack track)) tracks)
       (Inr (state\<lparr>os_ReleaseTracks := tracks,
          os_ReleaseTrackAuthorities := map (\<lambda>(key, track). (key, newReleaseTrackAuthority track)) tracks,
          os_ReleaseAuthorizations := []\<rparr>)))"

text \<open>
  The publications that share a public path, by path: the winner is the only one of them whose
  revision is the current revision of a release track.
\<close>

definition currentPublicationKeys :: "operational_state \<Rightarrow> string list" where
  "currentPublicationKeys state =
     map (\<lambda>(_, track). publicationKey (rt_ContractID track) (rt_CurrentRevisionID track))
       (filter (\<lambda>(_, track). rt_CurrentRevisionID track \<noteq> []) (os_ReleaseTracks state))"

definition publicKeysAt :: "(string, publication) go_map \<Rightarrow> string \<Rightarrow> string list" where
  "publicKeysAt pubs publicPath = map fst (filter (\<lambda>(_, p). pub_Public p \<and> pub_Path p = publicPath) pubs)"

definition publicPathNames :: "(string, publication) go_map \<Rightarrow> string list" where
  "publicPathNames pubs = sort_strings (remdups (map (\<lambda>(_, p). pub_Path p) (filter (\<lambda>(_, p). pub_Public p) pubs)))"

definition withdrawKeys :: "string list \<Rightarrow> (string, publication) go_map \<Rightarrow> (string, publication) go_map" where
  "withdrawKeys keys pubs = map (\<lambda>(k, p). (k, if k \<in> set keys then p\<lparr>pub_Public := False\<rparr> else p)) pubs"

definition reconcilePath ::
    "string list \<Rightarrow> string \<Rightarrow> string list \<Rightarrow> (string, publication) go_map \<Rightarrow> (string, publication) go_map result" where
  "reconcilePath current publicPath keys pubs =
     (if length keys < 2 then Inr pubs
      else (let winners = filter (\<lambda>key. key \<in> set current) (sort_strings keys) in
        if length winners \<noteq> 1
          then Inl (Errorf ''legacy public path %q has no unique last-known-good publication'' [publicPath])
        else Inr (withdrawKeys (filter (\<lambda>key. key \<noteq> hd winners) keys) pubs)))"

fun reconcilePaths ::
    "string list \<Rightarrow> (string \<times> string list) list \<Rightarrow> (string, publication) go_map \<Rightarrow> (string, publication) go_map result" where
  "reconcilePaths current [] pubs = Inr pubs"
| "reconcilePaths current ((publicPath, keys) # rest) pubs =
     bind_res (reconcilePath current publicPath keys pubs) (reconcilePaths current rest)"

definition reconcileLegacyPublications :: "operational_state \<Rightarrow> operational_state result" where
  "reconcileLegacyPublications state =
     (let pubs = os_Publications state;
          paths = map (\<lambda>publicPath. (publicPath, publicKeysAt pubs publicPath)) (publicPathNames pubs) in
      bind_res (reconcilePaths (currentPublicationKeys state) paths pubs) (\<lambda>pubs.
        Inr (state\<lparr>os_Publications := pubs\<rparr>)))"

fun scopeRevisions ::
    "contract_revision list \<Rightarrow> (string, contract_revision) go_map \<Rightarrow> (string, contract_revision) go_map result" where
  "scopeRevisions [] scoped = Inr scoped"
| "scopeRevisions (revision # rest) scoped =
     (let key = revisionStorageKey revision in
      case map_of scoped key of
        Some existing \<Rightarrow> bind_res (immutableRecordsEqual marshals_always json_revision existing revision) (\<lambda>equal.
          if \<not> equal then Inl (Errorf ''revision %q has conflicting records for contract %q''
                 [vr_ID revision, vr_ContractID revision])
          else scopeRevisions rest scoped)
      | None \<Rightarrow> scopeRevisions rest (map_put key revision scoped))"

definition scopeOperationalRevisions :: "operational_state \<Rightarrow> operational_state result" where
  "scopeOperationalRevisions state =
     bind_res (scopeRevisions (map snd (os_Revisions state)) []) (\<lambda>scoped. Inr (state\<lparr>os_Revisions := scoped\<rparr>))"

text \<open>The revisions that records refer to, as (contract, revision, owner), in the order they are bound.\<close>

definition legacyOwnerReferences :: "operational_state \<Rightarrow> (string \<times> string \<times> string) list" where
  "legacyOwnerReferences state =
     concat (map (\<lambda>(key, track).
       filter (\<lambda>(_, revisionID, _). revisionID \<noteq> [])
        [(rt_ContractID track, rt_CurrentRevisionID track, ''release track '' @ key @ '' current''),
         (rt_ContractID track, rt_CandidateRevisionID track, ''release track '' @ key @ '' candidate'')]) (os_ReleaseTracks state)) @
     map (\<lambda>(key, p). (pub_ProjectID p, pub_RevisionID p, ''publication '' @ key)) (os_Publications state) @
     concat (map (\<lambda>(key, v).
        [(cv_ContractID v, cv_BaselineRevisionID v, ''review '' @ key @ '' baseline''),
         (cv_ContractID v, cv_CandidateRevisionID v, ''review '' @ key @ '' candidate'')]) (os_Reviews state)) @
     map (\<lambda>(key, r). (sr_ProjectID r, sr_RevisionID r, ''sync record '' @ key))
       (filter (\<lambda>(_, r). sr_Result r = SyncResultSuccess \<and> sr_RevisionID r \<noteq> []) (os_SyncRecords state)) @
     map (\<lambda>(key, e). (ae_ContractID e, ae_RevisionID e, ''audit event '' @ key))
       (filter (\<lambda>(_, e). ae_RevisionID e \<noteq> []) (os_AuditEvents state)) @
     map (\<lambda>(key, m). (om_ContractID m, om_RevisionID m, ''outbox message '' @ key))
       (filter (\<lambda>(_, m). om_RevisionID m \<noteq> []) (os_Outbox state))"

fun bindOwners :: "(string \<times> string \<times> string) list \<Rightarrow> operational_state \<Rightarrow> operational_state result" where
  "bindOwners [] state = Inr state"
| "bindOwners ((contractID, revisionID, owner) # rest) state =
     bind_res (bindRevisionOwner state contractID revisionID owner) (\<lambda>(state, _). bindOwners rest state)"

definition bindLegacyOperationalRevisionOwners :: "operational_state \<Rightarrow> operational_state result" where
  "bindLegacyOperationalRevisionOwners state = bindOwners (legacyOwnerReferences state) state"

definition migrateOperationalStateToCurrent :: "operational_state \<Rightarrow> operational_state result" where
  "migrateOperationalStateToCurrent state =
     bind_res
      (if os_Version state = legacyOperationalStateVersion \<or> os_Version state = decisionOperationalStateVersion
         then migrateLegacyTracks state
       else if os_Version state = authenticatedStateVersion then Inr state
       else Inl (Errorf ''cannot migrate operational state version %d'' []))
      (\<lambda>state. bind_res (reconcileLegacyPublications state) (\<lambda>state.
       bind_res (wrap_res (Wrapf ''migrate legacy revision ownership: %w'' []) (bindLegacyOperationalRevisionOwners state)) (\<lambda>state.
       bind_res (wrap_res (Wrapf ''migrate contract-scoped revisions: %w'' []) (scopeOperationalRevisions state)) (\<lambda>state.
       Inr (state\<lparr>os_Version := operationalStateVersion\<rparr>)))))"

section \<open>Evidence of the revisions in use\<close>

record legacy_revision_reference =
  lr_contractID :: string
  lr_revisionID :: string
  lr_owner :: string

definition sortLegacyRevisionReferences :: "legacy_revision_reference list \<Rightarrow> legacy_revision_reference list" where
  "sortLegacyRevisionReferences references =
     (let sortKey = (\<lambda>r. lr_contractID r @ nul @ lr_revisionID r @ nul @ lr_owner r) in
      sort_slice (\<lambda>a b. sortKey a < sortKey b) references)"

definition collectAuthoritativeRevisionReferences :: "operational_state \<Rightarrow> legacy_revision_reference list" where
  "collectAuthoritativeRevisionReferences state =
     (let reference = (\<lambda>contractID revisionID owner. if revisionID = [] then []
            else [\<lparr>lr_contractID = contractID, lr_revisionID = revisionID, lr_owner = owner\<rparr>]) in
      sortLegacyRevisionReferences
       (concat (map (\<lambda>(key, track). reference (rt_ContractID track) (rt_CurrentRevisionID track)
            (''release track '' @ key @ '' current'')) (os_ReleaseTracks state)) @
        concat (map (\<lambda>(key, p). if pub_Public p then reference (pub_ProjectID p) (pub_RevisionID p) (''public publication '' @ key)
            else []) (os_Publications state)) @
        concat (map (\<lambda>(reviewID, a).
            reference (ra_ContractID a) (ra_BaselineRevisionID a) (''release authorization '' @ reviewID @ '' baseline'') @
            reference (ra_ContractID a) (ra_CandidateRevisionID a) (''release authorization '' @ reviewID @ '' candidate''))
          (os_ReleaseAuthorizations state))))"

definition validateReferencedRevisionEvidence ::
    "unicode_case \<Rightarrow> (string \<Rightarrow> string result) \<Rightarrow> err \<Rightarrow> operational_state \<Rightarrow> legacy_revision_reference list \<Rightarrow> err" where
  "validateReferencedRevisionEvidence uc read_blob ctx state references =
     each (\<lambda>reference. case revisionForContract state (lr_contractID reference) (lr_revisionID reference) of
         None \<Rightarrow> Some (Errorf ''%s references missing revision %q'' [lr_owner reference, lr_revisionID reference])
       | Some revision \<Rightarrow> wrap_err (Wrapf ''%s has invalid revision evidence: %w'' [lr_owner reference])
           (validateRevisionEvidence uc read_blob ctx revision)) references"

definition legacyRevisionAwaitsEvidenceEnrichment :: "contract_revision \<Rightarrow> bool" where
  "legacyRevisionAwaitsEvidenceEnrichment revision \<longleftrightarrow>
     vr_ReviewSnapshot revision = None \<and> vr_SpecBlobKey revision \<noteq> [] \<and>
     (vr_SpecDigest revision \<noteq> [] \<or> vr_ContractDigest revision \<noteq> [])"

section \<open>Flat legacy records\<close>

fun mergeEntries :: "string \<Rightarrow> ('a \<Rightarrow> string) \<Rightarrow> 'a legacy_entry list \<Rightarrow> (string, 'a) go_map \<Rightarrow> (string, 'a) go_map result" where
  "mergeEntries namespace key [] target = Inr target"
| "mergeEntries namespace key (entry # entries) target =
     (if \<not> legacy_record entry then mergeEntries namespace key entries target
      else bind_res (wrap_res (Wrapf ''read legacy %s record %q: %w'' [namespace, le_Name entry]) (le_Value entry)) (\<lambda>value.
        mergeEntries namespace key entries
          (if map_of target (key value) = None then map_put (key value) value target else target)))"

definition mergeLegacyJSON ::
    "string \<Rightarrow> 'a legacy_dir \<Rightarrow> (string, 'a) go_map \<Rightarrow> ('a \<Rightarrow> string) \<Rightarrow> (string, 'a) go_map result" where
  "mergeLegacyJSON namespace directory target key =
     (case directory of
        DirMissing \<Rightarrow> Inr target
      | DirError e \<Rightarrow> Inl e
      | DirEntries entries \<Rightarrow> mergeEntries namespace key entries target)"

text \<open>The records of the three legacy directories in a new state, every revision marked as migrated.\<close>

definition importLegacyRecords :: "store_disk \<Rightarrow> operational_state result" where
  "importLegacyRecords disk =
     bind_res (mergeLegacyJSON ''revisions'' (sd_Revisions disk) [] revisionStorageKey) (\<lambda>revisions.
     bind_res (mergeLegacyJSON ''publications'' (sd_Publications disk) []
        (\<lambda>p. publicationKey (pub_ProjectID p) (pub_RevisionID p))) (\<lambda>publications.
     bind_res (mergeLegacyJSON ''sync-history'' (sd_SyncRecords disk) [] sr_ID) (\<lambda>syncRecords.
       Inr (newOperationalState\<lparr>os_Revisions := revisions, os_migratedRevisions := map_keys revisions,
         os_Publications := publications, os_SyncRecords := syncRecords\<rparr>))))"

text \<open>
  Whether some imported revision still awaits the evidence a later \<open>SaveRevision\<close> completes it with;
  any other revision without valid evidence is an error.
\<close>

fun legacyEvidence ::
    "unicode_case \<Rightarrow> (string \<Rightarrow> string result) \<Rightarrow> err \<Rightarrow> contract_revision list \<Rightarrow> bool \<Rightarrow> bool result" where
  "legacyEvidence uc read_blob ctx [] awaiting = Inr awaiting"
| "legacyEvidence uc read_blob ctx (revision # rest) awaiting =
     (case validateRevisionEvidence uc read_blob ctx revision of
        None \<Rightarrow> legacyEvidence uc read_blob ctx rest awaiting
      | Some e \<Rightarrow> if legacyRevisionAwaitsEvidenceEnrichment revision then legacyEvidence uc read_blob ctx rest True
          else Inl (Wrapf ''validate legacy revision %q migration: %w'' [vr_ID revision] e))"

definition migrateLegacyRecords ::
    "unicode_case \<Rightarrow> (string \<Rightarrow> string result) \<Rightarrow> err \<Rightarrow> operational_state \<Rightarrow> (operational_state \<times> bool) result" where
  "migrateLegacyRecords uc read_blob ctx state =
     bind_res (wrap_res (Wrapf ''reconcile legacy public paths: %w'' []) (reconcileLegacyPublications state)) (\<lambda>state.
     bind_res (wrap_res (Wrapf ''migrate legacy revision ownership: %w'' []) (bindLegacyOperationalRevisionOwners state)) (\<lambda>state.
     require (first_error
       [wrap_err (Wrapf ''validate legacy release authority migration: %w'' []) (validateReleaseTrackAuthorities state),
        wrap_err (Wrapf ''validate legacy operational references: %w'' []) (validateOperationalReferences uc state)])
      (bind_res (legacyEvidence uc read_blob ctx
          (map (\<lambda>key. the (map_of (os_Revisions state) key)) (sort_strings (map_keys (os_Revisions state)))) False)
        (\<lambda>awaiting. Inr (state, awaiting)))))"

section \<open>Loading\<close>

text \<open>
  \<open>ctx0\<close> is the context when loading starts and \<open>ctx\<close> after that; \<open>wState\<close> and \<open>wMarker\<close> are the
  outcomes of the two writes a load may make. The result is the directory it leaves and the state.
\<close>

definition publishLoaded ::
    "(go_error \<Rightarrow> go_error) \<Rightarrow> err \<Rightarrow> write_outcome \<Rightarrow> write_outcome \<Rightarrow> store_disk \<Rightarrow> operational_state \<Rightarrow>
     store_disk \<times> operational_state result" where
  "publishLoaded wrap ctx wState wMarker disk state =
     (case publishOnDisk ctx wState wMarker state disk of
        (disk, Some e) \<Rightarrow> (disk, Inl (wrap e))
      | (disk, None) \<Rightarrow> (disk, Inr state))"

definition migratedState :: "unicode_case \<Rightarrow> (string \<Rightarrow> string result) \<Rightarrow> err \<Rightarrow> operational_state \<Rightarrow> operational_state result" where
  "migratedState uc read_blob ctx state =
     bind_res (migrateOperationalStateToCurrent state) (\<lambda>state.
       require (first_error
         [validateReleaseTrackAuthorities state, validateOperationalReferences uc state,
          validateReferencedRevisionEvidence uc read_blob ctx state (collectAuthoritativeRevisionReferences state)])
        (Inr state))"

definition olderThanMarker :: go_error where
  "olderThanMarker = Errorf ''operational state version %d is older than durable schema marker %d'' []"

definition loadStoredState ::
    "unicode_case \<Rightarrow> (string \<Rightarrow> string result) \<Rightarrow> err \<Rightarrow> write_outcome \<Rightarrow> write_outcome \<Rightarrow> int option \<Rightarrow> store_disk \<Rightarrow> operational_state \<Rightarrow>
     store_disk \<times> operational_state result" where
  "loadStoredState uc read_blob ctx wState wMarker marker disk state =
     (if os_Version state = legacyOperationalStateVersion \<or> os_Version state = decisionOperationalStateVersion then
        (if os_ReleaseAuthorizations state \<noteq> []
           then (disk, Inl (Errorf ''operational state version %d contains authenticated release authority'' []))
         else if (case marker of None \<Rightarrow> False | Some m \<Rightarrow> m \<ge> authenticatedStateVersion) then (disk, Inl olderThanMarker)
         else (case migratedState uc read_blob ctx state of
             Inl e \<Rightarrow> (disk, Inl e)
           | Inr state \<Rightarrow> publishLoaded (Wrapf ''persist operational state v%d to v%d migration: %w'' []) ctx wState wMarker disk state))
      else if os_Version state = authenticatedStateVersion then
        (if (case marker of None \<Rightarrow> False | Some m \<Rightarrow> m > authenticatedStateVersion) then (disk, Inl olderThanMarker)
         else (case migratedState uc read_blob ctx state of
             Inl e \<Rightarrow> (disk, Inl e)
           | Inr state \<Rightarrow> publishLoaded (Wrapf ''persist authenticated operational state v%d to v%d migration: %w'' []) ctx wState wMarker disk state))
      else if os_Version state = operationalStateVersion then
        (if (case marker of None \<Rightarrow> False | Some m \<Rightarrow> m > operationalStateVersion)
           then (disk, Inl (Errorf ''unsupported durable operational schema marker %d'' []))
         else (case first_error [validateReleaseTrackAuthorities state, validateOperationalReferences uc state] of
             Some e \<Rightarrow> (disk, Inl e)
           | None \<Rightarrow>
             if marker = Some operationalStateVersion then (disk, Inr state)
             else (case persistOperationalSchemaMarker ctx wMarker operationalStateVersion (sd_Marker disk) of
                 (file, Some e) \<Rightarrow> (disk\<lparr>sd_Marker := file\<rparr>, Inl (Wrapf ''recover operational schema marker: %w'' [] e))
               | (file, None) \<Rightarrow> (disk\<lparr>sd_Marker := file\<rparr>, Inr state))))
      else (disk, Inl (Errorf ''unsupported operational state version %d'' [])))"

definition loadLegacyState ::
    "unicode_case \<Rightarrow> (string \<Rightarrow> string result) \<Rightarrow> err \<Rightarrow> write_outcome \<Rightarrow> write_outcome \<Rightarrow> store_disk \<Rightarrow>
     store_disk \<times> operational_state result" where
  "loadLegacyState uc read_blob ctx wState wMarker disk =
     (case importLegacyRecords disk of
        Inl e \<Rightarrow> (disk, Inl e)
      | Inr state \<Rightarrow>
        if os_Revisions state = [] \<and> os_Publications state = [] \<and> os_SyncRecords state = [] then (disk, Inr state)
        else (case migrateLegacyRecords uc read_blob ctx state of
            Inl e \<Rightarrow> (disk, Inl e)
          | Inr (state, awaiting) \<Rightarrow>
            if awaiting then (disk, Inr state)
            else publishLoaded (Wrapf ''persist legacy operational state migration: %w'' []) ctx wState wMarker disk state))"

definition loadOperationalStateLocked ::
    "unicode_case \<Rightarrow> (string \<Rightarrow> string result) \<Rightarrow> err \<Rightarrow> err \<Rightarrow> write_outcome \<Rightarrow> write_outcome \<Rightarrow> store_disk \<Rightarrow>
     store_disk \<times> operational_state result" where
  "loadOperationalStateLocked uc read_blob ctx0 ctx wState wMarker disk =
     (case loadOperationalSchemaMarker ctx0 (sd_Marker disk) of
        Inl e \<Rightarrow> (disk, Inl e)
      | Inr marker \<Rightarrow>
        (case sd_State disk of
           FileError e \<Rightarrow> (disk, Inl e)
         | FileUndecodable e \<Rightarrow> (disk, Inl (Wrapf ''decode operational state: %w'' [] e))
         | FileMissing \<Rightarrow>
             if marker \<noteq> None then (disk, Inl (Errorf ''operational state is missing for durable schema marker %d'' []))
             else loadLegacyState uc read_blob ctx wState wMarker disk
         | FileHolds state \<Rightarrow> loadStoredState uc read_blob ctx wState wMarker marker disk state))"

section \<open>A transaction on the files\<close>

text \<open>
  \<open>Within\<close> with everything it does to the directory: \<open>admitted\<close> is the outcome of waiting for the
  admission and the inter-process lock.
\<close>

definition WithinFiles ::
    "unicode_case \<Rightarrow> (string \<Rightarrow> string result) \<Rightarrow> err \<Rightarrow> err \<Rightarrow> err \<Rightarrow> write_outcome \<times> write_outcome \<Rightarrow> write_outcome \<times> write_outcome \<Rightarrow>
     (operational_transaction \<Rightarrow> 'e + 'a \<times> operational_transaction) \<Rightarrow> (go_error \<Rightarrow> 'e) \<Rightarrow> store_disk \<Rightarrow> store_disk \<times> ('e + 'a)" where
  "WithinFiles uc read_blob ctx0 admitted ctx loadWrites commitWrites callback failure disk =
     (case first_error [ctx0, admitted] of
        Some e \<Rightarrow> (disk, Inl (failure e))
      | None \<Rightarrow>
        (case loadOperationalStateLocked uc read_blob ctx ctx (fst loadWrites) (snd loadWrites) disk of
           (disk, Inl e) \<Rightarrow> (disk, Inl (failure e))
         | (disk, Inr state) \<Rightarrow>
           (case callback (begin_transaction state) of
              Inl e \<Rightarrow> (disk, Inl e)
            | Inr (v, t) \<Rightarrow>
              (case first_error [validateOperationalState uc read_blob ctx state (tx_state t) (tx_mutatedRevisions t),
                   validateCommittedReleaseTracks (tx_validatedReleaseTracks t) (os_ReleaseTracks (tx_state t))] of
                 Some e \<Rightarrow> (disk, Inl (failure e))
               | None \<Rightarrow>
                 (case publishOnDisk ctx (fst commitWrites) (snd commitWrites) (tx_state t) disk of
                    (disk, Some e) \<Rightarrow> (disk, Inl (failure e))
                  | (disk, None) \<Rightarrow> (disk, Inr v))))))"

section \<open>Public routes after a migration\<close>

lemma distinct_filter_inj:
  assumes "distinct (map f (filter P (map g xs)))" and "x \<in> set xs" "y \<in> set xs" "P (g x)" "P (g y)" "f (g x) = f (g y)"
  shows "x = y"
proof -
  have "distinct (map (f \<circ> g) (filter (P \<circ> g) xs))" using assms(1) by (simp add: filter_map)
  then show ?thesis using assms(2-) by (auto simp: distinct_map inj_on_def)
qed

lemma map_keys_mem: "map_of m k = Some v \<Longrightarrow> k \<in> set (map_keys m)"
  by (force simp: map_keys_def dest: map_of_SomeD)

lemma unique_public_validated:
  assumes "validateUniquePublicPaths pubs = None"
  shows "unique_public pubs"
proof (unfold unique_public_def, intro allI impI, elim conjE)
  fix k k' p p'
  assume p: "map_of pubs k = Some p" "map_of pubs k' = Some p'" "pub_Public p" "pub_Public p'" "pub_Path p = pub_Path p'"
  have "distinct (map pub_Path (filter pub_Public (map (\<lambda>k. the (map_of pubs k)) (sort_strings (map_keys pubs)))))"
    using assms by (simp add: validateUniquePublicPaths_def Let_def)
  then show "k = k'"
    using distinct_filter_inj [of pub_Path pub_Public "\<lambda>k. the (map_of pubs k)" _ k k'] p map_keys_mem by fastforce
qed

lemma withdrawKeys_props [simp]:
  "map_keys (withdrawKeys keys pubs) = map_keys pubs"
  "map_of (withdrawKeys keys pubs) k = map_option (\<lambda>p. if k \<in> set keys then p\<lparr>pub_Public := False\<rparr> else p) (map_of pubs k)"
proof -
  show "map_keys (withdrawKeys keys pubs) = map_keys pubs"
    by (auto simp: map_keys_def withdrawKeys_def)
  show "map_of (withdrawKeys keys pubs) k = map_option (\<lambda>p. if k \<in> set keys then p\<lparr>pub_Public := False\<rparr> else p) (map_of pubs k)"
    by (induction pubs) (auto simp: withdrawKeys_def)
qed

text \<open>A publication after the withdrawal of some routes: the same, or the same but no longer public.\<close>

definition only_withdrawn :: "(string, publication) go_map \<Rightarrow> (string, publication) go_map \<Rightarrow> bool" where
  "only_withdrawn pubs pubs' \<longleftrightarrow> map_keys pubs' = map_keys pubs \<and>
     (\<forall>k. map_of pubs' k = map_of pubs k \<or> map_of pubs' k = map_option (pub_Public_update (\<lambda>_. False)) (map_of pubs k))"

lemma only_withdrawn_refl: "only_withdrawn pubs pubs"
  by (simp add: only_withdrawn_def)

lemma withdraw_twice:
  "map_option (pub_Public_update (\<lambda>_. False)) (map_option (pub_Public_update (\<lambda>_. False)) x) = map_option (pub_Public_update (\<lambda>_. False)) x"
  by (cases x) auto

lemma only_withdrawn_trans: "only_withdrawn a b \<Longrightarrow> only_withdrawn b c \<Longrightarrow> only_withdrawn a c"
  unfolding only_withdrawn_def by (metis withdraw_twice)

lemma only_withdrawn_keys: "only_withdrawn pubs (withdrawKeys keys pubs)"
proof -
  have "map_of (withdrawKeys keys pubs) k = map_of pubs k \<or>
      map_of (withdrawKeys keys pubs) k = map_option (pub_Public_update (\<lambda>_. False)) (map_of pubs k)" for k
    by (cases "k \<in> set keys"; cases "map_of pubs k") simp_all
  then show ?thesis by (simp add: only_withdrawn_def del: withdrawKeys_props(2))
qed

lemma reconcilePath_withdraws: "reconcilePath current path keys pubs = Inr pubs' \<Longrightarrow> only_withdrawn pubs pubs'"
  by (auto simp: reconcilePath_def Let_def only_withdrawn_refl only_withdrawn_keys split: if_splits)

lemma reconcilePaths_withdraws: "reconcilePaths current paths pubs = Inr pubs' \<Longrightarrow> only_withdrawn pubs pubs'"
  by (induction current paths pubs rule: reconcilePaths.induct)
    (auto simp: only_withdrawn_refl dest!: reconcilePath_withdraws intro: only_withdrawn_trans)

lemma publicKeysAt_mem: "k \<in> set (publicKeysAt pubs q) \<longleftrightarrow> (\<exists>p. (k, p) \<in> set pubs \<and> pub_Public p \<and> pub_Path p = q)"
  by (force simp: publicKeysAt_def)

lemma publicKeysAt_distinct: "distinct (map_keys pubs) \<Longrightarrow> distinct (publicKeysAt pubs q)"
  by (simp add: publicKeysAt_def map_keys_def distinct_map_filter)

lemma publicKeysAt_disjoint:
  "distinct (map_keys pubs) \<Longrightarrow> k \<in> set (publicKeysAt pubs q) \<Longrightarrow> k \<in> set (publicKeysAt pubs q') \<Longrightarrow> q = q'"
  unfolding publicKeysAt_mem map_keys_def by (metis eq_key_imp_eq_value)

lemma publicKeysAt_withdraw: "publicKeysAt (withdrawKeys ks pubs) q = filter (\<lambda>k. k \<notin> set ks) (publicKeysAt pubs q)"
  by (induction pubs) (auto simp: publicKeysAt_def withdrawKeys_def)

lemma filter_single: "distinct xs \<Longrightarrow> x \<in> set xs \<Longrightarrow> filter (\<lambda>y. y = x) xs = [x]"
  by (induction xs) (auto simp: filter_empty_conv)

lemma reconcilePath_routes:
  assumes "reconcilePath current q (publicKeysAt pubs q) pubs = Inr pubs'" and "distinct (map_keys pubs)"
  shows "q' \<noteq> q \<Longrightarrow> publicKeysAt pubs' q' = publicKeysAt pubs q'"
    and "publicKeysAt pubs q \<noteq> [] \<Longrightarrow> \<exists>w \<in> set (publicKeysAt pubs q). publicKeysAt pubs' q = [w] \<and>
      (publicKeysAt pubs q = [w] \<or> w \<in> set current)"
proof -
  let ?keys = "publicKeysAt pubs q"
  have "(q' \<noteq> q \<longrightarrow> publicKeysAt pubs' q' = publicKeysAt pubs q') \<and>
    (?keys \<noteq> [] \<longrightarrow> (\<exists>w \<in> set ?keys. publicKeysAt pubs' q = [w] \<and> (?keys = [w] \<or> w \<in> set current)))"
  proof (cases "length ?keys < 2")
    case True
    then have "pubs' = pubs" using assms(1) by (simp add: reconcilePath_def)
    then show ?thesis using True by (cases ?keys) auto
  next
    case False
    define winners where "winners = filter (\<lambda>key. key \<in> set current) (sort_strings ?keys)"
    have w: "length winners = 1" "pubs' = withdrawKeys (filter (\<lambda>key. key \<noteq> hd winners) ?keys) pubs"
      using assms(1) False by (auto simp: reconcilePath_def winners_def Let_def split: if_splits)
    then obtain x where x: "winners = [x]" by (auto simp: length_Suc_conv)
    then have "x \<in> set winners" by simp
    then have m: "x \<in> set ?keys" "x \<in> set current" by (simp_all add: winners_def)
    have "publicKeysAt pubs' q = filter (\<lambda>k. k = x) ?keys"
      unfolding w(2) publicKeysAt_withdraw by (rule filter_cong) (auto simp: x)
    then have "publicKeysAt pubs' q = [x]"
      using filter_single [OF publicKeysAt_distinct [OF assms(2)] m(1)] by simp
    moreover have "publicKeysAt pubs' q' = publicKeysAt pubs q'" if "q' \<noteq> q"
      unfolding w(2) publicKeysAt_withdraw filter_id_conv
      using publicKeysAt_disjoint [OF assms(2)] that by auto
    ultimately show ?thesis using m by blast
  qed
  then show "q' \<noteq> q \<Longrightarrow> publicKeysAt pubs' q' = publicKeysAt pubs q'"
    "?keys \<noteq> [] \<Longrightarrow> \<exists>w \<in> set ?keys. publicKeysAt pubs' q = [w] \<and> (?keys = [w] \<or> w \<in> set current)" by auto
qed

lemma reconcilePaths_routes:
  assumes "reconcilePaths current (map (\<lambda>q. (q, publicKeysAt pubs0 q)) qs) pubs = Inr pubs'"
    and "distinct (map_keys pubs)" and "distinct qs" and "\<forall>q \<in> set qs. publicKeysAt pubs q = publicKeysAt pubs0 q"
  shows "(\<forall>q. q \<notin> set qs \<longrightarrow> publicKeysAt pubs' q = publicKeysAt pubs q) \<and>
    (\<forall>q \<in> set qs. publicKeysAt pubs q \<noteq> [] \<longrightarrow> (\<exists>w \<in> set (publicKeysAt pubs q). publicKeysAt pubs' q = [w] \<and>
      (publicKeysAt pubs q = [w] \<or> w \<in> set current)))"
  using assms
proof (induction qs arbitrary: pubs)
  case (Cons q qs)
  obtain mid where m: "reconcilePath current q (publicKeysAt pubs q) pubs = Inr mid"
    "reconcilePaths current (map (\<lambda>q. (q, publicKeysAt pubs0 q)) qs) mid = Inr pubs'"
    using Cons.prems(1,4) by auto
  note r = reconcilePath_routes [OF m(1) Cons.prems(2)]
  have d: "distinct (map_keys mid)" using reconcilePath_withdraws [OF m(1)] Cons.prems(2) by (simp add: only_withdrawn_def)
  have same: "publicKeysAt mid q' = publicKeysAt pubs q'" if "q' \<in> set qs" for q'
  proof -
    have "q' \<noteq> q" using that Cons.prems(3) by auto
    then show ?thesis by (rule r(1))
  qed
  note ih = Cons.IH [OF m(2) d]
  have "(\<forall>q'. q' \<notin> set qs \<longrightarrow> publicKeysAt pubs' q' = publicKeysAt mid q') \<and>
    (\<forall>q' \<in> set qs. publicKeysAt mid q' \<noteq> [] \<longrightarrow> (\<exists>w \<in> set (publicKeysAt mid q'). publicKeysAt pubs' q' = [w] \<and>
      (publicKeysAt mid q' = [w] \<or> w \<in> set current)))"
    using ih Cons.prems(3,4) same by simp
  then show ?case using r same Cons.prems(3) by (auto simp del: set_map)
qed simp

lemma publicPathNames_props:
  "distinct (publicPathNames pubs)" "q \<in> set (publicPathNames pubs) \<longleftrightarrow> publicKeysAt pubs q \<noteq> []"
proof -
  show "distinct (publicPathNames pubs)" by (simp add: publicPathNames_def)
  show "q \<in> set (publicPathNames pubs) \<longleftrightarrow> publicKeysAt pubs q \<noteq> []"
    by (force simp: publicPathNames_def publicKeysAt_def filter_empty_conv)
qed

text \<open>
  Reconciling the publications of an older state settles every shared public route and loses
  none. A route keeps exactly one owner; where several publications claimed it, the owner is the one
  whose revision is the current revision of a release track. No route appears, and a publication
  changes in nothing but losing its route.
\<close>

theorem migrated_routes_keep_their_current_owner:
  assumes "reconcileLegacyPublications state = Inr state'" and "distinct (map_keys (os_Publications state))"
  shows "only_withdrawn (os_Publications state) (os_Publications state') \<and>
    (\<forall>q. if publicKeysAt (os_Publications state) q = [] then publicKeysAt (os_Publications state') q = []
      else (\<exists>w \<in> set (publicKeysAt (os_Publications state) q). publicKeysAt (os_Publications state') q = [w] \<and>
        (publicKeysAt (os_Publications state) q = [w] \<or> w \<in> set (currentPublicationKeys state))))"
proof -
  let ?pubs = "os_Publications state"
  obtain pubs' where p: "reconcilePaths (currentPublicationKeys state)
      (map (\<lambda>q. (q, publicKeysAt ?pubs q)) (publicPathNames ?pubs)) ?pubs = Inr pubs'" "os_Publications state' = pubs'"
    using assms(1) by (auto simp: reconcileLegacyPublications_def Let_def)
  note r = reconcilePaths_routes [OF p(1) assms(2) publicPathNames_props(1)]
  show ?thesis using r p(2) reconcilePaths_withdraws [OF p(1)] publicPathNames_props(2) by auto
qed

section \<open>What a migration keeps\<close>

definition adopted :: "contract_revision \<Rightarrow> contract_revision \<Rightarrow> bool" where
  "adopted r r' \<longleftrightarrow> r' = r \<or> vr_ContractID r = [] \<and> (\<exists>c. r' = r\<lparr>vr_ContractID := c\<rparr>)"

definition revisions_adopted :: "operational_state \<Rightarrow> operational_state \<Rightarrow> bool" where
  "revisions_adopted s s' \<longleftrightarrow> (\<exists>revisions. s' = s\<lparr>os_Revisions := revisions\<rparr>) \<and>
     (\<forall>k r. map_of (os_Revisions s) k = Some r \<longrightarrow> (\<exists>k' r'. map_of (os_Revisions s') k' = Some r' \<and> adopted r r'))"

lemma adopted_trans: "adopted a b \<Longrightarrow> adopted b c \<Longrightarrow> adopted a c"
  by (auto simp: adopted_def)

lemma revisions_adopted_refl: "revisions_adopted s s"
proof -
  have "s = s\<lparr>os_Revisions := os_Revisions s\<rparr>" by simp
  then show ?thesis unfolding revisions_adopted_def adopted_def by blast
qed

lemma revisions_adopted_trans:
  assumes "revisions_adopted a b" and "revisions_adopted b c"
  shows "revisions_adopted a c"
proof -
  have "\<exists>revisions. c = a\<lparr>os_Revisions := revisions\<rparr>" using assms by (auto simp: revisions_adopted_def)
  moreover have "\<exists>k' r'. map_of (os_Revisions c) k' = Some r' \<and> adopted r r'" if "map_of (os_Revisions a) k = Some r" for k r
    using assms that adopted_trans unfolding revisions_adopted_def by meson
  ultimately show ?thesis unfolding revisions_adopted_def by blast
qed

lemma bindRevisionOwner_adopts:
  assumes "bindRevisionOwner s c r owner = Inr (s', changed)"
  shows "revisions_adopted s s'"
proof (cases "s' = s")
  case False
  then obtain rev where rev: "map_of (os_Revisions s) (revisionKey c r) = None" "map_of (os_Revisions s) r = Some rev"
    "vr_ContractID rev = []"
    "s' = s\<lparr>os_Revisions := map_put (revisionKey c r) (rev\<lparr>vr_ContractID := c\<rparr>) (map_delete r (os_Revisions s))\<rparr>"
    using assms by (auto simp: bindRevisionOwner_def Let_def split: option.splits if_splits)
  have "\<exists>k' q'. map_of (os_Revisions s') k' = Some q' \<and> adopted q q'" if k: "map_of (os_Revisions s) k = Some q" for k q
  proof (cases "k = r")
    case True
    then show ?thesis using k rev by (intro exI [of _ "revisionKey c r"]) (auto simp: adopted_def)
  next
    case False
    moreover have "k \<noteq> revisionKey c r" using k rev(1) by auto
    ultimately show ?thesis using k by (intro exI [of _ k]) (auto simp: rev(4) map_of_delete adopted_def)
  qed
  then show ?thesis by (auto simp: revisions_adopted_def rev(4))
qed (simp add: revisions_adopted_refl)

lemma bindOwners_adopts: "bindOwners refs s = Inr s' \<Longrightarrow> revisions_adopted s s'"
proof (induction refs s rule: bindOwners.induct)
  case (2 c r owner rest s)
  then obtain t changed where t: "bindRevisionOwner s c r owner = Inr (t, changed)" "bindOwners rest t = Inr s'" by auto
  then show ?case using bindRevisionOwner_adopts [OF t(1)] 2(1) [OF t(2)] revisions_adopted_trans by blast
qed (simp add: revisions_adopted_refl)

definition same_revision :: "contract_revision \<Rightarrow> contract_revision \<Rightarrow> bool" where
  "same_revision r r' \<longleftrightarrow> immutableRecordsEqual marshals_always json_revision r r' = Inr True"

lemma immutableRecordsEqual_refl [simp]: "immutableRecordsEqual marshals_always js r r = Inr True"
  by (simp add: immutableRecordsEqual_def marshal_def bind_res_def wrap_res_def)

lemma scopeRevisions_keeps:
  assumes "scopeRevisions rs scoped = Inr scoped'"
  shows "(\<forall>k r. map_of scoped k = Some r \<longrightarrow> map_of scoped' k = Some r) \<and>
    (\<forall>r \<in> set rs. \<exists>r'. map_of scoped' (revisionStorageKey r) = Some r' \<and> same_revision r' r)"
  using assms
proof (induction rs scoped rule: scopeRevisions.induct)
  case (2 r rest scoped)
  show ?case
  proof (cases "map_of scoped (revisionStorageKey r)")
    case None
    then have ih: "(\<forall>k q. map_of (map_put (revisionStorageKey r) r scoped) k = Some q \<longrightarrow> map_of scoped' k = Some q) \<and>
        (\<forall>q \<in> set rest. \<exists>q'. map_of scoped' (revisionStorageKey q) = Some q' \<and> same_revision q' q)"
      using 2(1) [OF refl None] 2(3) by (simp add: Let_def)
    have new: "map_of scoped' (revisionStorageKey r) = Some r" using ih by simp
    have old: "map_of scoped' k = Some q" if "map_of scoped k = Some q" for k q
    proof -
      have "k \<noteq> revisionStorageKey r" using that None by auto
      then show ?thesis using ih that by simp
    qed
    show ?thesis using ih new old by (auto simp: same_revision_def)
  next
    case (Some e)
    then have eq: "same_revision e r" "scopeRevisions rest scoped = Inr scoped'"
      using 2(3) by (auto simp: same_revision_def split: if_splits)
    have "immutableRecordsEqual marshals_always json_revision e r = Inr True" using eq(1) by (simp add: same_revision_def)
    then show ?thesis using 2(2) [OF refl Some, of True] eq Some by auto
  qed
qed simp

text \<open>The stages of a migration, each changing one part of the state.\<close>

lemma migration_stages:
  assumes "migrateOperationalStateToCurrent s = Inr s'"
  obtains s1 pubs s2 scoped where
    "if os_Version s = authenticatedStateVersion then s1 = s else migrateLegacyTracks s = Inr s1"
    "reconcileLegacyPublications s1 = Inr (s1\<lparr>os_Publications := pubs\<rparr>)"
    "only_withdrawn (os_Publications s1) pubs"
    "revisions_adopted (s1\<lparr>os_Publications := pubs\<rparr>) s2"
    "scopeRevisions (map snd (os_Revisions s2)) [] = Inr scoped"
    "s' = s2\<lparr>os_Revisions := scoped, os_Version := operationalStateVersion\<rparr>"
proof -
  obtain s1 r s2 scoped where st:
    "if os_Version s = authenticatedStateVersion then s1 = s else migrateLegacyTracks s = Inr s1"
    "reconcileLegacyPublications s1 = Inr r" "bindLegacyOperationalRevisionOwners r = Inr s2"
    "scopeRevisions (map snd (os_Revisions s2)) [] = Inr scoped"
    "s' = s2\<lparr>os_Revisions := scoped, os_Version := operationalStateVersion\<rparr>"
    using assms by (auto simp: migrateOperationalStateToCurrent_def scopeOperationalRevisions_def legacyOperationalStateVersion_def
        decisionOperationalStateVersion_def authenticatedStateVersion_def split: if_splits)
  obtain pubs where p: "r = s1\<lparr>os_Publications := pubs\<rparr>" "only_withdrawn (os_Publications s1) pubs"
    using st(2) by (auto simp: reconcileLegacyPublications_def Let_def dest: reconcilePaths_withdraws)
  have "revisions_adopted (s1\<lparr>os_Publications := pubs\<rparr>) s2"
    using bindOwners_adopts st(3) p(1) by (simp add: bindLegacyOperationalRevisionOwners_def)
  then show thesis using that [OF st(1) _ p(2) _ st(4,5)] st(2) p(1) by simp
qed

lemma migrateLegacyTracks_Inr:
  assumes "migrateLegacyTracks s = Inr s1"
  shows "s1 = s\<lparr>os_ReleaseTracks := map (\<lambda>(key, track). (key, unauthenticatedTrack track)) (os_ReleaseTracks s),
      os_ReleaseTrackAuthorities := map (\<lambda>(key, track). (key, newReleaseTrackAuthority (unauthenticatedTrack track))) (os_ReleaseTracks s),
      os_ReleaseAuthorizations := []\<rparr>"
  using assms by (auto simp: migrateLegacyTracks_def Let_def comp_def case_prod_unfold)

text \<open>
  C13: A migration keeps what the older state could prove and nothing more. Reviews, sync records,
  audit events and outbox messages stay as they are and publications at most lose their route. A
  state of the authenticated version keeps its tracks, authorities and authorizations; from an older
  version a track keeps its contract, current revision and generation, and loses the candidate and the
  decision that nothing authenticated. Every revision survives under the key of its contract, at most
  adopted by the contract that refers to it.
\<close>

theorem migration_keeps_only_proven_state:
  assumes "migrateOperationalStateToCurrent s = Inr s'"
  shows "os_Version s' = operationalStateVersion \<and> os_Reviews s' = os_Reviews s \<and> os_SyncRecords s' = os_SyncRecords s \<and>
    os_AuditEvents s' = os_AuditEvents s \<and> os_Outbox s' = os_Outbox s \<and>
    only_withdrawn (os_Publications s) (os_Publications s') \<and>
    (if os_Version s = authenticatedStateVersion
     then os_ReleaseTracks s' = os_ReleaseTracks s \<and> os_ReleaseTrackAuthorities s' = os_ReleaseTrackAuthorities s \<and>
       os_ReleaseAuthorizations s' = os_ReleaseAuthorizations s
     else os_ReleaseTracks s' = map (\<lambda>(k, t). (k, t\<lparr>rt_CandidateRevisionID := [], rt_LastDecision := None\<rparr>)) (os_ReleaseTracks s) \<and>
       os_ReleaseTrackAuthorities s' = map (\<lambda>(k, t). (k, newReleaseTrackAuthority t)) (os_ReleaseTracks s') \<and>
       os_ReleaseAuthorizations s' = []) \<and>
    (\<forall>k r. map_of (os_Revisions s) k = Some r \<longrightarrow> (\<exists>r' kept. adopted r r' \<and>
       map_of (os_Revisions s') (revisionStorageKey r') = Some kept \<and> same_revision kept r'))"
proof (rule migration_stages [OF assms])
  fix s1 pubs s2 scoped
  assume st: "if os_Version s = authenticatedStateVersion then s1 = s else migrateLegacyTracks s = Inr s1"
    "only_withdrawn (os_Publications s1) pubs" "revisions_adopted (s1\<lparr>os_Publications := pubs\<rparr>) s2"
    "scopeRevisions (map snd (os_Revisions s2)) [] = Inr scoped"
    "s' = s2\<lparr>os_Revisions := scoped, os_Version := operationalStateVersion\<rparr>"
  obtain revisions where s2: "s2 = s1\<lparr>os_Publications := pubs, os_Revisions := revisions\<rparr>"
    using st(3) by (auto simp: revisions_adopted_def)
  have r: "\<exists>r' kept. adopted r r' \<and> map_of scoped (revisionStorageKey r') = Some kept \<and> same_revision kept r'"
    if k: "map_of (os_Revisions s1) k = Some r" for k r
  proof -
    obtain k' r' where r': "map_of (os_Revisions s2) k' = Some r'" "adopted r r'"
      using st(3) k by (auto simp: revisions_adopted_def) metis
    then have "r' \<in> set (map snd (os_Revisions s2))" by (force dest: map_of_SomeD)
    then show ?thesis using r'(2) scopeRevisions_keeps [OF st(4)] by blast
  qed
  show ?thesis
  proof (cases "os_Version s = authenticatedStateVersion")
    case True
    then show ?thesis using st r by (simp add: s2)
  next
    case False
    then have s1: "migrateLegacyTracks s = Inr s1" using st(1) by simp
    show ?thesis
      using st(2,5) r False by (simp add: s2 migrateLegacyTracks_Inr [OF s1] unauthenticatedTrack_def case_prod_unfold comp_def)
  qed
qed

section \<open>What a load returns\<close>

definition disk_wf :: "store_disk \<Rightarrow> bool" where
  "disk_wf disk \<longleftrightarrow> (case sd_State disk of FileHolds s \<Rightarrow> maps_wf s \<and> os_migratedRevisions s = [] | _ \<Rightarrow> True)"

lemma store_valid_loaded:
  assumes "os_Version s = operationalStateVersion" and "validateReleaseTrackAuthorities s = None"
    and "validateOperationalReferences uc s = None" and "maps_wf s"
  shows "store_valid uc s"
  using assms unique_public_validated [of "os_Publications s"]
  by (simp add: store_valid_def validateOperationalReferences_def)

lemma only_withdrawn_map_keys: "only_withdrawn pubs pubs' \<Longrightarrow> map_keys pubs' = map_keys pubs"
  by (simp add: only_withdrawn_def)

lemma map_keys_map [simp]: "map_keys (map (\<lambda>(k, v). (k, f v)) m) = map_keys m"
  by (simp add: map_keys_def case_prod_unfold comp_def)

lemma migration_maps_wf:
  assumes "migrateOperationalStateToCurrent s = Inr s'" and "maps_wf s" and "os_migratedRevisions s = []"
  shows "maps_wf s' \<and> os_Version s' = operationalStateVersion \<and> os_migratedRevisions s' = []"
proof (rule migration_stages [OF assms(1)])
  fix s1 pubs s2 scoped
  assume st: "if os_Version s = authenticatedStateVersion then s1 = s else migrateLegacyTracks s = Inr s1"
    "only_withdrawn (os_Publications s1) pubs" "revisions_adopted (s1\<lparr>os_Publications := pubs\<rparr>) s2"
    "s' = s2\<lparr>os_Revisions := scoped, os_Version := operationalStateVersion\<rparr>"
  obtain revisions where s2: "s2 = s1\<lparr>os_Publications := pubs, os_Revisions := revisions\<rparr>"
    using st(3) by (auto simp: revisions_adopted_def)
  have "maps_wf s1" "os_migratedRevisions s1 = []"
    using st(1) assms(2,3) by (auto simp: maps_wf_def map_keys_def comp_def case_prod_unfold dest!: migrateLegacyTracks_Inr split: if_splits)
  then show ?thesis using st(4) only_withdrawn_map_keys [OF st(2)] by (simp add: s2 maps_wf_def)
qed

lemma load_current:
  assumes "sd_State disk = FileHolds s" and "sd_Marker disk = FileHolds operationalStateVersion" and "store_valid uc s"
  shows "loadOperationalStateLocked uc read_blob None ctx wState wMarker disk = (disk, Inr s)"
  using assms
  by (simp add: loadOperationalStateLocked_def loadOperationalSchemaMarker_def loadStoredState_def store_valid_def first_error.simps
      legacyOperationalStateVersion_def decisionOperationalStateVersion_def authenticatedStateVersion_def operationalStateVersion_def)

lemma persist_marker: "persistOperationalSchemaMarker ctx w v file = (file', None) \<Longrightarrow> file' = FileHolds v"
  by (auto simp: persistOperationalSchemaMarker_def loadOperationalSchemaMarker_def writeFile_def require_def
      split: sum.splits option.splits if_splits write_outcome.splits stored_file.splits)

lemma publishOnDisk_None:
  assumes "publishOnDisk ctx wState wMarker s disk = (disk', None)"
  shows "sd_State disk' = FileHolds (s\<lparr>os_migratedRevisions := []\<rparr>) \<and> sd_Marker disk' = FileHolds operationalStateVersion"
  using assms persist_marker
  by (auto simp: publishOnDisk_def writeFile_def split: if_splits option.splits prod.splits write_outcome.splits)

lemma publishLoaded_Inr:
  assumes "publishLoaded wrap ctx wState wMarker disk s = (disk', Inr s')"
  shows "s' = s \<and> sd_State disk' = FileHolds (s\<lparr>os_migratedRevisions := []\<rparr>) \<and> sd_Marker disk' = FileHolds operationalStateVersion"
  using assms publishOnDisk_None by (auto simp: publishLoaded_def split: prod.splits option.splits)

lemma migratedState_valid:
  assumes "migratedState uc read_blob ctx s = Inr s'" and "maps_wf s" and "os_migratedRevisions s = []"
  shows "store_valid uc s' \<and> os_migratedRevisions s' = []"
  using assms migration_maps_wf store_valid_loaded by (auto simp: migratedState_def)

text \<open>The two shapes a directory has after a successful load.\<close>

definition settled_as :: "unicode_case \<Rightarrow> store_disk \<Rightarrow> operational_state \<Rightarrow> bool" where
  "settled_as uc disk s \<longleftrightarrow> store_valid uc s \<and> sd_State disk = FileHolds (s\<lparr>os_migratedRevisions := []\<rparr>) \<and>
     sd_Marker disk = FileHolds operationalStateVersion"

lemma loadStoredState_settles:
  assumes "loadStoredState uc read_blob ctx wState wMarker marker disk s = (disk', Inr s')"
    and "loadOperationalSchemaMarker ctx0 (sd_Marker disk) = Inr marker"
    and "sd_State disk = FileHolds s" and "maps_wf s" and "os_migratedRevisions s = []"
  shows "settled_as uc disk' s'"
proof (cases "os_Version s = operationalStateVersion")
  case True
  have same: "s\<lparr>os_migratedRevisions := []\<rparr> = s" using assms(5) by simp
  have v: "store_valid uc s" "s' = s"
    using assms(1,4) True store_valid_loaded [of s uc]
    by (auto simp: loadStoredState_def operationalStateVersion_def legacyOperationalStateVersion_def decisionOperationalStateVersion_def
        authenticatedStateVersion_def split: option.splits if_splits prod.splits)
  have m: "marker = Some operationalStateVersion \<Longrightarrow> sd_Marker disk = FileHolds operationalStateVersion"
    using assms(2) by (auto simp: loadOperationalSchemaMarker_def split: stored_file.splits if_splits)
  have "sd_State disk' = FileHolds s \<and> sd_Marker disk' = FileHolds operationalStateVersion"
    using assms(1,3) True m persist_marker
    by (auto simp: loadStoredState_def operationalStateVersion_def legacyOperationalStateVersion_def decisionOperationalStateVersion_def
        authenticatedStateVersion_def split: option.splits if_splits prod.splits)
  then show ?thesis using v same by (simp add: settled_as_def)
next
  case False
  then obtain s1 wrap where s1: "migratedState uc read_blob ctx s = Inr s1"
    "publishLoaded wrap ctx wState wMarker disk s1 = (disk', Inr s')"
    using assms(1) by (auto simp: loadStoredState_def split: if_splits sum.splits option.splits)
  then show ?thesis
    using publishLoaded_Inr [OF s1(2)] migratedState_valid [OF s1(1) assms(4,5)] by (simp add: settled_as_def)
qed

lemma mergeEntries_distinct:
  "mergeEntries namespace key entries target = Inr m \<Longrightarrow> distinct (map_keys target) \<Longrightarrow> distinct (map_keys m)"
proof (induction namespace key entries target rule: mergeEntries.induct)
  case (2 namespace key entry entries target)
  have "distinct (map_keys (if map_of target (key x) = None then map_put (key x) x target else target))" for x
    using 2(4) by (simp add: distinct_keys_put)
  then show ?case using 2 by (cases "legacy_record entry") (auto split del: if_split)
qed simp

lemma mergeLegacyJSON_distinct: "mergeLegacyJSON namespace directory [] key = Inr m \<Longrightarrow> distinct (map_keys m)"
  by (auto simp: mergeLegacyJSON_def map_keys_def [of "[]"] dest: mergeEntries_distinct split: legacy_dir.splits)

lemma importLegacyRecords_wf:
  "importLegacyRecords disk = Inr s \<Longrightarrow> maps_wf s \<and> os_Version s = operationalStateVersion"
  by (auto simp: importLegacyRecords_def newOperationalState_def maps_wf_def map_keys_def [of "[]"] dest: mergeLegacyJSON_distinct)

lemma migrateLegacyRecords_Inr:
  assumes "migrateLegacyRecords uc read_blob ctx s = Inr (s', awaiting)" and "maps_wf s" "os_Version s = operationalStateVersion"
  shows "store_valid uc s'"
proof -
  obtain r where r: "reconcileLegacyPublications s = Inr r" "bindLegacyOperationalRevisionOwners r = Inr s'"
    "validateReleaseTrackAuthorities s' = None" "validateOperationalReferences uc s' = None"
    using assms(1) by (auto simp: migrateLegacyRecords_def)
  obtain pubs where p: "r = s\<lparr>os_Publications := pubs\<rparr>" "only_withdrawn (os_Publications s) pubs"
    using r(1) by (auto simp: reconcileLegacyPublications_def Let_def dest: reconcilePaths_withdraws)
  obtain revisions where "s' = r\<lparr>os_Revisions := revisions\<rparr>"
    using bindOwners_adopts [of "legacyOwnerReferences r" r s'] r(2)
    by (auto simp: bindLegacyOperationalRevisionOwners_def revisions_adopted_def)
  then have "maps_wf s'" "os_Version s' = operationalStateVersion"
    using assms(2,3) p only_withdrawn_map_keys [OF p(2)] by (simp_all add: maps_wf_def)
  then show ?thesis using r(3,4) store_valid_loaded by blast
qed

text \<open>
  Whether a legacy directory holds a record, and whether some revision has no valid evidence yet but may
  be completed by a later save: the two cases in which an import is not written back.
\<close>

definition holds_records :: "'a legacy_dir \<Rightarrow> bool" where
  "holds_records dir \<longleftrightarrow> (case dir of DirEntries entries \<Rightarrow> list_ex legacy_record entries | _ \<Rightarrow> False)"

definition legacy_records :: "store_disk \<Rightarrow> bool" where
  "legacy_records disk \<longleftrightarrow> holds_records (sd_Revisions disk) \<or> holds_records (sd_Publications disk) \<or> holds_records (sd_SyncRecords disk)"

definition awaits_evidence :: "unicode_case \<Rightarrow> (string \<Rightarrow> string result) \<Rightarrow> err \<Rightarrow> operational_state \<Rightarrow> bool" where
  "awaits_evidence uc read_blob ctx s \<longleftrightarrow>
     (\<exists>r \<in> ran (map_of (os_Revisions s)). validateRevisionEvidence uc read_blob ctx r \<noteq> None \<and> legacyRevisionAwaitsEvidenceEnrichment r)"

lemma map_put_not_Nil [simp]: "map_put k v m \<noteq> []"
  by (cases m) (auto split: if_splits)

lemma mergeEntries_Nil:
  "mergeEntries namespace key entries target = Inr m \<Longrightarrow> m = [] \<longleftrightarrow> target = [] \<and> \<not> list_ex legacy_record entries"
proof (induction namespace key entries target rule: mergeEntries.induct)
  case (2 namespace key entry entries target)
  show ?case
  proof (cases "legacy_record entry")
    case True
    then obtain v where v: "le_Value entry = Inr v"
      "mergeEntries namespace key entries (if map_of target (key v) = None then map_put (key v) v target else target) = Inr m"
      using 2(3) by (auto simp: bind_res_def wrap_res_def split: sum.splits)
    then show ?thesis using 2(2) [of v] True by (auto split: if_splits)
  qed (use 2 in simp)
qed simp

lemma mergeLegacyJSON_Nil: "mergeLegacyJSON namespace directory [] key = Inr m \<Longrightarrow> m = [] \<longleftrightarrow> \<not> holds_records directory"
  by (auto simp: mergeLegacyJSON_def holds_records_def dest: mergeEntries_Nil split: legacy_dir.splits)

lemma importLegacyRecords_empty:
  assumes "importLegacyRecords disk = Inr s"
  shows "os_Revisions s = [] \<and> os_Publications s = [] \<and> os_SyncRecords s = [] \<longleftrightarrow> \<not> legacy_records disk"
  using assms by (auto simp: importLegacyRecords_def legacy_records_def dest!: mergeLegacyJSON_Nil)

lemma legacyEvidence_Inr:
  "legacyEvidence uc read_blob ctx rs a = Inr b \<Longrightarrow>
     (b \<longleftrightarrow> a \<or> (\<exists>r \<in> set rs. validateRevisionEvidence uc read_blob ctx r \<noteq> None \<and> legacyRevisionAwaitsEvidenceEnrichment r)) \<and>
     (b \<or> (\<forall>r \<in> set rs. validateRevisionEvidence uc read_blob ctx r = None))"
  by (induction rs arbitrary: a) (auto split: option.splits if_splits)

lemma revision_values: "set (map (\<lambda>key. the (map_of m key)) (sort_strings (map_keys m))) = ran (map_of m)"
proof -
  have "(\<lambda>key. the (map_of m key)) ` fst ` set m = ran (map_of m)"
    by (auto simp: ran_def image_iff dom_map_of_conv_image_fst [symmetric]) (metis domI map_of_eq_Some_iff option.sel weak_map_of_SomeI)+
  then show ?thesis by (simp add: map_keys_def)
qed

lemma migrateLegacyRecords_awaiting:
  assumes "migrateLegacyRecords uc read_blob ctx s = Inr (s', awaiting)"
  shows "awaiting \<longleftrightarrow> awaits_evidence uc read_blob ctx s'"
    and "\<not> awaiting \<Longrightarrow> r \<in> ran (map_of (os_Revisions s')) \<Longrightarrow> validateRevisionEvidence uc read_blob ctx r = None"
proof -
  have e: "legacyEvidence uc read_blob ctx (map (\<lambda>key. the (map_of (os_Revisions s') key)) (sort_strings (map_keys (os_Revisions s')))) False =
      Inr awaiting"
    using assms by (auto simp: migrateLegacyRecords_def)
  note legacyEvidence_Inr [OF e, unfolded revision_values]
  then show "awaiting \<longleftrightarrow> awaits_evidence uc read_blob ctx s'"
    and "\<not> awaiting \<Longrightarrow> r \<in> ran (map_of (os_Revisions s')) \<Longrightarrow> validateRevisionEvidence uc read_blob ctx r = None"
    by (auto simp: awaits_evidence_def)
qed

lemma loadLegacyState_settles:
  assumes "loadLegacyState uc read_blob ctx wState wMarker disk = (disk', Inr s)"
  shows "store_valid uc s"
    and "if legacy_records disk \<and> \<not> awaits_evidence uc read_blob ctx s
         then settled_as uc disk' s \<and> (\<forall>r \<in> ran (map_of (os_Revisions s)). validateRevisionEvidence uc read_blob ctx r = None)
         else disk' = disk"
proof -
  obtain s0 where s0: "importLegacyRecords disk = Inr s0"
    using assms by (auto simp: loadLegacyState_def split: sum.splits)
  note wf = importLegacyRecords_wf [OF s0] and records = importLegacyRecords_empty [OF s0]
  have "store_valid uc s \<and> (if legacy_records disk \<and> \<not> awaits_evidence uc read_blob ctx s
      then settled_as uc disk' s \<and> (\<forall>r \<in> ran (map_of (os_Revisions s)). validateRevisionEvidence uc read_blob ctx r = None) else disk' = disk)"
  proof (cases "legacy_records disk")
    case False
    then have "s0 = newOperationalState"
      using s0 records by (auto simp: importLegacyRecords_def newOperationalState_def map_keys_def)
    then show ?thesis using assms s0 records False store_valid_new by (simp add: loadLegacyState_def)
  next
    case True
    then obtain s1 awaiting where s1: "migrateLegacyRecords uc read_blob ctx s0 = Inr (s1, awaiting)"
      "if awaiting then disk' = disk \<and> s = s1
       else publishLoaded (Wrapf ''persist legacy operational state migration: %w'' []) ctx wState wMarker disk s1 = (disk', Inr s)"
      using assms s0 records by (auto simp: loadLegacyState_def split: sum.splits prod.splits if_splits)
    have v: "store_valid uc s1" using migrateLegacyRecords_Inr [OF s1(1)] wf by simp
    note aw = migrateLegacyRecords_awaiting [OF s1(1)]
    show ?thesis
    proof (cases awaiting)
      case True
      then show ?thesis using s1(2) v aw(1) by simp
    next
      case False
      then have p: "publishLoaded (Wrapf ''persist legacy operational state migration: %w'' []) ctx wState wMarker disk s1 = (disk', Inr s)"
        using s1(2) by simp
      note publishLoaded_Inr [OF p]
      then show ?thesis using v aw(1) aw(2) [OF False] False \<open>legacy_records disk\<close> by (simp add: settled_as_def)
    qed
  qed
  then show "store_valid uc s" and "if legacy_records disk \<and> \<not> awaits_evidence uc read_blob ctx s
      then settled_as uc disk' s \<and> (\<forall>r \<in> ran (map_of (os_Revisions s)). validateRevisionEvidence uc read_blob ctx r = None)
      else disk' = disk" by blast+
qed

lemma store_valid_migrated [simp]: "store_valid uc (s\<lparr>os_migratedRevisions := xs\<rparr>) = store_valid uc s"
  by (simp add: store_valid_def maps_wf_def)

text \<open>
  C11: Loading settles the store. Whatever version wrote the directory, a load that returns a state returns a
  valid one. It leaves that very state behind in the state file under the current schema marker, so that
  loading again, whatever the disk then answers, writes nothing and returns it. The only directories it leaves
  untouched without a state file are those that hold no legacy record either, and those of which an imported
  revision still awaits the evidence that a save may complete it with.
\<close>

theorem loading_settles_the_store:
  assumes "loadOperationalStateLocked uc read_blob ctx0 ctx wState wMarker disk = (disk', Inr s)" and "disk_wf disk"
  shows "store_valid uc s \<and>
    (if sd_State disk = FileMissing \<and> (\<not> legacy_records disk \<or> awaits_evidence uc read_blob ctx s) then disk' = disk
     else sd_State disk' = FileHolds (s\<lparr>os_migratedRevisions := []\<rparr>) \<and> sd_Marker disk' = FileHolds operationalStateVersion \<and>
       (\<forall>read_blob ctx wState wMarker. loadOperationalStateLocked uc read_blob None ctx wState wMarker disk' =
          (disk', Inr (s\<lparr>os_migratedRevisions := []\<rparr>))))"
proof -
  obtain marker where m: "loadOperationalSchemaMarker ctx0 (sd_Marker disk) = Inr marker"
    using assms(1) by (auto simp: loadOperationalStateLocked_def split: sum.splits)
  have "store_valid uc s \<and> (if sd_State disk = FileMissing \<and> (\<not> legacy_records disk \<or> awaits_evidence uc read_blob ctx s)
      then disk' = disk else settled_as uc disk' s)"
  proof (cases "sd_State disk")
    case FileMissing
    then have "loadLegacyState uc read_blob ctx wState wMarker disk = (disk', Inr s)"
      using assms(1) m by (auto simp: loadOperationalStateLocked_def split: if_splits)
    then show ?thesis using FileMissing loadLegacyState_settles [of uc read_blob ctx wState wMarker disk disk' s] by (auto split: if_splits)
  next
    case (FileHolds f)
    then have "loadStoredState uc read_blob ctx wState wMarker marker disk f = (disk', Inr s)"
      using assms(1) m by (simp add: loadOperationalStateLocked_def)
    then show ?thesis using FileHolds m loadStoredState_settles assms(2) by (auto simp: disk_wf_def settled_as_def)
  qed (use assms(1) m in \<open>auto simp: loadOperationalStateLocked_def\<close>)
  then show ?thesis using load_current by (auto simp: settled_as_def)
qed

section \<open>Transactions on the files refine transactions on the state\<close>

definition held :: "store_disk \<Rightarrow> operational_state" where
  "held disk = (case sd_State disk of FileHolds s \<Rightarrow> s | _ \<Rightarrow> newOperationalState)"

text \<open>
  A directory the current version has written to: still empty, or with a valid state and a marker that
  is missing (a commit that died before writing it), older or current.
\<close>

definition settled :: "unicode_case \<Rightarrow> store_disk \<Rightarrow> bool" where
  "settled uc disk \<longleftrightarrow>
     (case sd_State disk of
        FileMissing \<Rightarrow> sd_Marker disk = FileMissing \<and> sd_Revisions disk = DirMissing \<and> sd_Publications disk = DirMissing \<and>
          sd_SyncRecords disk = DirMissing
      | FileHolds s \<Rightarrow> store_valid uc s \<and> os_migratedRevisions s = [] \<and>
          (sd_Marker disk = FileMissing \<or> sd_Marker disk = FileHolds authenticatedStateVersion \<or>
           sd_Marker disk = FileHolds operationalStateVersion)
      | _ \<Rightarrow> False)"

lemma settled_held: "settled uc disk \<Longrightarrow> store_valid uc (held disk) \<and> os_migratedRevisions (held disk) = []"
  by (cases "sd_State disk") (simp_all add: settled_def held_def store_valid_new, simp add: newOperationalState_def)

lemma persist_settled:
  assumes "persistOperationalSchemaMarker ctx w operationalStateVersion file = (file', e)"
    and "file = FileMissing \<or> file = FileHolds authenticatedStateVersion \<or> file = FileHolds operationalStateVersion"
  shows "file' = FileMissing \<or> file' = FileHolds authenticatedStateVersion \<or> file' = FileHolds operationalStateVersion"
  using assms
  by (auto simp: persistOperationalSchemaMarker_def loadOperationalSchemaMarker_def writeFile_def
      split: sum.splits option.splits if_splits write_outcome.splits stored_file.splits)

lemma load_settled:
  assumes "loadOperationalStateLocked uc read_blob ctx0 ctx wState wMarker disk = (disk', r)" and "settled uc disk"
  shows "settled uc disk' \<and> held disk' = held disk \<and> (r = Inr (held disk) \<or> (\<exists>e. r = Inl e))"
proof (cases "sd_State disk")
  case FileMissing
  then have "(disk', r) = (disk, Inr newOperationalState) \<or> (\<exists>e. (disk', r) = (disk, Inl e))"
    using assms
    by (auto simp: loadOperationalStateLocked_def settled_def loadOperationalSchemaMarker_def loadLegacyState_def
        importLegacyRecords_def mergeLegacyJSON_def newOperationalState_def map_keys_def bind_res_def require_def
        split: sum.splits option.splits)
  then show ?thesis using assms(2) FileMissing by (auto simp: held_def)
next
  case (FileHolds s)
  then have s: "store_valid uc s" "os_migratedRevisions s = []"
    "sd_Marker disk = FileMissing \<or> sd_Marker disk = FileHolds authenticatedStateVersion \<or> sd_Marker disk = FileHolds operationalStateVersion"
    using assms(2) by (simp_all add: settled_def)
  obtain marker where "loadOperationalSchemaMarker ctx0 (sd_Marker disk) = Inr marker \<and>
      loadStoredState uc read_blob ctx wState wMarker marker disk s = (disk', r) \<or> disk' = disk \<and> (\<exists>e. r = Inl e)"
    using assms(1) FileHolds by (auto simp: loadOperationalStateLocked_def split: sum.splits)
  moreover have "(\<exists>file. disk' = disk\<lparr>sd_Marker := file\<rparr> \<and> (file = FileMissing \<or> file = FileHolds authenticatedStateVersion \<or>
      file = FileHolds operationalStateVersion)) \<and> (r = Inr s \<or> (\<exists>e. r = Inl e))"
    if "loadStoredState uc read_blob ctx wState wMarker marker disk s = (disk', r)"
    using that s persist_settled [OF _ s(3)]
    by (auto simp: loadStoredState_def store_valid_def first_error.simps legacyOperationalStateVersion_def decisionOperationalStateVersion_def
        authenticatedStateVersion_def operationalStateVersion_def split: if_splits prod.splits option.splits)
      (metis store_disk.surjective store_disk.update_convs(2))+
  ultimately show ?thesis using assms(2) FileHolds s by (auto simp: held_def settled_def)
qed (use assms(2) in \<open>simp_all add: settled_def\<close>)

lemma publishOnDisk_simulates:
  assumes "publishOnDisk ctx wState wMarker s disk = (disk', e)" and "settled uc disk"
  shows "(disk' = disk \<or> sd_State disk' = FileHolds (s\<lparr>os_migratedRevisions := []\<rparr>) \<and>
      (sd_Marker disk' = FileMissing \<or> sd_Marker disk' = FileHolds authenticatedStateVersion \<or>
       sd_Marker disk' = FileHolds operationalStateVersion)) \<and>
    (\<exists>outcome. publishCurrentOperationalState outcome (held disk) s = (held disk', e))"
proof (cases "os_Version s = operationalStateVersion \<and> ctx = None")
  case False
  then have "disk' = disk \<and> (\<exists>x. e = Some x) \<and>
      (os_Version s \<noteq> operationalStateVersion \<longrightarrow> e = Some (Errorf ''cannot publish non-current operational state version %d'' []))"
    using assms(1) by (auto simp: publishOnDisk_def split: if_splits option.splits)
  moreover from this obtain x where "e = Some x" by blast
  ultimately show ?thesis
    by (intro conjI disjI1 exI [of _ "PublishRejected x"]) (auto simp: publishCurrentOperationalState_def)
next
  case True
  have m: "sd_Marker disk = FileMissing \<or> sd_Marker disk = FileHolds authenticatedStateVersion \<or> sd_Marker disk = FileHolds operationalStateVersion"
    using assms(2) by (auto simp: settled_def split: stored_file.splits)
  obtain mfile me where p: "persistOperationalSchemaMarker ctx wMarker operationalStateVersion (sd_Marker disk) = (mfile, me)"
    by (meson surj_pair)
  note mf = persist_settled [OF p m]
  show ?thesis
  proof (cases wState)
    case (WriteRejected x)
    then show ?thesis
      using assms(1) True by (intro conjI exI [of _ "PublishRejected x"])
        (auto simp: publishOnDisk_def writeFile_def publishCurrentOperationalState_def)
  next
    case (WriteUnconfirmed x)
    then show ?thesis
      using assms(1) True m by (intro conjI exI [of _ "PublishUnconfirmed x"])
        (auto simp: publishOnDisk_def writeFile_def publishCurrentOperationalState_def held_def)
  next
    case WriteConfirmed
    then show ?thesis
      using assms(1) True mf p
      by (intro conjI exI [of _ "case me of None \<Rightarrow> PublishConfirmed | Some x \<Rightarrow> MarkerFailed x"])
        (auto simp: publishOnDisk_def writeFile_def publishCurrentOperationalState_def held_def wrap_err_def split: option.splits)
  qed
qed

lemma WithinFiles_simulates:
  assumes "WithinFiles uc read_blob ctx0 admitted ctx loadWrites commitWrites callback failure disk = (disk', r)" and "settled uc disk"
  shows "(settled uc disk' \<or> sd_State disk' = FileHolds (held disk') \<and> os_migratedRevisions (held disk') = [] \<and>
      (sd_Marker disk' = FileMissing \<or> sd_Marker disk' = FileHolds authenticatedStateVersion \<or>
       sd_Marker disk' = FileHolds operationalStateVersion)) \<and>
    (\<exists>started outcome. Within uc read_blob started ctx outcome callback failure (held disk) = (held disk', r))"
    (is "?ok disk' \<and> ?runs disk' r")
proof (cases "first_error [ctx0, admitted]")
  case (Some e)
  then have "disk' = disk" "r = Inl (failure e)" using assms(1) by (simp_all add: WithinFiles_def del: first_error_None)
  moreover have "?runs disk (Inl (failure e))" by (intro exI [of _ "Some e"]) (simp add: Within_def)
  ultimately show ?thesis using assms(2) by simp
next
  case None
  obtain d lr where d: "loadOperationalStateLocked uc read_blob ctx ctx (fst loadWrites) (snd loadWrites) disk = (d, lr)"
    by (meson surj_pair)
  note l = load_settled [OF d assms(2)]
  show ?thesis
  proof (cases lr)
    case (Inl e)
    then have "disk' = d" "r = Inl (failure e)" using assms(1) d None by (simp_all add: WithinFiles_def del: first_error_None)
    moreover have "?runs d (Inl (failure e))" using l by (intro exI [of _ "Some e"]) (simp add: Within_def)
    ultimately show ?thesis using l by simp
  next
    case (Inr s)
    then have s: "s = held disk" "held d = held disk" "settled uc d" using l by auto
    consider e where "callback (begin_transaction s) = Inl e"
      | v t e where "callback (begin_transaction s) = Inr (v, t)"
          "first_error [validateOperationalState uc read_blob ctx s (tx_state t) (tx_mutatedRevisions t),
             validateCommittedReleaseTracks (tx_validatedReleaseTracks t) (os_ReleaseTracks (tx_state t))] = Some e"
      | v t where "callback (begin_transaction s) = Inr (v, t)"
          "first_error [validateOperationalState uc read_blob ctx s (tx_state t) (tx_mutatedRevisions t),
             validateCommittedReleaseTracks (tx_validatedReleaseTracks t) (os_ReleaseTracks (tx_state t))] = None"
      by (metis not_None_eq old.prod.exhaust sum.exhaust)
    then show ?thesis
    proof cases
      case (1 e)
      then have "disk' = d" "r = Inl e" using assms(1) d None Inr by (simp_all add: WithinFiles_def del: first_error_None)
      moreover have "?runs d (Inl e)" using 1 s by (intro exI [of _ None]) (simp add: Within_def)
      ultimately show ?thesis using s by simp
    next
      case (2 v t e)
      then have "disk' = d" "r = Inl (failure e)" using assms(1) d None Inr by (simp_all add: WithinFiles_def del: first_error_None)
      moreover have "?runs d (Inl (failure e))" using 2 s by (intro exI [of _ None]) (simp add: Within_def del: first_error_None)
      ultimately show ?thesis using s by simp
    next
      case (3 v t)
      obtain pe where p: "publishOnDisk ctx (fst commitWrites) (snd commitWrites) (tx_state t) d = (disk', pe)"
        "r = (case pe of None \<Rightarrow> Inr v | Some e \<Rightarrow> Inl (failure e))"
        using assms(1) d None Inr 3 by (auto simp: WithinFiles_def simp del: first_error_None split: prod.splits option.splits)
      obtain outcome where o: "publishCurrentOperationalState outcome (held d) (tx_state t) = (held disk', pe)"
        using publishOnDisk_simulates [OF p(1) s(3)] by blast
      have "?ok disk'" using publishOnDisk_simulates [OF p(1) s(3)] s(3) by (auto simp: held_def)
      moreover have "Within uc read_blob None ctx outcome callback failure (held disk) = (held disk', r)"
        using 3 s o p(2) by (simp add: Within_def del: first_error_None split: option.splits)
      ultimately show ?thesis by blast
    qed
  qed
qed

text \<open>
  C10: A transaction on the files is a transaction on the state they hold. From a directory the
  current version has written to, readable and with a marker that may still be missing, whatever the operating
  system answers to the writes of the load, the state write and the marker write: the directory stays of that kind,
  and the state it holds and the result the caller gets are those of \<open>Within\<close> for one of its outcomes.
\<close>

theorem file_transactions_refine_the_store:
  assumes "settled uc disk" and "uses_operations uc callback"
    and "WithinFiles uc read_blob ctx0 admitted ctx loadWrites commitWrites callback failure disk = (disk', r)"
  shows "settled uc disk' \<and>
    (\<exists>started outcome. Within uc read_blob started ctx outcome callback failure (held disk) = (held disk', r))"
proof -
  note sim = WithinFiles_simulates [OF assms(3,1)]
  then obtain started outcome where "Within uc read_blob started ctx outcome callback failure (held disk) = (held disk', r)" by blast
  then have "store_valid uc (held disk')" using Within_step(1) settled_held [OF assms(1)] assms(2) by blast
  then show ?thesis using sim by (auto simp: settled_def)
qed

section \<open>Legacy revisions that await their evidence\<close>

definition saveRevisionIn ::
    "unicode_case \<Rightarrow> err \<Rightarrow> contract_revision \<Rightarrow> operational_transaction \<Rightarrow> go_error + unit \<times> operational_transaction" where
  "saveRevisionIn uc ctx revision t = bind_res (tx_SaveRevision uc ctx revision t) (\<lambda>t. Inr ((), t))"

lemma saved_revision_keeps_stale:
  assumes "tx_SaveRevision uc ctx revision t = Inr t'" and "vr_ContractID revision \<noteq> []"
    and "k \<in> set (tx_mutatedRevisions t)" "map_of (os_Revisions (tx_state t)) k = None" "CHR 0x00 \<notin> set k"
  shows "k \<in> set (tx_mutatedRevisions t') \<and> map_of (os_Revisions (tx_state t')) k = None"
proof -
  have "revisionStorageKey revision \<noteq> k"
    using assms(2,5) by (auto simp: revisionStorageKey_def revisionKey_def nul_def)
  then show ?thesis
    using assms(1,3,4)
    by (auto simp: tx_SaveRevision_def existingRevision_def Let_def set_add_def set_remove_def map_of_delete
        split: option.splits if_splits)
qed

text \<open>
  C14: A flat legacy revision that awaits its evidence cannot be completed once a record refers to it.
  Loading adopts the revision and stores it under the key of its contract, but the set of migrated
  revisions still names its bare id; the commit of the \<open>SaveRevision\<close> that would complete it looks for
  that id, does not find it and is refused, for every revision and whatever the disk answers.
\<close>

theorem adopted_legacy_revision_cannot_be_completed:
  assumes "loadOperationalStateLocked uc read_blob ctx ctx (fst loadWrites) (snd loadWrites) disk = (disk', Inr s)"
    and "k \<in> set (os_migratedRevisions s)" and "map_of (os_Revisions s) k = None" and "CHR 0x00 \<notin> set k"
    and "vr_ContractID revision \<noteq> []"
  shows "\<exists>e. WithinFiles uc read_blob None None ctx loadWrites commitWrites (saveRevisionIn uc ctx revision) id disk = (disk', Inl e)"
proof (cases "tx_SaveRevision uc ctx revision (begin_transaction s)")
  case (Inl e)
  then show ?thesis using assms(1) by (simp add: WithinFiles_def first_error.simps saveRevisionIn_def bind_res_def)
next
  case (Inr t)
  have k: "k \<in> set (tx_mutatedRevisions t)" "map_of (os_Revisions (tx_state t)) k = None"
    using saved_revision_keeps_stale [OF Inr assms(5) _ _ assms(4)] assms(2,3)
    by (simp_all add: begin_transaction_def cloneOperationalState_def)
  have "validateOperationalState uc read_blob ctx s (tx_state t) (tx_mutatedRevisions t) \<noteq> None"
  proof
    assume "validateOperationalState uc read_blob ctx s (tx_state t) (tx_mutatedRevisions t) = None"
    then show False using k by (auto simp: validateOperationalState_def)
  qed
  then have "first_error [validateOperationalState uc read_blob ctx s (tx_state t) (tx_mutatedRevisions t),
      validateCommittedReleaseTracks (tx_validatedReleaseTracks t) (os_ReleaseTracks (tx_state t))] \<noteq> None"
    by simp
  then obtain e where e: "first_error [validateOperationalState uc read_blob ctx s (tx_state t) (tx_mutatedRevisions t),
      validateCommittedReleaseTracks (tx_validatedReleaseTracks t) (os_ReleaseTracks (tx_state t))] = Some e"
    by blast
  have started: "first_error [None, None] = None" by simp
  have "saveRevisionIn uc ctx revision (begin_transaction s) = Inr ((), t)"
    using Inr by (simp add: saveRevisionIn_def bind_res_def)
  then show ?thesis unfolding WithinFiles_def started using assms(1) e by simp
qed

section \<open>Withdrawing a publication that was migrated\<close>

definition savePublicationIn ::
    "err \<Rightarrow> publication \<Rightarrow> operational_transaction \<Rightarrow> go_error + unit \<times> operational_transaction" where
  "savePublicationIn ctx publication t = bind_res (tx_SavePublication ctx publication t) (\<lambda>t. Inr ((), t))"

abbreviation publication_key :: "publication \<Rightarrow> string" where
  "publication_key p \<equiv> publicationKey (pub_ProjectID p) (pub_RevisionID p)"

text \<open>What every stored publication has passed.\<close>

lemma valid_publication:
  assumes "store_valid uc s" and "map_of (os_Publications s) k = Some p"
  shows "validatePublicPath (pub_Path p) = None" and "canonical (pub_ProjectID p)" and "canonical (pub_RevisionID p)"
    and "canonical (pub_Hostname p) \<or> pub_Hostname p = []"
    and "\<exists>r. revisionForContract s (pub_ProjectID p) (pub_RevisionID p) = Some r \<and> r \<in> ran (map_of (os_Revisions s))"
proof -
  note m = map_of_SomeD [OF assms(2)]
  have "validateID (pub_ProjectID p) = None" "validateID (pub_RevisionID p) = None" "validatePublicPath (pub_Path p) = None"
    "ValidateCanonicalIdentity ''persisted publication hostname'' (pub_Hostname p) True = None"
    using m store_valid_fields(4) [OF assms(1)] by (fastforce simp: validatePersistedOperationalIdentities_def)+
  then show "validatePublicPath (pub_Path p) = None" "canonical (pub_ProjectID p)" "canonical (pub_RevisionID p)"
    "canonical (pub_Hostname p) \<or> pub_Hostname p = []"
    by (auto dest: validateID_canonical)
  have "requireOwnedRevision s (pub_ProjectID p) (pub_RevisionID p) (''publication '' @ k) = None"
    using m store_valid_fields(2) [OF assms(1)] by (fastforce simp: validateOperationalReferences_def)
  then show "\<exists>r. revisionForContract s (pub_ProjectID p) (pub_RevisionID p) = Some r \<and> r \<in> ran (map_of (os_Revisions s))"
    by (auto simp: requireOwnedRevision_def revisionForContract_def intro: ranI split: option.splits if_splits)
qed

lemma saved_private:
  assumes "tx_SavePublication ctx p t = Inr t'" and "\<not> pub_Public p"
    and "revisionForContract (tx_state t) (pub_ProjectID p) (pub_RevisionID p) \<noteq> None"
  shows "tx_state t' = (tx_state t)\<lparr>os_Publications := map_put (publication_key p) p (os_Publications (tx_state t))\<rparr>"
proof -
  obtain u where "tx_bindRevisionOwner (pub_ProjectID p) (pub_RevisionID p) (''publication '' @ publication_key p) t = Inr u"
    and t': "t' = u\<lparr>tx_state := (tx_state u)\<lparr>os_Publications := map_put (publication_key p) p (os_Publications (tx_state u))\<rparr>\<rparr>"
    using assms(1,2) unfolding tx_SavePublication_def Let_def require_Inr bind_res_Inr by auto
  moreover from this have "tx_state u = tx_state t"
    using assms(3)
    by (auto simp: tx_bindRevisionOwner_def bindRevisionOwner_def revisionForContract_def Let_def split: option.splits if_splits)
  ultimately show ?thesis by simp
qed

lemma withdrawn_route:
  assumes "unique_public pubs" and "distinct (map_keys pubs)" and "map_of pubs k = Some p" and "pub_Public p" and "\<not> pub_Public q"
    and "(k', c) \<in> set (map_put k q pubs)" and "pub_Public c"
  shows "pub_Path c \<noteq> pub_Path p"
proof
  assume path: "pub_Path c = pub_Path p"
  have "map_of (map_put k q pubs) k' = Some c"
    using distinct_keys_put [OF assms(2), of k q] assms(6) unfolding map_keys_def by (rule map_of_is_SomeI)
  then have "k' \<noteq> k" "map_of pubs k' = Some c" using assms(5,7) by (auto split: if_splits)
  then show False using assms(1,3,4,7) path unfolding unique_public_def by blast
qed

lemma scan_finds:
  assumes "\<forall>e \<in> set entries. legacy_record e \<longrightarrow> (\<exists>q. le_Value e = Inr q \<and> (pub_Public q \<and> pub_Path q = pub_Path p \<longrightarrow> q = p))"
    and "e \<in> set entries" and "legacy_record e" and "le_Value e = Inr p" and "pub_Public p"
  shows "scanLegacyPublications serve (pub_Path p) entries = serve p"
  using assms by (induction entries) (auto simp: bind_res_def split: sum.splits)

lemma mergeEntries_decoded:
  "mergeEntries namespace key entries target = Inr m \<Longrightarrow> e \<in> set entries \<Longrightarrow> legacy_record e \<Longrightarrow> \<exists>v. le_Value e = Inr v"
proof (induction namespace key entries target rule: mergeEntries.induct)
  case (2 namespace key entry entries target)
  show ?case
  proof (cases "legacy_record entry")
    case True
    then obtain v where v: "le_Value entry = Inr v"
      "mergeEntries namespace key entries (if map_of target (key v) = None then map_put (key v) v target else target) = Inr m"
      using 2(3) by (auto simp: bind_res_def wrap_res_def split: sum.splits)
    then show ?thesis using 2(2) [of v] 2(4,5) True by auto
  qed (use 2 in auto)
qed simp

text \<open>What is left of a migrated directory: its state is written, its flat files are not touched.\<close>

lemma migrated_directory:
  assumes "loadOperationalStateLocked uc read_blob None None wState wMarker disk = (disk', Inr s)"
    and "sd_State disk = FileMissing" and "sd_State disk' \<noteq> FileMissing"
  shows "settled_as uc disk' s" and "sd_Publications disk' = sd_Publications disk"
    and "r \<in> ran (map_of (os_Revisions s)) \<Longrightarrow> validateRevisionEvidence uc read_blob None r = None"
    and "sd_Publications disk = DirEntries entries \<Longrightarrow> e \<in> set entries \<Longrightarrow> legacy_record e \<Longrightarrow> \<exists>v. le_Value e = Inr v"
proof -
  have load: "loadLegacyState uc read_blob None wState wMarker disk = (disk', Inr s)"
    using assms(1,2) by (auto simp: loadOperationalStateLocked_def split: sum.splits if_splits)
  note l = loadLegacyState_settles [OF load]
  show "settled_as uc disk' s" and "r \<in> ran (map_of (os_Revisions s)) \<Longrightarrow> validateRevisionEvidence uc read_blob None r = None"
    using l(2) assms(2,3) by (auto split: if_splits)
  show "sd_Publications disk' = sd_Publications disk"
    using load by (auto simp: loadLegacyState_def publishLoaded_def publishOnDisk_def Let_def
        split: sum.splits prod.splits if_splits option.splits)
  show "\<exists>v. le_Value e = Inr v" if "sd_Publications disk = DirEntries entries" "e \<in> set entries" "legacy_record e"
    using load that mergeEntries_decoded
    by (auto simp: loadLegacyState_def importLegacyRecords_def mergeLegacyJSON_def bind_res_def split: sum.splits) blast
qed

lemma committed_on_disk:
  assumes "WithinFiles uc read_blob None None None loadWrites commitWrites callback id disk = (disk', Inr v)"
    and "sd_State disk = FileHolds s" and "sd_Marker disk = FileHolds operationalStateVersion" and "store_valid uc s"
  obtains t where "callback (begin_transaction s) = Inr (v, t)"
    and "validateOperationalState uc read_blob None s (tx_state t) (tx_mutatedRevisions t) = None"
    and "sd_State disk' = FileHolds ((tx_state t)\<lparr>os_migratedRevisions := []\<rparr>)" and "sd_Marker disk' = FileHolds operationalStateVersion"
    and "sd_Publications disk' = sd_Publications disk"
proof -
  obtain t where t: "callback (begin_transaction s) = Inr (v, t)"
    "validateOperationalState uc read_blob None s (tx_state t) (tx_mutatedRevisions t) = None"
    "publishOnDisk None (fst commitWrites) (snd commitWrites) (tx_state t) disk = (disk', None)"
    using assms(1) load_current [OF assms(2-4)]
    by (auto simp: WithinFiles_def first_error.simps split: sum.splits prod.splits option.splits)
  moreover have "sd_Publications disk' = sd_Publications disk"
    using t(3) by (auto simp: publishOnDisk_def Let_def split: prod.splits if_splits option.splits)
  ultimately show thesis using that publishOnDisk_None by blast
qed

text \<open>
  C9: Withdrawing a migrated publication does not hide it. A load imports a directory of flat legacy files and
  writes the state; afterwards \<open>SavePublication\<close> makes an imported, still public publication private and commits.
  The state then holds the publication as private and no public publication of its path, and the store loads
  that state again; but the flat file is still there, the lookup falls back to it, and the resolver serves the
  withdrawn publication to an anonymous reader. The route is assumed to be named by no other public record
  of the legacy directory, and blobs to read as they did when the directory was migrated.
\<close>

theorem withdrawn_publication_served_from_legacy_file:
  assumes "loadOperationalStateLocked uc read_blob None None wState wMarker disk = (disk', Inr s)"
    and "sd_State disk = FileMissing" and "sd_State disk' \<noteq> FileMissing"
    and "sd_Publications disk = DirEntries entries" and "entry \<in> set entries" and "legacy_record entry" and "le_Value entry = Inr p"
    and "\<forall>e \<in> set entries. \<forall>q. legacy_record e \<and> le_Value e = Inr q \<and> pub_Public q \<and> pub_Path q = pub_Path p \<longrightarrow> q = p"
    and "map_of (os_Publications s) (publication_key p) = Some p" and "pub_Public p"
    and "WithinFiles uc read_blob None None None loadWrites commitWrites (savePublicationIn None (p\<lparr>pub_Public := False\<rparr>)) id disk' =
      (disk'', Inr ())"
  shows "\<exists>s'. (\<forall>wState wMarker. loadOperationalStateLocked uc read_blob None None wState wMarker disk'' = (disk'', Inr s')) \<and>
    map_of (os_Publications s') (publication_key p) = Some (p\<lparr>pub_Public := False\<rparr>) \<and>
    (\<forall>k q. map_of (os_Publications s') k = Some q \<and> pub_Public q \<longrightarrow> pub_Path q \<noteq> pub_Path p) \<and>
    PublicationByPath (PublicPublicationByPath uc read_blob None None (Inr s') (sd_Publications disk'')) (pub_Path p) = Inr p"
proof -
  let ?s = "s\<lparr>os_migratedRevisions := []\<rparr>" and ?q = "p\<lparr>pub_Public := False\<rparr>"
  note m = migrated_directory [OF assms(1-3)]
  have valid: "store_valid uc ?s" and s: "store_valid uc s" using m(1) by (simp_all add: settled_as_def)
  note p = valid_publication [OF s assms(9)]
  obtain t where t: "savePublicationIn None ?q (begin_transaction ?s) = Inr ((), t)"
    "validateOperationalState uc read_blob None ?s (tx_state t) (tx_mutatedRevisions t) = None"
    "sd_State disk'' = FileHolds ((tx_state t)\<lparr>os_migratedRevisions := []\<rparr>)" "sd_Marker disk'' = FileHolds operationalStateVersion"
    "sd_Publications disk'' = DirEntries entries"
    using committed_on_disk [OF assms(11) _ _ valid] m(1,2) assms(4) by (auto simp: settled_as_def)
  let ?s' = "(tx_state t)\<lparr>os_migratedRevisions := []\<rparr>"
  have save: "tx_SavePublication None ?q (begin_transaction ?s) = Inr t"
    using t(1) by (auto simp: savePublicationIn_def)
  have revs: "os_Revisions (tx_state (begin_transaction ?s)) = os_Revisions s" "os_Publications (tx_state (begin_transaction ?s)) = os_Publications s"
    by (simp_all add: begin_transaction_def cloneOperationalState_def)
  then have fields: "os_Revisions ?s' = os_Revisions s" "os_Publications ?s' = map_put (publication_key p) ?q (os_Publications s)"
    using saved_private [OF save] p(5) by (auto simp: revisionForContract_def)
  have wf: "maps_wf ?s" "unique_public (os_Publications ?s)" using valid by (simp_all add: store_valid_def)
  have "maps_wf (tx_state t)"
    using SavePublication_ok [OF save] begin_transaction_ok(1) [OF wf] by (simp add: op_ok_def tx_ok_def)
  then have "store_valid uc (tx_state t)" using t(2) by (intro store_valid_loaded) (simp_all add: validateOperationalState_def)
  then have load: "loadOperationalStateLocked uc read_blob None None w w' disk'' = (disk'', Inr ?s')" for w w'
    using load_current t(3,4) by simp
  have pubs: "unique_public (os_Publications s)" "distinct (map_keys (os_Publications s))"
    using s by (simp_all add: store_valid_def maps_wf_def)
  have gone: "pub_Path c \<noteq> pub_Path p" if "(k, c) \<in> set (os_Publications ?s')" "pub_Public c" for k c
    using withdrawn_route [OF pubs assms(9,10), of ?q k c] that by (simp add: fields(2))
  then have "find (\<lambda>c. pub_Public c \<and> pub_Path c = pub_Path p) (map snd (os_Publications ?s')) = None"
    by (auto simp: find_None_iff)
  moreover have "validatePublicationRevisionEvidence uc read_blob None ?s' p = None"
    using p(5) m(3) fields(1) by (auto simp: validatePublicationRevisionEvidence_def revisionForContract_def split: option.splits if_splits)
  moreover have "scanLegacyPublications serve (pub_Path p) entries = serve p" for serve
    using m(4) [OF assms(4)] assms(8) by (intro scan_finds [OF _ assms(5-7,10)]) blast
  ultimately have "PublicPublicationByPath uc read_blob None None (Inr ?s') (sd_Publications disk'') (pub_Path p) = Inr p"
    using p(1) t(5) by (simp add: PublicPublicationByPath_def Let_def bind_res_def require_def first_error.simps)
  moreover have path: "ValidateCanonicalPublicPath name (pub_Path p) False = None" for name
    using p(1) by (auto simp: validatePublicPath_def ValidateCanonicalPublicPath_def split: if_splits)
  ultimately have "PublicationByPath (PublicPublicationByPath uc read_blob None None (Inr ?s') (sd_Publications disk'')) (pub_Path p) = Inr p"
    using p(2-4) path assms(10) by (simp add: PublicationByPath_def VisibleTo_def option.case_eq_if)
  moreover have "pub_Path c \<noteq> pub_Path p" if "map_of (os_Publications ?s') k = Some c" "pub_Public c" for k c
    using gone [OF map_of_SomeD [OF that(1)] that(2)] .
  moreover have "map_of (os_Publications ?s') (publication_key p) = Some ?q" by (simp add: fields(2))
  ultimately show ?thesis using load by blast
qed

end
