(* ===== verification/Sample_Store.thy ===== *)
theory Sample_Store
  imports Store_Readers
begin

text \<open>
  A concrete operational state with one published release, at which the theorems about reachable and
  valid states are applied: contract \<open>petstore\<close>, track \<open>stable\<close> following \<open>main\<close>, revision \<open>rev-2\<close>
  accepted over \<open>rev-1\<close> by the review \<open>review-1\<close> and live at \<open>/petstore\<close>.
\<close>

section \<open>Plain identities\<close>

definition plain_id :: "string \<Rightarrow> bool" where
  "plain_id s \<longleftrightarrow> s \<noteq> [] \<and> (\<forall>c \<in> set s. lower_hex_char c \<or> (97 \<le> bv c \<and> bv c \<le> 122) \<or> c = CHR ''-'')"

lemma plain_id_bytes:
  assumes "plain_id s" and "c \<in> set s"
  shows "32 < bv c \<and> bv c < 127 \<and> c \<noteq> CHR ''.'' \<and> c \<noteq> slash \<and> c \<noteq> CHR 0x5C"
proof -
  have "lower_hex_char c \<or> (97 \<le> bv c \<and> bv c \<le> 122) \<or> c = CHR ''-''" using assms by (simp add: plain_id_def)
  then show ?thesis by (auto simp: lower_hex_char_def)
qed

lemma plain_id_canonical: "plain_id s \<Longrightarrow> canonical s"
  using plain_id_bytes by (intro canonical_ascii) (auto simp: plain_id_def)

lemma plain_id_ne: "plain_id s \<Longrightarrow> s \<noteq> [] \<and> s \<noteq> ''.'' \<and> s \<noteq> ''..''"
  using plain_id_bytes [of s "CHR ''.''"] by (auto simp: plain_id_def)

lemma plain_id_clean: "plain_id s \<Longrightarrow> path_clean s = s"
proof -
  assume p: "plain_id s"
  then have "slash \<notin> set s" using plain_id_bytes by blast
  moreover obtain c r where "s = c # r" using p by (cases s) (auto simp: plain_id_def)
  ultimately show ?thesis using plain_id_ne [OF p] by (simp add: path_clean_def split_char_word Let_def del: split_char.simps) blast
qed

lemma plain_id_valid: "plain_id s \<Longrightarrow> validateID s = None"
proof -
  assume p: "plain_id s"
  note c = plain_id_canonical [OF p] and ne = plain_id_ne [OF p] and clean = plain_id_clean [OF p]
  have "slash \<notin> set s" "CHR 0x5C \<notin> set s" using plain_id_bytes [OF p] by blast+
  moreover from this have "\<not> has_prefix ''/'' s" by (cases s) auto
  moreover have "\<not> containsControlCharacter s" using c by (auto simp: canonical_def containsControlCharacter_def list_ex_iff)
  ultimately show ?thesis
    using c ne clean by (auto simp: validateID_def canonical_valid canonical_trim contains_any_def list_ex_iff)
qed

lemma plain_id_hex: "plain_id (s @ take n (sha256Hex v))" if "plain_id s"
  using that sha256Hex_chars [of _ v] by (auto simp: plain_id_def dest: in_set_takeD)

lemma sample_plain:
  "plain_id ''petstore''" "plain_id ''stable''" "plain_id ''rev-1''" "plain_id ''rev-2''" "plain_id ''review-1''"
  "plain_id ''sync-1''" "plain_id ''source''" "plain_id ''main''" "plain_id ''audit-''" "plain_id ''outbox-''"
  by (simp_all add: plain_id_def lower_hex_char_def)

lemmas sample_canonical_ids = sample_plain [THEN plain_id_canonical]
lemmas sample_valid_ids = sample_plain [THEN plain_id_valid]

section \<open>Evidence\<close>

definition release_snapshot :: "string \<Rightarrow> contract_snapshot" where
  "release_snapshot r = NewContractSnapshot ascii_case ''petstore'' r [] sample_index"

lemma release_snapshot_ok:
  "snapshot_ok ascii_case (release_snapshot ''rev-1'')" "snapshot_ok ascii_case (release_snapshot ''rev-2'')"
  unfolding release_snapshot_def
  by (rule NewContractSnapshot_ok [OF ascii_case_ok], use sample_canonical_ids sample_index_ok in auto)+

lemma release_snapshot_fields:
  "cs_ContractID (release_snapshot r) = ''petstore''" "cs_RevisionID (release_snapshot r) = r"
  "cs_SpecDigest (release_snapshot r) = sha256Hex []"
  by (simp_all add: release_snapshot_def NewContractSnapshot_def Let_def)

lemma release_plain: "plain_surface (release_snapshot r)"
proof -
  have "cs_Operations (release_snapshot r) = cs_Operations plain_baseline"
    by (simp add: release_snapshot_def plain_baseline_def verbs_snapshot_def NewContractSnapshot_def Let_def
        sample_index_def verbs_index_def)
  then show ?thesis using plain_props(5) by (simp add: plain_surface_def)
qed

definition sample_comparison :: comparison_report where
  "sample_comparison = evaluateComparison ComparisonReleaseImpact (release_snapshot ''rev-1'') (release_snapshot ''rev-2'')
     \<lparr>ep_Layers = [canon_layer default_repository], ep_RequireReleaseBaseline = False\<rparr> unix_epoch"

definition sample_report :: review_report where
  "sample_report = (case EvaluateReview ascii_case (sample_request_of (release_snapshot ''rev-1'') (release_snapshot ''rev-2'')) of
     Inr report \<Rightarrow> report\<lparr>rr_Verdict := po_Verdict (cr_Policy sample_comparison), rr_Comparisons := Slice [sample_comparison]\<rparr>
   | Inl _ \<Rightarrow> zero_report)"

lemma sample_diff:
  "df_BreakingChanges (diffValidatedContractSnapshots (release_snapshot ''rev-1'') (release_snapshot ''rev-2'')) = []"
  "df_AdditiveChanges (diffValidatedContractSnapshots (release_snapshot ''rev-1'') (release_snapshot ''rev-2'')) = []"
proof -
  have "cs_Operations (release_snapshot ''rev-2'') = cs_Operations (release_snapshot ''rev-1'')"
    "cs_Schemas (release_snapshot ''rev-2'') = cs_Schemas (release_snapshot ''rev-1'')"
    by (simp_all add: release_snapshot_def NewContractSnapshot_def Let_def)
  from same_surface_no_changes [OF release_snapshot_ok release_plain this]
  show "df_BreakingChanges (diffValidatedContractSnapshots (release_snapshot ''rev-1'') (release_snapshot ''rev-2'')) = []"
    "df_AdditiveChanges (diffValidatedContractSnapshots (release_snapshot ''rev-1'') (release_snapshot ''rev-2'')) = []" .
qed

lemma sample_comparison_fields:
  "cr_Kind sample_comparison = ComparisonReleaseImpact"
  "cr_Baseline sample_comparison = snapshotRef (release_snapshot ''rev-1'')"
  "cr_Candidate sample_comparison = snapshotRef (release_snapshot ''rev-2'')"
  "elems (cr_Findings sample_comparison) = []"
  "po_Verdict (cr_Policy sample_comparison) = VerdictPass"
  "elems (po_Decisions (cr_Policy sample_comparison)) = []"
  "elems (po_AppliedExceptions (cr_Policy sample_comparison)) = []"
  "elems (po_ExceptionDispositions (cr_Policy sample_comparison)) = []"
proof -
  have "pl_Exceptions (canon_layer default_repository) = []" by (simp add: default_layer_def canon_layer_def sortable_layer_def Let_def sort_slice_def clonePolicyLayer_def)
  then have d: "initial_dispositions [canon_layer default_repository] unix_epoch = []"
    by (simp add: initial_dispositions_def)
  have e: "sortSpecChanges [] = []" by simp
  show "cr_Kind sample_comparison = ComparisonReleaseImpact"
    "cr_Baseline sample_comparison = snapshotRef (release_snapshot ''rev-1'')"
    "cr_Candidate sample_comparison = snapshotRef (release_snapshot ''rev-2'')"
    "elems (cr_Findings sample_comparison) = []"
    "po_Verdict (cr_Policy sample_comparison) = VerdictPass"
    "elems (po_Decisions (cr_Policy sample_comparison)) = []"
    "elems (po_AppliedExceptions (cr_Policy sample_comparison)) = []"
    "elems (po_ExceptionDispositions (cr_Policy sample_comparison)) = []"
    by (simp_all add: sample_comparison_def evaluateComparison_def Let_def sample_diff EvaluateFindings_def sortPolicyResult_def d e elems_map_slice)
qed

lemma sample_report_fields:
  "ValidateReleaseReviewReportAgainstSnapshots ascii_case sample_report ''petstore'' (release_snapshot ''rev-1'')
     (release_snapshot ''rev-2'') = None"
  "rr_Verdict sample_report = VerdictPass" "rr_Comparisons sample_report = Slice [sample_comparison]"
  "elems (pp_Layers (rr_EffectivePolicy sample_report)) = [projectPolicyLayer (canon_layer default_repository)]"
  "rr_SchemaVersion sample_report = ReviewSchemaVersion" "rr_EngineVersion sample_report = ''v1''"
  "rr_ContractID sample_report = ''petstore''" "rr_EvaluatedAt sample_report = unix_epoch"
  "isLowerSHA256 (rr_PolicyDigest sample_report)"
proof -
  let ?old = "release_snapshot ''rev-1''" and ?new = "release_snapshot ''rev-2''"
  obtain report pullRequest where r: "EvaluateReview ascii_case (sample_request_of ?old ?new) = Inr report"
    "elems (rr_Comparisons report) = [pullRequest, sample_comparison]"
    "elems (pp_Layers (rr_EffectivePolicy report)) = [projectPolicyLayer (canon_layer default_repository)]"
    using sample_review_of [OF release_snapshot_ok release_snapshot_fields(1,1)] unfolding sample_comparison_def by blast
  have s: "sample_report = report\<lparr>rr_Verdict := po_Verdict (cr_Policy sample_comparison), rr_Comparisons := Slice [sample_comparison]\<rparr>"
    by (simp add: sample_report_def r(1))
  have u: "time_UTC unix_epoch = unix_epoch" by (simp add: unix_epoch_def time_UTC_def)
  show "ValidateReleaseReviewReportAgainstSnapshots ascii_case sample_report ''petstore'' ?old ?new = None"
    using release_comparison_accepted [OF r(1) _ _ r(2), of ?old] by (simp add: s sample_request_of_def default_layer_def map_keys_def)
  show "rr_Verdict sample_report = VerdictPass" "rr_Comparisons sample_report = Slice [sample_comparison]"
    "elems (pp_Layers (rr_EffectivePolicy sample_report)) = [projectPolicyLayer (canon_layer default_repository)]"
    by (simp_all add: s sample_comparison_fields r(3))
  show "rr_SchemaVersion sample_report = ReviewSchemaVersion" "rr_EngineVersion sample_report = ''v1''"
    "rr_ContractID sample_report = ''petstore''" "rr_EvaluatedAt sample_report = unix_epoch"
    "isLowerSHA256 (rr_PolicyDigest sample_report)"
    by (rule EvaluateReview_Inr [OF r(1)], simp add: s sample_request_of_def u,
        (auto simp: canonicalReviewPolicy_Inr Let_def)?)+
qed

definition sample_contract_review :: contract_review where
  "sample_contract_review = \<lparr>cv_ID = ''review-1'', cv_ContractID = ''petstore'', cv_BaselineRevisionID = ''rev-1'',
     cv_BaselineSpecDigest = cs_SpecDigest (release_snapshot ''rev-1''),
     cv_BaselineContractDigest = cs_ContractDigest (release_snapshot ''rev-1''), cv_CandidateRevisionID = ''rev-2'',
     cv_CandidateSpecDigest = cs_SpecDigest (release_snapshot ''rev-2''),
     cv_CandidateContractDigest = cs_ContractDigest (release_snapshot ''rev-2''), cv_Report = sample_report\<rparr>"

lemma contract_digest_lower: "isLowerSHA256 (cs_ContractDigest (release_snapshot r))"
  by (simp add: release_snapshot_def NewContractSnapshot_def Let_def)

lemma default_layer_canonical:
  "lp_Name (projectPolicyLayer (canon_layer default_repository)) = ''local''"
  "lp_Source (projectPolicyLayer (canon_layer default_repository)) = PolicySourceRepository"
  "elems (lp_Exceptions (projectPolicyLayer (canon_layer default_repository))) = []"
  "r \<in> set (elems (lp_Rules (projectPolicyLayer (canon_layer default_repository)))) \<Longrightarrow>
     canonical (rp_RuleID r) \<and> utf8_valid (rp_Level r)"
proof -
  show "lp_Name (projectPolicyLayer (canon_layer default_repository)) = ''local''"
    "lp_Source (projectPolicyLayer (canon_layer default_repository)) = PolicySourceRepository"
    by (simp_all add: projectPolicyLayer_def default_layer_def canon_layer_def sortable_layer_def Let_def clonePolicyLayer_def)
  show "elems (lp_Exceptions (projectPolicyLayer (canon_layer default_repository))) = []"
    by (simp add: projectPolicyLayer_def flip: set_empty) (simp add: default_layer_def)
  assume r: "r \<in> set (elems (lp_Rules (projectPolicyLayer (canon_layer default_repository))))"
  have m: "map_of (pl_Rules (canon_layer default_repository)) = map_of supportedRuleRegistry"
    by (simp add: map_from_fst_snd distinct_default_rules default_rules_lookup)
  obtain i where i: "i \<in> set (sortedRuleIDs (pl_Rules (canon_layer default_repository)))" and
    e: "r = \<lparr>rp_RuleID = i, rp_Level = rule_level (pl_Rules (canon_layer default_repository)) i\<rparr>"
    using r by (auto simp: projectPolicyLayer_def)
  have "map_of supportedRuleRegistry i \<noteq> None"
    using i unfolding sortedRuleIDs_def map_keys_def set_sort_slice set_map m [symmetric] by (auto simp: map_of_eq_None_iff)
  then obtain l where l: "map_of supportedRuleRegistry i = Some l" by blast
  then have "isSupportedRuleID i" by (auto simp: isSupported_iff dest!: map_of_SomeD intro!: image_eqI)
  moreover have "l \<in> {RuleLevelFail, RuleLevelWarn, RuleLevelAllow}" using registry_levels [OF l] by (auto simp: validRuleLevel_def)
  then have "utf8_valid l"
    by (auto intro!: utf8_valid_ascii simp: RuleLevelFail_def RuleLevelWarn_def RuleLevelAllow_def)
  moreover have level: "rule_level (pl_Rules (canon_layer default_repository)) i = l"
    unfolding rule_level_def m using l by simp
  ultimately show "canonical (rp_RuleID r) \<and> utf8_valid (rp_Level r)"
    using canonical_rule_ids level by (simp add: e)
qed

lemma sample_kind_canonical:
  "canonical ComparisonReleaseImpact" "canonical ReviewSchemaVersion" "canonical ''local''" "canonical PolicySourceRepository"
  "canonical ''v1''"
  by (rule canonical_ascii; simp add: ComparisonReleaseImpact_def ReviewSchemaVersion_def PolicySourceRepository_def)+

lemma sample_report_utf8: "s \<in> direct_strings (rv_report sample_report) \<Longrightarrow> utf8_valid s"
  using sample_canonical_ids sample_kind_canonical default_layer_canonical(4) contract_digest_lower sample_report_fields(9)
  by (auto simp: rv_report_def rv_slice_def rv_comparison_def rv_layer_projection_def rv_result_def rv_ref_def snapshotRef_def
      sample_report_fields sample_comparison_fields default_layer_canonical release_snapshot_fields
      intro: canonical_valid isLowerSHA256_valid)

lemma sample_review_identities: "ValidateContractReviewIdentities sample_contract_review = None"
proof -
  have "\<forall>s \<in> direct_strings (rv_review sample_contract_review). utf8_valid s"
    using sample_report_utf8 sample_canonical_ids contract_digest_lower
    by (auto simp: rv_review_def sample_contract_review_def release_snapshot_fields intro: canonical_valid isLowerSHA256_valid)
  moreover have "validateReviewLayerIdentities i (projectPolicyLayer (canon_layer default_repository)) = None" for i
    using sample_kind_canonical default_layer_canonical(4)
    by (simp add: validateReviewLayerIdentities_def Let_def default_layer_canonical)
  moreover have "validateReviewComparisonIdentities i sample_comparison = None" for i
    using sample_kind_canonical sample_canonical_ids contract_digest_lower
    by (simp add: validateReviewComparisonIdentities_def Let_def sample_comparison_fields validateSnapshotRef_def snapshotRef_def
        release_snapshot_fields)
  ultimately show ?thesis
    using sample_canonical_ids sample_kind_canonical
    by (simp add: ValidateContractReviewIdentities_def Let_def validateUTF8Strings_direct)
      (simp add: sample_contract_review_def sample_report_fields)
qed

section \<open>The published state\<close>

definition sample_revision :: "string \<Rightarrow> contract_revision" where
  "sample_revision r = \<lparr>vr_ID = r, vr_ContractID = ''petstore'', vr_SourceID = ''source'',
     vr_SpecBlobKey = ContentAddressedBlobKey [], vr_SpecDigest = cs_SpecDigest (release_snapshot r),
     vr_ContractDigest = cs_ContractDigest (release_snapshot r), vr_ReviewSnapshot = Some (release_snapshot r),
     vr_Ref = ''main'', vr_CommitSHA = [], vr_Version = [], vr_AuthorName = [], vr_AuthorEmail = [], vr_Message = []\<rparr>"

definition sample_sync :: sync_record where
  "sample_sync = \<lparr>sr_ID = ''sync-1'', sr_ProjectID = ''petstore'', sr_SourceID = ''source'', sr_RevisionID = ''rev-2'',
     sr_Trigger = [], sr_Ref = ''main'', sr_CommitSHA = [], sr_SpecPath = [], sr_Result = SyncResultSuccess,
     sr_ErrorSummary = [], sr_StartedAt = unix_epoch, sr_FinishedAt = unix_epoch\<rparr>"

definition sample_authorization :: release_authorization where
  "sample_authorization = \<lparr>ra_ContractID = ''petstore'', ra_TrackID = ''stable'', ra_ReviewID = ''review-1'',
     ra_SyncRecordID = ''sync-1'', ra_BaselineRevisionID = ''rev-1'', ra_CandidateRevisionID = ''rev-2'',
     ra_SourceID = ''source'', ra_BoundRef = ''main'', ra_PublicPath = ''/petstore'',
     ra_PolicyDigest = rr_PolicyDigest sample_report\<rparr>"

definition sample_release_decision :: release_decision where
  "sample_release_decision = \<lparr>rd_RevisionID = ''rev-2'', rd_ReviewID = ''review-1'',
     rd_ReviewDigest = sha256Hex (json_bytes (json_report sample_report)), rd_Verdict = VerdictPass, rd_Accepted = True,
     rd_EvaluatedAt = unix_epoch\<rparr>"

definition prepared_track :: release_track where
  "prepared_track = \<lparr>rt_ID = ''stable'', rt_ContractID = ''petstore'', rt_BoundRef = ''main'', rt_Mode = ReleaseModeFollowing,
     rt_Generation = 0, rt_CurrentRevisionID = ''rev-1'', rt_CandidateRevisionID = [], rt_LastDecision = None\<rparr>"

definition published_track :: release_track where
  "published_track = prepared_track\<lparr>rt_Generation := 1, rt_CurrentRevisionID := ''rev-2'',
     rt_LastDecision := Some sample_release_decision\<rparr>"

definition sample_event_id :: string where
  "sample_event_id = releaseTransitionEvidenceID sample_authorization True 1 TrackConsidered"

definition prepared_store :: operational_state where
  "prepared_store = newOperationalState\<lparr>
     os_Revisions := [(revisionKey ''petstore'' ''rev-1'', sample_revision ''rev-1''),
       (revisionKey ''petstore'' ''rev-2'', sample_revision ''rev-2'')],
     os_Reviews := [(''review-1'', sample_contract_review)], os_SyncRecords := [(''sync-1'', sample_sync)],
     os_ReleaseTracks := [(releaseTrackKey ''petstore'' ''stable'', prepared_track)],
     os_ReleaseTrackAuthorities := [(releaseTrackKey ''petstore'' ''stable'', newReleaseTrackAuthority prepared_track)],
     os_ReleaseAuthorizations := [(''review-1'', sample_authorization)]\<rparr>"

definition published_store :: operational_state where
  "published_store = prepared_store\<lparr>
     os_ReleaseTracks := [(releaseTrackKey ''petstore'' ''stable'', published_track)],
     os_ReleaseTrackAuthorities := [(releaseTrackKey ''petstore'' ''stable'', newReleaseTrackAuthority published_track)],
     os_Publications := [(publicationKey ''petstore'' ''rev-2'', release_publication sample_authorization)],
     os_AuditEvents := [(sample_event_id, release_event sample_authorization sample_event_id [] unix_epoch)],
     os_Outbox := [(outboxID sample_event_id, release_message sample_authorization sample_event_id unix_epoch)]\<rparr>"

lemma sample_keys:
  "revisionKey ''petstore'' ''rev-1'' \<noteq> revisionKey ''petstore'' ''rev-2''"
  "revisionKey ''petstore'' ''rev-2'' \<noteq> revisionKey ''petstore'' ''rev-1''"
  by (simp_all add: revisionKey_def)

lemma sample_event_plain: "plain_id sample_event_id" "plain_id (outboxID sample_event_id)"
proof -
  obtain v where e: "sample_event_id = ''audit-'' @ take 24 (sha256Hex v)"
    by (auto simp: sample_event_id_def releaseTransitionEvidenceID_def Let_def)
  show "plain_id sample_event_id" unfolding e by (rule plain_id_hex [OF sample_plain(9)])
  have "outboxID sample_event_id = ''outbox-'' @ take 24 (sha256Hex v)" by (simp add: e outboxID_def trim_prefix_def)
  then show "plain_id (outboxID sample_event_id)" using plain_id_hex [OF sample_plain(10)] by simp
qed

lemma sample_event_canonical: "canonical sample_event_id" "canonical (outboxID sample_event_id)"
  "validateID sample_event_id = None" "validateID (outboxID sample_event_id) = None"
  using sample_event_plain by (simp_all add: plain_id_canonical plain_id_valid)

lemma sample_path: "ValidateCanonicalPublicPath name ''/petstore'' b = None" "canonical ''/petstore''"
proof -
  show c: "canonical ''/petstore''" by (rule canonical_ascii) simp_all
  have "path_clean ''/petstore'' = ''/petstore''" by code_simp
  then show "ValidateCanonicalPublicPath name ''/petstore'' b = None"
    using c by (simp add: ValidateCanonicalPublicPath_def contains_char_def)
qed

lemma sample_revision_valid:
  assumes "r = ''rev-1'' \<or> r = ''rev-2''"
  shows "ValidateContractRevision ascii_case (sample_revision r) = None"
proof -
  have ok: "snapshot_ok ascii_case (release_snapshot r)" using assms release_snapshot_ok by auto
  have c: "canonical r" using assms sample_canonical_ids by auto
  have k: "canonical (ContentAddressedBlobKey [])"
    using sha256Hex_chars [of _ "[]"]
    by (intro canonical_ascii) (fastforce simp: ContentAddressedBlobKey_def lower_hex_char_def)+
  have "utf8_valid s" if "s \<in> direct_strings (rv_revision (sample_revision r))" for s
    using that sample_canonical_ids c k contract_digest_lower [of r] ok
    by (auto simp: rv_revision_def sample_revision_def release_snapshot_fields rv_snapshot_def rv_slice_def
        snapshot_ok_def surface_canonical_def operation_canonical_def
        intro: canonical_valid isLowerSHA256_valid)
  then show ?thesis
    using sample_canonical_ids c k ok contract_digest_lower
    by (simp add: ValidateContractRevision_def validateUTF8Strings_direct)
      (simp add: sample_revision_def release_snapshot_fields)
qed

lemma sample_tracks_ok: "track_ok prepared_track" "track_ok published_track"
proof -
  have "decision_ok sample_release_decision" "\<not> time_IsZero (rd_EvaluatedAt sample_release_decision)"
    using sample_canonical_ids by (simp_all add: decision_ok_def sample_release_decision_def) (simp_all add: unix_epoch_def time_IsZero_def)
  then show "track_ok prepared_track" "track_ok published_track"
    using sample_canonical_ids
    by (simp_all add: track_ok_def prepared_track_def published_track_def evidence_ok_def)
      (simp add: sample_release_decision_def)
qed

text \<open>The records both states share.\<close>

lemma store_fields:
  "os_Revisions published_store = os_Revisions prepared_store" "os_Reviews published_store = os_Reviews prepared_store"
  "os_SyncRecords published_store = os_SyncRecords prepared_store"
  "os_ReleaseAuthorizations published_store = os_ReleaseAuthorizations prepared_store"
  "os_Version published_store = operationalStateVersion" "os_Version prepared_store = operationalStateVersion"
  by (simp_all add: published_store_def prepared_store_def newOperationalState_def)

lemma prepared_lookup:
  assumes "s = prepared_store \<or> s = published_store"
  shows "revisionForContract s ''petstore'' ''rev-1'' = Some (sample_revision ''rev-1'')"
    "revisionForContract s ''petstore'' ''rev-2'' = Some (sample_revision ''rev-2'')"
    "os_Reviews s = [(''review-1'', sample_contract_review)]" "os_SyncRecords s = [(''sync-1'', sample_sync)]"
    "os_ReleaseAuthorizations s = [(''review-1'', sample_authorization)]"
  using assms
  by (auto simp: revisionForContract_def store_fields prepared_store_def sample_keys sample_revision_def)

lemma sample_owned:
  assumes "s = prepared_store \<or> s = published_store"
  shows "requireOwnedRevision s ''petstore'' ''rev-1'' owner = None" "requireOwnedRevision s ''petstore'' ''rev-2'' owner = None"
  using sample_canonical_ids(1) prepared_lookup(1,2) [OF assms]
  by (simp_all add: requireOwnedRevision_def canonical_trim sample_revision_def)

lemma sample_authorization_valid: "ValidateReleaseAuthorization sample_authorization = None"
proof -
  have "utf8_valid s" if "s \<in> direct_strings (rv_authorization sample_authorization)" for s
    using that sample_canonical_ids sample_path(2) sample_report_fields(9)
    by (auto simp: rv_authorization_def sample_authorization_def intro: canonical_valid isLowerSHA256_valid)
  then show ?thesis
    using sample_canonical_ids sample_path sample_report_fields(9)
    by (simp add: ValidateReleaseAuthorization_def validateUTF8Strings_direct validateCanonicalReleaseIdentity_def)
      (simp add: sample_authorization_def)
qed

lemma sample_bundle:
  assumes "s = prepared_store \<or> s = published_store"
  shows "validateReleaseAuthorizationBundle ascii_case s sample_authorization = None"
proof -
  have t: "\<exists>t. map_of (os_ReleaseTracks s) (releaseTrackKey ''petstore'' ''stable'') = Some t \<and> rt_BoundRef t = ''main''"
    using assms by (auto simp: published_store_def prepared_store_def published_track_def prepared_track_def)
  note l = prepared_lookup [OF assms]
  have a: "ra_ContractID sample_authorization = ''petstore''" "ra_TrackID sample_authorization = ''stable''"
    "ra_ReviewID sample_authorization = ''review-1''" "ra_SyncRecordID sample_authorization = ''sync-1''"
    "ra_BaselineRevisionID sample_authorization = ''rev-1''" "ra_CandidateRevisionID sample_authorization = ''rev-2''"
    "ra_BoundRef sample_authorization = ''main''" "ra_SourceID sample_authorization = ''source''"
    "ra_PolicyDigest sample_authorization = rr_PolicyDigest sample_report"
    by (simp_all add: sample_authorization_def)
  have r: "vr_ReviewSnapshot (sample_revision r) = Some (release_snapshot r)" "vr_SourceID (sample_revision r) = ''source''"
    "vr_Ref (sample_revision r) = ''main''" "vr_CommitSHA (sample_revision r) = []"
    "vr_SpecDigest (sample_revision r) = cs_SpecDigest (release_snapshot r)"
    "vr_ContractDigest (sample_revision r) = cs_ContractDigest (release_snapshot r)" for r
    by (simp_all add: sample_revision_def)
  have v: "cv_Report sample_contract_review = sample_report" by (simp add: sample_contract_review_def)
  show ?thesis
    using t sample_report_fields(1) sample_authorization_valid
    by (auto simp: validateReleaseAuthorizationBundle_def a l r v)
      (simp_all add: sample_contract_review_def sample_sync_def)
qed

lemma sample_sync_valid: "ValidateSyncRecord sample_sync = None"
proof -
  have r: "canonical SyncResultSuccess" by (rule canonical_ascii) (simp_all add: SyncResultSuccess_def)
  have "utf8_valid s" if "s \<in> direct_strings (rv_sync sample_sync)" for s
    using that sample_canonical_ids r by (auto simp: rv_sync_def sample_sync_def intro: canonical_valid)
  then show ?thesis
    using sample_canonical_ids r by (simp add: ValidateSyncRecord_def validateUTF8Strings_direct) (simp add: sample_sync_def)
qed

lemma sample_json: "CanonicalReviewJSON sample_report = Inr (json_bytes (json_report sample_report))"
proof -
  have "validateUTF8Strings [] ''review report'' (rv_report sample_report) = None"
    using sample_report_utf8 by (simp add: validateUTF8Strings_direct)
  moreover have "report_times_ok sample_report"
    by (simp add: report_times_ok_def policy_times_ok_def layer_times_ok_def result_times_ok_def sample_report_fields
        sample_comparison_fields default_layer_canonical) code_simp
  ultimately show ?thesis by (simp add: CanonicalReviewJSON_def require_def del: validateUTF8Strings_iff)
qed

lemma sample_kinds: "canonical TrackConsidered" "canonical TrackUpdated"
  by (rule canonical_ascii; simp add: TrackConsidered_def TrackUpdated_def)+

lemma sample_effects:
  "requireReleaseTransitionEffects published_store sample_authorization True 1 TrackConsidered TrackUpdated = None"
proof -
  have z: "\<not> time_IsZero unix_epoch" "t_loc unix_epoch = LocUTC" by (simp_all add: unix_epoch_def time_IsZero_def)
  let ?e = "release_event sample_authorization sample_event_id [] unix_epoch"
  let ?m = "release_message sample_authorization sample_event_id unix_epoch"
  have "ae_Kind ?e = TrackConsidered" "ae_OccurredAt ?e = unix_epoch" "ae_ContractID ?e = ra_ContractID sample_authorization"
    "ae_TrackID ?e = ra_TrackID sample_authorization" "ae_RevisionID ?e = ra_CandidateRevisionID sample_authorization"
    by (simp_all add: release_event_def TrackConsidered_def)
  moreover have "om_Topic ?m = TrackUpdated" "om_CreatedAt ?m = unix_epoch" "om_ContractID ?m = ra_ContractID sample_authorization"
    "om_TrackID ?m = ra_TrackID sample_authorization" "om_RevisionID ?m = ra_CandidateRevisionID sample_authorization"
    by (simp_all add: release_message_def TrackUpdated_def)
  moreover have "os_AuditEvents published_store = [(sample_event_id, ?e)]" "os_Outbox published_store = [(outboxID sample_event_id, ?m)]"
    by (simp_all add: published_store_def)
  ultimately show ?thesis
    by (simp add: requireReleaseTransitionEffects_def Let_def sample_event_id_def [symmetric] z time_Equal_def)
qed

lemma sample_decision_bundle: "validateReleaseDecisionBundle published_store published_track sample_release_decision sample_authorization = None"
proof -
  have p: "\<not> track_promoted published_track sample_release_decision"
    by (simp add: track_promoted_def published_track_def prepared_track_def)
  have r: "reviewOf published_store ''review-1'' = sample_contract_review" "syncResultOf published_store ''sync-1'' = SyncResultSuccess"
    using prepared_lookup(3,4) [of published_store] by (simp_all add: reviewOf_def syncResultOf_def sample_sync_def)
  have a: "ra_ContractID sample_authorization = ''petstore''" "ra_ReviewID sample_authorization = ''review-1''"
    "ra_SyncRecordID sample_authorization = ''sync-1''" "ra_CandidateRevisionID sample_authorization = ''rev-2''"
    "rd_Accepted sample_release_decision" "rt_Generation published_track = 1" "rt_CandidateRevisionID published_track = []"
    by (simp_all add: sample_authorization_def sample_release_decision_def published_track_def prepared_track_def)
  have q: "map_of (os_Publications published_store) (publicationKey ''petstore'' ''rev-2'') = Some (release_publication sample_authorization)"
    by (simp add: published_store_def)
  have j: "CanonicalReviewJSON (cv_Report sample_contract_review) = Inr (json_bytes (json_report sample_report))"
    using sample_json by (simp add: sample_contract_review_def)
  show ?thesis
    using sample_effects
    by (simp add: validateReleaseDecisionBundle_def Let_def p r a q j)
      (simp add: sample_release_decision_def sample_contract_review_def sample_report_fields release_publication_def a
        time_Equal_def)
qed

lemma sample_release_evidence:
  assumes "s = prepared_store \<or> s = published_store"
  shows "validateReleaseEvidenceAuthorities ascii_case s = None"
proof -
  have a: "rd_ReviewID sample_release_decision = ''review-1''" by (simp add: sample_release_decision_def)
  have k: "ra_ReviewID sample_authorization = ''review-1''" "ra_ContractID sample_authorization = rt_ContractID published_track"
    "ra_TrackID sample_authorization = rt_ID published_track" "ra_BoundRef sample_authorization = rt_BoundRef published_track"
    by (simp_all add: sample_authorization_def published_track_def prepared_track_def)
  have "os_ReleaseTracks s = [(releaseTrackKey ''petstore'' ''stable'', prepared_track)] \<or>
      s = published_store \<and> os_ReleaseTracks s = [(releaseTrackKey ''petstore'' ''stable'', published_track)]"
    using assms by (auto simp: published_store_def prepared_store_def)
  moreover have "rt_LastDecision prepared_track = None" "rt_LastDecision published_track = Some sample_release_decision"
    by (simp_all add: prepared_track_def published_track_def)
  ultimately show ?thesis
    unfolding validateReleaseEvidenceAuthorities_def prepared_lookup(5) [OF assms]
    using sample_bundle [OF assms] sample_decision_bundle a k
    by (auto simp: case_None_Some)
qed

lemma sample_identities:
  assumes "s = prepared_store \<or> s = published_store"
  shows "validatePersistedOperationalIdentities ascii_case s = None"
proof -
  have rev: "first_error
        [wrap_err (Wrapf ''persisted revision id: %w'' []) (validateID (vr_ID (sample_revision r))),
         wrap_err (Wrapf ''persisted revision: %w'' []) (ValidateContractRevision ascii_case (sample_revision r)),
         check_identities
           [(''persisted revision contract id'', vr_ContractID (sample_revision r), True),
            (''persisted revision source id'', vr_SourceID (sample_revision r), True),
            (''persisted revision ref'', vr_Ref (sample_revision r), True),
            (''persisted revision commit sha'', vr_CommitSHA (sample_revision r), True)],
         (case vr_ReviewSnapshot (sample_revision r) of None \<Rightarrow> None
          | Some s \<Rightarrow> wrap_err (Wrapf ''persisted revision canonical review snapshot: %w'' []) (ValidateContractSnapshot ascii_case s))] = None"
    if "r = ''rev-1'' \<or> r = ''rev-2''" for r
    using that sample_revision_valid [OF that] sample_canonical_ids sample_valid_ids release_snapshot_ok
    by (auto simp: sample_revision_def)
  have path: "validatePublicPath ''/petstore'' = None" using sample_path(1) by (simp add: validatePublicPath_def)
  have sync: "validateID (sr_ID sample_sync) = None" "sr_ID sample_sync = ''sync-1''" "sr_ProjectID sample_sync = ''petstore''"
    "sr_SourceID sample_sync = ''source''" "sr_RevisionID sample_sync = ''rev-2''" "sr_Trigger sample_sync = []"
    "sr_Ref sample_sync = ''main''" "sr_CommitSHA sample_sync = []" "sr_SpecPath sample_sync = []"
    using sample_valid_ids by (simp_all add: sample_sync_def)
  have a: "ra_ContractID sample_authorization = ''petstore''" "ra_TrackID sample_authorization = ''stable''"
    "ra_CandidateRevisionID sample_authorization = ''rev-2''" "ra_PublicPath sample_authorization = ''/petstore''"
    by (simp_all add: sample_authorization_def)
  have r: "os_Revisions s = [(revisionKey ''petstore'' ''rev-1'', sample_revision ''rev-1''),
       (revisionKey ''petstore'' ''rev-2'', sample_revision ''rev-2'')]"
    using assms by (auto simp: store_fields prepared_store_def)
  have p: "(k, v) \<in> set (os_Publications s) \<Longrightarrow> v = release_publication sample_authorization"
    "(k, e) \<in> set (os_AuditEvents s) \<Longrightarrow> e = release_event sample_authorization sample_event_id [] unix_epoch"
    "(k, m) \<in> set (os_Outbox s) \<Longrightarrow> m = release_message sample_authorization sample_event_id unix_epoch" for k v e m
    using assms by (auto simp: published_store_def prepared_store_def newOperationalState_def)
  have kinds: "canonical ''release.track.considered''" "canonical ''release.track.updated''"
    by (rule canonical_ascii; simp)+
  have "first_error
        [wrap_err (Wrapf ''persisted sync id: %w'' []) (validateID (sr_ID sample_sync)),
         wrap_err (Wrapf ''persisted sync record: %w'' []) (ValidateSyncRecord sample_sync),
         check_identities
           [(''persisted sync project id'', sr_ProjectID sample_sync, True), (''persisted sync source id'', sr_SourceID sample_sync, True),
            (''persisted sync revision id'', sr_RevisionID sample_sync, True), (''persisted sync trigger'', sr_Trigger sample_sync, True),
            (''persisted sync ref'', sr_Ref sample_sync, True), (''persisted sync commit sha'', sr_CommitSHA sample_sync, True),
            (''persisted sync spec path'', sr_SpecPath sample_sync, True)]] = None"
    using sample_sync_valid sync sample_canonical_ids by simp
  moreover have "\<forall>(k, v) \<in> set (os_Publications s). validateID (pub_ProjectID v) = None \<and> validateID (pub_RevisionID v) = None \<and>
      validatePublicPath (pub_Path v) = None \<and> (canonical (pub_Hostname v) \<or> pub_Hostname v = [])"
    using path sample_valid_ids by (auto dest!: p(1) simp: release_publication_def a)
  moreover have "\<forall>(k, v) \<in> set (os_AuditEvents s). validateID (ae_ID v) = None \<and> (canonical (ae_ContractID v) \<or> ae_ContractID v = []) \<and>
      (canonical (ae_TrackID v) \<or> ae_TrackID v = []) \<and> (canonical (ae_RevisionID v) \<or> ae_RevisionID v = []) \<and>
      (canonical (ae_ActorID v) \<or> ae_ActorID v = []) \<and> (canonical (ae_Kind v) \<or> ae_Kind v = [])"
    using sample_event_canonical sample_canonical_ids kinds by (auto dest!: p(2) simp: release_event_def a)
  moreover have "\<forall>(k, v) \<in> set (os_Outbox s). validateID (om_ID v) = None \<and> (canonical (om_ContractID v) \<or> om_ContractID v = []) \<and>
      (canonical (om_TrackID v) \<or> om_TrackID v = []) \<and> (canonical (om_RevisionID v) \<or> om_RevisionID v = []) \<and>
      (canonical (om_Topic v) \<or> om_Topic v = [])"
    using sample_event_canonical sample_canonical_ids kinds by (auto dest!: p(3) simp: release_message_def a outboxID_def)
  ultimately show ?thesis
    unfolding validatePersistedOperationalIdentities_def r prepared_lookup(3,4) [OF assms] first_error_None list.simps set_simps
    using rev sample_review_identities by (intro ballI, elim insertE emptyE) simp_all
qed

lemma sample_stores_valid:
  assumes "s = prepared_store \<or> s = published_store"
  shows "store_valid ascii_case s"
proof -
  note o = sample_owned [OF assms]
  have r: "os_Revisions s = [(revisionKey ''petstore'' ''rev-1'', sample_revision ''rev-1''),
       (revisionKey ''petstore'' ''rev-2'', sample_revision ''rev-2'')]"
    using assms by (auto simp: store_fields prepared_store_def)
  have "validateReleaseTrackAuthorities s = None"
    using assms sample_tracks_ok
    by (auto simp: validateReleaseTrackAuthorities_def published_store_def prepared_store_def newReleaseTrackAuthority_def
        validateReleaseTrackAuthority_def split: option.splits)
  moreover have "validateUniquePublicPaths (os_Publications s) = None"
    using assms by (auto simp: validateUniquePublicPaths_def Let_def published_store_def prepared_store_def
        newOperationalState_def map_keys_def sort_slice_def)
  moreover have "each_entry (trackReferences s) (os_ReleaseTracks s) = None"
    using assms o by (auto simp: trackReferences_def published_store_def prepared_store_def published_track_def prepared_track_def)
  moreover have "each_entry (reviewReferences s) (os_Reviews s) = None" "each_entry (syncReferences s) (os_SyncRecords s) = None"
    using o by (simp_all add: prepared_lookup [OF assms] reviewReferences_def syncReferences_def)
      (simp_all add: sample_contract_review_def sample_sync_def)
  moreover have "each_entry (eventReferences s) (os_AuditEvents s) = None" "each_entry (messageReferences s) (os_Outbox s) = None"
    using assms o
    by (auto simp: eventReferences_def messageReferences_def published_store_def prepared_store_def newOperationalState_def trackExists_def
        release_event_def release_message_def sample_authorization_def outboxID_def)
  ultimately have "validateOperationalReferences ascii_case s = None"
    using sample_identities [OF assms] sample_release_evidence [OF assms] assms o
    by (auto simp: validateOperationalReferences_def r revisionStorageKey_def sample_revision_def)
      (auto simp: published_store_def prepared_store_def newOperationalState_def release_publication_def sample_authorization_def)
  moreover have "unique_public (os_Publications s)" "maps_wf s" "os_Version s = operationalStateVersion"
    using assms store_fields
    by (auto simp: unique_public_def maps_wf_def map_keys_def published_store_def prepared_store_def newOperationalState_def
        split: if_splits)
  moreover have "validateReleaseTrackAuthorities s = None" by fact
  ultimately show ?thesis by (simp add: store_valid_def)
qed

end
