(* ===== verification/Release_Safety.thy ===== *)
theory Release_Safety
  imports Sample_Store
begin

text \<open>
  What the store guarantees about released revisions: whichever transactions ran since a valid state
  was loaded, a revision that an accepted decision made live rests on a persisted authorization, on
  persisted snapshots of both revisions and on a passing review that the canonical validation accepts
  for exactly those snapshots.
\<close>

section \<open>Published releases\<close>

definition release_live :: "release_track \<Rightarrow> release_decision \<Rightarrow> bool" where
  "release_live track d \<longleftrightarrow> rt_LastDecision track = Some d \<and> rd_Accepted d \<and>
     (rt_Mode track = ReleaseModeFollowing \<or> track_promoted track d)"

lemma live_current:
  assumes "track_ok track" and "release_live track d"
  shows "rt_CurrentRevisionID track = rd_RevisionID d" and "rd_Verdict d = VerdictPass"
  using assms by (auto simp: track_ok_def evidence_ok_def decision_ok_def release_live_def track_promoted_def split: if_splits)

lemma live_release_evidence:
  assumes "store_valid uc s" and "map_of (os_ReleaseTracks s) k = Some track" and "release_live track d"
  obtains a baseline candidate bs cs review syncRecord bytes where
    "map_of (os_ReleaseAuthorizations s) (rd_ReviewID d) = Some a" "ra_ReviewID a = rd_ReviewID d"
    "ra_ContractID a = rt_ContractID track" "ra_TrackID a = rt_ID track" "ra_CandidateRevisionID a = rt_CurrentRevisionID track"
    "revisionForContract s (rt_ContractID track) (ra_BaselineRevisionID a) = Some baseline" "vr_ReviewSnapshot baseline = Some bs"
    "revisionForContract s (rt_ContractID track) (rt_CurrentRevisionID track) = Some candidate" "vr_ReviewSnapshot candidate = Some cs"
    "map_of (os_Reviews s) (rd_ReviewID d) = Some review" "cv_ContractID review = rt_ContractID track"
    "cv_BaselineRevisionID review = ra_BaselineRevisionID a" "cv_CandidateRevisionID review = rt_CurrentRevisionID track"
    "ValidateReleaseReviewReportAgainstSnapshots uc (cv_Report review) (rt_ContractID track) bs cs = None"
    "rr_Verdict (cv_Report review) = VerdictPass"
    "CanonicalReviewJSON (cv_Report review) = Inr bytes" "rd_ReviewDigest d = sha256Hex bytes"
    "map_of (os_SyncRecords s) (ra_SyncRecordID a) = Some syncRecord" "sr_Result syncRecord = SyncResultSuccess"
    "sr_CommitSHA syncRecord = vr_CommitSHA candidate"
    "\<exists>p. map_of (os_Publications s) (publicationKey (rt_ContractID track) (rt_CurrentRevisionID track)) = Some p \<and>
       pub_Public p \<and> pub_Path p = ra_PublicPath a"
proof -
  have d: "rt_LastDecision track = Some d" "rd_Accepted d" "rt_Mode track = ReleaseModeFollowing \<or> track_promoted track d"
    using assms(3) by (auto simp: release_live_def)
  have ok: "track_ok track" using valid_store_track(1) [OF assms(1,2)] by simp
  note cur = live_current [OF ok assms(3)]
  obtain a where a: "map_of (os_ReleaseAuthorizations s) (rd_ReviewID d) = Some a" "ra_ReviewID a = rd_ReviewID d"
    "ra_ContractID a = rt_ContractID track" "ra_TrackID a = rt_ID track"
    "validateReleaseAuthorizationBundle uc s a = None" "validateReleaseDecisionBundle s track d a = None"
    using valid_store_decision [OF assms(1,2) d(1)] by metis
  from decision_bundle [OF a(6)] obtain bytes where b: "CanonicalReviewJSON (cv_Report (reviewOf s (ra_ReviewID a))) = Inr bytes"
    "rd_RevisionID d = ra_CandidateRevisionID a" "rd_ReviewDigest d = sha256Hex bytes"
    "rd_Verdict d = rr_Verdict (cv_Report (reviewOf s (ra_ReviewID a)))"
    "syncResultOf s (ra_SyncRecordID a) = SyncResultSuccess"
    "\<exists>p. map_of (os_Publications s) (publicationKey (ra_ContractID a) (ra_CandidateRevisionID a)) = Some p \<and>
       pub_Public p \<and> pub_Path p = ra_PublicPath a"
    using d(2,3) by metis
  show thesis
  proof (rule authorization_bundle [OF a(5)])
    fix baseline candidate bs cs review syncRecord
    assume e: "revisionForContract s (ra_ContractID a) (ra_BaselineRevisionID a) = Some baseline"
      "revisionForContract s (ra_ContractID a) (ra_CandidateRevisionID a) = Some candidate"
      "vr_ReviewSnapshot baseline = Some bs" "vr_ReviewSnapshot candidate = Some cs"
      "map_of (os_Reviews s) (ra_ReviewID a) = Some review" "cv_ContractID review = ra_ContractID a"
      "cv_BaselineRevisionID review = ra_BaselineRevisionID a" "cv_CandidateRevisionID review = ra_CandidateRevisionID a"
      "ValidateReleaseReviewReportAgainstSnapshots uc (cv_Report review) (ra_ContractID a) bs cs = None"
      "map_of (os_SyncRecords s) (ra_SyncRecordID a) = Some syncRecord" "sr_CommitSHA syncRecord = vr_CommitSHA candidate"
    have r: "reviewOf s (ra_ReviewID a) = review" "syncResultOf s (ra_SyncRecordID a) = sr_Result syncRecord"
      using e(5,10) by (simp_all add: reviewOf_def syncResultOf_def)
    have c: "ra_CandidateRevisionID a = rt_CurrentRevisionID track" using b(2) cur(1) by simp
    show thesis
      by (rule that [of a baseline bs candidate cs review bytes syncRecord])
        (use a b e c r cur in simp_all)
  qed
qed

text \<open>
  C1: A live release was reviewed. From a valid state, whatever transactions run, whenever the last
  decision of a track is accepted and live, the current revision is the candidate of a persisted
  authorization for that track; both revisions keep canonical snapshots; the persisted review passed,
  is accepted by the canonical validation for exactly those snapshots and has the digest the decision
  records; the authorized sync succeeded at the candidate's commit; and the revision is public at the
  authorized path.
\<close>

theorem live_release_was_reviewed:
  assumes "store_valid uc s0" and "(store_step uc)\<^sup>*\<^sup>* s0 s"
    and "map_of (os_ReleaseTracks s) k = Some track" and "release_live track d"
  shows "\<exists>a baseline candidate bs cs review syncRecord bytes p.
    map_of (os_ReleaseAuthorizations s) (rd_ReviewID d) = Some a \<and> ra_ContractID a = rt_ContractID track \<and>
    ra_TrackID a = rt_ID track \<and> ra_CandidateRevisionID a = rt_CurrentRevisionID track \<and>
    revisionForContract s (rt_ContractID track) (ra_BaselineRevisionID a) = Some baseline \<and> vr_ReviewSnapshot baseline = Some bs \<and>
    revisionForContract s (rt_ContractID track) (rt_CurrentRevisionID track) = Some candidate \<and> vr_ReviewSnapshot candidate = Some cs \<and>
    map_of (os_Reviews s) (rd_ReviewID d) = Some review \<and> rr_Verdict (cv_Report review) = VerdictPass \<and>
    ValidateReleaseReviewReportAgainstSnapshots uc (cv_Report review) (rt_ContractID track) bs cs = None \<and>
    CanonicalReviewJSON (cv_Report review) = Inr bytes \<and> rd_ReviewDigest d = sha256Hex bytes \<and>
    map_of (os_SyncRecords s) (ra_SyncRecordID a) = Some syncRecord \<and> sr_Result syncRecord = SyncResultSuccess \<and>
    sr_CommitSHA syncRecord = vr_CommitSHA candidate \<and>
    map_of (os_Publications s) (publicationKey (rt_ContractID track) (rt_CurrentRevisionID track)) = Some p \<and>
    pub_Public p \<and> pub_Path p = ra_PublicPath a"
  by (rule live_release_evidence [OF store_machine.reach_inv [OF assms(2,1)] assms(3,4)]) blast

lemma published_live:
  "map_of (os_ReleaseTracks published_store) (releaseTrackKey ''petstore'' ''stable'') = Some published_track"
  "release_live published_track sample_release_decision"
  by (simp_all add: published_store_def release_live_def published_track_def prepared_track_def)
    (simp add: sample_release_decision_def)

theorem live_release_was_reviewed_witness:
  "\<exists>a. map_of (os_ReleaseAuthorizations published_store) ''review-1'' = Some a \<and> ra_CandidateRevisionID a = ''rev-2''"
proof -
  obtain a where "map_of (os_ReleaseAuthorizations published_store) (rd_ReviewID sample_release_decision) = Some a"
    "ra_CandidateRevisionID a = rt_CurrentRevisionID published_track"
    using live_release_was_reviewed [OF sample_stores_valid [of published_store] _ published_live] by blast
  then show ?thesis by (simp add: sample_release_decision_def published_track_def)
qed

text \<open>
  C4: A live release is compatible with what it replaced. If the policy of the persisted review holds
  every breaking rule at level fail in a layer without exceptions, and both snapshots are plain, that is no
  path of an operation contains a space and no location of a parameter a colon, the surface of the live
  revision keeps every promise of the surface of its authorized baseline. The condition on the snapshots
  is needed: \<open>ambiguous_key_hides_removal\<close> is a removal that the comparison misses without it.
\<close>

theorem live_release_is_compatible:
  assumes "store_valid uc s0" and "(store_step uc)\<^sup>*\<^sup>* s0 s"
    and "map_of (os_ReleaseTracks s) k = Some track" and "release_live track d"
    and "map_of (os_Reviews s) (rd_ReviewID d) = Some review"
    and "revisionForContract s (cv_ContractID review) (cv_BaselineRevisionID review) = Some baseline"
    and "revisionForContract s (rt_ContractID track) (rt_CurrentRevisionID track) = Some current"
    and "vr_ReviewSnapshot baseline = Some bs" and "vr_ReviewSnapshot current = Some cs"
    and "plain_surface bs" and "plain_surface cs"
    and "\<forall>rule \<in> set breaking_rules. \<exists>layer \<in> set (elems (pp_Layers (rr_EffectivePolicy (cv_Report review)))).
      elems (lp_Exceptions layer) = [] \<and> \<lparr>rp_RuleID = rule, rp_Level = RuleLevelFail\<rparr> \<in> set (elems (lp_Rules layer))"
  shows "surface_compatible bs cs"
proof (rule live_release_evidence [OF store_machine.reach_inv [OF assms(2,1)] assms(3,4)], goal_cases)
  case (1 a baseline' candidate bs' cs' review' syncRecord bytes)
  have "review' = review" using 1(10) assms(5) by simp
  moreover from this have "bs' = bs" "cs' = cs" using 1(6-9,11,12) assms(6-9) by simp_all
  ultimately show ?case using accepted_pass_compatible [OF _ _ assms(10,11,12)] 1(14,15) by blast
qed

theorem live_release_is_compatible_witness:
  "surface_compatible (release_snapshot ''rev-1'') (release_snapshot ''rev-2'')"
proof -
  let ?layer = "projectPolicyLayer (canon_layer default_repository)"
  have v: "map_of (os_Reviews published_store) (rd_ReviewID sample_release_decision) = Some sample_contract_review"
    by (simp add: prepared_lookup(3) sample_release_decision_def)
  have b: "revisionForContract published_store (cv_ContractID sample_contract_review) (cv_BaselineRevisionID sample_contract_review) =
      Some (sample_revision ''rev-1'')"
    using prepared_lookup(1) [of published_store] by (simp add: sample_contract_review_def)
  have c: "revisionForContract published_store (rt_ContractID published_track) (rt_CurrentRevisionID published_track) =
      Some (sample_revision ''rev-2'')"
    using prepared_lookup(2) [of published_store] by (simp add: published_track_def prepared_track_def)
  have r: "vr_ReviewSnapshot (sample_revision i) = Some (release_snapshot i)" for i by (simp add: sample_revision_def)
  have p: "elems (pp_Layers (rr_EffectivePolicy (cv_Report sample_contract_review))) = [?layer]"
    by (simp add: sample_contract_review_def sample_report_fields)
  show ?thesis
    by (rule live_release_is_compatible [OF sample_stores_valid [of published_store] _ published_live v b c r r release_plain release_plain])
      (use default_repository_rules default_layer_canonical(3) in \<open>auto simp: p\<close>)
qed

section \<open>Reading the published state\<close>

lemma sample_evidence:
  assumes "r = ''rev-1'' \<or> r = ''rev-2''"
  shows "validateRevisionEvidence ascii_case (\<lambda>_. Inr []) None (sample_revision r) = None"
proof -
  have "snapshot_ok ascii_case (release_snapshot r)" using assms release_snapshot_ok by auto
  moreover have "TrimSpace ''petstore'' \<noteq> []" using sample_canonical_ids(1) by (simp add: canonical_trim)
  moreover have "trim_prefix ''sha256:'' (ContentAddressedBlobKey []) = sha256Hex []"
    by (simp add: trim_prefix_def ContentAddressedBlobKey_def)
  moreover have "sha256Hex [] \<noteq> []" "cs_ContractDigest (release_snapshot r) \<noteq> []" "ContentAddressedBlobKey [] \<noteq> []"
    using length_sha256Hex [of "[]"] contract_digest_lower [of r]
    by (auto simp: isLowerSHA256_def ContentAddressedBlobKey_def simp del: length_sha256Hex)
  ultimately show ?thesis
    by (simp add: validateRevisionEvidence_def Let_def sample_revision_def release_snapshot_fields)
qed

lemma published_evidence:
  "validatePublicationRevisionEvidence ascii_case (\<lambda>_. Inr []) None published_store (release_publication sample_authorization) = None"
  using prepared_lookup(2) [of published_store] sample_evidence [of "''rev-2''"]
  by (simp add: validatePublicationRevisionEvidence_def release_publication_def sample_authorization_def)

lemma published_publication:
  "map_of (os_Publications published_store) (publicationKey ''petstore'' ''rev-2'') = Some (release_publication sample_authorization)"
  "pub_Public (release_publication sample_authorization)" "pub_Path (release_publication sample_authorization) = ''/petstore''"
  by (simp_all add: published_store_def release_publication_def sample_authorization_def)

lemma resolver_serves:
  assumes "reader path = Inr p" and "\<And>name. ValidateCanonicalPublicPath name path False = None"
    and "pub_Path p = path" and "pub_Public p" and "canonical (pub_ProjectID p)" and "canonical (pub_RevisionID p)"
    and "pub_Hostname p = []"
  shows "PublicationByPath reader path = Inr p"
  using assms by (simp add: PublicationByPath_def VisibleTo_def option.case_eq_if)

theorem public_route_has_one_owner_witness:
  "PublicPublicationByPath ascii_case (\<lambda>_. Inr []) None None (Inr published_store) DirMissing ''/petstore'' =
     Inr (release_publication sample_authorization)"
  using public_route_has_one_owner [OF sample_stores_valid [of published_store] refl published_publication(1,2), of "\<lambda>_. Inr []"]
    published_evidence
  by (simp add: published_publication(3))

theorem resolved_publication_is_public_and_intact_witness:
  "\<exists>p. PublicationByPath (PublicPublicationByPath ascii_case (\<lambda>_. Inr []) None None (Inr published_store) DirMissing) ''/petstore'' = Inr p \<and>
     pub_Public p \<and> pub_Path p = ''/petstore''"
proof -
  have "unique_public (os_Publications published_store)" "distinct (map_keys (os_Publications published_store))"
    using sample_stores_valid [of published_store] by (simp_all add: store_valid_def maps_wf_def)
  note owner = public_owner_found [OF this refl published_publication(1,2), unfolded published_publication(3)]
  have r: "PublicPublicationByPath ascii_case (\<lambda>_. Inr []) None None (Inr published_store) DirMissing ''/petstore'' =
     Inr (release_publication sample_authorization)"
    using owner published_evidence sample_path
    by (simp add: PublicPublicationByPath_def validatePublicPath_def sequence_Inr Let_def)
  have "PublicationByPath (PublicPublicationByPath ascii_case (\<lambda>_. Inr []) None None (Inr published_store) DirMissing) ''/petstore'' =
      Inr (release_publication sample_authorization)"
    using r sample_path sample_canonical_ids
    by (intro resolver_serves) (simp_all add: release_publication_def sample_authorization_def)
  then show ?thesis using resolved_publication_is_public_and_intact by blast
qed

theorem stored_blob_reads_back_witness:
  "\<exists>stored. LoadSpec ascii_case (\<lambda>k. Blob_Get ascii_case None k [''sha256/'' @ sha256Hex ''openapi'' \<mapsto> ''openapi''])
     ((sample_revision ''rev-1'')\<lparr>vr_SpecBlobKey := ContentAddressedBlobKey ''openapi''\<rparr>) = Inr stored"
proof -
  have "Blob_Put ascii_case None WriteConfirmed ''openapi'' Map.empty =
      ([''sha256/'' @ sha256Hex ''openapi'' \<mapsto> ''openapi''], Inr (ContentAddressedBlobKey ''openapi''))"
    by (simp add: Blob_Put_def Let_def)
  from stored_blob_reads_back [OF this, of "(sample_revision ''rev-1'')\<lparr>vr_SpecBlobKey := ContentAddressedBlobKey ''openapi''\<rparr>"]
  show ?thesis using sample_canonical_ids by (auto simp: sample_revision_def)
qed

end
