(* ===== verification/Migration_Samples.thy ===== *)
theory Migration_Samples
  imports Store_Migration Release_Safety
begin

text \<open>
  Concrete directories for the theorems of \<open>Store_Migration\<close>: the state of \<open>Sample_Store\<close> as the
  current and as an older version wrote it, a public route two publications claim, a directory of flat legacy
  files with a public publication, and a flat legacy revision that awaits its evidence.
\<close>

section \<open>Directories of the current version\<close>

definition prepared_disk :: "int stored_file \<Rightarrow> store_disk" where
  "prepared_disk marker = \<lparr>sd_State = FileHolds prepared_store, sd_Marker = marker, sd_Revisions = DirMissing,
     sd_Publications = DirMissing, sd_SyncRecords = DirMissing\<rparr>"

lemma prepared_migrated: "os_migratedRevisions prepared_store = []"
  by (simp add: prepared_store_def newOperationalState_def)

theorem file_transactions_refine_the_store_witness:
  "settled ascii_case (fst (WithinFiles ascii_case (\<lambda>_. Inr []) None None None (WriteConfirmed, WriteConfirmed)
     (WriteConfirmed, WriteRejected ErrNotExist) (saveRevisionIn ascii_case None (sample_revision ''rev-1'')) id (prepared_disk FileMissing)))"
proof -
  have "settled ascii_case (prepared_disk FileMissing)"
    using sample_stores_valid [of prepared_store] prepared_migrated by (simp add: settled_def prepared_disk_def)
  moreover have "uses_operations ascii_case (saveRevisionIn ascii_case None (sample_revision ''rev-1''))"
    by (auto simp: uses_operations_def saveRevisionIn_def intro: r_into_rtranclp tx_op.revision)
  ultimately show ?thesis
    using file_transactions_refine_the_store [OF _ _ prod.collapse [symmetric]] by blast
qed

section \<open>A shared public route\<close>

definition shared_publication :: "string \<Rightarrow> publication" where
  "shared_publication r = \<lparr>pub_ProjectID = ''petstore'', pub_RevisionID = r, pub_Public = True, pub_Path = ''/petstore'', pub_Hostname = []\<rparr>"

definition shared_state :: operational_state where
  "shared_state = newOperationalState\<lparr>os_Version := decisionOperationalStateVersion,
     os_Revisions := [(''rev-1'', (sample_revision ''rev-1'')\<lparr>vr_ContractID := []\<rparr>),
       (revisionKey ''petstore'' ''rev-2'', sample_revision ''rev-2'')],
     os_ReleaseTracks := [(releaseTrackKey ''petstore'' ''stable'', published_track)],
     os_Publications := [(publicationKey ''petstore'' ''rev-1'', shared_publication ''rev-1''),
       (publicationKey ''petstore'' ''rev-2'', shared_publication ''rev-2'')]\<rparr>"

definition settled_publications :: "(string, publication) go_map" where
  "settled_publications = [(publicationKey ''petstore'' ''rev-1'', (shared_publication ''rev-1'')\<lparr>pub_Public := False\<rparr>),
       (publicationKey ''petstore'' ''rev-2'', shared_publication ''rev-2'')]"

lemma shared_keys: "publicationKey ''petstore'' ''rev-1'' < publicationKey ''petstore'' ''rev-2''"
  "publicationKey ''petstore'' ''rev-1'' \<noteq> publicationKey ''petstore'' ''rev-2''"
  "publicationKey ''petstore'' ''rev-2'' \<noteq> publicationKey ''petstore'' ''rev-1''"
  by (simp_all add: publicationKey_def nul_def)

lemma shared_reconciled:
  assumes "os_Publications s = os_Publications shared_state"
    and "currentPublicationKeys s = [publicationKey ''petstore'' ''rev-2'']"
  shows "reconcileLegacyPublications s = Inr (s\<lparr>os_Publications := settled_publications\<rparr>)"
proof -
  let ?k1 = "publicationKey ''petstore'' ''rev-1''" and ?k2 = "publicationKey ''petstore'' ''rev-2''"
  have "publicPathNames (os_Publications s) = [''/petstore'']"
    by (simp add: assms(1) publicPathNames_def shared_state_def shared_publication_def sort_slice_def)
  moreover have "publicKeysAt (os_Publications s) ''/petstore'' = [?k1, ?k2]"
    by (simp add: assms(1) publicKeysAt_def shared_state_def shared_publication_def)
  moreover have "sort_strings [?k1, ?k2] = [?k1, ?k2]"
    using shared_keys by (simp add: sort_slice_def not_less)
  ultimately show ?thesis
    using shared_keys
    by (simp add: reconcileLegacyPublications_def reconcilePath_def assms(2) bind_res_def)
      (simp add: assms(1) shared_state_def withdrawKeys_def settled_publications_def)
qed

lemma shared_current: "currentPublicationKeys shared_state = [publicationKey ''petstore'' ''rev-2'']"
  by (simp add: currentPublicationKeys_def shared_state_def published_track_def prepared_track_def)

theorem migrated_routes_keep_their_current_owner_witness:
  "publicKeysAt (os_Publications shared_state) ''/petstore'' =
     [publicationKey ''petstore'' ''rev-1'', publicationKey ''petstore'' ''rev-2''] \<and>
   publicKeysAt settled_publications ''/petstore'' = [publicationKey ''petstore'' ''rev-2'']"
proof -
  have k: "publicKeysAt (os_Publications shared_state) ''/petstore'' =
     [publicationKey ''petstore'' ''rev-1'', publicationKey ''petstore'' ''rev-2'']"
    by (simp add: publicKeysAt_def shared_state_def shared_publication_def)
  have "distinct (map_keys (os_Publications shared_state))"
    using shared_keys by (simp add: map_keys_def shared_state_def)
  note r = migrated_routes_keep_their_current_owner [OF shared_reconciled [OF refl shared_current] this]
  show ?thesis using k r shared_current shared_keys by (auto dest!: conjunct2 spec [of _ "''/petstore''"])
qed

section \<open>Migrating a state of an older version\<close>

lemma bare_keys: "revisionKey ''petstore'' ''rev-1'' \<noteq> ''rev-1''" "revisionKey ''petstore'' ''rev-2'' \<noteq> ''rev-1''"
  "revisionKey ''petstore'' r \<noteq> ''rev-1''"
  by (simp_all add: revisionKey_def)

lemma petstore_trimmed: "TrimSpace ''petstore'' \<noteq> []"
  using sample_canonical_ids(1) by (simp add: canonical_trim)

text \<open>Two references bind the revisions of the sample: one finds it under its key, the other adopts it.\<close>

lemma sample_bound:
  assumes "map_of (os_Revisions s) (revisionKey ''petstore'' r) = Some (sample_revision r)"
  shows "bindRevisionOwner s ''petstore'' r owner = Inr (s, False)"
  using assms petstore_trimmed by (simp add: bindRevisionOwner_def Let_def sample_revision_def)

lemma sample_adopted:
  assumes "os_Revisions s = (''rev-1'', q) # rest" and "map_of rest ''rev-1'' = None"
    and "map_of rest (revisionKey ''petstore'' ''rev-1'') = None" and "vr_ContractID q = []"
  shows "bindRevisionOwner s ''petstore'' ''rev-1'' owner =
    Inr (s\<lparr>os_Revisions := map_put (revisionKey ''petstore'' ''rev-1'') (q\<lparr>vr_ContractID := ''petstore''\<rparr>) rest\<rparr>, True)"
proof -
  have "filter (\<lambda>(k, v). k \<noteq> ''rev-1'') rest = rest"
    using assms(2) by (force simp: filter_id_conv map_of_eq_None_iff)
  then show ?thesis
    using assms petstore_trimmed bare_keys by (simp add: bindRevisionOwner_def Let_def map_delete_def)
qed

theorem migration_keeps_only_proven_state_witness:
  "\<exists>s. migrateOperationalStateToCurrent shared_state = Inr s \<and> os_ReleaseAuthorizations s = [] \<and>
     os_ReleaseTracks s = [(releaseTrackKey ''petstore'' ''stable'',
       published_track\<lparr>rt_CandidateRevisionID := [], rt_LastDecision := None\<rparr>)]"
proof -
  let ?t = "published_track\<lparr>rt_CandidateRevisionID := [], rt_LastDecision := None\<rparr>"
  let ?s1 = "shared_state\<lparr>os_ReleaseTracks := [(releaseTrackKey ''petstore'' ''stable'', ?t)],
    os_ReleaseTrackAuthorities := [(releaseTrackKey ''petstore'' ''stable'', newReleaseTrackAuthority ?t)], os_ReleaseAuthorizations := []\<rparr>"
  let ?s2 = "?s1\<lparr>os_Publications := settled_publications\<rparr>"
  let ?s3 = "?s2\<lparr>os_Revisions := [(revisionKey ''petstore'' ''rev-2'', sample_revision ''rev-2''),
    (revisionKey ''petstore'' ''rev-1'', sample_revision ''rev-1'')]\<rparr>"
  have ok: "track_ok ?t"
    using sample_canonical_ids by (simp add: track_ok_def published_track_def prepared_track_def evidence_ok_def)
  have m: "migrateLegacyTracks shared_state = Inr ?s1"
    using ok by (simp add: migrateLegacyTracks_def Let_def shared_state_def newOperationalState_def unauthenticatedTrack_def)
  have r: "reconcileLegacyPublications ?s1 = Inr ?s2"
    by (rule shared_reconciled)
      (simp_all add: currentPublicationKeys_def published_track_def prepared_track_def shared_state_def)
  have refs: "legacyOwnerReferences ?s2 =
      [(''petstore'', ''rev-2'', ''release track '' @ releaseTrackKey ''petstore'' ''stable'' @ '' current''),
       (''petstore'', ''rev-1'', ''publication '' @ publicationKey ''petstore'' ''rev-1''),
       (''petstore'', ''rev-2'', ''publication '' @ publicationKey ''petstore'' ''rev-2'')]"
    by (simp add: legacyOwnerReferences_def settled_publications_def shared_publication_def shared_state_def newOperationalState_def
        published_track_def prepared_track_def)
  have rev: "os_Revisions ?s2 = [(''rev-1'', (sample_revision ''rev-1'')\<lparr>vr_ContractID := []\<rparr>),
       (revisionKey ''petstore'' ''rev-2'', sample_revision ''rev-2'')]"
    by (simp add: shared_state_def)
  have q: "(sample_revision ''rev-1'')\<lparr>vr_ContractID := ''petstore''\<rparr> = sample_revision ''rev-1''"
    by (simp add: sample_revision_def)
  have "bindRevisionOwner ?s2 ''petstore'' ''rev-1'' owner = Inr (?s3, True)" for owner
    using sample_adopted [OF rev] bare_keys sample_keys by (simp add: q)
  moreover have "bindRevisionOwner ?s2 ''petstore'' ''rev-2'' owner = Inr (?s2, False)"
    "bindRevisionOwner ?s3 ''petstore'' ''rev-2'' owner = Inr (?s3, False)" for owner
    by (rule sample_bound; simp add: rev bare_keys)+
  ultimately have b: "bindLegacyOperationalRevisionOwners ?s2 = Inr ?s3"
    unfolding bindLegacyOperationalRevisionOwners_def refs by (simp add: bind_res_def)
  have k: "revisionStorageKey (sample_revision r) = revisionKey ''petstore'' r" for r
    by (simp add: revisionStorageKey_def sample_revision_def)
  have sc: "scopeOperationalRevisions ?s3 = Inr ?s3"
    using sample_keys by (simp add: scopeOperationalRevisions_def k bind_res_def)
  have mig: "migrateOperationalStateToCurrent shared_state = Inr (?s3\<lparr>os_Version := operationalStateVersion\<rparr>)"
    using m r b sc by (simp add: migrateOperationalStateToCurrent_def bind_res_def wrap_res_def)
      (simp add: shared_state_def)
  show ?thesis
    using mig migration_keeps_only_proven_state [OF mig]
    by (simp add: shared_state_def decisionOperationalStateVersion_def authenticatedStateVersion_def)
qed

section \<open>A directory of flat files with a public publication\<close>

definition served_disk :: store_disk where
  "served_disk = \<lparr>sd_State = FileMissing, sd_Marker = FileMissing,
     sd_Revisions = DirEntries [\<lparr>le_Name = ''rev-1.json'', le_IsDir = False, le_Value = Inr (sample_revision ''rev-1'')\<rparr>],
     sd_Publications = DirEntries [\<lparr>le_Name = ''petstore-rev-1.json'', le_IsDir = False, le_Value = Inr (shared_publication ''rev-1'')\<rparr>],
     sd_SyncRecords = DirMissing\<rparr>"

definition served_state :: "bool \<Rightarrow> operational_state" where
  "served_state public = newOperationalState\<lparr>os_Revisions := [(revisionKey ''petstore'' ''rev-1'', sample_revision ''rev-1'')],
     os_Publications := [(publicationKey ''petstore'' ''rev-1'', (shared_publication ''rev-1'')\<lparr>pub_Public := public\<rparr>)]\<rparr>"

definition migrated_disk :: "bool \<Rightarrow> store_disk" where
  "migrated_disk public = served_disk\<lparr>sd_State := FileHolds (served_state public), sd_Marker := FileHolds operationalStateVersion\<rparr>"

lemma served_fields:
  "os_Revisions (served_state b) = [(revisionKey ''petstore'' ''rev-1'', sample_revision ''rev-1'')]"
  "os_Publications (served_state b) = [(publicationKey ''petstore'' ''rev-1'', (shared_publication ''rev-1'')\<lparr>pub_Public := b\<rparr>)]"
  "os_migratedRevisions (served_state b) = []" "os_Version (served_state b) = operationalStateVersion"
  by (simp_all add: served_state_def newOperationalState_def)

lemma served_owner: "revisionForContract (served_state b) ''petstore'' ''rev-1'' = Some (sample_revision ''rev-1'')"
  by (simp add: revisionForContract_def served_fields) (simp add: sample_revision_def)

lemma served_valid: "store_valid ascii_case (served_state b)"
proof -
  have path: "validatePublicPath ''/petstore'' = None" using sample_path(1) by (simp add: validatePublicPath_def)
  have "validatePersistedOperationalIdentities ascii_case (served_state b) = None"
    using sample_revision_valid [of "''rev-1''"] sample_canonical_ids sample_valid_ids release_snapshot_ok path
    by (simp add: validatePersistedOperationalIdentities_def served_state_def newOperationalState_def shared_publication_def)
      (simp add: sample_revision_def)
  moreover have "validateUniquePublicPaths (os_Publications (served_state b)) = None"
    by (simp add: validateUniquePublicPaths_def Let_def map_keys_def sort_slice_def served_fields)
  moreover have "requireOwnedRevision (served_state b) ''petstore'' ''rev-1'' owner = None" for owner
    using petstore_trimmed served_owner by (simp add: requireOwnedRevision_def) (simp add: sample_revision_def)
  moreover have "revisionStorageKey (sample_revision ''rev-1'') = revisionKey ''petstore'' ''rev-1''"
    by (simp add: revisionStorageKey_def sample_revision_def)
  ultimately show ?thesis
    by (simp add: store_valid_def validateOperationalReferences_def validateReleaseTrackAuthorities_def served_fields)
      (simp add: validateReleaseEvidenceAuthorities_def served_state_def newOperationalState_def unique_public_def maps_wf_def
        map_keys_def shared_publication_def)
qed

lemma served_migrates:
  "migrateLegacyRecords ascii_case (\<lambda>_. Inr []) None ((served_state True)\<lparr>os_migratedRevisions := ks\<rparr>) =
     Inr ((served_state True)\<lparr>os_migratedRevisions := ks\<rparr>, False)"
proof -
  let ?s = "(served_state True)\<lparr>os_migratedRevisions := ks\<rparr>"
  have p: "os_Publications ?s = [(publicationKey ''petstore'' ''rev-1'', shared_publication ''rev-1'')]"
    by (simp add: served_fields shared_publication_def)
  have r: "reconcileLegacyPublications ?s = Inr ?s"
    using p by (simp add: reconcileLegacyPublications_def publicPathNames_def publicKeysAt_def reconcilePath_def sort_slice_def
        shared_publication_def bind_res_def)
  have "legacyOwnerReferences ?s = [(''petstore'', ''rev-1'', ''publication '' @ publicationKey ''petstore'' ''rev-1'')]"
    by (simp add: legacyOwnerReferences_def p) (simp add: served_state_def newOperationalState_def shared_publication_def)
  moreover have "bindRevisionOwner ?s ''petstore'' ''rev-1'' owner = Inr (?s, False)" for owner
    by (rule sample_bound) (simp add: served_fields)
  ultimately have b: "bindLegacyOperationalRevisionOwners ?s = Inr ?s"
    by (simp add: bindLegacyOperationalRevisionOwners_def bind_res_def)
  have v: "validateReleaseTrackAuthorities (served_state True) = None" "validateOperationalReferences ascii_case (served_state True) = None"
    using store_valid_fields(1,2) [OF served_valid [of True]] .
  have ev: "map (\<lambda>key. the (map_of (os_Revisions (served_state True)) key)) (sort_strings (map_keys (os_Revisions (served_state True)))) =
      [sample_revision ''rev-1'']"
    by (simp add: served_fields map_keys_def sort_slice_def)
  show ?thesis
    using sample_evidence [of "''rev-1''"] by (simp add: migrateLegacyRecords_def r b v ev wrap_res_def bind_res_def)
qed

lemma served_loaded:
  "loadOperationalStateLocked ascii_case (\<lambda>_. Inr []) None None WriteConfirmed WriteConfirmed served_disk =
     (migrated_disk True, Inr ((served_state True)\<lparr>os_migratedRevisions := [revisionKey ''petstore'' ''rev-1'']\<rparr>))"
proof -
  let ?s = "(served_state True)\<lparr>os_migratedRevisions := [revisionKey ''petstore'' ''rev-1'']\<rparr>"
  have i: "importLegacyRecords served_disk = Inr ?s"
    by (simp add: importLegacyRecords_def served_disk_def mergeLegacyJSON_def legacy_record_def filepath_Ext_def bind_res_def wrap_res_def
        revisionStorageKey_def sample_revision_def shared_publication_def map_keys_def served_state_def newOperationalState_def)
  have clear: "?s\<lparr>os_migratedRevisions := []\<rparr> = served_state True" using served_fields(3) [of True] by simp
  have "publishOnDisk None WriteConfirmed WriteConfirmed ?s served_disk = (migrated_disk True, None)"
    unfolding publishOnDisk_def clear
    by (simp add: served_fields writeFile_def persistOperationalSchemaMarker_def loadOperationalSchemaMarker_def served_disk_def migrated_disk_def)
  then have "loadLegacyState ascii_case (\<lambda>_. Inr []) None WriteConfirmed WriteConfirmed served_disk = (migrated_disk True, Inr ?s)"
    using served_migrates by (simp add: loadLegacyState_def i publishLoaded_def served_fields)
  moreover have "sd_State served_disk = FileMissing" "sd_Marker served_disk = FileMissing" by (simp_all add: served_disk_def)
  ultimately show ?thesis by (simp add: loadOperationalStateLocked_def loadOperationalSchemaMarker_def)
qed

text \<open>The flat files are imported and written as a state of the current version, which the next load returns.\<close>

theorem loading_settles_the_store_witness:
  "sd_State (migrated_disk True) = FileHolds (served_state True) \<and>
   loadOperationalStateLocked ascii_case (\<lambda>_. Inr []) None None (WriteRejected ErrNotExist) (WriteRejected ErrNotExist) (migrated_disk True) =
     (migrated_disk True, Inr (served_state True))"
proof -
  have "disk_wf served_disk" by (simp add: disk_wf_def served_disk_def)
  moreover have "legacy_records served_disk"
    by (simp add: legacy_records_def holds_records_def served_disk_def legacy_record_def filepath_Ext_def)
  moreover have "\<not> awaits_evidence ascii_case (\<lambda>_. Inr []) None ((served_state True)\<lparr>os_migratedRevisions := [revisionKey ''petstore'' ''rev-1'']\<rparr>)"
    using sample_evidence [of "''rev-1''"] by (simp add: awaits_evidence_def served_fields)
  moreover have "(served_state True)\<lparr>os_migratedRevisions := []\<rparr> = served_state True" using served_fields(3) [of True] by simp
  ultimately show ?thesis using loading_settles_the_store [OF served_loaded] by auto
qed

lemma served_withdrawn:
  "WithinFiles ascii_case (\<lambda>_. Inr []) None None None (WriteConfirmed, WriteConfirmed) (WriteConfirmed, WriteConfirmed)
     (savePublicationIn None ((shared_publication ''rev-1'')\<lparr>pub_Public := False\<rparr>)) id (migrated_disk True) =
   (migrated_disk False, Inr ())"
proof -
  let ?p = "(shared_publication ''rev-1'')\<lparr>pub_Public := False\<rparr>" and ?t = "begin_transaction (served_state True)"
  have t: "tx_state ?t = served_state True" "tx_mutatedRevisions ?t = []" "tx_validatedReleaseTracks ?t = []"
    by (simp_all add: begin_transaction_def cloneOperationalState_def cloneReleaseTracks_def map_from_def served_state_def newOperationalState_def)
  have "validatePublicPath ''/petstore'' = None" using sample_path(1) by (simp add: validatePublicPath_def)
  moreover have "bindRevisionOwner (served_state True) ''petstore'' ''rev-1'' owner = Inr (served_state True, False)" for owner
    by (rule sample_bound) (simp add: served_fields)
  moreover have "(served_state True)\<lparr>os_Publications := [(publicationKey ''petstore'' ''rev-1'', ?p)]\<rparr> = served_state False"
    by (simp add: served_state_def)
  moreover have "?t\<lparr>tx_state := served_state True\<rparr> = ?t" using t(1) by simp
  ultimately have save: "tx_SavePublication None ?p ?t = Inr (?t\<lparr>tx_state := served_state False\<rparr>)"
    using sample_valid_ids sample_canonical_ids
    by (simp add: tx_SavePublication_def tx_bindRevisionOwner_def t(1) Let_def bind_res_def served_fields(2) require_None)
      (simp add: shared_publication_def served_fields(2))
  have v: "validateOperationalState ascii_case (\<lambda>_. Inr []) None (served_state True) (served_state False) [] = None"
    using served_valid [of False] by (simp add: validateOperationalState_def store_valid_def)
      (simp add: validateChangedReleaseEvidence_def served_state_def newOperationalState_def)
  have c: "validateCommittedReleaseTracks [] (os_ReleaseTracks (served_state False)) = None"
    by (simp add: validateCommittedReleaseTracks_def maps_equal_def served_state_def newOperationalState_def)
  have "(served_state False)\<lparr>os_migratedRevisions := []\<rparr> = served_state False" using served_fields(3) [of False] by simp
  then have p: "publishOnDisk None WriteConfirmed WriteConfirmed (served_state False) (migrated_disk True) = (migrated_disk False, None)"
    by (simp add: publishOnDisk_def served_fields writeFile_def persistOperationalSchemaMarker_def loadOperationalSchemaMarker_def
        migrated_disk_def operationalStateVersion_def authenticatedStateVersion_def)
  have "loadOperationalStateLocked ascii_case (\<lambda>_. Inr []) None None WriteConfirmed WriteConfirmed (migrated_disk True) =
      (migrated_disk True, Inr (served_state True))"
    by (intro load_current [OF _ _ served_valid]) (simp_all add: migrated_disk_def)
  then show ?thesis
    by (simp add: WithinFiles_def first_error.simps savePublicationIn_def save bind_res_def t v c p)
qed

theorem withdrawn_publication_served_from_legacy_file_witness:
  "map_of (os_Publications (served_state False)) (publicationKey ''petstore'' ''rev-1'') =
     Some ((shared_publication ''rev-1'')\<lparr>pub_Public := False\<rparr>) \<and>
   PublicationByPath (PublicPublicationByPath ascii_case (\<lambda>_. Inr []) None None (Inr (served_state False))
     (sd_Publications (migrated_disk False))) ''/petstore'' = Inr (shared_publication ''rev-1'')"
proof -
  let ?p = "shared_publication ''rev-1''"
  have p: "pub_ProjectID ?p = ''petstore''" "pub_RevisionID ?p = ''rev-1''" "pub_Path ?p = ''/petstore''" "pub_Public ?p"
    by (simp_all add: shared_publication_def)
  have "map_of (os_Publications (served_state True)) (publication_key ?p) = Some ?p"
    by (simp add: served_fields shared_publication_def)
  then obtain s' where s': "\<forall>w w'. loadOperationalStateLocked ascii_case (\<lambda>_. Inr []) None None w w' (migrated_disk False) =
      (migrated_disk False, Inr s')"
    "map_of (os_Publications s') (publication_key ?p) = Some (?p\<lparr>pub_Public := False\<rparr>)"
    "PublicationByPath (PublicPublicationByPath ascii_case (\<lambda>_. Inr []) None None (Inr s') (sd_Publications (migrated_disk False)))
       (pub_Path ?p) = Inr ?p"
    using withdrawn_publication_served_from_legacy_file [OF served_loaded _ _ _ _ _ _ _ _ p(4) served_withdrawn,
        of "[\<lparr>le_Name = ''petstore-rev-1.json'', le_IsDir = False, le_Value = Inr ?p\<rparr>]"
          "\<lparr>le_Name = ''petstore-rev-1.json'', le_IsDir = False, le_Value = Inr ?p\<rparr>"]
    by (auto simp add: served_disk_def migrated_disk_def legacy_record_def filepath_Ext_def)
  moreover have "s' = served_state False"
    using s'(1) load_current [OF _ _ served_valid [of False], of "migrated_disk False"] by (simp add: migrated_disk_def)
  ultimately show ?thesis by (simp add: p)
qed

section \<open>A flat revision that awaits its evidence\<close>

definition flat_revision :: contract_revision where
  "flat_revision = (sample_revision ''rev-1'')\<lparr>vr_ContractID := [], vr_ReviewSnapshot := None\<rparr>"

definition flat_publication :: publication where
  "flat_publication = (shared_publication ''rev-1'')\<lparr>pub_Public := False\<rparr>"

definition flat_disk :: store_disk where
  "flat_disk = \<lparr>sd_State = FileMissing, sd_Marker = FileMissing,
     sd_Revisions = DirEntries [\<lparr>le_Name = ''rev-1.json'', le_IsDir = False, le_Value = Inr flat_revision\<rparr>],
     sd_Publications = DirEntries [\<lparr>le_Name = ''petstore-rev-1.json'', le_IsDir = False, le_Value = Inr flat_publication\<rparr>],
     sd_SyncRecords = DirMissing\<rparr>"

definition flat_state :: operational_state where
  "flat_state = newOperationalState\<lparr>os_Revisions := [(revisionKey ''petstore'' ''rev-1'', flat_revision\<lparr>vr_ContractID := ''petstore''\<rparr>)],
     os_migratedRevisions := [''rev-1''],
     os_Publications := [(publicationKey ''petstore'' ''rev-1'', flat_publication)]\<rparr>"

lemma flat_imported:
  "importLegacyRecords flat_disk = Inr (newOperationalState\<lparr>os_Revisions := [(''rev-1'', flat_revision)],
     os_migratedRevisions := [''rev-1''], os_Publications := [(publicationKey ''petstore'' ''rev-1'', flat_publication)]\<rparr>)"
  by (simp add: importLegacyRecords_def flat_disk_def mergeLegacyJSON_def legacy_record_def filepath_Ext_def bind_res_def wrap_res_def
      revisionStorageKey_def revisionKey_def flat_revision_def sample_revision_def flat_publication_def shared_publication_def map_keys_def
      newOperationalState_def)

lemma flat_revision_valid: "ValidateContractRevision ascii_case (flat_revision\<lparr>vr_ContractID := ''petstore''\<rparr>) = None"
proof -
  have ok: "snapshot_ok ascii_case (release_snapshot ''rev-1'')" using release_snapshot_ok by auto
  have k: "canonical (ContentAddressedBlobKey [])"
    using sha256Hex_chars [of _ "[]"]
    by (intro canonical_ascii) (fastforce simp: ContentAddressedBlobKey_def lower_hex_char_def)+
  have "utf8_valid s" if "s \<in> direct_strings (rv_revision (flat_revision\<lparr>vr_ContractID := ''petstore''\<rparr>))" for s
    using that sample_canonical_ids k contract_digest_lower [of "''rev-1''"] ok
    by (auto simp: rv_revision_def flat_revision_def sample_revision_def release_snapshot_fields
        intro: canonical_valid isLowerSHA256_valid)
  then show ?thesis
    using sample_canonical_ids k ok contract_digest_lower
    by (simp add: ValidateContractRevision_def validateUTF8Strings_direct)
      (simp add: flat_revision_def sample_revision_def release_snapshot_fields)
qed

lemma flat_references: "validateOperationalReferences ascii_case flat_state = None"
proof -
  have "validatePublicPath ''/petstore'' = None" using sample_path(1) by (simp add: validatePublicPath_def)
  then have i: "validatePersistedOperationalIdentities ascii_case flat_state = None"
    using flat_revision_valid sample_canonical_ids sample_valid_ids
    by (simp add: validatePersistedOperationalIdentities_def flat_state_def newOperationalState_def)
      (simp add: flat_revision_def sample_revision_def flat_publication_def shared_publication_def)
  have o: "requireOwnedRevision flat_state ''petstore'' ''rev-1'' owner = None" for owner
    using petstore_trimmed
    by (simp add: requireOwnedRevision_def revisionForContract_def flat_state_def flat_revision_def sample_revision_def)
  show ?thesis
    using i o
    by (simp add: validateOperationalReferences_def)
      (simp add: flat_state_def newOperationalState_def validateUniquePublicPaths_def map_keys_def sort_slice_def Let_def
        validateReleaseEvidenceAuthorities_def revisionStorageKey_def flat_revision_def sample_revision_def flat_publication_def
        shared_publication_def)
qed

lemma flat_awaits: "validateRevisionEvidence ascii_case (\<lambda>_. Inr []) None (flat_revision\<lparr>vr_ContractID := ''petstore''\<rparr>) \<noteq> None"
  "legacyRevisionAwaitsEvidenceEnrichment (flat_revision\<lparr>vr_ContractID := ''petstore''\<rparr>)"
proof -
  have "sha256Hex [] \<noteq> []" by (metis length_0_conv length_sha256Hex zero_neq_numeral)
  then show "validateRevisionEvidence ascii_case (\<lambda>_. Inr []) None (flat_revision\<lparr>vr_ContractID := ''petstore''\<rparr>) \<noteq> None"
    "legacyRevisionAwaitsEvidenceEnrichment (flat_revision\<lparr>vr_ContractID := ''petstore''\<rparr>)"
    by (auto simp: validateRevisionEvidence_def legacyRevisionAwaitsEvidenceEnrichment_def flat_revision_def sample_revision_def Let_def
        release_snapshot_fields ContentAddressedBlobKey_def)
qed

lemma flat_loaded:
  "loadOperationalStateLocked ascii_case (\<lambda>_. Inr []) None None w w' flat_disk = (flat_disk, Inr flat_state)"
proof -
  let ?s = "newOperationalState\<lparr>os_Revisions := [(''rev-1'', flat_revision)],
     os_migratedRevisions := [''rev-1''], os_Publications := [(publicationKey ''petstore'' ''rev-1'', flat_publication)]\<rparr>"
  have r: "reconcileLegacyPublications ?s = Inr ?s"
    by (simp add: reconcileLegacyPublications_def publicPathNames_def flat_publication_def bind_res_def)
  have b: "bindLegacyOperationalRevisionOwners ?s = Inr flat_state"
    using sample_adopted [of ?s flat_revision "[]"]
    by (simp add: bindLegacyOperationalRevisionOwners_def legacyOwnerReferences_def newOperationalState_def flat_publication_def
        shared_publication_def bind_res_def flat_state_def flat_revision_def)
  have v: "validateReleaseTrackAuthorities flat_state = None"
    by (simp add: validateReleaseTrackAuthorities_def flat_state_def newOperationalState_def)
  have ev: "legacyEvidence ascii_case (\<lambda>_. Inr []) None [flat_revision\<lparr>vr_ContractID := ''petstore''\<rparr>] False = Inr True"
    using flat_awaits by (simp split: option.split)
  have revs: "map (\<lambda>key. the (map_of (os_Revisions flat_state) key)) (sort_strings (map_keys (os_Revisions flat_state))) =
      [flat_revision\<lparr>vr_ContractID := ''petstore''\<rparr>]"
    by (simp add: flat_state_def map_keys_def sort_slice_def)
  have m: "migrateLegacyRecords ascii_case (\<lambda>_. Inr []) None ?s = Inr (flat_state, True)"
    by (simp add: migrateLegacyRecords_def r b wrap_res_def bind_res_def v flat_references revs ev del: legacyEvidence.simps)
  show ?thesis
    unfolding loadOperationalStateLocked_def loadLegacyState_def flat_imported
    using m by (simp add: loadOperationalSchemaMarker_def flat_disk_def)
qed

theorem adopted_legacy_revision_cannot_be_completed_witness:
  "\<exists>e. WithinFiles ascii_case (\<lambda>_. Inr []) None None None (WriteConfirmed, WriteConfirmed) (WriteConfirmed, WriteConfirmed)
     (saveRevisionIn ascii_case None (sample_revision ''rev-1'')) id flat_disk = (flat_disk, Inl e)"
  by (rule adopted_legacy_revision_cannot_be_completed [OF flat_loaded, of "''rev-1''"])
    (simp_all add: flat_state_def bare_keys bare_keys [symmetric] sample_revision_def)

end
