(* ===== verification/Release_Coordination.thy ===== *)
theory Release_Coordination
  imports Release_Safety
begin

text \<open>
  The release service on a transactional store. The interface the service relies on is a locale: what
  reading and saving a release track do to the tracks of a transaction, and that the other operations
  leave them alone. Its client lemma describes every successful run of the service's callback. The
  file store's transaction satisfies the interface, and \<open>fs_coordinate\<close> is the service wired to it.
\<close>

section \<open>Runs of the callback\<close>

definition timely :: "gotime \<Rightarrow> release_evidence \<Rightarrow> bool" where
  "timely clock evidence \<longleftrightarrow> \<not> time_IsZero (time_UTC clock) \<and>
     \<not> time_After (rr_EvaluatedAt (cv_Report (ev_Review evidence))) (time_Add (time_UTC clock) ReleaseReviewMaxFutureSkew) \<and>
     validateAppliedExceptionsAtReleaseTime (cv_Report (ev_Review evidence)) (time_UTC clock) = None"

lemma releaseTransition_Inr:
  assumes "releaseTransition ops clock command evidence d t = Inr (next, t')"
  obtains track where "so_ReleaseTrack ops (rc_ContractID command) (rc_TrackID command) t = Inr track"
    "track_ok track" "validateReleaseAuthorizationForTrack (ev_Authorization evidence) track = None"
    "(t' = t \<and> next = track \<and> (rt_LastDecision track = Some d \<or> ConsiderReleaseDecision track d = Inr (track, False))) \<or>
     (rt_LastDecision track \<noteq> Some d \<and> timely clock evidence \<and> ConsiderReleaseDecision track d = Inr (next, True) \<and>
      rt_CurrentRevisionID track = ra_BaselineRevisionID (ev_Authorization evidence) \<and>
      saveReleaseEffects ops command (ev_Authorization evidence) (time_UTC clock) track next t = Inr t')"
proof -
  obtain track where r: "so_ReleaseTrack ops (rc_ContractID command) (rc_TrackID command) t = Inr track"
    using assms by (auto simp: releaseTransition_def Let_def split: sum.splits)
  note a = assms [unfolded releaseTransition_def Let_def r sum.case]
  have ok: "track_ok track" "validateReleaseAuthorizationForTrack (ev_Authorization evidence) track = None"
    using a by (auto split: option.splits)
  show thesis
  proof (cases "rt_LastDecision track = Some d")
    case True
    then show thesis using a by (intro that [OF r ok]) (auto split: option.splits)
  next
    case False
    then have "timely clock evidence" using a by (auto simp: timely_def split: option.splits)
    then show thesis using a False ok(1)
      by (intro that [OF r ok]) (auto simp: Consider_unchanged split: option.splits sum.splits prod.splits if_splits)
  qed
qed

lemma effects_Inr:
  assumes "saveReleaseEffects ops command a now track next t = Inr t'"
  obtains u v w where "so_SaveReleaseTrack ops (rt_Generation track) next t = Inr u"
    "if rc_Accepted command \<and> rt_CurrentRevisionID next = ra_CandidateRevisionID a
     then so_SavePublication ops (release_publication a) u = Inr v else v = u"
    "so_AppendAuditEvent ops (release_event a (releaseEvidenceID a (rc_Accepted command) (rt_Generation next))
       (rc_ActorID command) now) v = Inr w"
    "so_Enqueue ops (release_message a (releaseEvidenceID a (rc_Accepted command) (rt_Generation next)) now) w = Inr t'"
  using assms unfolding saveReleaseEffects_def Let_def bind_res_Inr wrap_res_Inr
  by (elim exE conjE) (auto split: if_split_asm)

section \<open>The transactional store as the service sees it\<close>

locale release_store =
  fixes ops :: "'t store_ops" and key :: "string \<Rightarrow> string \<Rightarrow> 'k" and tracks :: "'t \<Rightarrow> 'k \<Rightarrow> release_track option"
  assumes read_track: "so_ReleaseTrack ops c i t = Inr track \<Longrightarrow> tracks t (key c i) = Some track"
    and save_track: "so_SaveReleaseTrack ops g track t = Inr t' \<Longrightarrow>
      tracks t' = (tracks t)(key (rt_ContractID track) (rt_ID track) \<mapsto> track)"
    and publication_keeps: "so_SavePublication ops p t = Inr t' \<Longrightarrow> tracks t' = tracks t"
    and event_keeps: "so_AppendAuditEvent ops e t = Inr t' \<Longrightarrow> tracks t' = tracks t"
    and message_keeps: "so_Enqueue ops m t = Inr t' \<Longrightarrow> tracks t' = tracks t"
begin

lemma effects_tracks:
  assumes "saveReleaseEffects ops command a now track next t = Inr t'"
  shows "tracks t' = (tracks t)(key (rt_ContractID next) (rt_ID next) \<mapsto> next)"
proof -
  obtain u v w e m where s: "so_SaveReleaseTrack ops (rt_Generation track) next t = Inr u"
    and p: "v = u \<or> so_SavePublication ops (release_publication a) u = Inr v"
    and e: "so_AppendAuditEvent ops e v = Inr w" and m: "so_Enqueue ops m w = Inr t'"
    by (rule effects_Inr [OF assms]) (metis)
  have "tracks t' = tracks u"
    using p e m publication_keeps event_keeps message_keeps by metis
  then show ?thesis using save_track [OF s] by simp
qed

text \<open>A successful run moves at most the authorized track, and that one by the domain transition.\<close>

lemma run_tracks:
  assumes "releaseTransition ops clock command evidence d t = Inr (next, t')"
    and "ra_ContractID (ev_Authorization evidence) = rc_ContractID command"
    and "ra_TrackID (ev_Authorization evidence) = rc_TrackID command"
  shows "\<exists>track changed. tracks t (key (rc_ContractID command) (rc_TrackID command)) = Some track \<and>
    (rt_LastDecision track = Some d \<and> next = track \<or> ConsiderReleaseDecision track d = Inr (next, changed)) \<and>
    tracks t' = (tracks t)(key (rc_ContractID command) (rc_TrackID command) \<mapsto> next)"
proof (rule releaseTransition_Inr [OF assms(1)])
  fix track
  assume r: "so_ReleaseTrack ops (rc_ContractID command) (rc_TrackID command) t = Inr track"
    and v: "validateReleaseAuthorizationForTrack (ev_Authorization evidence) track = None"
    and c: "(t' = t \<and> next = track \<and> (rt_LastDecision track = Some d \<or> ConsiderReleaseDecision track d = Inr (track, False))) \<or>
      (rt_LastDecision track \<noteq> Some d \<and> timely clock evidence \<and> ConsiderReleaseDecision track d = Inr (next, True) \<and>
       rt_CurrentRevisionID track = ra_BaselineRevisionID (ev_Authorization evidence) \<and>
       saveReleaseEffects ops command (ev_Authorization evidence) (time_UTC clock) track next t = Inr t')"
  have t: "tracks t (key (rc_ContractID command) (rc_TrackID command)) = Some track" by (rule read_track [OF r])
  have ids: "rt_ContractID track = rc_ContractID command" "rt_ID track = rc_TrackID command"
    using v assms(2,3) by (simp_all add: validateReleaseAuthorizationForTrack_def)
  from c show ?thesis
  proof
    assume "rt_LastDecision track \<noteq> Some d \<and> timely clock evidence \<and> ConsiderReleaseDecision track d = Inr (next, True) \<and>
       rt_CurrentRevisionID track = ra_BaselineRevisionID (ev_Authorization evidence) \<and>
       saveReleaseEffects ops command (ev_Authorization evidence) (time_UTC clock) track next t = Inr t'"
    then have n: "ConsiderReleaseDecision track d = Inr (next, True)"
      and e: "saveReleaseEffects ops command (ev_Authorization evidence) (time_UTC clock) track next t = Inr t'" by blast+
    have "rt_ContractID next = rc_ContractID command" "rt_ID next = rc_TrackID command"
      using track_step_frame [OF track_step.decide [OF n]] ids by simp_all
    then show ?thesis using t n effects_tracks [OF e] by auto
  qed (use t in auto)
qed

end

section \<open>The file store\<close>

definition fs_ops :: "err \<Rightarrow> operational_transaction store_ops" where
  "fs_ops ctx = \<lparr>so_ReleaseTrack = tx_ReleaseTrack ctx, so_SaveReleaseTrack = tx_SaveReleaseTrack ctx,
     so_SavePublication = tx_SavePublication ctx, so_AppendAuditEvent = tx_AppendAuditEvent ctx, so_Enqueue = tx_Enqueue ctx\<rparr>"

abbreviation fs_tracks :: "operational_transaction \<Rightarrow> string \<Rightarrow> release_track option" where
  "fs_tracks t \<equiv> map_of (os_ReleaseTracks (tx_state t))"

lemma tracks_kept:
  "tx_SavePublication ctx p t = Inr t' \<Longrightarrow> os_ReleaseTracks (tx_state t') = os_ReleaseTracks (tx_state t)"
  "tx_AppendAuditEvent ctx e t = Inr t' \<Longrightarrow> os_ReleaseTracks (tx_state t') = os_ReleaseTracks (tx_state t)"
  "tx_Enqueue ctx m t = Inr t' \<Longrightarrow> os_ReleaseTracks (tx_state t') = os_ReleaseTracks (tx_state t)"
proof -
  note b = same_records_fields(6) [OF tx_bind_Inr(1)] same_records_fields(6) [OF if_bind_Inr(1)]
  show "os_ReleaseTracks (tx_state t') = os_ReleaseTracks (tx_state t)" if "tx_SavePublication ctx p t = Inr t'"
    using that unfolding tx_SavePublication_def Let_def require_Inr bind_res_Inr by (auto dest: b)
  show "os_ReleaseTracks (tx_state t') = os_ReleaseTracks (tx_state t)" if "tx_AppendAuditEvent ctx e t = Inr t'"
    using that unfolding tx_AppendAuditEvent_def require_Inr bind_res_Inr
    by - (elim conjE exE, drule save_immutable_Inr, drule b(2), auto)
  show "os_ReleaseTracks (tx_state t') = os_ReleaseTracks (tx_state t)" if "tx_Enqueue ctx m t = Inr t'"
    using that unfolding tx_Enqueue_def require_Inr bind_res_Inr
    by - (elim conjE exE, drule save_immutable_Inr, drule b(2), auto)
qed

lemma saved_track:
  assumes "tx_SaveReleaseTrack ctx g track t = Inr t'"
  shows "fs_tracks t' = (fs_tracks t)(releaseTrackKey (rt_ContractID track) (rt_ID track) \<mapsto> track)"
  using assms
proof (cases rule: SaveReleaseTrack_cases)
  case (saved u v)
  have "os_ReleaseTracks (tx_state v) = os_ReleaseTracks (tx_state t)"
    using same_records_fields(6) [OF if_bind_Inr(1) [OF saved(2)]] same_records_fields(6) [OF if_bind_Inr(1) [OF saved(3)]] by simp
  then show ?thesis by (simp add: saved(4))
qed (auto simp: fun_upd_idem)

interpretation file_store: release_store "fs_ops ctx" releaseTrackKey fs_tracks for ctx
  by unfold_locales
    (auto simp: fs_ops_def tx_ReleaseTrack_def case_None_Inl saved_track tracks_kept)

text \<open>The service wired to a file store whose loaded state is \<open>s\<close>.\<close>

definition fs_coordinate ::
    "unicode_case \<Rightarrow> (string \<Rightarrow> string result) \<Rightarrow> err \<Rightarrow> publish_outcome \<Rightarrow> gotime \<Rightarrow> release_command \<Rightarrow> operational_state \<Rightarrow>
     operational_state \<times> (app_error + release_track)" where
  "fs_coordinate uc read_blob ctx outcome clock command s =
     Coordinate uc (ContractRevision uc read_blob ctx ctx (Inr s)) (ReleaseEvidence uc read_blob ctx ctx (Inr s))
       (\<lambda>callback. Within uc read_blob ctx ctx outcome callback (Pair False)) (fs_ops ctx) clock command s"

text \<open>The decision the service binds to a command from the evidence the store holds.\<close>

definition fs_decision ::
    "unicode_case \<Rightarrow> (string \<Rightarrow> string result) \<Rightarrow> err \<Rightarrow> release_command \<Rightarrow> operational_state \<Rightarrow> release_decision result" where
  "fs_decision uc read_blob ctx command s =
     bind_res (ReleaseEvidence uc read_blob ctx ctx (Inr s) (rc_ContractID command) (rc_TrackID command) (cv_ID (rc_Review command)))
       (boundDecision uc (ContractRevision uc read_blob ctx ctx (Inr s)) command)"

lemma fs_coordinate_Inr:
  assumes "fs_coordinate uc read_blob ctx outcome clock command s = (s', Inr next)"
  obtains evidence d where "validateReleaseCommand command = None"
    "ReleaseEvidence uc read_blob ctx ctx (Inr s) (rc_ContractID command) (rc_TrackID command) (cv_ID (rc_Review command)) = Inr evidence"
    "boundDecision uc (ContractRevision uc read_blob ctx ctx (Inr s)) command evidence = Inr d"
    "Within uc read_blob ctx ctx outcome (releaseTransition (fs_ops ctx) clock command evidence d) (Pair False) s = (s', Inr next)"
  using assms by (auto simp: fs_coordinate_def Coordinate_def split: option.splits sum.splits prod.splits)

lemma ReleaseEvidence_Inr:
  assumes "ReleaseEvidence uc read_blob ctx admission (Inr s) c i v = Inr evidence"
  shows "map_of (os_ReleaseAuthorizations s) v = Some (ev_Authorization evidence)"
    "ra_ContractID (ev_Authorization evidence) = c" "ra_TrackID (ev_Authorization evidence) = i"
    "map_of (os_Reviews s) (ra_ReviewID (ev_Authorization evidence)) = Some (ev_Review evidence)"
    "map_of (os_SyncRecords s) (ra_SyncRecordID (ev_Authorization evidence)) = Some (ev_SyncRecord evidence)"
    "validateReleaseAuthorizationRevisionEvidence uc read_blob ctx s (ev_Authorization evidence) = None"
  using assms by (auto simp: ReleaseEvidence_def case_None_Inl)

lemma boundDecision_Inr:
  assumes "boundDecision uc revisions command evidence = Inr d"
  shows "validateSelectedReleaseEvidence command evidence = None" and "releaseDecision (ev_Review evidence) (rc_Accepted command) = Inr d"
  using assms by (auto simp: boundDecision_def Let_def)

lemma releaseDecision_Inr:
  assumes "releaseDecision review accepted = Inr d"
  shows "rd_RevisionID d = cv_CandidateRevisionID review" "rd_ReviewID d = cv_ID review" "rd_Accepted d = accepted"
    "rd_Verdict d = rr_Verdict (cv_Report review)" "rd_EvaluatedAt d = rr_EvaluatedAt (cv_Report review)"
  using assms by (auto simp: releaseDecision_def)

section \<open>Every run is a sequence of store operations\<close>

lemma effects_ops:
  assumes "saveReleaseEffects (fs_ops ctx) command a now track next t = Inr t'"
  shows "(tx_op uc)\<^sup>*\<^sup>* t t'"
proof -
  obtain u v w e m where s: "tx_SaveReleaseTrack ctx (rt_Generation track) next t = Inr u"
    and p: "v = u \<or> tx_SavePublication ctx (release_publication a) u = Inr v"
    and e: "tx_AppendAuditEvent ctx e v = Inr w" and m: "tx_Enqueue ctx m w = Inr t'"
    by (rule effects_Inr [OF assms]) (metis fs_ops_def store_ops.select_convs)
  have "tx_op uc t u" "v = u \<or> tx_op uc u v" "tx_op uc v w" "tx_op uc w t'"
    using s p e m by (auto intro: tx_op.intros)
  moreover from this have "(tx_op uc)\<^sup>*\<^sup>* t v" by (metis r_into_rtranclp rtranclp.rtrancl_into_rtrancl)
  ultimately show ?thesis by (metis rtranclp.rtrancl_into_rtrancl)
qed

lemma transition_ops:
  assumes "releaseTransition (fs_ops ctx) clock command evidence d t = Inr (next, t')"
  shows "(tx_op uc)\<^sup>*\<^sup>* t t'"
  by (rule releaseTransition_Inr [OF assms]) (auto dest: effects_ops)

lemma Within_Inr:
  assumes "Within uc read_blob ctx0 ctx outcome callback f s = (s', Inr v)"
  obtains t where "callback (begin_transaction s) = Inr (v, t)" "s' = (tx_state t)\<lparr>os_migratedRevisions := []\<rparr>"
  using assms
  by (auto simp: Within_def publishCurrentOperationalState_def
      split: option.splits sum.splits prod.splits if_splits publish_outcome.splits)

lemma Within_forget:
  "fst (Within uc read_blob ctx0 ctx outcome callback f s) =
   fst (Within uc read_blob ctx0 ctx outcome
     (\<lambda>t. case callback t of Inl e \<Rightarrow> Inl ErrNotExist | Inr (v, t') \<Rightarrow> Inr ((), t')) id s)"
  by (simp add: Within_def publishCurrentOperationalState_def del: first_error_None
      split: option.split sum.split prod.split publish_outcome.split)

lemma Within_store_step:
  assumes "\<And>t v t'. callback t = Inr (v, t') \<Longrightarrow> (tx_op uc)\<^sup>*\<^sup>* t t'"
    and "Within uc read_blob ctx0 ctx outcome callback f s = (s', r)"
  shows "store_step uc s s'"
proof -
  let ?callback = "\<lambda>t. case callback t of Inl e \<Rightarrow> Inl ErrNotExist | Inr (v, t') \<Rightarrow> Inr ((), t')"
  obtain r' where "Within uc read_blob ctx0 ctx outcome ?callback id s = (s', r')"
    using Within_forget [of uc read_blob ctx0 ctx outcome callback f s] assms(2)
    by (metis fst_conv prod.collapse)
  moreover have "uses_operations uc ?callback"
    using assms(1) by (auto simp: uses_operations_def split: sum.splits prod.splits)
  ultimately show ?thesis by (intro store_step.intros)
qed

lemma coordinate_store_step:
  assumes "fs_coordinate uc read_blob ctx outcome clock command s = (s', r)"
  shows "s' = s \<or> store_step uc s s'"
proof -
  have "s' = s \<or> (\<exists>evidence d r. Within uc read_blob ctx ctx outcome
      (releaseTransition (fs_ops ctx) clock command evidence d) (Pair False) s = (s', r))"
    using assms by (auto simp: fs_coordinate_def Coordinate_def split: option.splits sum.splits prod.splits)
  then show ?thesis using transition_ops Within_store_step by metis
qed

section \<open>What coordinating a release does\<close>

lemma selected_evidence:
  assumes "validateSelectedReleaseEvidence command evidence = None"
  shows "ra_ReviewID (ev_Authorization evidence) = cv_ID (rc_Review command)"
    "ra_CandidateRevisionID (ev_Authorization evidence) = rc_RevisionID command"
    "cv_ID (ev_Review evidence) = ra_ReviewID (ev_Authorization evidence)"
    "cv_CandidateRevisionID (ev_Review evidence) = ra_CandidateRevisionID (ev_Authorization evidence)"
    "rc_Accepted command \<Longrightarrow> rr_Verdict (cv_Report (ev_Review evidence)) = VerdictPass"
    "rc_Accepted command \<Longrightarrow> sr_Result (ev_SyncRecord evidence) = SyncResultSuccess"
  using assms by (auto simp: validateSelectedReleaseEvidence_def Let_def)

lemma bound_decision_fields:
  assumes "ReleaseEvidence uc read_blob ctx ctx (Inr s) (rc_ContractID command) (rc_TrackID command) (cv_ID (rc_Review command)) = Inr evidence"
    and "boundDecision uc revisions command evidence = Inr d"
  shows "rd_RevisionID d = rc_RevisionID command" "rd_ReviewID d = cv_ID (rc_Review command)" "rd_Accepted d = rc_Accepted command"
    "map_of (os_Reviews s) (cv_ID (rc_Review command)) = Some (ev_Review evidence)" "rd_Verdict d = rr_Verdict (cv_Report (ev_Review evidence))"
  using ReleaseEvidence_Inr [OF assms(1)] selected_evidence [OF boundDecision_Inr(1) [OF assms(2)]]
    releaseDecision_Inr [OF boundDecision_Inr(2) [OF assms(2)]] by simp_all

text \<open>
  C2: Coordinating a release on the file store is the domain transition on the commanded track and
  nothing else. When it succeeds, the decision it applied is the one bound to the persisted review and
  the command (accepted only if that review passed), the new state has the result of
  \<open>ConsiderReleaseDecision\<close> under the track's key and every other track as it was, and it is valid again.
\<close>

theorem coordination_refines_the_domain_transition:
  assumes "store_valid uc s" and "fs_coordinate uc read_blob ctx outcome clock command s = (s', Inr next)"
  shows "\<exists>track d review changed.
    map_of (os_ReleaseTracks s) (releaseTrackKey (rc_ContractID command) (rc_TrackID command)) = Some track \<and>
    (rt_LastDecision track = Some d \<and> next = track \<or> ConsiderReleaseDecision track d = Inr (next, changed)) \<and>
    rd_RevisionID d = rc_RevisionID command \<and> rd_Accepted d = rc_Accepted command \<and>
    map_of (os_Reviews s) (cv_ID (rc_Review command)) = Some review \<and> rd_ReviewID d = cv_ID (rc_Review command) \<and>
    rd_Verdict d = rr_Verdict (cv_Report review) \<and> (rc_Accepted command \<longrightarrow> rr_Verdict (cv_Report review) = VerdictPass) \<and>
    map_of (os_ReleaseTracks s') =
      (map_of (os_ReleaseTracks s))(releaseTrackKey (rc_ContractID command) (rc_TrackID command) \<mapsto> next) \<and>
    store_valid uc s'"
proof (rule fs_coordinate_Inr [OF assms(2)])
  fix evidence d
  assume e: "ReleaseEvidence uc read_blob ctx ctx (Inr s) (rc_ContractID command) (rc_TrackID command) (cv_ID (rc_Review command)) = Inr evidence"
    and b: "boundDecision uc (ContractRevision uc read_blob ctx ctx (Inr s)) command evidence = Inr d"
    and w: "Within uc read_blob ctx ctx outcome (releaseTransition (fs_ops ctx) clock command evidence d) (Pair False) s = (s', Inr next)"
  obtain t where t: "releaseTransition (fs_ops ctx) clock command evidence d (begin_transaction s) = Inr (next, t)"
    "s' = (tx_state t)\<lparr>os_migratedRevisions := []\<rparr>"
    by (rule Within_Inr [OF w])
  have "maps_wf s" using assms(1) by (simp add: store_valid_def)
  note s = begin_transaction_state(1) [OF this]
  have valid: "store_valid uc s'"
    using store_machine.step_inv [OF assms(1) Within_store_step [OF transition_ops w]] .
  show ?thesis
    using file_store.run_tracks [OF t(1) ReleaseEvidence_Inr(2,3) [OF e]] bound_decision_fields [OF e b]
      selected_evidence(5) [OF boundDecision_Inr(1) [OF b]] valid
    unfolding s by (auto simp: t(2))
qed

lemma errors_Is_self [simp]: "errors_Is e e"
  by (cases e) simp_all

text \<open>
  C6: A failed release leaves no trace unless its error says so. Whatever the error, the persisted state
  is the one before the command, except when the state file was already replaced; then the error is a
  transaction error that \<open>errors.Is\<close> recognises as \<open>ErrCommitOutcomeUnknown\<close>. Validation and integrity
  errors never follow a replacement.
\<close>

theorem failed_coordination_leaves_state:
  assumes "fs_coordinate uc read_blob ctx outcome clock command s = (s', Inl e)" and "s' \<noteq> s"
  shows "ek e = ErrorTransaction \<and> errors_Is (eerr e) ErrCommitOutcomeUnknown"
  using assms
  by (auto simp: fs_coordinate_def Coordinate_def Within_def publishCurrentOperationalState_def wrapError_def validationError_def
      split: option.splits sum.splits prod.splits if_splits publish_outcome.splits)

section \<open>Replays\<close>

lemma map_put_fresh: "k \<notin> fst ` set m \<Longrightarrow> map_put k v m = m @ [(k, v)]"
  by (induction m) auto

lemma map_from_id: "distinct (map_keys m) \<Longrightarrow> map_from fst snd m = m"
proof (induction m rule: rev_induct)
  case (snoc x m)
  then show ?case by (cases x) (simp add: map_from_snoc map_keys_def map_put_fresh)
qed (simp add: map_from_def)

lemma cloned_state: "maps_wf s \<Longrightarrow> cloneOperationalState s = s"
  by (simp add: cloneOperationalState_def cloneReleaseTracks_def maps_wf_def case_prod_unfold map_from_id flip: snd_def)

lemma unchanged_evidence:
  assumes "maps_wf s" shows "validateChangedReleaseEvidence uc read_blob ctx s s = None"
proof -
  have "map_of (os_ReleaseAuthorizations s) k = Some a" if "(k, a) \<in> set (os_ReleaseAuthorizations s)" for k a
    using that assms by (simp add: maps_wf_def map_keys_def)
  moreover have "map_of (os_ReleaseTracks s) k = Some a" if "(k, a) \<in> set (os_ReleaseTracks s)" for k a
    using that assms by (simp add: maps_wf_def map_keys_def)
  ultimately show ?thesis by (auto simp: validateChangedReleaseEvidence_def)
qed

lemma commit_of_nothing:
  assumes "store_valid uc s" and "os_migratedRevisions s = []" and "callback (begin_transaction s) = Inr (v, begin_transaction s)"
  shows "Within uc read_blob None None PublishConfirmed callback f s = (s, Inr v)"
proof -
  have wf: "maps_wf s" using assms(1) by (simp add: store_valid_def)
  have b: "begin_transaction s = \<lparr>tx_state = s, tx_validatedReleaseTracks = os_ReleaseTracks s, tx_mutatedRevisions = []\<rparr>"
    using cloned_state [OF wf] wf assms(2)
    by (simp add: begin_transaction_def cloneReleaseTracks_def case_prod_unfold map_from_id maps_wf_def flip: snd_def)
  have "validateOperationalState uc read_blob None s s [] = None"
    using assms(1) unchanged_evidence [OF wf] by (simp add: validateOperationalState_def store_valid_def)
  moreover have "validateCommittedReleaseTracks (os_ReleaseTracks s) (os_ReleaseTracks s) = None"
    using wf by (auto simp: validateCommittedReleaseTracks_def maps_equal_def maps_wf_def map_keys_def list_all_iff)
  moreover have "s\<lparr>os_migratedRevisions := []\<rparr> = s" using assms(2) by (cases s) simp
  moreover have "os_Version s = operationalStateVersion" using assms(1) by (simp add: store_valid_def)
  ultimately show ?thesis
    using assms(3) by (simp add: Within_def b publishCurrentOperationalState_def option.case_eq_if)
qed

text \<open>The evidence of a command reads the same before and after the run.\<close>

lemma bind_known:
  assumes "revisionForContract (tx_state t) c r = Some revision" and "tx_bindRevisionOwner c r owner t = Inr t'"
  shows "t' = t"
  using assms by (auto simp: revisionForContract_def tx_bindRevisionOwner_def bindRevisionOwner_def Let_def split: option.splits if_splits)

lemma if_bind_known:
  "(if b then tx_bindRevisionOwner c r owner t else Inr t) = Inr t' \<Longrightarrow>
     revisionForContract (tx_state t) c r \<noteq> None \<or> \<not> b \<Longrightarrow> t' = t"
  using bind_known [of t c r] by (auto split: if_splits)

lemma known_revisions:
  "tx_SavePublication ctx p t = Inr t' \<Longrightarrow> revisionForContract (tx_state t) (pub_ProjectID p) (pub_RevisionID p) \<noteq> None \<Longrightarrow>
     os_Revisions (tx_state t') = os_Revisions (tx_state t)"
  "tx_AppendAuditEvent ctx e t = Inr t' \<Longrightarrow> revisionForContract (tx_state t) (ae_ContractID e) (ae_RevisionID e) \<noteq> None \<Longrightarrow>
     os_Revisions (tx_state t') = os_Revisions (tx_state t)"
  "tx_Enqueue ctx m t = Inr t' \<Longrightarrow> revisionForContract (tx_state t) (om_ContractID m) (om_RevisionID m) \<noteq> None \<Longrightarrow>
     os_Revisions (tx_state t') = os_Revisions (tx_state t)"
proof -
  show "os_Revisions (tx_state t') = os_Revisions (tx_state t)" if "tx_SavePublication ctx p t = Inr t'"
    "revisionForContract (tx_state t) (pub_ProjectID p) (pub_RevisionID p) \<noteq> None"
    using that(1) bind_known [of t "pub_ProjectID p" "pub_RevisionID p"] that(2)
    unfolding tx_SavePublication_def Let_def require_Inr bind_res_Inr by (elim conjE exE) fastforce
  show "os_Revisions (tx_state t') = os_Revisions (tx_state t)" if "tx_AppendAuditEvent ctx e t = Inr t'"
    "revisionForContract (tx_state t) (ae_ContractID e) (ae_RevisionID e) \<noteq> None"
    using that(1) unfolding tx_AppendAuditEvent_def require_Inr bind_res_Inr
    by - (elim conjE exE, drule save_immutable_Inr, drule if_bind_known, rule disjI1, rule that(2), auto)
  show "os_Revisions (tx_state t') = os_Revisions (tx_state t)" if "tx_Enqueue ctx m t = Inr t'"
    "revisionForContract (tx_state t) (om_ContractID m) (om_RevisionID m) \<noteq> None"
    using that(1) unfolding tx_Enqueue_def require_Inr bind_res_Inr
    by - (elim conjE exE, drule save_immutable_Inr, drule if_bind_known, rule disjI1, rule that(2), auto)
qed

lemma effects_revisions:
  assumes e: "saveReleaseEffects (fs_ops ctx) command a now track next t = Inr t'"
    and known: "\<And>r. r \<in> {rt_CurrentRevisionID next, rt_CandidateRevisionID next, ra_CandidateRevisionID a} - {[]} \<Longrightarrow>
      revisionForContract (tx_state t) (ra_ContractID a) r \<noteq> None"
    and c: "rt_ContractID next = ra_ContractID a" and ne: "ra_CandidateRevisionID a \<noteq> []"
  shows "os_Revisions (tx_state t') = os_Revisions (tx_state t)"
proof -
  obtain u v w e m where s: "tx_SaveReleaseTrack ctx (rt_Generation track) next t = Inr u"
    and p: "v = u \<or> tx_SavePublication ctx (release_publication a) u = Inr v"
    and ev: "tx_AppendAuditEvent ctx e v = Inr w" "ae_ContractID e = ra_ContractID a" "ae_RevisionID e = ra_CandidateRevisionID a"
    and ms: "tx_Enqueue ctx m w = Inr t'" "om_ContractID m = ra_ContractID a" "om_RevisionID m = ra_CandidateRevisionID a"
    by (rule effects_Inr [OF e]) (metis fs_ops_def store_ops.select_convs release_event_def release_message_def
        audit_event.select_convs outbox_message.select_convs)
  have rf: "revisionForContract x i j = revisionForContract y i j" if "os_Revisions x = os_Revisions y" for x y i j
    using that by (simp add: revisionForContract_def)
  have u: "os_Revisions (tx_state u) = os_Revisions (tx_state t)"
    using s
  proof (cases rule: SaveReleaseTrack_cases)
    case (saved x y)
    have "x = t" using if_bind_known [OF saved(2)] known [of "rt_CurrentRevisionID next"] c by auto
    moreover from this have "y = x" using if_bind_known [OF saved(3)] known [of "rt_CandidateRevisionID next"] c by auto
    ultimately show ?thesis by (simp add: saved(4))
  qed simp
  have k: "revisionForContract (tx_state t) (ra_ContractID a) (ra_CandidateRevisionID a) \<noteq> None"
    using known [of "ra_CandidateRevisionID a"] ne by simp
  have v: "os_Revisions (tx_state v) = os_Revisions (tx_state t)"
    using p known_revisions(1) [of ctx "release_publication a" u v] k u rf [OF u] by (auto simp: release_publication_def)
  have w: "os_Revisions (tx_state w) = os_Revisions (tx_state t)"
    using known_revisions(2) [OF ev(1)] k v rf [OF v] ev(2,3) by simp
  show ?thesis using known_revisions(3) [OF ms(1)] k w rf [OF w] ms(2,3) by simp
qed

lemma evidence_reads_alike:
  assumes "os_Revisions s' = os_Revisions s"
  shows "ContractRevision uc read_blob ctx admission (Inr s') = ContractRevision uc read_blob ctx admission (Inr s)"
    "validateReleaseAuthorizationRevisionEvidence uc read_blob ctx s' a = validateReleaseAuthorizationRevisionEvidence uc read_blob ctx s a"
  using assms by (simp_all add: ContractRevision_def validateReleaseAuthorizationRevisionEvidence_def revisionForContract_def
      sequence_Inr fun_eq_iff)

lemma ReleaseEvidence_kept:
  assumes "ReleaseEvidence uc read_blob ctx admission (Inr s) c i v = Inr evidence"
    and "os_Revisions s' = os_Revisions s" and "history_kept s s'"
  shows "ReleaseEvidence uc read_blob ctx admission (Inr s') c i v = Inr evidence"
  using assms evidence_reads_alike(2) [OF assms(2)] by (auto simp: ReleaseEvidence_def case_None_Inl history_kept_def kept_def)

lemma authorized_revisions_known:
  assumes "ReleaseEvidence uc read_blob ctx admission (Inr s) c i v = Inr evidence"
    and "r \<in> {ra_BaselineRevisionID (ev_Authorization evidence), ra_CandidateRevisionID (ev_Authorization evidence)}"
  shows "revisionForContract s c r \<noteq> None"
  using ReleaseEvidence_Inr(2,6) [OF assms(1)] assms(2)
  by (auto simp: validateReleaseAuthorizationRevisionEvidence_def case_None_Some)

lemma run_keeps_revisions:
  assumes "ReleaseEvidence uc read_blob ctx admission (Inr s) (rc_ContractID command) i v = Inr evidence"
    and "boundDecision uc revisions command evidence = Inr d"
    and "releaseTransition (fs_ops ctx) clock command evidence d (begin_transaction s) = Inr (next, t)"
  shows "os_Revisions (tx_state t) = os_Revisions s"
proof -
  let ?a = "ev_Authorization evidence"
  have b: "os_Revisions (tx_state (begin_transaction s)) = os_Revisions s"
    by (simp add: begin_transaction_def cloneOperationalState_def)
  have sel: "validateSelectedReleaseEvidence command evidence = None" by (rule boundDecision_Inr(1) [OF assms(2)])
  have "ValidateReleaseAuthorization ?a = None" using sel by (simp add: validateSelectedReleaseEvidence_def Let_def)
  then have "canonical (ra_CandidateRevisionID ?a)"
    by (simp add: ValidateReleaseAuthorization_def validateCanonicalReleaseIdentity_def)
  then have ne: "ra_CandidateRevisionID ?a \<noteq> []" by (rule canonical_ne)
  have d: "rd_RevisionID d = ra_CandidateRevisionID ?a"
    using releaseDecision_Inr(1) [OF boundDecision_Inr(2) [OF assms(2)]] selected_evidence(4) [OF sel] by simp
  show ?thesis
  proof (rule releaseTransition_Inr [OF assms(3)], elim disjE conjE)
    fix track
    assume v: "validateReleaseAuthorizationForTrack ?a track = None"
      and n: "ConsiderReleaseDecision track d = Inr (next, True)" and cur: "rt_CurrentRevisionID track = ra_BaselineRevisionID ?a"
      and e: "saveReleaseEffects (fs_ops ctx) command ?a (time_UTC clock) track next (begin_transaction s) = Inr t"
    have next_eq: "next = applyDecision track d" using n by (simp add: Consider_applied)
    have "{rt_CurrentRevisionID next, rt_CandidateRevisionID next, ra_CandidateRevisionID ?a} - {[]}
        \<subseteq> {ra_BaselineRevisionID ?a, ra_CandidateRevisionID ?a}"
      using d cur by (auto simp: next_eq applyDecision_def Let_def)
    moreover have "revisionForContract (tx_state (begin_transaction s)) x y = revisionForContract s x y" for x y
      using b by (simp add: revisionForContract_def)
    ultimately have "revisionForContract (tx_state (begin_transaction s)) (ra_ContractID ?a) r \<noteq> None"
      if "r \<in> {rt_CurrentRevisionID next, rt_CandidateRevisionID next, ra_CandidateRevisionID ?a} - {[]}" for r
      using authorized_revisions_known [OF assms(1)] ReleaseEvidence_Inr(2) [OF assms(1)] that by auto
    moreover have "rt_ContractID next = ra_ContractID ?a" using v by (simp add: next_eq validateReleaseAuthorizationForTrack_def)
    ultimately show ?thesis using effects_revisions [OF e _ _ ne] b by simp
  qed (use b in auto)
qed

lemma replayed_transition:
  assumes run: "releaseTransition (fs_ops None) clock command evidence d t0 = Inr (next, t)"
    and last: "rt_LastDecision next = Some d" and ok: "track_ok next"
    and t: "fs_tracks t' (releaseTrackKey (rc_ContractID command) (rc_TrackID command)) = Some next"
  shows "releaseTransition (fs_ops None) clock' command evidence d t' = Inr (next, t')"
proof (rule releaseTransition_Inr [OF run])
  fix track
  let ?a = "ev_Authorization evidence"
  assume r: "so_ReleaseTrack (fs_ops None) (rc_ContractID command) (rc_TrackID command) t0 = Inr track"
    and v: "validateReleaseAuthorizationForTrack ?a track = None"
    and c: "(t = t0 \<and> next = track \<and> (rt_LastDecision track = Some d \<or> ConsiderReleaseDecision track d = Inr (track, False))) \<or>
      (rt_LastDecision track \<noteq> Some d \<and> timely clock evidence \<and> ConsiderReleaseDecision track d = Inr (next, True) \<and>
       rt_CurrentRevisionID track = ra_BaselineRevisionID ?a \<and>
       saveReleaseEffects (fs_ops None) command ?a (time_UTC clock) track next t0 = Inr t)"
  have "so_ReleaseTrack (fs_ops None) (rc_ContractID command) (rc_TrackID command) t' = Inr next"
    using r t ok by (simp add: fs_ops_def tx_ReleaseTrack_def case_None_Inl)
  moreover have "validateReleaseAuthorizationForTrack ?a next = None"
    using v c by (auto simp: validateReleaseAuthorizationForTrack_def Consider_applied)
  moreover have "\<not> (rt_CandidateRevisionID next \<noteq> [] \<and> rt_CurrentRevisionID next \<noteq> ra_BaselineRevisionID ?a)"
  proof (cases "next = track")
    case True
    then show ?thesis using run r by (auto simp: releaseTransition_def Let_def split: option.splits)
  next
    case False
    then have "next = applyDecision track d" "rt_CurrentRevisionID track = ra_BaselineRevisionID ?a"
      using c by (auto simp: Consider_applied)
    then show ?thesis by (auto simp: applyDecision_def Let_def)
  qed
  ultimately show ?thesis
    using last ok by (simp add: releaseTransition_def Let_def option.case_eq_if)
qed

text \<open>
  C5: Replaying a release is a true no-op. Once the decision a command stands for is the last decision
  of its track, running the command again, at whatever time, even after an applied exception expired,
  returns the same track and leaves the persisted state exactly as it is.
\<close>

theorem replayed_release_is_a_no_op:
  assumes "store_valid uc s"
    and "fs_coordinate uc read_blob None PublishConfirmed clock command s = (s', Inr next)"
    and "fs_decision uc read_blob None command s = Inr d" and "rt_LastDecision next = Some d"
  shows "fs_coordinate uc read_blob None PublishConfirmed clock' command s' = (s', Inr next)"
proof (rule fs_coordinate_Inr [OF assms(2)])
  fix evidence d'
  let ?key = "releaseTrackKey (rc_ContractID command) (rc_TrackID command)"
  assume c: "validateReleaseCommand command = None"
    and e: "ReleaseEvidence uc read_blob None None (Inr s) (rc_ContractID command) (rc_TrackID command) (cv_ID (rc_Review command)) = Inr evidence"
    and b: "boundDecision uc (ContractRevision uc read_blob None None (Inr s)) command evidence = Inr d'"
    and w: "Within uc read_blob None None PublishConfirmed (releaseTransition (fs_ops None) clock command evidence d') (Pair False) s = (s', Inr next)"
  have d: "d' = d" using assms(3) e b by (simp add: fs_decision_def sequence_Inr)
  obtain t where t: "releaseTransition (fs_ops None) clock command evidence d (begin_transaction s) = Inr (next, t)"
    "s' = (tx_state t)\<lparr>os_migratedRevisions := []\<rparr>"
    using Within_Inr [OF w] unfolding d by blast
  have step: "store_step uc s s'" by (rule Within_store_step [OF transition_ops w])
  have valid: "store_valid uc s'" by (rule store_machine.step_inv [OF assms(1) step])
  have kept: "history_kept s s'" using store_steps_history [OF r_into_rtranclp [of "store_step uc", OF step] assms(1)] .
  have rv: "os_Revisions s' = os_Revisions s" using run_keeps_revisions [OF e b t(1) [folded d]] by (simp add: t(2))
  have wf: "maps_wf s" "maps_wf s'" using assms(1) valid by (simp_all add: store_valid_def)
  have "map_of (os_ReleaseTracks s') ?key = Some next"
    using file_store.run_tracks [OF t(1) ReleaseEvidence_Inr(2,3) [OF e]] by (auto simp: t(2))
  moreover from this have "track_ok next" using valid_store_track(1) [OF valid] by simp
  ultimately have "releaseTransition (fs_ops None) clock' command evidence d (begin_transaction s') = Inr (next, begin_transaction s')"
    using replayed_transition [OF t(1) assms(4)] begin_transaction_state(1) [OF wf(2)] by simp
  then have "Within uc read_blob None None PublishConfirmed (releaseTransition (fs_ops None) clock' command evidence d) (Pair False) s' = (s', Inr next)"
    by (intro commit_of_nothing [OF valid]) (simp_all add: t(2))
  then show ?thesis
    using c ReleaseEvidence_kept [OF e rv kept] b
    by (simp add: fs_coordinate_def Coordinate_def evidence_reads_alike(1) [OF rv] d)
qed

section \<open>A release from end to end\<close>

text \<open>
  The service and the store name the evidence of a release independently of each other, and the
  names agree: the audit event and the outbox message that \<open>Coordinate\<close> writes carry exactly the
  identifiers under which the store's validation looks for them.
\<close>

theorem service_and_store_agree_on_evidence_ids:
  "releaseEvidenceID a accepted generation = releaseTransitionEvidenceID a accepted generation TrackConsidered \<and>
   om_ID (release_message a (releaseEvidenceID a accepted generation) now) =
     outboxID (releaseTransitionEvidenceID a accepted generation TrackConsidered)"
  by (simp add: releaseEvidenceID_def releaseTransitionEvidenceID_def transitionEvidenceValue_def release_message_def outboxID_def)

lemma evidence_id: "releaseEvidenceID a accepted generation = releaseTransitionEvidenceID a accepted generation TrackConsidered"
  by (simp add: releaseEvidenceID_def releaseTransitionEvidenceID_def transitionEvidenceValue_def)

definition sample_command :: release_command where
  "sample_command = \<lparr>rc_ContractID = ''petstore'', rc_TrackID = ''stable'', rc_RevisionID = ''rev-2'', rc_Accepted = True,
     rc_Review = sample_contract_review, rc_SyncRecord = sample_sync, rc_PublicPath = ''/petstore'', rc_ActorID = []\<rparr>"

definition sample_release_evidence_record :: release_evidence where
  "sample_release_evidence_record = \<lparr>ev_Authorization = sample_authorization, ev_Review = sample_contract_review,
     ev_SyncRecord = sample_sync\<rparr>"

abbreviation empty_blobs :: "string \<Rightarrow> string result" where "empty_blobs \<equiv> \<lambda>_. Inr []"

lemma sample_authorization_fields:
  "ra_ContractID sample_authorization = ''petstore''" "ra_TrackID sample_authorization = ''stable''"
  "ra_ReviewID sample_authorization = ''review-1''" "ra_SyncRecordID sample_authorization = ''sync-1''"
  "ra_BaselineRevisionID sample_authorization = ''rev-1''" "ra_CandidateRevisionID sample_authorization = ''rev-2''"
  "ra_SourceID sample_authorization = ''source''" "ra_BoundRef sample_authorization = ''main''"
  "ra_PublicPath sample_authorization = ''/petstore''" "ra_PolicyDigest sample_authorization = rr_PolicyDigest sample_report"
  by (simp_all add: sample_authorization_def)

lemma sample_command_valid: "validateReleaseCommand sample_command = None"
  using sample_canonical_ids sample_path
  by (simp add: validateReleaseCommand_def) (simp add: sample_command_def sample_contract_review_def sample_sync_def)

lemma sample_revision_evidence:
  "validateReleaseAuthorizationRevisionEvidence ascii_case empty_blobs None prepared_store sample_authorization = None"
  using prepared_lookup(1,2) [of prepared_store] sample_evidence
  by (simp add: validateReleaseAuthorizationRevisionEvidence_def sample_authorization_fields)

lemma sample_evidence_read:
  "ReleaseEvidence ascii_case empty_blobs None None (Inr prepared_store) ''petstore'' ''stable'' ''review-1'' =
     Inr sample_release_evidence_record"
  using prepared_lookup [of prepared_store] sample_valid_ids sample_revision_evidence
  by (simp add: ReleaseEvidence_def sequence_Inr sample_authorization_fields sample_release_evidence_record_def)

lemma sample_revision_read:
  assumes "r = ''rev-1'' \<or> r = ''rev-2''"
  shows "ContractRevision ascii_case empty_blobs None None (Inr prepared_store) ''petstore'' r = Inr (sample_revision r)"
  using assms prepared_lookup(1,2) [of prepared_store] sample_valid_ids sample_evidence [OF assms]
  by (auto simp: ContractRevision_def sequence_Inr sample_revision_def)

lemma sample_decision_bound:
  "boundDecision ascii_case (ContractRevision ascii_case empty_blobs None None (Inr prepared_store)) sample_command
     sample_release_evidence_record = Inr sample_release_decision"
proof -
  let ?e = sample_release_evidence_record
  have f: "ev_Authorization ?e = sample_authorization" "ev_Review ?e = sample_contract_review" "ev_SyncRecord ?e = sample_sync"
    "rc_ContractID sample_command = ''petstore''" "rc_Accepted sample_command"
    by (simp_all add: sample_release_evidence_record_def sample_command_def)
  have v: "validateSelectedReleaseEvidence sample_command ?e = None"
    using sample_authorization_valid
    by (simp add: validateSelectedReleaseEvidence_def Let_def f sample_authorization_fields)
      (simp add: sample_command_def sample_contract_review_def sample_sync_def sample_report_fields)
  have i: "validateReleaseRevisionIdentity (sample_revision ''rev-1'') ''petstore'' ''rev-1'' [] [] = None"
    "validateReleaseRevisionIdentity (sample_revision ''rev-2'') ''petstore'' ''rev-2'' ''source'' ''main'' = None"
    "vr_CommitSHA (sample_revision ''rev-2'') = sr_CommitSHA sample_sync"
    by (simp_all add: validateReleaseRevisionIdentity_def sample_revision_def sample_sync_def)
  have s: "revisionReviewSnapshot ascii_case (sample_revision r) = Inr (release_snapshot r)"
    if "r = ''rev-1'' \<or> r = ''rev-2''" for r
    using that release_snapshot_ok
    by (auto simp: revisionReviewSnapshot_def sample_revision_def release_snapshot_fields)
  have c: "validateContractReviewSnapshots sample_contract_review (release_snapshot ''rev-1'') (release_snapshot ''rev-2'') = None"
    by (simp add: validateContractReviewSnapshots_def sample_contract_review_def release_snapshot_fields)
  have d: "releaseDecision sample_contract_review True = Inr sample_release_decision"
    by (simp add: releaseDecision_def sample_contract_review_def sample_json sequence_Inr sample_release_decision_def
        sample_report_fields)
  have r: "cv_Report sample_contract_review = sample_report" by (simp add: sample_contract_review_def)
  show ?thesis
    using v i c d s sample_report_fields(1)
    by (simp add: boundDecision_def f sample_authorization_fields sample_revision_read sequence_Inr r)
qed

lemma prepared_transaction:
  "begin_transaction prepared_store =
     \<lparr>tx_state = prepared_store, tx_validatedReleaseTracks = os_ReleaseTracks prepared_store, tx_mutatedRevisions = []\<rparr>"
proof -
  have wf: "maps_wf prepared_store" using sample_stores_valid [of prepared_store] by (simp add: store_valid_def)
  have "os_migratedRevisions prepared_store = []" by (simp add: prepared_store_def newOperationalState_def)
  then show ?thesis using cloned_state [OF wf] wf
    by (simp add: begin_transaction_def cloneReleaseTracks_def case_prod_unfold map_from_id maps_wf_def flip: snd_def)
qed

lemma sample_considered: "ConsiderReleaseDecision prepared_track sample_release_decision = Inr (published_track, True)"
proof -
  have "decision_ok sample_release_decision" "\<not> time_IsZero (rd_EvaluatedAt sample_release_decision)"
    using sample_tracks_ok(2) by (auto simp: track_ok_def published_track_def evidence_ok_def)
  moreover have "published_track = applyDecision prepared_track sample_release_decision"
    by (simp add: published_track_def applyDecision_def Let_def) (simp add: prepared_track_def sample_release_decision_def)
  ultimately show ?thesis
    using sample_tracks_ok(1) unfolding Consider_applied compareDecisionTime_Newer by (simp add: prepared_track_def)
qed

lemma sample_bind:
  assumes "os_Revisions (tx_state t) = os_Revisions prepared_store" and "r = ''rev-1'' \<or> r = ''rev-2''"
  shows "tx_bindRevisionOwner ''petstore'' r owner t = Inr t"
proof -
  have "map_of (os_Revisions prepared_store) (revisionKey ''petstore'' r) = Some (sample_revision r)"
    using assms(2) by (elim disjE) (simp_all add: prepared_store_def sample_keys)
  then show ?thesis
    using assms(1) sample_canonical_ids(1)
    by (simp add: tx_bindRevisionOwner_def bindRevisionOwner_def Let_def sequence_Inr canonical_trim) (simp add: sample_revision_def)
qed

definition released_tracks :: operational_transaction where
  "released_tracks = \<lparr>tx_state = prepared_store\<lparr>
       os_ReleaseTracks := os_ReleaseTracks published_store,
       os_ReleaseTrackAuthorities := os_ReleaseTrackAuthorities published_store\<rparr>,
     tx_validatedReleaseTracks = os_ReleaseTracks published_store, tx_mutatedRevisions = []\<rparr>"

lemma sample_track_saved: "tx_SaveReleaseTrack None 0 published_track (begin_transaction prepared_store) = Inr released_tracks"
proof -
  have k: "rt_ContractID published_track = ''petstore''" "rt_ID published_track = ''stable''"
    "rt_CurrentRevisionID published_track = ''rev-2''" "rt_CandidateRevisionID published_track = []"
    by (simp_all add: published_track_def prepared_track_def)
  have l: "map_of (os_ReleaseTracks prepared_store) (releaseTrackKey ''petstore'' ''stable'') = Some prepared_track"
    by (simp add: prepared_store_def)
  have "ValidateReleaseTrackTransition prepared_track published_track = None"
    using track_step.decide [OF sample_considered] sample_tracks_ok by (auto simp: transition_ok_iff)
  moreover have "prepared_track \<noteq> published_track" "rt_Generation prepared_track = 0"
    by (simp_all add: prepared_track_def published_track_def)
  moreover have "map_put (releaseTrackKey ''petstore'' ''stable'') published_track (os_ReleaseTracks prepared_store) =
      os_ReleaseTracks published_store"
    "map_put (releaseTrackKey ''petstore'' ''stable'') (newReleaseTrackAuthority published_track)
       (os_ReleaseTrackAuthorities prepared_store) = os_ReleaseTrackAuthorities published_store"
    by (simp_all add: prepared_store_def published_store_def)
  ultimately show ?thesis
    using sample_valid_ids sample_tracks_ok sample_bind [of "begin_transaction prepared_store" "''rev-2''"]
    by (simp add: tx_SaveReleaseTrack_def Let_def k prepared_transaction l sequence_Inr released_tracks_def)
qed

lemma sample_effects_saved:
  "saveReleaseEffects (fs_ops None) sample_command sample_authorization unix_epoch prepared_track published_track
     (begin_transaction prepared_store) = Inr (released_tracks\<lparr>tx_state := published_store\<rparr>)"
proof -
  let ?p = "released_tracks\<lparr>tx_state := (tx_state released_tracks)\<lparr>os_Publications := os_Publications published_store\<rparr>\<rparr>"
  let ?e = "?p\<lparr>tx_state := (tx_state ?p)\<lparr>os_AuditEvents := os_AuditEvents published_store\<rparr>\<rparr>"
  have g: "rt_Generation published_track = 1" "rt_CurrentRevisionID published_track = ''rev-2''" "rt_Generation prepared_track = 0"
    by (simp_all add: published_track_def prepared_track_def)
  have path: "validatePublicPath ''/petstore'' = None" using sample_path(1) by (simp add: validatePublicPath_def)
  have pub: "tx_SavePublication None (release_publication sample_authorization) released_tracks = Inr ?p"
    using sample_valid_ids path sample_bind [of released_tracks "''rev-2''"]
    by (simp add: tx_SavePublication_def Let_def release_publication_def sample_authorization_fields sequence_Inr)
      (simp add: released_tracks_def withdrawOthers_def prepared_store_def newOperationalState_def published_store_def
        release_publication_def sample_authorization_fields)
  have kinds: "canonical ''release.track.considered''" "canonical ''release.track.updated''"
    by (rule canonical_ascii; simp)+
  have event: "tx_AppendAuditEvent None (release_event sample_authorization sample_event_id [] unix_epoch) ?p = Inr ?e"
    using sample_event_canonical sample_canonical_ids kinds sample_bind [of ?p "''rev-2''"]
    by (simp add: tx_AppendAuditEvent_def release_event_def sample_authorization_fields sequence_Inr save_immutable_def)
      (simp add: released_tracks_def prepared_store_def newOperationalState_def published_store_def
        release_event_def sample_authorization_fields)
  have message: "tx_Enqueue None (release_message sample_authorization sample_event_id unix_epoch) ?e =
      Inr (released_tracks\<lparr>tx_state := published_store\<rparr>)"
    using sample_event_canonical sample_canonical_ids kinds sample_bind [of ?e "''rev-2''"]
    by (simp add: tx_Enqueue_def release_message_def sample_authorization_fields sequence_Inr save_immutable_def outboxID_def)
      (simp add: released_tracks_def prepared_store_def newOperationalState_def published_store_def
        release_message_def sample_authorization_fields outboxID_def nil_append_def)
  have c: "rc_Accepted sample_command" "rc_ActorID sample_command = []" by (simp_all add: sample_command_def)
  show ?thesis
    using sample_track_saved pub event message
    by (simp add: saveReleaseEffects_def fs_ops_def Let_def g c sample_authorization_fields evidence_id sequence_Inr
        flip: sample_event_id_def)
qed

lemma sample_transition:
  "releaseTransition (fs_ops None) unix_epoch sample_command sample_release_evidence_record sample_release_decision
     (begin_transaction prepared_store) = Inr (published_track, released_tracks\<lparr>tx_state := published_store\<rparr>)"
proof -
  have c: "rc_ContractID sample_command = ''petstore''" "rc_TrackID sample_command = ''stable''"
    "ev_Authorization sample_release_evidence_record = sample_authorization"
    "cv_Report (ev_Review sample_release_evidence_record) = sample_report"
    by (simp_all add: sample_command_def sample_release_evidence_record_def sample_contract_review_def)
  have "tx_ReleaseTrack None ''petstore'' ''stable'' (begin_transaction prepared_store) = Inr prepared_track"
    using sample_valid_ids sample_tracks_ok(1) by (simp add: tx_ReleaseTrack_def prepared_transaction) (simp add: prepared_store_def)
  then have r: "so_ReleaseTrack (fs_ops None) ''petstore'' ''stable'' (begin_transaction prepared_store) = Inr prepared_track"
    by (simp add: fs_ops_def)
  have v: "validateReleaseAuthorizationForTrack sample_authorization prepared_track = None"
    by (simp add: validateReleaseAuthorizationForTrack_def sample_authorization_fields prepared_track_def)
  have t: "time_UTC unix_epoch = unix_epoch" "\<not> time_IsZero unix_epoch"
    "\<not> time_After unix_epoch (time_Add unix_epoch ReleaseReviewMaxFutureSkew)"
    by code_simp+
  have x: "validateAppliedExceptionsAtReleaseTime sample_report unix_epoch = None"
    by (simp add: validateAppliedExceptionsAtReleaseTime_def sample_report_fields sample_comparison_fields)
  have p: "rt_CandidateRevisionID prepared_track = []" "rt_CurrentRevisionID prepared_track = ''rev-1''"
    "rt_LastDecision prepared_track = None"
    by (simp_all add: prepared_track_def)
  show ?thesis
    using sample_tracks_ok(1) v x sample_effects_saved
    by (simp add: releaseTransition_def Let_def c r t p sample_considered sample_report_fields sample_authorization_fields
        option.case_eq_if)
qed

lemma sample_commit:
  "Within ascii_case empty_blobs None None PublishConfirmed
     (releaseTransition (fs_ops None) unix_epoch sample_command sample_release_evidence_record sample_release_decision) (Pair False)
     prepared_store = (published_store, Inr published_track)"
proof -
  note l = prepared_lookup [of prepared_store] prepared_lookup [of published_store]
  have "map_of (os_ReleaseAuthorizations published_store) (rd_ReviewID sample_release_decision) = Some sample_authorization"
    by (simp add: l sample_release_decision_def)
  moreover have "os_ReleaseTracks published_store = [(releaseTrackKey ''petstore'' ''stable'', published_track)]"
    "os_ReleaseTracks prepared_store = [(releaseTrackKey ''petstore'' ''stable'', prepared_track)]"
    "rt_LastDecision published_track = Some sample_release_decision" "rt_CurrentRevisionID prepared_track = ''rev-1''"
    by (simp_all add: published_store_def prepared_store_def published_track_def prepared_track_def)
  moreover have "validateReleaseAuthorizationRevisionEvidence ascii_case empty_blobs None published_store sample_authorization = None"
    using sample_revision_evidence evidence_reads_alike(2) [OF store_fields(1)] by simp
  ultimately have "validateChangedReleaseEvidence ascii_case empty_blobs None prepared_store published_store = None"
    by (simp add: validateChangedReleaseEvidence_def validateAuthorizationBaseline_def sample_authorization_fields l
        option.case_eq_if)
  then have "validateOperationalState ascii_case empty_blobs None prepared_store published_store [] = None"
    using sample_stores_valid [of published_store] by (simp add: validateOperationalState_def store_valid_def)
  moreover have "validateCommittedReleaseTracks (os_ReleaseTracks published_store) (os_ReleaseTracks published_store) = None"
    by (simp add: validateCommittedReleaseTracks_def maps_equal_def published_store_def)
  moreover have "published_store\<lparr>os_migratedRevisions := []\<rparr> = published_store" "os_Version published_store = operationalStateVersion"
    by (simp_all add: published_store_def prepared_store_def newOperationalState_def)
  ultimately show ?thesis
    using sample_transition
    by (simp add: Within_def publishCurrentOperationalState_def released_tracks_def option.case_eq_if)
qed

lemma sample_release:
  "fs_coordinate ascii_case empty_blobs None PublishConfirmed unix_epoch sample_command prepared_store =
     (published_store, Inr published_track)"
  "fs_decision ascii_case empty_blobs None sample_command prepared_store = Inr sample_release_decision"
proof -
  have c: "rc_ContractID sample_command = ''petstore''" "rc_TrackID sample_command = ''stable''"
    "cv_ID (rc_Review sample_command) = ''review-1''"
    by (simp_all add: sample_command_def sample_contract_review_def)
  show "fs_coordinate ascii_case empty_blobs None PublishConfirmed unix_epoch sample_command prepared_store =
      (published_store, Inr published_track)"
    using sample_commit sample_command_valid
    by (simp add: fs_coordinate_def Coordinate_def c sample_evidence_read sample_decision_bound)
  show "fs_decision ascii_case empty_blobs None sample_command prepared_store = Inr sample_release_decision"
    using sample_decision_bound by (simp add: fs_decision_def c sample_evidence_read sequence_Inr)
qed

theorem coordination_refines_the_domain_transition_witness:
  "\<exists>track. map_of (os_ReleaseTracks prepared_store) (releaseTrackKey ''petstore'' ''stable'') = Some track \<and>
     store_valid ascii_case published_store \<and> published_track \<noteq> track"
proof -
  have "rc_ContractID sample_command = ''petstore''" "rc_TrackID sample_command = ''stable''" by (simp_all add: sample_command_def)
  moreover have "map_of (os_ReleaseTracks prepared_store) (releaseTrackKey ''petstore'' ''stable'') = Some prepared_track"
    "published_track \<noteq> prepared_track"
    by (simp_all add: prepared_store_def published_track_def) (simp add: prepared_track_def)
  ultimately show ?thesis
    using coordination_refines_the_domain_transition [OF sample_stores_valid [of prepared_store] sample_release(1)] by auto
qed

theorem replayed_release_is_a_no_op_witness:
  "fs_coordinate ascii_case empty_blobs None PublishConfirmed zero_time sample_command published_store = (published_store, Inr published_track)"
  by (rule replayed_release_is_a_no_op [OF sample_stores_valid [of prepared_store] sample_release])
    (simp_all add: published_track_def)

theorem committed_history_is_append_only_witness:
  "store_step ascii_case prepared_store published_store \<and> kept (os_Reviews prepared_store) (os_Reviews published_store) \<and>
     tracks_advance prepared_store published_store"
proof -
  have "store_step ascii_case prepared_store published_store"
    by (rule Within_store_step [OF transition_ops sample_commit])
  then show ?thesis
    using committed_history_is_append_only [OF sample_stores_valid [of prepared_store], of published_store] by blast
qed

lemma unconfirmed_commit:
  "Within uc read_blob ctx0 ctx PublishConfirmed callback f s = (s', Inr v) \<Longrightarrow>
   Within uc read_blob ctx0 ctx (MarkerFailed e) callback f s =
     (s', Inl (f (Wrapf ''%w: persist operational schema marker after state commit: %v'' [] ErrCommitOutcomeUnknown)))"
  by (auto simp: Within_def publishCurrentOperationalState_def simp del: first_error_None
      split: option.splits sum.splits prod.splits if_splits)

theorem failed_coordination_leaves_state_witness:
  "\<exists>e. fs_coordinate ascii_case empty_blobs None (MarkerFailed ErrNotExist) unix_epoch sample_command prepared_store =
     (published_store, Inl e) \<and> errors_Is (eerr e) ErrCommitOutcomeUnknown"
proof -
  have c: "rc_ContractID sample_command = ''petstore''" "rc_TrackID sample_command = ''stable''"
    "cv_ID (rc_Review sample_command) = ''review-1''"
    by (simp_all add: sample_command_def sample_contract_review_def)
  obtain e where "fs_coordinate ascii_case empty_blobs None (MarkerFailed ErrNotExist) unix_epoch sample_command prepared_store =
      (published_store, Inl e)"
    using unconfirmed_commit [OF sample_commit, of ErrNotExist] sample_command_valid
    by (simp add: fs_coordinate_def Coordinate_def c sample_evidence_read sample_decision_bound)
  moreover have "os_Publications published_store \<noteq> os_Publications prepared_store"
    by (simp add: published_store_def prepared_store_def newOperationalState_def)
  ultimately show ?thesis using failed_coordination_leaves_state by metis
qed

end
