(* ===== verification/Store_Growth.thy ===== *)
theory Store_Growth
  imports Release_Coordination
begin

text \<open>
  A valid state stays valid when revisions and sync records are added to it: nothing that was looked up
  before is found differently, so every reference and every piece of release evidence still holds. The
  sync service commits only such extensions.
\<close>

definition grows :: "operational_state \<Rightarrow> operational_state \<Rightarrow> bool" where
  "grows s s' \<longleftrightarrow> s' = s\<lparr>os_Revisions := os_Revisions s', os_SyncRecords := os_SyncRecords s'\<rparr> \<and>
     (\<forall>c i r. revisionForContract s c i = Some r \<longrightarrow> revisionForContract s' c i = Some r) \<and>
     kept (os_SyncRecords s) (os_SyncRecords s')"

lemma grows_fields:
  assumes "grows s s'"
  shows "os_Version s' = os_Version s" "os_Reviews s' = os_Reviews s" "os_ReleaseTracks s' = os_ReleaseTracks s"
    "os_ReleaseTrackAuthorities s' = os_ReleaseTrackAuthorities s" "os_ReleaseAuthorizations s' = os_ReleaseAuthorizations s"
    "os_Publications s' = os_Publications s" "os_AuditEvents s' = os_AuditEvents s" "os_Outbox s' = os_Outbox s"
    "os_migratedRevisions s' = os_migratedRevisions s"
proof -
  obtain revs syncs where s': "s' = s\<lparr>os_Revisions := revs, os_SyncRecords := syncs\<rparr>" using assms unfolding grows_def by blast
  show "os_Version s' = os_Version s" "os_Reviews s' = os_Reviews s" "os_ReleaseTracks s' = os_ReleaseTracks s"
    "os_ReleaseTrackAuthorities s' = os_ReleaseTrackAuthorities s" "os_ReleaseAuthorizations s' = os_ReleaseAuthorizations s"
    "os_Publications s' = os_Publications s" "os_AuditEvents s' = os_AuditEvents s" "os_Outbox s' = os_Outbox s"
    "os_migratedRevisions s' = os_migratedRevisions s"
    by (simp_all add: s')
qed

lemma grows_lookup:
  assumes "grows s s'"
  shows "revisionForContract s c i = Some r \<Longrightarrow> revisionForContract s' c i = Some r"
    and "map_of (os_SyncRecords s) k = Some v \<Longrightarrow> map_of (os_SyncRecords s') k = Some v"
    and "requireOwnedRevision s c i owner = None \<Longrightarrow> requireOwnedRevision s' c i owner = None"
proof -
  show r: "revisionForContract s c i = Some r \<Longrightarrow> revisionForContract s' c i = Some r" for r using assms by (simp add: grows_def)
  show "map_of (os_SyncRecords s) k = Some v \<Longrightarrow> map_of (os_SyncRecords s') k = Some v" using assms by (simp add: grows_def kept_def)
  show "requireOwnedRevision s c i owner = None \<Longrightarrow> requireOwnedRevision s' c i owner = None"
    by (auto simp: requireOwnedRevision_def r split: option.splits)
qed

lemma grows_references:
  assumes "grows s s'"
  shows "trackReferences s k t = None \<Longrightarrow> trackReferences s' k t = None"
    and "reviewReferences s k v = None \<Longrightarrow> reviewReferences s' k v = None"
    and "syncReferences s k r = None \<Longrightarrow> syncReferences s' k r = None"
    and "eventReferences s k e = None \<Longrightarrow> eventReferences s' k e = None"
    and "messageReferences s k m = None \<Longrightarrow> messageReferences s' k m = None"
  by (auto simp: trackReferences_def reviewReferences_def syncReferences_def eventReferences_def messageReferences_def trackExists_def
      grows_fields [OF assms] dest: grows_lookup(3) [OF assms] split: if_splits)

lemma grows_bundles:
  assumes "grows s s'" and a: "validateReleaseAuthorizationBundle uc s a = None"
  shows "validateReleaseAuthorizationBundle uc s' a = None"
    and "validateReleaseDecisionBundle s' t d a = validateReleaseDecisionBundle s t d a"
proof -
  obtain baseline candidate sy where l: "revisionForContract s (ra_ContractID a) (ra_BaselineRevisionID a) = Some baseline"
    "revisionForContract s (ra_ContractID a) (ra_CandidateRevisionID a) = Some candidate"
    "map_of (os_SyncRecords s) (ra_SyncRecordID a) = Some sy"
    by (rule authorization_bundle [OF a]) blast
  note l' = grows_lookup(1) [OF assms(1) l(1)] grows_lookup(1) [OF assms(1) l(2)] grows_lookup(2) [OF assms(1) l(3)]
  show "validateReleaseAuthorizationBundle uc s' a = None"
    using a unfolding validateReleaseAuthorizationBundle_def l l' grows_fields [OF assms(1)] .
  have y: "syncResultOf s' (ra_SyncRecordID a) = syncResultOf s (ra_SyncRecordID a)" by (simp add: syncResultOf_def l(3) l'(3))
  show "validateReleaseDecisionBundle s' t d a = validateReleaseDecisionBundle s t d a"
    unfolding validateReleaseDecisionBundle_def requireReleaseTransitionEffects_def reviewOf_def y grows_fields [OF assms(1)] ..
qed

lemma grows_evidence:
  assumes "grows s s'" and v: "validateReleaseEvidenceAuthorities uc s = None"
  shows "validateReleaseEvidenceAuthorities uc s' = None"
proof -
  have b: "validateReleaseAuthorizationBundle uc s a = None \<and> k = ra_ReviewID a" if "(k, a) \<in> set (os_ReleaseAuthorizations s)" for k a
    using v that by (fastforce simp: validateReleaseEvidenceAuthorities_def)
  have d: "validateReleaseDecisionBundle s' t d a = validateReleaseDecisionBundle s t d a"
    if "map_of (os_ReleaseAuthorizations s) k = Some a" for k a t d
    using b [OF map_of_SomeD [OF that]] grows_bundles(2) [OF assms(1)] by blast
  have "validateReleaseAuthorizationBundle uc s' a = None \<and> k = ra_ReviewID a" if "(k, a) \<in> set (os_ReleaseAuthorizations s')" for k a
    using b that grows_bundles(1) [OF assms(1)] by (auto simp: grows_fields [OF assms(1)])
  then have "each_entry (\<lambda>reviewID authorization. first_error
        [fail_if (reviewID \<noteq> ra_ReviewID authorization)
           (Errorf ''release authorization key %q does not match review id %q'' [reviewID, ra_ReviewID authorization]),
         wrap_err (Wrapf ''release authorization %q is invalid: %w'' [reviewID])
           (validateReleaseAuthorizationBundle uc s' authorization)]) (os_ReleaseAuthorizations s') = None" by auto
  then show ?thesis
    using v d unfolding validateReleaseEvidenceAuthorities_def grows_fields [OF assms(1)]
    by (simp del: each_entry_None) (simp cong: option.case_cong)
qed

text \<open>What the validators ask of a single revision and a single sync record.\<close>

definition revision_entry_ok :: "unicode_case \<Rightarrow> string \<Rightarrow> contract_revision \<Rightarrow> bool" where
  "revision_entry_ok uc k r \<longleftrightarrow> k = revisionStorageKey r \<and> validateID (vr_ID r) = None \<and> ValidateContractRevision uc r = None"

definition sync_entry_ok :: "operational_state \<Rightarrow> string \<Rightarrow> sync_record \<Rightarrow> bool" where
  "sync_entry_ok s k r \<longleftrightarrow> validateID (sr_ID r) = None \<and> ValidateSyncRecord r = None \<and> syncReferences s k r = None"

lemma valid_entries:
  assumes "store_valid uc s"
  shows "(k, r) \<in> set (os_Revisions s) \<Longrightarrow> revision_entry_ok uc k r" and "(k, v) \<in> set (os_SyncRecords s) \<Longrightarrow> sync_entry_ok s k v"
proof -
  have v: "validateOperationalReferences uc s = None" "validatePersistedOperationalIdentities uc s = None"
    using store_valid_fields [OF assms] by blast+
  show "(k, r) \<in> set (os_Revisions s) \<Longrightarrow> revision_entry_ok uc k r"
    using v by (fastforce simp: revision_entry_ok_def validateOperationalReferences_def validatePersistedOperationalIdentities_def)
  show "(k, v) \<in> set (os_SyncRecords s) \<Longrightarrow> sync_entry_ok s k v"
    using v by (fastforce simp: sync_entry_ok_def validateOperationalReferences_def validatePersistedOperationalIdentities_def)
qed

lemma revision_identities:
  assumes "ValidateContractRevision uc r = None" and "validateID (vr_ID r) = None"
  shows "first_error
        [wrap_err (Wrapf ''persisted revision id: %w'' []) (validateID (vr_ID r)),
         wrap_err (Wrapf ''persisted revision: %w'' []) (ValidateContractRevision uc r),
         check_identities
           [(''persisted revision contract id'', vr_ContractID r, True), (''persisted revision source id'', vr_SourceID r, True),
            (''persisted revision ref'', vr_Ref r, True), (''persisted revision commit sha'', vr_CommitSHA r, True)],
         (case vr_ReviewSnapshot r of None \<Rightarrow> None
          | Some s \<Rightarrow> wrap_err (Wrapf ''persisted revision canonical review snapshot: %w'' []) (ValidateContractSnapshot uc s))] = None"
  using assms by (auto simp: ValidateContractRevision_def split: option.splits)

lemma sync_identities:
  assumes "ValidateSyncRecord r = None" and "validateID (sr_ID r) = None"
  shows "first_error
        [wrap_err (Wrapf ''persisted sync id: %w'' []) (validateID (sr_ID r)),
         wrap_err (Wrapf ''persisted sync record: %w'' []) (ValidateSyncRecord r),
         check_identities
           [(''persisted sync project id'', sr_ProjectID r, True), (''persisted sync source id'', sr_SourceID r, True),
            (''persisted sync revision id'', sr_RevisionID r, True), (''persisted sync trigger'', sr_Trigger r, True),
            (''persisted sync ref'', sr_Ref r, True), (''persisted sync commit sha'', sr_CommitSHA r, True),
            (''persisted sync spec path'', sr_SpecPath r, True)]] = None"
  using assms by (auto simp: ValidateSyncRecord_def)

lemma grows_identities:
  assumes v: "validatePersistedOperationalIdentities uc s = None" and g: "grows s s'"
    and r: "\<And>k r. (k, r) \<in> set (os_Revisions s') \<Longrightarrow> ValidateContractRevision uc r = None \<and> validateID (vr_ID r) = None"
    and y: "\<And>k r. (k, r) \<in> set (os_SyncRecords s') \<Longrightarrow> ValidateSyncRecord r = None \<and> validateID (sr_ID r) = None"
  shows "validatePersistedOperationalIdentities uc s' = None"
proof -
  have a: "each_entry (\<lambda>_ revision. first_error
        [wrap_err (Wrapf ''persisted revision id: %w'' []) (validateID (vr_ID revision)),
         wrap_err (Wrapf ''persisted revision: %w'' []) (ValidateContractRevision uc revision),
         check_identities
           [(''persisted revision contract id'', vr_ContractID revision, True), (''persisted revision source id'', vr_SourceID revision, True),
            (''persisted revision ref'', vr_Ref revision, True), (''persisted revision commit sha'', vr_CommitSHA revision, True)],
         (case vr_ReviewSnapshot revision of None \<Rightarrow> None
          | Some s \<Rightarrow> wrap_err (Wrapf ''persisted revision canonical review snapshot: %w'' []) (ValidateContractSnapshot uc s))])
        (os_Revisions s') = None"
    unfolding each_entry_None using r revision_identities by blast
  have b: "each_entry (\<lambda>_ record. first_error
        [wrap_err (Wrapf ''persisted sync id: %w'' []) (validateID (sr_ID record)),
         wrap_err (Wrapf ''persisted sync record: %w'' []) (ValidateSyncRecord record),
         check_identities
           [(''persisted sync project id'', sr_ProjectID record, True), (''persisted sync source id'', sr_SourceID record, True),
            (''persisted sync revision id'', sr_RevisionID record, True), (''persisted sync trigger'', sr_Trigger record, True),
            (''persisted sync ref'', sr_Ref record, True), (''persisted sync commit sha'', sr_CommitSHA record, True),
            (''persisted sync spec path'', sr_SpecPath record, True)]]) (os_SyncRecords s') = None"
    unfolding each_entry_None using y sync_identities by blast
  show ?thesis
    using v unfolding validatePersistedOperationalIdentities_def grows_fields [OF g] a b
    by (simp only: first_error_None list.set ball_simps)
qed

lemma grown_store_valid:
  assumes valid: "store_valid uc s" and g: "grows s s'"
    and revisions: "\<forall>(k, r) \<in> set (os_Revisions s'). revision_entry_ok uc k r"
    and syncs: "\<forall>(k, r) \<in> set (os_SyncRecords s'). sync_entry_ok s' k r"
  shows "store_valid uc s'"
proof -
  have v: "validateOperationalReferences uc s = None" "validatePersistedOperationalIdentities uc s = None"
    "validateReleaseEvidenceAuthorities uc s = None"
    using store_valid_fields [OF valid] by blast+
  have r: "ValidateContractRevision uc r = None \<and> validateID (vr_ID r) = None" if "(k, r) \<in> set (os_Revisions s')" for k r
    using revisions that by (auto simp: revision_entry_ok_def)
  have y: "ValidateSyncRecord r = None \<and> validateID (sr_ID r) = None" if "(k, r) \<in> set (os_SyncRecords s')" for k r
    using syncs that by (auto simp: sync_entry_ok_def)
  have "validatePersistedOperationalIdentities uc s' = None" by (rule grows_identities [OF v(2) g r y])
  moreover have "\<forall>(k, r) \<in> set (os_Revisions s'). k = revisionStorageKey r" "\<forall>(k, r) \<in> set (os_SyncRecords s'). syncReferences s' k r = None"
    using revisions syncs by (auto simp: revision_entry_ok_def sync_entry_ok_def)
  moreover have "each_entry (trackReferences s') (os_ReleaseTracks s) = None" "each_entry (reviewReferences s') (os_Reviews s) = None"
    "each_entry (eventReferences s') (os_AuditEvents s) = None" "each_entry (messageReferences s') (os_Outbox s) = None"
    using v(1) grows_references [OF g] unfolding validateOperationalReferences_def by auto
  moreover have "each_entry (\<lambda>key publication. first_error
        [fail_if (key \<noteq> publicationKey (pub_ProjectID publication) (pub_RevisionID publication))
           (Errorf ''publication key %q does not match its identity'' [key]),
         requireOwnedRevision s' (pub_ProjectID publication) (pub_RevisionID publication) (''publication '' @ key)])
        (os_Publications s) = None"
    using v(1) grows_lookup(3) [OF g] unfolding validateOperationalReferences_def by auto
  moreover have "validateUniquePublicPaths (os_Publications s) = None" using v(1) by (simp add: validateOperationalReferences_def)
  ultimately have "validateOperationalReferences uc s' = None"
    using grows_evidence [OF g v(3)] unfolding validateOperationalReferences_def grows_fields [OF g]
    by (simp del: each_entry_None) auto
  moreover have "validateReleaseTrackAuthorities s' = None"
    using store_valid_fields(1) [OF valid] unfolding validateReleaseTrackAuthorities_def grows_fields [OF g] .
  ultimately show ?thesis using valid by (simp add: store_valid_def grows_fields [OF g] maps_wf_def)
qed

lemma grown_commit:
  assumes valid: "store_valid uc s" and s': "store_valid uc s'" and g: "grows s s'"
    and mutated: "\<forall>key \<in> set keys. \<exists>r. map_of (os_Revisions s') key = Some r \<and> validateRevisionEvidence uc read_blob ctx r = None"
  shows "validateOperationalState uc read_blob ctx s s' keys = None"
proof -
  have "validateChangedReleaseEvidence uc read_blob ctx s s' = None"
    using unchanged_evidence [of s uc read_blob ctx] valid
    by (auto simp: validateChangedReleaseEvidence_def grows_fields [OF g] store_valid_def maps_wf_def map_keys_def)
  moreover have "each (\<lambda>key. case map_of (os_Revisions s') key of
          None \<Rightarrow> Some (Errorf ''mutated revision %q is missing'' [key])
        | Some revision \<Rightarrow> wrap_err (Wrapf ''revision %q has invalid persisted evidence: %w'' [vr_ID revision])
            (validateRevisionEvidence uc read_blob ctx revision)) keys = None"
    using mutated by (auto split: option.splits)
  ultimately show ?thesis using s' by (simp add: validateOperationalState_def store_valid_def del: each_None)
qed

lemma set_put: "p \<in> set (map_put k v m) \<Longrightarrow> p = (k, v) \<or> p \<in> set m"
  by (induction m rule: map_put.induct) (auto split: if_splits)

lemma grows_trans: "grows a b \<Longrightarrow> grows b c \<Longrightarrow> grows a c"
  using kept_trans [of "os_SyncRecords a" "os_SyncRecords b" "os_SyncRecords c"]
  by (auto simp: grows_def) (metis operational_state.surjective operational_state.update_convs(2,4))

lemma add_revision:
  assumes valid: "store_valid uc s" and fresh: "map_of (os_Revisions s) key = None" and ok: "revision_entry_ok uc key r"
    and s': "s' = s\<lparr>os_Revisions := map_put key r (os_Revisions s)\<rparr>"
  shows "grows s s'" and "store_valid uc s'"
proof -
  show g: "grows s s'"
    using fresh by (auto simp: s' grows_def revisionForContract_def split: option.splits if_splits)
  have "revision_entry_ok uc k v" if "(k, v) \<in> set (os_Revisions s')" for k v
    using set_put [of "(k, v)" key r "os_Revisions s"] that valid_entries(1) [OF valid] ok by (auto simp: s')
  moreover have "sync_entry_ok s' k v" if "(k, v) \<in> set (os_SyncRecords s')" for k v
    using that valid_entries(2) [OF valid] grows_references(3) [OF g] by (auto simp: s' sync_entry_ok_def)
  ultimately show "store_valid uc s'" using grown_store_valid [OF valid g] by blast
qed

lemma add_sync_record:
  assumes valid: "store_valid uc s" and fresh: "map_of (os_SyncRecords s) (sr_ID r) = None"
    and ok: "validateID (sr_ID r) = None" "ValidateSyncRecord r = None"
    and owned: "sr_Result r = SyncResultSuccess \<Longrightarrow> sr_RevisionID r \<noteq> [] \<Longrightarrow>
      TrimSpace (sr_ProjectID r) \<noteq> [] \<and> revisionForContract s (sr_ProjectID r) (sr_RevisionID r) \<noteq> None"
    and s': "s' = s\<lparr>os_SyncRecords := map_put (sr_ID r) r (os_SyncRecords s)\<rparr>"
  shows "grows s s'" and "store_valid uc s'"
proof -
  have same: "revisionForContract s' = revisionForContract s" by (simp add: s' revisionForContract_def fun_eq_iff)
  show g: "grows s s'" using fresh by (simp add: grows_def same) (simp add: s' kept_put)
  have "syncReferences s' (sr_ID r) r = None"
  proof (cases "sr_Result r = SyncResultSuccess \<and> sr_RevisionID r \<noteq> []")
    case True
    then show ?thesis
      using owned by (auto simp: syncReferences_def requireOwnedRevision_def same) (auto simp: revisionForContract_def split: option.splits if_splits)
  qed (auto simp: syncReferences_def)
  then have "sync_entry_ok s' k v" if "(k, v) \<in> set (os_SyncRecords s')" for k v
    using set_put [of "(k, v)" "sr_ID r" r "os_SyncRecords s"] that valid_entries(2) [OF valid] ok grows_references(3) [OF g]
    by (auto simp: s' sync_entry_ok_def)
  moreover have "revision_entry_ok uc k v" if "(k, v) \<in> set (os_Revisions s')" for k v
    using that valid_entries(1) [OF valid] by (simp add: s')
  ultimately show "store_valid uc s'" using grown_store_valid [OF valid g] by blast
qed

text \<open>A transaction that only adds to the state commits as soon as the revisions it added are intact.\<close>

lemma grown_Within:
  assumes valid: "store_valid uc s" and s': "store_valid uc s'" and g: "grows s s'" and settled: "os_migratedRevisions s = []"
    and callback: "callback (begin_transaction s) = Inr (v, (begin_transaction s)\<lparr>tx_state := s', tx_mutatedRevisions := keys\<rparr>)"
    and mutated: "\<forall>key \<in> set keys. \<exists>r. map_of (os_Revisions s') key = Some r \<and> validateRevisionEvidence uc read_blob None r = None"
  shows "Within uc read_blob None None PublishConfirmed callback f s = (s', Inr v)"
proof -
  have wf: "maps_wf s" using valid by (simp add: store_valid_def)
  have b: "tx_validatedReleaseTracks (begin_transaction s) = os_ReleaseTracks s"
    using wf by (simp add: begin_transaction_def cloneReleaseTracks_def case_prod_unfold map_from_id maps_wf_def flip: snd_def)
  have "validateOperationalState uc read_blob None s s' keys = None" by (rule grown_commit [OF valid s' g mutated])
  moreover have "validateCommittedReleaseTracks (os_ReleaseTracks s) (os_ReleaseTracks s') = None"
    using wf by (auto simp: grows_fields [OF g] validateCommittedReleaseTracks_def maps_equal_def maps_wf_def map_keys_def list_all_iff)
  moreover have "s'\<lparr>os_migratedRevisions := []\<rparr> = s'" using settled grows_fields(9) [OF g] by (cases s') simp
  moreover have "os_Version s' = operationalStateVersion" using s' by (simp add: store_valid_def)
  ultimately show ?thesis
    using callback by (simp add: Within_def b publishCurrentOperationalState_def option.case_eq_if)
qed

end
