(* ===== verification/Spec_Validation.thy ===== *)
theory Spec_Validation
  imports Spec_Diff
begin

text \<open>
  The validation of a parsed index (\<open>domain/spec_validation.go\<close>). Its schema walk follows the items
  pointers of summaries, memoises the height of a shared summary and refuses cycles, nesting deeper
  than 64 and more than 100,000 visited nodes; the walk is compared with a reference that knows
  neither sharing nor cycles. \<open>room\<close> is the number of levels left, \<open>maxSpecSchemaSummaryDepth + 1\<close>
  minus the depth of the code, so that the recursion is on \<open>room\<close>.
\<close>

section \<open>The schema walk\<close>

definition maxSpecSchemaSummaryDepth :: nat where "maxSpecSchemaSummaryDepth = 64"
definition maxSpecSchemaSummaryNodes :: nat where "maxSpecSchemaSummaryNodes = 100000"

record schema_validator =
  sv_active :: "nat list"
  sv_memoHeight :: "(nat \<times> nat) list"
  sv_nodes :: nat

definition deref :: "schema_heap \<Rightarrow> nat \<Rightarrow> schema_summary" where
  "deref hp a = (if a < length hp then hp ! a else empty_summary)"

definition depthExceeded :: "string \<Rightarrow> go_error" where
  "depthExceeded prefix = Errorf ''%s exceeds maximum schema summary depth %d'' [prefix, itoa maxSpecSchemaSummaryDepth]"

text \<open>The loop over the properties, with the height so far; \<open>visit\<close> validates the summary of a property.\<close>

fun validateProperties ::
    "(string \<Rightarrow> schema_summary \<Rightarrow> schema_validator \<Rightarrow> (nat \<times> schema_validator) result) \<Rightarrow> string \<Rightarrow> nat \<Rightarrow>
     schema_property list \<Rightarrow> nat \<Rightarrow> schema_validator \<Rightarrow> (nat \<times> schema_validator) result" where
  "validateProperties visit prefix i [] height v = Inr (height, v)"
| "validateProperties visit prefix i (property # rest) height v =
     (let propertyPrefix = prefix @ '' property '' @ itoa i in
      require (ValidateCanonicalIdentity (propertyPrefix @ '' name'') (sp_Name property) False)
       (bind_res (visit (propertyPrefix @ '' schema'') (sp_Schema property) v) (\<lambda>(propertyHeight, v).
         validateProperties visit prefix (Suc i) rest (max height (1 + propertyHeight)) v)))"

definition validatePointer ::
    "schema_heap \<Rightarrow> (string \<Rightarrow> schema_summary \<Rightarrow> schema_validator \<Rightarrow> (nat \<times> schema_validator) result) \<Rightarrow> nat \<Rightarrow> string \<Rightarrow> nat \<Rightarrow>
     schema_validator \<Rightarrow> (nat \<times> schema_validator) result" where
  "validatePointer hp visit room prefix a v =
     (if a \<in> set (sv_active v) then Inl (Errorf ''%s contains a schema summary cycle'' [prefix])
      else case map_of (sv_memoHeight v) a of
        Some height \<Rightarrow> if height > room then Inl (depthExceeded prefix) else Inr (height, v)
      | None \<Rightarrow>
          bind_res (visit prefix (deref hp a) (v\<lparr>sv_active := a # sv_active v\<rparr>)) (\<lambda>(height, v).
            Inr (height, v\<lparr>sv_active := removeAll a (sv_active v), sv_memoHeight := (a, height) # sv_memoHeight v\<rparr>)))"

fun validateValue ::
    "schema_heap \<Rightarrow> bool \<Rightarrow> nat \<Rightarrow> string \<Rightarrow> schema_summary \<Rightarrow> schema_validator \<Rightarrow> (nat \<times> schema_validator) result" where
  "validateValue hp limits 0 prefix schema v = Inl (depthExceeded prefix)"
| "validateValue hp limits (Suc room) prefix schema v =
     (let v = v\<lparr>sv_nodes := Suc (sv_nodes v)\<rparr> in
      if limits \<and> sv_nodes v > maxSpecSchemaSummaryNodes
        then Inl (Errorf ''%s exceeds maximum schema summary nodes %d'' [prefix, itoa maxSpecSchemaSummaryNodes])
      else require (check_identities
          [(prefix @ '' name'', ss_Name schema, True), (prefix @ '' type'', ss_Type schema, True),
           (prefix @ '' format'', ss_Format schema, True)])
        (bind_res (validateProperties (validateValue hp limits room) prefix 0 (ss_Properties schema) 1 v) (\<lambda>(height, v).
          case ss_Items schema of
            None \<Rightarrow> Inr (height, v)
          | Some a \<Rightarrow>
              bind_res (validatePointer hp (validateValue hp limits room) room (prefix @ '' items'') a v) (\<lambda>(itemsHeight, v).
                Inr (max height (1 + itemsHeight), v)))))"

text \<open>The summaries the walk starts from, with the names it reports; the headers of responses are not among them.\<close>

definition operationRoots :: "nat \<Rightarrow> operation \<Rightarrow> (string \<times> schema_summary) list" where
  "operationRoots i operation =
     (let prefix = ''spec operation '' @ itoa i in
      map (\<lambda>(j, p). (prefix @ '' parameter '' @ itoa j @ '' schema'', pm_Schema p)) (enumerate 0 (op_Parameters operation)) @
      (case op_RequestBody operation of
         None \<Rightarrow> []
       | Some body \<Rightarrow> map (\<lambda>(j, m). (prefix @ '' request media '' @ itoa j @ '' schema'', mt_Schema m)) (enumerate 0 (rb_MediaTypes body))) @
      concat (map (\<lambda>(j, r). map (\<lambda>(k, m). (prefix @ '' response '' @ itoa j @ '' media '' @ itoa k @ '' schema'', mt_Schema m))
          (enumerate 0 (rs_MediaTypes r))) (enumerate 0 (op_Responses operation))))"

definition schemaRoots :: "spec_index \<Rightarrow> (string \<times> schema_summary) list" where
  "schemaRoots index =
     concat (map (\<lambda>(i, operation). operationRoots i operation) (enumerate 0 (si_Operations index))) @
     map (\<lambda>(i, schema). (''spec schema '' @ itoa i @ '' summary'', sm_Summary schema)) (enumerate 0 (si_Schemas index))"

fun validateRoots ::
    "schema_heap \<Rightarrow> bool \<Rightarrow> (string \<times> schema_summary) list \<Rightarrow> schema_validator \<Rightarrow> schema_validator result" where
  "validateRoots hp limits [] v = Inr v"
| "validateRoots hp limits ((prefix, schema) # rest) v =
     bind_res (validateValue hp limits maxSpecSchemaSummaryDepth prefix schema v) (\<lambda>(_, v). validateRoots hp limits rest v)"

definition newSchemaValidator :: schema_validator where
  "newSchemaValidator = \<lparr>sv_active = [], sv_memoHeight = [], sv_nodes = 0\<rparr>"

definition validateSpecIndexSchemaSummaries :: "schema_heap \<Rightarrow> bool \<Rightarrow> spec_index \<Rightarrow> schema_validator result" where
  "validateSpecIndexSchemaSummaries hp limits index = validateRoots hp limits (schemaRoots index) newSchemaValidator"

section \<open>Identities and uniqueness\<close>

fun validateFacetsFrom :: "string \<Rightarrow> nat \<Rightarrow> facet option \<Rightarrow> facet list \<Rightarrow> err" where
  "validateFacetsFrom prefix i previous [] = None"
| "validateFacetsFrom prefix i previous (facet # rest) = first_error
     [ValidateCanonicalIdentity (prefix @ '' facet '' @ itoa i @ '' name'') (fc_Name facet) False,
      ValidateCanonicalIdentity (prefix @ '' facet '' @ itoa i @ '' value'') (fc_Value facet) False,
      (case previous of
         None \<Rightarrow> None
       | Some p \<Rightarrow> fail_if (fc_Name p > fc_Name facet \<or> fc_Name p = fc_Name facet \<and> fc_Value p \<ge> fc_Value facet)
           (Errorf ''%s facets must be sorted and unique'' [prefix])),
      validateFacetsFrom prefix (Suc i) (Some facet) rest]"

definition validateOperationFacets :: "string \<Rightarrow> facet list \<Rightarrow> err" where
  "validateOperationFacets prefix facets = validateFacetsFrom prefix 0 None facets"

definition validateOperationMediaTypeIdentities :: "string \<Rightarrow> operation_media_type \<Rightarrow> err" where
  "validateOperationMediaTypeIdentities prefix media =
     ValidateCanonicalIdentity (prefix @ '' content type'') (mt_ContentType media) False"

definition validateIndexOperation :: "nat \<Rightarrow> operation \<Rightarrow> err" where
  "validateIndexOperation i operation =
     (let prefix = ''spec operation '' @ itoa i in first_error
       [wrap_err (Wrapf ''%s: %w'' [prefix])
          (ValidateOperationRequestTarget (op_Path operation) (op_RequestTarget operation) (op_FixedQuery operation)),
        check_identities
          [(prefix @ '' id'', op_ID operation, True), (prefix @ '' anchor'', op_Anchor operation, True),
           (prefix @ '' method'', op_Method operation, False), (prefix @ '' path'', op_Path operation, False)],
        each_index (\<lambda>j p. first_error
          [ValidateCanonicalIdentity (prefix @ '' parameter '' @ itoa j @ '' name'') (pm_Name p) False,
           ValidateCanonicalIdentity (prefix @ '' parameter '' @ itoa j @ '' location'') (pm_In p) False]) (op_Parameters operation),
        validateOperationFacets prefix (op_Facets operation),
        (case op_RequestBody operation of
           None \<Rightarrow> None
         | Some body \<Rightarrow> each_index (\<lambda>j m. validateOperationMediaTypeIdentities (prefix @ '' request media '' @ itoa j) m)
             (rb_MediaTypes body)),
        each_index (\<lambda>j r. first_error
          [ValidateCanonicalIdentity (prefix @ '' response '' @ itoa j @ '' status'') (rs_Status r) False,
           each_index (\<lambda>k m. validateOperationMediaTypeIdentities (prefix @ '' response '' @ itoa j @ '' media '' @ itoa k) m)
             (rs_MediaTypes r)]) (op_Responses operation),
        each_index (\<lambda>j s. first_error
          [ValidateCanonicalIdentity (prefix @ '' security '' @ itoa j @ '' name'') (os_Name s) False,
           each_index (\<lambda>k scope. ValidateCanonicalIdentity (prefix @ '' security '' @ itoa j @ '' scope '' @ itoa k) scope False)
             (os_Scopes s)]) (op_Security operation),
        each_index (\<lambda>j s. ValidateCanonicalIdentity (prefix @ '' snippet '' @ itoa j @ '' language'') (sn_Language s) True)
          (op_Snippets operation)])"

fun validateIndexOperationsUnique :: "unicode_case \<Rightarrow> nat \<Rightarrow> (string \<times> string \<times> string) list \<Rightarrow> operation list \<Rightarrow> err" where
  "validateIndexOperationsUnique uc i seen [] = None"
| "validateIndexOperationsUnique uc i seen (operation # rest) =
     (let key = (canonicalUpperSurfaceText uc (op_Method operation), TrimSpace (op_Path operation),
            TrimSpace (EffectiveOperationRequestTarget operation)) in
      if key \<in> set seen
        then Some (Errorf ''spec operation %d duplicates canonical operation %s %s'' [itoa i, fst key, snd (snd key)])
      else first_error
        [dup_error (\<lambda>j (name, loc). Errorf ''spec operation %d parameter %d duplicates canonical parameter %s in %s''
            [itoa i, itoa j, name, loc])
          (map (\<lambda>p. (TrimSpace (pm_Name p), canonicalLowerSurfaceText uc (pm_In p))) (op_Parameters operation)),
         dup_error (\<lambda>j status. Errorf ''spec operation %d response %d duplicates status %s'' [itoa i, itoa j, status])
          (map (\<lambda>r. TrimSpace (rs_Status r)) (op_Responses operation)),
         validateIndexOperationsUnique uc (Suc i) (key # seen) rest])"

definition validateSpecIndexSurfaceUniqueness :: "unicode_case \<Rightarrow> spec_index \<Rightarrow> err" where
  "validateSpecIndexSurfaceUniqueness uc index = first_error
     [validateIndexOperationsUnique uc 0 [] (si_Operations index),
      dup_error (\<lambda>i name. Errorf ''spec schema %d duplicates schema %s'' [itoa i, name])
        (map (\<lambda>s. TrimSpace (sm_Name s)) (si_Schemas index))]"

definition ValidateSpecIndexWithOptions :: "unicode_case \<Rightarrow> schema_heap \<Rightarrow> bool \<Rightarrow> spec_index \<Rightarrow> err" where
  "ValidateSpecIndexWithOptions uc hp limits index = first_error
     [to_err (validateSpecIndexSchemaSummaries hp limits index),
      validateUTF8Strings (rv_heap hp) ''spec index'' (rv_spec_index index),
      fail_if (dl_JSON (si_SpecDownload index) \<noteq> [] \<and> \<not> utf8_valid (dl_JSON (si_SpecDownload index)))
        (Errorf ''spec index download JSON must contain valid UTF-8'' []),
      check_identities
        [(''spec index project id'', si_ProjectID index, True), (''spec index revision id'', si_RevisionID index, True),
         (''spec download filename'', dl_Filename (si_SpecDownload index), True)],
      each_index (\<lambda>i server. each_index (\<lambda>j variable.
          ValidateCanonicalIdentity (''spec server '' @ itoa i @ '' variable '' @ itoa j @ '' name'') (var_Name variable) False)
        (srv_Variables server)) (ov_Servers (si_Overview index)),
      each_index validateIndexOperation (si_Operations index),
      each_index (\<lambda>i schema. ValidateCanonicalIdentity (''spec schema '' @ itoa i @ '' name'') (sm_Name schema) False) (si_Schemas index),
      each_index (\<lambda>i document. let prefix = ''spec search document '' @ itoa i in check_identities
          [(prefix @ '' id'', sd_ID document, False), (prefix @ '' href'', sd_Href document, False), (prefix @ '' kind'', sd_Kind document, False),
           (prefix @ '' method'', sd_Method document, True), (prefix @ '' path'', sd_Path document, True),
           (prefix @ '' section'', sd_Section document, True)]) (si_Search index),
      each_index (\<lambda>i route. ValidateCanonicalIdentity (''spec public route '' @ itoa i @ '' path'') (pr_Path route) False) (si_PublicRoutes index),
      validateSpecIndexSurfaceUniqueness uc index]"

definition ValidateSpecIndex :: "unicode_case \<Rightarrow> schema_heap \<Rightarrow> spec_index \<Rightarrow> err" where
  "ValidateSpecIndex uc hp index = ValidateSpecIndexWithOptions uc hp True index"

section \<open>What the walk accepts\<close>

text \<open>The reference: a summary nested at most \<open>n\<close> deep, following every pointer, with canonical names.\<close>

primrec well_nested :: "schema_heap \<Rightarrow> nat \<Rightarrow> schema_summary \<Rightarrow> bool" where
  "well_nested hp 0 s = False"
| "well_nested hp (Suc n) s \<longleftrightarrow>
     (\<forall>x \<in> {ss_Name s, ss_Type s, ss_Format s}. canonical x \<or> x = []) \<and>
     (\<forall>p \<in> set (ss_Properties s). canonical (sp_Name p) \<and> well_nested hp n (sp_Schema p)) \<and>
     (case ss_Items s of None \<Rightarrow> True | Some a \<Rightarrow> well_nested hp n (deref hp a))"

lemma well_nested_Suc: "well_nested hp n s \<Longrightarrow> well_nested hp (Suc n) s"
proof (induction n arbitrary: s)
  case (Suc n)
  have "well_nested hp (Suc n) t" if "well_nested hp n t" for t using Suc.IH that .
  then show ?case
    using Suc.prems unfolding well_nested.simps(2) [of hp n s] well_nested.simps(2) [of hp "Suc n" s]
    by (cases "ss_Items s") (auto simp del: well_nested.simps)
qed simp

lemma well_nested_mono: "well_nested hp n s \<Longrightarrow> n \<le> m \<Longrightarrow> well_nested hp m s"
proof (induction m)
  case (Suc m)
  then show ?case by (cases "n = Suc m") (auto intro: well_nested_Suc simp del: well_nested.simps(2))
qed simp

text \<open>The height a summary has: the least depth it is nested within.\<close>

definition has_height :: "schema_heap \<Rightarrow> nat \<Rightarrow> schema_summary \<Rightarrow> bool" where
  "has_height hp h s \<longleftrightarrow> (\<forall>n. well_nested hp n s \<longleftrightarrow> h \<le> n)"

lemma has_height_least: "well_nested hp n s \<Longrightarrow> \<exists>h \<le> n. has_height hp h s"
proof -
  assume n: "well_nested hp n s"
  let ?h = "LEAST m. well_nested hp m s"
  have "well_nested hp ?h s" "?h \<le> n" using n by (auto intro: LeastI Least_le)
  moreover from this have "has_height hp ?h s"
    unfolding has_height_def by (metis Least_le well_nested_mono)
  ultimately show ?thesis by blast
qed

lemma has_height_pos: "has_height hp h s \<Longrightarrow> 0 < h"
  unfolding has_height_def by (metis gr0I le_refl well_nested.simps(1))

text \<open>The height of a summary from those of its parts.\<close>

lemma has_height_step:
  assumes "\<forall>x \<in> {ss_Name s, ss_Type s, ss_Format s}. canonical x \<or> x = []"
    and "\<forall>p \<in> set (ss_Properties s). canonical (sp_Name p)"
    and "\<And>n. (\<forall>p \<in> set (ss_Properties s). well_nested hp n (sp_Schema p)) \<and>
          (case ss_Items s of None \<Rightarrow> True | Some a \<Rightarrow> well_nested hp n (deref hp a)) \<longleftrightarrow> k \<le> Suc n"
    and "1 \<le> k"
  shows "has_height hp k s"
proof (unfold has_height_def, intro allI)
  fix n
  show "well_nested hp n s \<longleftrightarrow> k \<le> n"
  proof (cases n)
    case 0
    then show ?thesis using assms(4) by simp
  next
    case (Suc m)
    then show ?thesis using assms(1,2) assms(3) [of m] by (simp only: well_nested.simps(2)) blast
  qed
qed

section \<open>The walk computes heights\<close>

text \<open>The memo holds heights, of pointers that are not being visited.\<close>

definition validator_ok :: "schema_heap \<Rightarrow> schema_validator \<Rightarrow> bool" where
  "validator_ok hp v \<longleftrightarrow> (\<forall>(a, h) \<in> set (sv_memoHeight v). has_height hp h (deref hp a) \<and> a \<notin> set (sv_active v))"

text \<open>The nodes of a summary by value, and those of every pointer memoised so far.\<close>

fun value_nodes :: "schema_summary \<Rightarrow> nat" and property_nodes :: "schema_property \<Rightarrow> nat" where
  "value_nodes (SchemaSummary nm ty fmt desc dflt ex enum cs nullable deprecated props items js) = Suc (sum_list (map property_nodes props))"
| "property_nodes (SchemaProperty nm req s desc) = value_nodes s"

lemma value_nodes_eq: "value_nodes s = Suc (sum_list (map (\<lambda>p. value_nodes (sp_Schema p)) (ss_Properties s)))"
proof -
  have "property_nodes p = value_nodes (sp_Schema p)" for p by (cases p) simp
  then show ?thesis by (cases s) (simp cong: map_cong)
qed

definition memo_nodes :: "schema_heap \<Rightarrow> schema_validator \<Rightarrow> nat" where
  "memo_nodes hp v = (\<Sum>a \<in> fst ` set (sv_memoHeight v). value_nodes (deref hp a))"

text \<open>What a visit of summary parts worth \<open>w\<close> nodes does to the validator.\<close>

definition visited :: "schema_heap \<Rightarrow> nat \<Rightarrow> schema_validator \<Rightarrow> schema_validator \<Rightarrow> bool" where
  "visited hp w v v' \<longleftrightarrow> validator_ok hp v' \<and> sv_active v' = sv_active v \<and> set (sv_memoHeight v) \<subseteq> set (sv_memoHeight v') \<and>
     sv_nodes v \<le> sv_nodes v' \<and> sv_nodes v' + memo_nodes hp v \<le> sv_nodes v + w + memo_nodes hp v'"

lemma visited_trans: "visited hp w v v1 \<Longrightarrow> visited hp w' v1 v2 \<Longrightarrow> visited hp (w + w') v v2"
  by (auto simp: visited_def)

definition sound_visit ::
    "schema_heap \<Rightarrow> nat \<Rightarrow> (string \<Rightarrow> schema_summary \<Rightarrow> schema_validator \<Rightarrow> (nat \<times> schema_validator) result) \<Rightarrow> bool" where
  "sound_visit hp room visit \<longleftrightarrow> (\<forall>prefix s v h v'. visit prefix s v = Inr (h, v') \<longrightarrow> validator_ok hp v \<longrightarrow>
     has_height hp h s \<and> h \<le> room \<and> visited hp (value_nodes s) v v')"

lemma sound_visitD:
  "sound_visit hp room visit \<Longrightarrow> visit prefix s v = Inr (h, v') \<Longrightarrow> validator_ok hp v \<Longrightarrow>
   has_height hp h s \<and> h \<le> room \<and> visited hp (value_nodes s) v v'"
  unfolding sound_visit_def by blast

lemma validateProperties_sound:
  assumes visit: "sound_visit hp room visit"
    and "validateProperties visit prefix i ps height v = Inr (height', v')" and "validator_ok hp v"
  shows "(\<forall>p \<in> set ps. canonical (sp_Name p)) \<and> visited hp (sum_list (map (\<lambda>p. value_nodes (sp_Schema p)) ps)) v v' \<and>
    height \<le> height' \<and> (height \<le> Suc room \<longrightarrow> height' \<le> Suc room) \<and>
    (\<forall>n. height \<le> Suc n \<longrightarrow> (\<forall>p \<in> set ps. well_nested hp n (sp_Schema p)) \<longleftrightarrow> height' \<le> Suc n)"
  using assms(2,3)
proof (induction ps arbitrary: i height v)
  case Nil
  then show ?case by (auto simp: visited_def)
next
  case (Cons p ps)
  obtain h v1 where v1: "canonical (sp_Name p)"
    "visit (prefix @ '' property '' @ itoa i @ '' schema'') (sp_Schema p) v = Inr (h, v1)"
    "validateProperties visit prefix (Suc i) ps (max height (1 + h)) v1 = Inr (height', v')"
    using Cons.prems(1) by (auto simp: Let_def)
  note p = sound_visitD [OF visit v1(2) Cons.prems(2)]
  have ok: "validator_ok hp v1" using p by (simp add: visited_def)
  note ih = Cons.IH [OF v1(3) ok]
  have n: "(\<forall>q \<in> set (p # ps). well_nested hp n (sp_Schema q)) \<longleftrightarrow> height' \<le> Suc n" if "height \<le> Suc n" for n
  proof (cases "h \<le> n")
    case True
    then have "well_nested hp n (sp_Schema p)" using p by (simp add: has_height_def)
    then show ?thesis using ih that True by simp
  next
    case False
    then have "\<not> well_nested hp n (sp_Schema p)" using p by (simp add: has_height_def)
    moreover have "max height (1 + h) \<le> height'" using ih by blast
    ultimately show ?thesis using False by simp
  qed
  have "visited hp (value_nodes (sp_Schema p) + sum_list (map (\<lambda>p. value_nodes (sp_Schema p)) ps)) v v'"
    using visited_trans p ih by blast
  then show ?case using n ih v1(1) p by simp
qed

lemma validatePointer_sound:
  assumes visit: "sound_visit hp room visit"
    and p: "validatePointer hp visit room prefix a v = Inr (h, v')" and ok: "validator_ok hp v"
  shows "has_height hp h (deref hp a) \<and> h \<le> room \<and> visited hp 0 v v'"
proof (cases "map_of (sv_memoHeight v) a")
  case (Some height)
  then show ?thesis
    using p ok by (auto simp: validatePointer_def validator_ok_def visited_def dest: map_of_SomeD split: if_splits)
next
  case None
  let ?va = "v\<lparr>sv_active := a # sv_active v\<rparr>"
  obtain v1 where v1: "a \<notin> set (sv_active v)" "visit prefix (deref hp a) ?va = Inr (h, v1)"
    "v' = v1\<lparr>sv_active := removeAll a (sv_active v1), sv_memoHeight := (a, h) # sv_memoHeight v1\<rparr>"
    using p None by (auto simp: validatePointer_def split: if_splits)
  have fresh: "a \<notin> fst ` set (sv_memoHeight v)" using None by (simp add: map_of_eq_None_iff)
  then have "validator_ok hp ?va" using ok by (force simp: validator_ok_def)
  note i = sound_visitD [OF visit v1(2) this]
  have act: "sv_active v1 = a # sv_active v" using i by (simp add: visited_def)
  have fresh1: "a \<notin> fst ` set (sv_memoHeight v1)"
    using i act by (force simp: visited_def validator_ok_def)
  have memo: "memo_nodes hp v' = memo_nodes hp v1 + value_nodes (deref hp a)"
    using fresh1 by (simp add: v1(3) memo_nodes_def)
  have active: "sv_active v' = sv_active v" using v1(1,3) act by simp
  have "validator_ok hp v'"
    using i v1(1) act by (auto simp: v1(3) validator_ok_def visited_def)
  then show ?thesis
    using i memo active by (auto simp: visited_def v1(3) memo_nodes_def)
qed

lemma validateValue_Inr:
  "validateValue hp limits (Suc room) prefix s v = Inr (h, v') \<longleftrightarrow>
     \<not> (limits \<and> sv_nodes v \<ge> maxSpecSchemaSummaryNodes) \<and>
     (\<forall>x \<in> {ss_Name s, ss_Type s, ss_Format s}. canonical x \<or> x = []) \<and>
     (\<exists>h1 v1. validateProperties (validateValue hp limits room) prefix 0 (ss_Properties s) 1 (v\<lparr>sv_nodes := Suc (sv_nodes v)\<rparr>) = Inr (h1, v1) \<and>
       (case ss_Items s of None \<Rightarrow> (h, v') = (h1, v1)
        | Some a \<Rightarrow> \<exists>h2. validatePointer hp (validateValue hp limits room) room (prefix @ '' items'') a v1 = Inr (h2, v') \<and> h = max h1 (1 + h2)))"
  by (cases "ss_Items s") (fastforce simp: Let_def not_le less_Suc_eq_le)+

lemma validateValue_sound:
  assumes "validateValue hp limits room prefix s v = Inr (h, v')" and "validator_ok hp v"
  shows "has_height hp h s \<and> h \<le> room \<and> visited hp (value_nodes s) v v'"
  using assms
proof (induction room arbitrary: prefix s v h v')
  case (Suc room)
  let ?v = "v\<lparr>sv_nodes := Suc (sv_nodes v)\<rparr>"
  have ok: "validator_ok hp ?v" using Suc.prems(2) by (simp add: validator_ok_def)
  obtain h1 v1 where l: "validateProperties (validateValue hp limits room) prefix 0 (ss_Properties s) 1 ?v = Inr (h1, v1)"
    "\<forall>x \<in> {ss_Name s, ss_Type s, ss_Format s}. canonical x \<or> x = []"
    "case ss_Items s of None \<Rightarrow> (h, v') = (h1, v1)
     | Some a \<Rightarrow> \<exists>h2. validatePointer hp (validateValue hp limits room) room (prefix @ '' items'') a v1 = Inr (h2, v') \<and> h = max h1 (1 + h2)"
    using Suc.prems(1) unfolding validateValue_Inr by blast
  have visit: "sound_visit hp room (validateValue hp limits room)" using Suc.IH unfolding sound_visit_def by blast
  note ps = validateProperties_sound [OF visit l(1) ok]
  have ok1: "validator_ok hp v1" using ps by (simp add: visited_def)
  have n: "visited hp w ?v v'' \<Longrightarrow> visited hp (Suc w) v v''" for w v''
    by (auto simp: visited_def memo_nodes_def)
  show ?case
  proof (cases "ss_Items s")
    case None
    then have eq: "h = h1" "v' = v1" using l(3) by auto
    have "has_height hp h1 s"
      by (rule has_height_step) (use None ps l(2) in auto)
    then show ?thesis using ps n eq by (simp add: value_nodes_eq [of s])
  next
    case (Some a)
    then obtain h2 where h2: "validatePointer hp (validateValue hp limits room) room (prefix @ '' items'') a v1 = Inr (h2, v')"
      "h = max h1 (1 + h2)" using l(3) by auto
    note q = validatePointer_sound [OF visit h2(1) ok1]
    have "well_nested hp m (deref hp a) \<longleftrightarrow> h2 \<le> m" for m using q by (simp add: has_height_def)
    then have "has_height hp h s"
      by (intro has_height_step) (use Some ps l(2) h2(2) in auto)
    moreover have "visited hp (sum_list (map (\<lambda>p. value_nodes (sp_Schema p)) (ss_Properties s)) + 0) ?v v'"
      using visited_trans ps q by blast
    ultimately show ?thesis using ps q n h2(2) by (simp add: value_nodes_eq [of s])
  qed
qed simp

section \<open>The walk refuses nothing else\<close>

text \<open>
  A pointer under visit is at least as high as the summary the walk has reached inside it, so a
  well-nested summary never meets one again.
\<close>

definition below_active :: "schema_heap \<Rightarrow> schema_validator \<Rightarrow> schema_summary \<Rightarrow> bool" where
  "below_active hp v s \<longleftrightarrow> (\<forall>a \<in> set (sv_active v). \<forall>n. well_nested hp n (deref hp a) \<longrightarrow> well_nested hp n s)"

definition complete_visit ::
    "schema_heap \<Rightarrow> nat \<Rightarrow> (string \<Rightarrow> schema_summary \<Rightarrow> schema_validator \<Rightarrow> (nat \<times> schema_validator) result) \<Rightarrow> bool" where
  "complete_visit hp room visit \<longleftrightarrow> (\<forall>prefix s v. well_nested hp room s \<longrightarrow> validator_ok hp v \<longrightarrow> below_active hp v s \<longrightarrow>
     (\<exists>h v'. visit prefix s v = Inr (h, v')))"

lemma validateProperties_complete:
  assumes "sound_visit hp room visit" and "complete_visit hp room visit"
    and "validator_ok hp v" and "\<forall>p \<in> set ps. canonical (sp_Name p) \<and> well_nested hp room (sp_Schema p) \<and> below_active hp v (sp_Schema p)"
  shows "\<exists>h v'. validateProperties visit prefix i ps height v = Inr (h, v')"
  using assms(3,4)
proof (induction ps arbitrary: i height v)
  case (Cons p ps)
  let ?prefix = "prefix @ '' property '' @ itoa i @ '' schema''"
  obtain h v1 where v1: "visit ?prefix (sp_Schema p) v = Inr (h, v1)"
    using assms(2) Cons.prems unfolding complete_visit_def by fastforce
  have v1_ok: "validator_ok hp v1" "sv_active v1 = sv_active v"
    using sound_visitD [OF assms(1) v1 Cons.prems(1)] by (simp_all add: visited_def)
  have "\<forall>q \<in> set ps. canonical (sp_Name q) \<and> well_nested hp room (sp_Schema q) \<and> below_active hp v1 (sp_Schema q)"
    using Cons.prems(2) v1_ok(2) by (simp add: below_active_def)
  then obtain h' v' where "validateProperties visit prefix (Suc i) ps (max height (1 + h)) v1 = Inr (h', v')"
    using Cons.IH [OF v1_ok(1)] by blast
  then show ?case using v1 Cons.prems(2) by (auto simp: Let_def bind_res_def)
qed simp

lemma validatePointer_complete:
  assumes "complete_visit hp room visit" and "validator_ok hp v" and "well_nested hp room (deref hp a)"
    and below: "\<forall>b \<in> set (sv_active v). \<forall>n. well_nested hp n (deref hp b) \<longrightarrow> (\<exists>m < n. well_nested hp m (deref hp a))"
  shows "\<exists>h v'. validatePointer hp visit room prefix a v = Inr (h, v')"
proof -
  obtain h where h: "has_height hp h (deref hp a)" "h \<le> room" using has_height_least [OF assms(3)] by blast
  have inactive: "a \<notin> set (sv_active v)"
  proof
    assume "a \<in> set (sv_active v)"
    moreover have "well_nested hp h (deref hp a)" using h(1) by (simp add: has_height_def)
    ultimately obtain m where "m < h" "well_nested hp m (deref hp a)" using below by blast
    then show False using h(1) by (simp add: has_height_def)
  qed
  show ?thesis
  proof (cases "map_of (sv_memoHeight v) a")
    case (Some g)
    then have "has_height hp g (deref hp a)" using assms(2) by (auto simp: validator_ok_def dest!: map_of_SomeD)
    then have "g \<le> room" using assms(3) by (simp add: has_height_def)
    then show ?thesis using Some inactive by (simp add: validatePointer_def)
  next
    case None
    let ?va = "v\<lparr>sv_active := a # sv_active v\<rparr>"
    have "validator_ok hp ?va" using assms(2) None by (force simp: validator_ok_def map_of_eq_None_iff)
    moreover have "below_active hp ?va (deref hp a)"
      using below unfolding below_active_def by simp (meson less_imp_le well_nested_mono)
    ultimately obtain h' v1 where "visit prefix (deref hp a) ?va = Inr (h', v1)"
      using assms(1,3) unfolding complete_visit_def by blast
    then show ?thesis using None inactive by (simp add: validatePointer_def bind_res_def)
  qed
qed

lemma validateValue_complete:
  assumes "well_nested hp room s" and "validator_ok hp v" and "below_active hp v s"
  shows "\<exists>h v'. validateValue hp False room prefix s v = Inr (h, v')"
  using assms
proof (induction room arbitrary: prefix s v)
  case (Suc room)
  let ?v = "v\<lparr>sv_nodes := Suc (sv_nodes v)\<rparr>"
  have visit: "sound_visit hp room (validateValue hp False room)" "complete_visit hp room (validateValue hp False room)"
    using validateValue_sound Suc.IH unfolding sound_visit_def complete_visit_def by blast+
  have ok: "validator_ok hp ?v" using Suc.prems(2) by (simp add: validator_ok_def)
  have names: "\<forall>x \<in> {ss_Name s, ss_Type s, ss_Format s}. canonical x \<or> x = []" using Suc.prems(1) by simp
  have parts: "\<exists>m. n = Suc m \<and> (\<forall>p \<in> set (ss_Properties s). canonical (sp_Name p) \<and> well_nested hp m (sp_Schema p)) \<and>
      (case ss_Items s of None \<Rightarrow> True | Some b \<Rightarrow> well_nested hp m (deref hp b))"
    if "a \<in> set (sv_active v)" "well_nested hp n (deref hp a)" for a n
  proof -
    have "well_nested hp n s" using Suc.prems(3) that unfolding below_active_def by blast
    then show ?thesis by (cases n) auto
  qed
  have props: "\<forall>p \<in> set (ss_Properties s). canonical (sp_Name p) \<and> well_nested hp room (sp_Schema p) \<and> below_active hp ?v (sp_Schema p)"
    using Suc.prems(1) parts by (fastforce simp: below_active_def intro: well_nested_Suc)
  obtain h1 v1 where l: "validateProperties (validateValue hp False room) prefix 0 (ss_Properties s) 1 ?v = Inr (h1, v1)"
    using validateProperties_complete [OF visit ok props] by blast
  have v1: "validator_ok hp v1" "sv_active v1 = sv_active v"
    using validateProperties_sound [OF visit(1) l ok] by (simp_all add: visited_def)
  show ?case
  proof (cases "ss_Items s")
    case None
    then show ?thesis using l names unfolding validateValue_Inr by auto
  next
    case (Some a)
    have "\<exists>m < n. well_nested hp m (deref hp a)" if "b \<in> set (sv_active v1)" "well_nested hp n (deref hp b)" for b n
      using parts [of b n] that Some v1(2) by auto
    then obtain h2 v2 where "validatePointer hp (validateValue hp False room) room (prefix @ '' items'') a v1 = Inr (h2, v2)"
      using validatePointer_complete [OF visit(2) v1(1)] Suc.prems(1) Some by fastforce
    then show ?thesis using l names Some unfolding validateValue_Inr by auto
  qed
qed simp

section \<open>The node budget\<close>

definition counting_visit :: "(string \<Rightarrow> schema_summary \<Rightarrow> schema_validator \<Rightarrow> (nat \<times> schema_validator) result) \<Rightarrow> bool" where
  "counting_visit visit \<longleftrightarrow> (\<forall>prefix s v h v'. visit prefix s v = Inr (h, v') \<longrightarrow> sv_nodes v \<le> sv_nodes v')"

lemma validateProperties_counts:
  assumes "counting_visit visit" and "validateProperties visit prefix i ps height v = Inr (h, v')"
  shows "sv_nodes v \<le> sv_nodes v'"
  using assms(2)
proof (induction ps arbitrary: i height v)
  case (Cons p ps)
  then show ?case using assms(1) unfolding counting_visit_def by (fastforce simp: Let_def)
qed simp

lemma validatePointer_counts:
  assumes "counting_visit visit" and "validatePointer hp visit room prefix a v = Inr (h, v')"
  shows "sv_nodes v \<le> sv_nodes v'"
  using assms unfolding counting_visit_def
  by (fastforce simp: validatePointer_def split: if_splits option.splits)

lemma validateValue_counts_node:
  assumes "counting_visit (validateValue hp limits room)" and "validateValue hp limits (Suc room) prefix s v = Inr (h, v')"
  shows "sv_nodes v < sv_nodes v'"
proof -
  obtain h1 v1 where l: "validateProperties (validateValue hp limits room) prefix 0 (ss_Properties s) 1 (v\<lparr>sv_nodes := Suc (sv_nodes v)\<rparr>) = Inr (h1, v1)"
    "case ss_Items s of None \<Rightarrow> (h, v') = (h1, v1)
     | Some a \<Rightarrow> \<exists>h2. validatePointer hp (validateValue hp limits room) room (prefix @ '' items'') a v1 = Inr (h2, v') \<and> h = max h1 (1 + h2)"
    using assms(2) unfolding validateValue_Inr by blast
  have "Suc (sv_nodes v) \<le> sv_nodes v1" using validateProperties_counts [OF assms(1) l(1)] by simp
  moreover have "sv_nodes v1 \<le> sv_nodes v'"
    using l(2) validatePointer_counts [OF assms(1)] by (auto split: option.splits)
  ultimately show ?thesis by simp
qed

lemma validateValue_counts: "counting_visit (validateValue hp limits room)"
proof (induction room)
  case (Suc room)
  then show ?case using validateValue_counts_node unfolding counting_visit_def by (meson less_imp_le)
qed (simp add: counting_visit_def)

text \<open>A walk with limits is the walk without, stopped when it has visited too many nodes.\<close>

definition limited_visit ::
    "(string \<Rightarrow> schema_summary \<Rightarrow> schema_validator \<Rightarrow> (nat \<times> schema_validator) result) \<Rightarrow>
     (string \<Rightarrow> schema_summary \<Rightarrow> schema_validator \<Rightarrow> (nat \<times> schema_validator) result) \<Rightarrow> bool" where
  "limited_visit limited visit \<longleftrightarrow> counting_visit visit \<and> (\<forall>prefix s v h v'. limited prefix s v = Inr (h, v') \<longleftrightarrow>
     visit prefix s v = Inr (h, v') \<and> sv_nodes v' \<le> maxSpecSchemaSummaryNodes)"

lemma validateProperties_limited:
  assumes "limited_visit limited visit" and "sv_nodes v \<le> maxSpecSchemaSummaryNodes"
  shows "validateProperties limited prefix i ps height v = Inr (h, v') \<longleftrightarrow>
    validateProperties visit prefix i ps height v = Inr (h, v') \<and> sv_nodes v' \<le> maxSpecSchemaSummaryNodes"
  using assms(2)
proof (induction ps arbitrary: i height v)
  case (Cons p ps)
  have c: "counting_visit visit" using assms(1) by (simp add: limited_visit_def)
  let ?prefix = "prefix @ '' property '' @ itoa i @ '' schema''"
  have l: "limited ?prefix (sp_Schema p) v = Inr (h1, v1) \<longleftrightarrow>
      visit ?prefix (sp_Schema p) v = Inr (h1, v1) \<and> sv_nodes v1 \<le> maxSpecSchemaSummaryNodes" for h1 v1
    using assms(1) unfolding limited_visit_def by blast
  have "(\<exists>h1 v1. limited ?prefix (sp_Schema p) v = Inr (h1, v1) \<and>
        validateProperties limited prefix (Suc i) ps (max height (1 + h1)) v1 = Inr (h, v')) \<longleftrightarrow>
      (\<exists>h1 v1. visit ?prefix (sp_Schema p) v = Inr (h1, v1) \<and>
        validateProperties visit prefix (Suc i) ps (max height (1 + h1)) v1 = Inr (h, v')) \<and> sv_nodes v' \<le> maxSpecSchemaSummaryNodes"
    unfolding l using Cons.IH validateProperties_counts [OF c] le_trans by meson
  then show ?case by (auto simp: Let_def)
qed auto

lemma validatePointer_limited:
  assumes "limited_visit limited visit" and "sv_nodes v \<le> maxSpecSchemaSummaryNodes"
  shows "validatePointer hp limited room prefix a v = Inr (h, v') \<longleftrightarrow>
    validatePointer hp visit room prefix a v = Inr (h, v') \<and> sv_nodes v' \<le> maxSpecSchemaSummaryNodes"
proof -
  have "limited prefix (deref hp a) w = Inr (h1, v1) \<longleftrightarrow>
      visit prefix (deref hp a) w = Inr (h1, v1) \<and> sv_nodes v1 \<le> maxSpecSchemaSummaryNodes" for w h1 v1
    using assms(1) unfolding limited_visit_def by blast
  then show ?thesis using assms(2) by (auto simp: validatePointer_def split: option.splits)
qed

lemma validateValue_limited: "limited_visit (validateValue hp True room) (validateValue hp False room)"
proof (induction room)
  case 0
  show ?case unfolding limited_visit_def by (rule conjI, rule validateValue_counts) simp
next
  case (Suc room)
  have "validateValue hp True (Suc room) prefix s v = Inr (h, v') \<longleftrightarrow>
      validateValue hp False (Suc room) prefix s v = Inr (h, v') \<and> sv_nodes v' \<le> maxSpecSchemaSummaryNodes" for prefix s v h v'
  proof (cases "Suc (sv_nodes v) \<le> maxSpecSchemaSummaryNodes")
    case True
    let ?v = "v\<lparr>sv_nodes := Suc (sv_nodes v)\<rparr>"
    have p: "validateProperties (validateValue hp True room) prefix 0 (ss_Properties s) 1 ?v = Inr (h1, v1) \<longleftrightarrow>
        validateProperties (validateValue hp False room) prefix 0 (ss_Properties s) 1 ?v = Inr (h1, v1) \<and>
        sv_nodes v1 \<le> maxSpecSchemaSummaryNodes" for h1 v1
      by (rule validateProperties_limited [OF Suc]) (simp add: True)
    show ?thesis
    proof (cases "ss_Items s")
      case None
      then show ?thesis unfolding validateValue_Inr p using True by auto
    next
      case (Some a)
      have q: "sv_nodes v1 \<le> maxSpecSchemaSummaryNodes \<and>
          validatePointer hp (validateValue hp True room) room (prefix @ '' items'') a v1 = Inr (h2, v') \<longleftrightarrow>
          validatePointer hp (validateValue hp False room) room (prefix @ '' items'') a v1 = Inr (h2, v') \<and>
          sv_nodes v' \<le> maxSpecSchemaSummaryNodes" for v1 h2
        using validatePointer_limited [OF Suc, of v1 hp room "prefix @ '' items''" a h2 v']
          validatePointer_counts [OF validateValue_counts, of hp hp False room room "prefix @ '' items''" a v1 h2 v'] by auto
      have "(\<exists>h1 v1. (validateProperties (validateValue hp False room) prefix 0 (ss_Properties s) 1 ?v = Inr (h1, v1) \<and>
            sv_nodes v1 \<le> maxSpecSchemaSummaryNodes) \<and>
          (\<exists>h2. validatePointer hp (validateValue hp True room) room (prefix @ '' items'') a v1 = Inr (h2, v') \<and> h = max h1 (1 + h2))) \<longleftrightarrow>
        (\<exists>h1 v1. validateProperties (validateValue hp False room) prefix 0 (ss_Properties s) 1 ?v = Inr (h1, v1) \<and>
          (\<exists>h2. validatePointer hp (validateValue hp False room) room (prefix @ '' items'') a v1 = Inr (h2, v') \<and> h = max h1 (1 + h2))) \<and>
          sv_nodes v' \<le> maxSpecSchemaSummaryNodes"
        using q by blast
      then show ?thesis unfolding validateValue_Inr p using Some True by simp
    qed
  next
    case False
    have "sv_nodes v' > maxSpecSchemaSummaryNodes" if "validateValue hp False (Suc room) prefix s v = Inr (h, v')"
      using validateValue_counts_node [OF validateValue_counts that] False by simp
    then show ?thesis using False unfolding validateValue_Inr [of hp True] by auto
  qed
  then show ?case unfolding limited_visit_def using validateValue_counts by blast
qed

section \<open>The schema summaries of an index\<close>

lemma validator_new: "validator_ok hp newSchemaValidator" "sv_active newSchemaValidator = []" "memo_nodes hp newSchemaValidator = 0"
  by (simp_all add: newSchemaValidator_def validator_ok_def memo_nodes_def)

lemma validateRoots_sound:
  assumes "validateRoots hp limits roots v = Inr v'" and "validator_ok hp v"
  shows "(\<forall>r \<in> set roots. well_nested hp maxSpecSchemaSummaryDepth (snd r)) \<and>
    visited hp (sum_list (map (\<lambda>r. value_nodes (snd r)) roots)) v v'"
  using assms
proof (induction hp limits roots v rule: validateRoots.induct)
  case (2 hp limits prefix s rest v)
  then obtain h v1 where v1: "validateValue hp limits maxSpecSchemaSummaryDepth prefix s v = Inr (h, v1)"
    "validateRoots hp limits rest v1 = Inr v'" by auto
  note s = validateValue_sound [OF v1(1) 2(3)]
  have "well_nested hp maxSpecSchemaSummaryDepth s" using s by (simp add: has_height_def)
  moreover have "validator_ok hp v1" using s by (simp add: visited_def)
  ultimately show ?case using 2(1) [OF v1(2)] s visited_trans by fastforce
qed (simp add: visited_def)

lemma validateRoots_complete:
  assumes "\<forall>r \<in> set roots. well_nested hp maxSpecSchemaSummaryDepth (snd r)" and "validator_ok hp v" and "sv_active v = []"
  shows "\<exists>v'. validateRoots hp False roots v = Inr v'"
  using assms
proof (induction hp "False" roots v rule: validateRoots.induct)
  case (2 hp prefix s rest v)
  then obtain h v1 where v1: "validateValue hp False maxSpecSchemaSummaryDepth prefix s v = Inr (h, v1)"
    using validateValue_complete [of hp maxSpecSchemaSummaryDepth s v prefix] by (auto simp: below_active_def)
  have "validator_ok hp v1" "sv_active v1 = []" using validateValue_sound [OF v1 2(3)] 2(4) by (simp_all add: visited_def)
  then obtain v' where "validateRoots hp False rest v1 = Inr v'" using 2(1) [of v1] 2(2) by auto
  then show ?case using v1 by (simp add: bind_res_def)
qed simp

lemma validateRoots_counts: "validateRoots hp limits roots v = Inr v' \<Longrightarrow> sv_nodes v \<le> sv_nodes v'"
proof (induction hp limits roots v rule: validateRoots.induct)
  case (2 hp limits prefix s rest v)
  then show ?case using validateValue_counts [of hp limits maxSpecSchemaSummaryDepth] unfolding counting_visit_def by fastforce
qed simp

lemma validateRoots_limited:
  "sv_nodes v \<le> maxSpecSchemaSummaryNodes \<Longrightarrow> validateRoots hp True roots v = Inr v' \<longleftrightarrow>
     validateRoots hp False roots v = Inr v' \<and> sv_nodes v' \<le> maxSpecSchemaSummaryNodes"
proof (induction roots arbitrary: v)
  case (Cons r roots)
  obtain prefix s where r: "r = (prefix, s)" by (cases r)
  have l: "validateValue hp True maxSpecSchemaSummaryDepth prefix s v = Inr (h, v1) \<longleftrightarrow>
      validateValue hp False maxSpecSchemaSummaryDepth prefix s v = Inr (h, v1) \<and> sv_nodes v1 \<le> maxSpecSchemaSummaryNodes" for h v1
    using validateValue_limited [of hp maxSpecSchemaSummaryDepth] unfolding limited_visit_def by blast
  have "(\<exists>h v1. validateValue hp True maxSpecSchemaSummaryDepth prefix s v = Inr (h, v1) \<and> validateRoots hp True roots v1 = Inr v') \<longleftrightarrow>
      (\<exists>h v1. validateValue hp False maxSpecSchemaSummaryDepth prefix s v = Inr (h, v1) \<and> validateRoots hp False roots v1 = Inr v') \<and>
      sv_nodes v' \<le> maxSpecSchemaSummaryNodes"
    unfolding l using Cons.IH validateRoots_counts le_trans by meson
  then show ?case by (auto simp: r)
qed auto

text \<open>
  C30: The schema walk is exact and charges sharing once. Apart from the node budget it accepts an
  index exactly when every summary it starts from is nested at most 64 deep with canonical names,
  following every pointer: memoised heights refuse nothing the full unfolding allows, and cycles are
  refused because they have no depth. The budget stops it exactly when the unlimited walk visits more
  than 100,000 nodes, and that walk visits each summary value and each shared pointer at most once.
\<close>

theorem schema_walk_is_exact_and_charges_sharing_once:
  "(\<exists>v. validateSpecIndexSchemaSummaries hp False index = Inr v) =
     (\<forall>r \<in> set (schemaRoots index). well_nested hp 64 (snd r)) \<and>
   (\<forall>v. validateSpecIndexSchemaSummaries hp True index = Inr v \<longleftrightarrow>
     validateSpecIndexSchemaSummaries hp False index = Inr v \<and> sv_nodes v \<le> 100000) \<and>
   (\<forall>v. validateSpecIndexSchemaSummaries hp False index = Inr v \<longrightarrow>
     sv_nodes v \<le> (\<Sum>r\<leftarrow>schemaRoots index. value_nodes (snd r)) +
       (\<Sum>a \<in> fst ` set (sv_memoHeight v). value_nodes (deref hp a)))"
proof (intro conjI allI impI)
  note d = maxSpecSchemaSummaryDepth_def
  show "(\<exists>v. validateSpecIndexSchemaSummaries hp False index = Inr v) =
     (\<forall>r \<in> set (schemaRoots index). well_nested hp 64 (snd r))"
    unfolding validateSpecIndexSchemaSummaries_def
    using validateRoots_sound [OF _ validator_new(1)] validateRoots_complete [OF _ validator_new(1,2)] unfolding d by blast
  show "validateSpecIndexSchemaSummaries hp True index = Inr v \<longleftrightarrow>
     validateSpecIndexSchemaSummaries hp False index = Inr v \<and> sv_nodes v \<le> 100000" for v
    using validateRoots_limited [of newSchemaValidator]
    by (simp add: validateSpecIndexSchemaSummaries_def maxSpecSchemaSummaryNodes_def newSchemaValidator_def)
  show "sv_nodes v \<le> (\<Sum>r\<leftarrow>schemaRoots index. value_nodes (snd r)) + (\<Sum>a \<in> fst ` set (sv_memoHeight v). value_nodes (deref hp a))"
    if "validateSpecIndexSchemaSummaries hp False index = Inr v" for v
    using validateRoots_sound [OF that [unfolded validateSpecIndexSchemaSummaries_def] validator_new(1)]
    by (simp add: visited_def memo_nodes_def newSchemaValidator_def)
qed

section \<open>From a validated index to a snapshot\<close>

definition DiffSpecIndexes :: "unicode_case \<Rightarrow> schema_heap \<Rightarrow> spec_index \<Rightarrow> spec_index \<Rightarrow> spec_diff result" where
  "DiffSpecIndexes uc hp baseline candidate =
     require (first_error
       [wrap_err (Wrapf ''validate baseline spec index: %w'' []) (ValidateSpecIndex uc hp baseline),
        wrap_err (Wrapf ''validate candidate spec index: %w'' []) (ValidateSpecIndex uc hp candidate)])
      (Inr (diffValidatedContractSnapshots
        (NewContractSnapshot uc ''diff-contract'' (si_RevisionID baseline) [] baseline)
        (NewContractSnapshot uc ''diff-contract'' (si_RevisionID candidate) [] candidate)))"

lemma validateIndexOperationsUnique_None:
  "validateIndexOperationsUnique uc i seen ops = None \<Longrightarrow>
     distinct (map (\<lambda>a. (canonicalUpperSurfaceText uc (op_Method a), TrimSpace (op_Path a), TrimSpace (EffectiveOperationRequestTarget a))) ops) \<and>
     (\<forall>a \<in> set ops. spec_operation_unique uc a) \<and>
     (\<forall>a \<in> set ops. (canonicalUpperSurfaceText uc (op_Method a), TrimSpace (op_Path a), TrimSpace (EffectiveOperationRequestTarget a)) \<notin> set seen)"
  by (induction uc i seen ops rule: validateIndexOperationsUnique.induct)
    (auto simp: Let_def spec_operation_unique_def parameter_key_def)

text \<open>A validated index has the surface a snapshot needs, as soon as no two operations share method and path.\<close>

lemma validated_index_surface:
  assumes "ValidateSpecIndex uc hp index = None" and "distinct (map (spec_operation_key uc) (si_Operations index))"
  shows "spec_surface_ok uc index"
proof -
  have v: "each_index validateIndexOperation (si_Operations index) = None"
    "each_index (\<lambda>i schema. ValidateCanonicalIdentity (''spec schema '' @ itoa i @ '' name'') (sm_Name schema) False) (si_Schemas index) = None"
    "validateSpecIndexSurfaceUniqueness uc index = None"
    using assms(1) unfolding ValidateSpecIndex_def ValidateSpecIndexWithOptions_def by (simp_all del: each_index_None)
  have "spec_operation_canonical a" if a: "a \<in> set (si_Operations index)" for a
  proof -
    obtain i where "validateIndexOperation i a = None" using v(1) a by (auto simp: in_set_conv_nth)
    then show ?thesis
      by (auto simp: validateIndexOperation_def Let_def spec_operation_canonical_def in_set_conv_nth)
  qed
  moreover have "\<forall>s \<in> set (si_Schemas index). canonical (sm_Name s)" using v(2) by (auto simp: in_set_conv_nth)
  moreover have "\<forall>a \<in> set (si_Operations index). spec_operation_unique uc a" "distinct (map (\<lambda>s. TrimSpace (sm_Name s)) (si_Schemas index))"
    using v(3) validateIndexOperationsUnique_None by (auto simp: validateSpecIndexSurfaceUniqueness_def)
  ultimately show ?thesis using assms(2) by (simp add: spec_surface_ok_def)
qed

text \<open>Two operations of the same method and path, told apart by a fixed query.\<close>

definition fixed_query_operation :: "string \<Rightarrow> operation" where
  "fixed_query_operation x = (sample_operation ''GET'' ''/pets'')\<lparr>op_RequestTarget := ''/pets?kind='' @ x,
     op_FixedQuery := [\<lparr>fq_Name = ''kind'', fq_Value = x\<rparr>]\<rparr>"

definition fixed_query_index :: "string list \<Rightarrow> spec_index" where
  "fixed_query_index xs = empty_index\<lparr>si_Operations := map fixed_query_operation xs\<rparr>"

lemma fixed_query_canonical: "canonical ''GET''" "canonical ''/pets''" "canonical ''/pets?kind=cat''" "canonical ''/pets?kind=dog''"
  "canonical ''kind''" "canonical ''cat''" "canonical ''dog''"
  by (simp_all add: canonical_def utf8_valid_ascii runes_ascii is_control_def is_space_def)

lemma fixed_query_targets:
  assumes "x = ''cat'' \<or> x = ''dog''"
  shows "ValidateOperationRequestTarget ''/pets'' (''/pets?kind='' @ x) [\<lparr>fq_Name = ''kind'', fq_Value = x\<rparr>] = None"
proof -
  have c: "path_clean ''/pets'' = ''/pets''" by code_simp
  have p: "validateOperationPath ''/pets'' = None"
    using fixed_query_canonical by (simp add: validateOperationPath_def has_suffix_def c contains_any_def Let_def)
  have s: "split_char (CHR ''&'') ''kind=cat'' = [''kind=cat'']" "split_char (CHR ''&'') ''kind=dog'' = [''kind=dog'']"
    "cut_char (CHR ''='') ''kind=cat'' = (''kind'', ''cat'', True)" "cut_char (CHR ''='') ''kind=dog'' = (''kind'', ''dog'', True)"
    "query_unescape ''kind'' = Some ''kind''" "query_unescape ''cat'' = Some ''cat''" "query_unescape ''dog'' = Some ''dog''"
    by code_simp+
  show ?thesis
    using assms fixed_query_canonical
    by (elim disjE) (simp_all add: ValidateOperationRequestTarget_def p Let_def contains_any_def trim_prefix_def s validateFixedQueryItem_def)
qed

lemma fixed_query_fields:
  "op_ID (fixed_query_operation x) = []" "op_Anchor (fixed_query_operation x) = []" "op_Method (fixed_query_operation x) = ''GET''"
  "op_Path (fixed_query_operation x) = ''/pets''" "op_RequestTarget (fixed_query_operation x) = ''/pets?kind='' @ x"
  "op_FixedQuery (fixed_query_operation x) = [\<lparr>fq_Name = ''kind'', fq_Value = x\<rparr>]" "op_Parameters (fixed_query_operation x) = []"
  "op_Facets (fixed_query_operation x) = []" "op_RequestBody (fixed_query_operation x) = None" "op_Responses (fixed_query_operation x) = []"
  "op_Security (fixed_query_operation x) = []" "op_Snippets (fixed_query_operation x) = []" "op_Title (fixed_query_operation x) = []"
  "op_Summary (fixed_query_operation x) = []" "op_Description (fixed_query_operation x) = []" "op_Tags (fixed_query_operation x) = []"
  by (simp_all add: fixed_query_operation_def sample_operation_def empty_operation_def)

lemma fixed_query_index_fields:
  "si_Operations (fixed_query_index xs) = map fixed_query_operation xs" "si_Schemas (fixed_query_index xs) = []"
  "si_ProjectID (fixed_query_index xs) = []" "si_RevisionID (fixed_query_index xs) = []"
  "si_SpecDownload (fixed_query_index xs) = \<lparr>dl_JSON = [], dl_Filename = []\<rparr>" "ov_Servers (si_Overview (fixed_query_index xs)) = []"
  "si_Search (fixed_query_index xs) = []" "si_PublicRoutes (fixed_query_index xs) = []"
  by (simp_all add: fixed_query_index_def empty_index_def)

lemma fixed_query_strings:
  assumes "set xs \<subseteq> {''cat'', ''dog''}" and "x \<in> direct_strings (rv_spec_index (fixed_query_index xs))"
  shows "utf8_valid x"
proof -
  have d: "direct_strings (rv_operation (fixed_query_operation y)) \<subseteq> {[], ''GET'', ''/pets'', ''kind'', y, ''/pets?kind='' @ y}" for y
    by (auto simp: rv_operation_def fixed_query_fields rv_strings_def rv_fixed_query_parameter_def)
  have "direct_strings (rv_spec_index (fixed_query_index xs)) \<subseteq>
      {[]} \<union> (\<Union>y \<in> set xs. direct_strings (rv_operation (fixed_query_operation y)))"
    by (auto simp: rv_spec_index_def fixed_query_index_def empty_index_def rv_docs_branding_def rv_docs_branding_logo_def rv_spec_overview_def
        rv_spec_contact_def rv_spec_license_def rv_spec_download_def)
  then consider "x = []" | y where "y \<in> set xs" "x \<in> direct_strings (rv_operation (fixed_query_operation y))" using assms(2) by blast
  then show ?thesis
  proof cases
    case 1
    then show ?thesis by simp
  next
    case (2 y)
    then have "y = ''cat'' \<or> y = ''dog''" "x \<in> {[], ''GET'', ''/pets'', ''kind'', y, ''/pets?kind='' @ y}" using assms(1) d by auto
    then show ?thesis using fixed_query_canonical [THEN canonical_valid] by auto
  qed
qed

lemma fixed_query_roots: "schemaRoots (fixed_query_index xs) = []"
  by (auto simp: schemaRoots_def fixed_query_index_fields operationRoots_def fixed_query_fields Let_def set_enumerate0)

lemma fixed_query_operations_valid:
  assumes "x = ''cat'' \<or> x = ''dog''"
  shows "validateIndexOperation i (fixed_query_operation x) = None"
  using fixed_query_targets [OF assms] fixed_query_canonical
  by (simp add: validateIndexOperation_def Let_def fixed_query_fields validateOperationFacets_def)

lemma fixed_query_validates:
  assumes "xs = [''cat'', ''dog''] \<or> xs = [''cat'']"
  shows "ValidateSpecIndex ascii_case [] (fixed_query_index xs) = None"
proof -
  have sub: "set xs \<subseteq> {''cat'', ''dog''}" using assms by auto
  have w: "to_err (validateSpecIndexSchemaSummaries [] True (fixed_query_index xs)) = None"
    by (simp add: validateSpecIndexSchemaSummaries_def fixed_query_roots)
  have u: "validateUTF8Strings (rv_heap []) ''spec index'' (rv_spec_index (fixed_query_index xs)) = None"
    using fixed_query_strings [OF sub] by (simp add: rv_heap_def validateUTF8Strings_direct)
  have o: "each_index validateIndexOperation (si_Operations (fixed_query_index xs)) = None"
    using assms fixed_query_operations_valid by (auto simp: fixed_query_index_fields less_Suc_eq)
  have t: "TrimSpace (''/pets?kind='' @ x) = ''/pets?kind='' @ x" if "x = ''cat'' \<or> x = ''dog''" for x
    using that canonical_trim fixed_query_canonical(3,4) by fastforce
  have q: "validateSpecIndexSurfaceUniqueness ascii_case (fixed_query_index xs) = None"
    using assms t by (auto simp: validateSpecIndexSurfaceUniqueness_def fixed_query_index_fields fixed_query_fields
        EffectiveOperationRequestTarget_def Let_def)
  show ?thesis
    using w u o q unfolding ValidateSpecIndex_def ValidateSpecIndexWithOptions_def first_error_None list.simps set_simps
    by (intro ballI, elim insertE emptyE) (simp_all add: fixed_query_index_fields)
qed

lemma fixed_query_snapshot:
  "elems (cs_Operations (NewContractSnapshot ascii_case c r raw (fixed_query_index xs))) =
     sort_slice operation_less (map (\<lambda>_. verb_operation (''GET'', ''/pets'')) xs)"
  "elems (cs_Schemas (NewContractSnapshot ascii_case c r raw (fixed_query_index xs))) = []"
proof -
  have "normalizeContractOperation ascii_case (fixed_query_operation x) = verb_operation (''GET'', ''/pets'')" for x
    using fixed_query_canonical canonicalUpper_ascii [of "''GET''"]
    by (simp add: normalizeContractOperation_def fixed_query_fields verb_operation_def canonical_trim nil_append_def upper_ascii_def)
  then show "elems (cs_Operations (NewContractSnapshot ascii_case c r raw (fixed_query_index xs))) =
     sort_slice operation_less (map (\<lambda>_. verb_operation (''GET'', ''/pets'')) xs)"
    by (simp add: NewContractSnapshot_def Let_def normalizeContractOperations_def fixed_query_index_fields comp_def)
  show "elems (cs_Schemas (NewContractSnapshot ascii_case c r raw (fixed_query_index xs))) = []"
    by (simp add: NewContractSnapshot_def Let_def normalizeContractSchemas_def fixed_query_index_fields)
qed

text \<open>
  Operations told apart by a fixed query collapse in the contract surface. An index with
  \<open>GET /pets?kind=cat\<close> and \<open>GET /pets?kind=dog\<close> passes the validation that is documented to make
  ambiguous surfaces fail closed; comparing it with the index without the second operation reports no
  change at all, and a snapshot built from it is never valid, so such an index can be compared but not
  stored.
\<close>

theorem fixed_query_operations_collapse:
  "ValidateSpecIndex ascii_case [] (fixed_query_index [''cat'', ''dog'']) = None \<and>
   (\<exists>d. DiffSpecIndexes ascii_case [] (fixed_query_index [''cat'', ''dog'']) (fixed_query_index [''cat'']) = Inr d \<and>
      df_BreakingChanges d = [] \<and> df_AdditiveChanges d = []) \<and>
   (\<forall>contractID revisionID raw. ValidateContractSnapshot ascii_case
      (NewContractSnapshot ascii_case contractID revisionID raw (fixed_query_index [''cat'', ''dog''])) \<noteq> None)"
proof (intro conjI allI)
  let ?op = "verb_operation (''GET'', ''/pets'')"
  have s2: "sort_slice operation_less [?op, ?op] = [?op, ?op]" "sort_slice operation_less [?op] = [?op]"
    by (simp_all add: sort_slice_def)
  note v = fixed_query_validates [of "[''cat'', ''dog'']"] fixed_query_validates [of "[''cat'']"]
  show "ValidateSpecIndex ascii_case [] (fixed_query_index [''cat'', ''dog'']) = None" using v by simp
  let ?b = "NewContractSnapshot ascii_case ''diff-contract'' [] [] (fixed_query_index [''cat'', ''dog''])"
  let ?c = "NewContractSnapshot ascii_case ''diff-contract'' [] [] (fixed_query_index [''cat''])"
  have k: "contractOperationsByKey (elems (cs_Operations ?b)) = [(''GET /pets'', ?op)]"
    "contractOperationsByKey (elems (cs_Operations ?c)) = [(''GET /pets'', ?op)]"
    by (simp_all add: fixed_query_snapshot s2 contractOperationsByKey_def map_from_def) (simp_all add: contractOperationKey_def verb_operation_def)
  have "df_BreakingChanges (diffValidatedContractSnapshots ?b ?c) = [] \<and> df_AdditiveChanges (diffValidatedContractSnapshots ?b ?c) = []"
    by (simp add: diffValidatedContractSnapshots_def Let_def k fixed_query_snapshot(2) sortedContractOperationKeys_def map_keys_def
        sort_slice_def contractSchemasByName_def map_from_def sortedContractSchemaNames_def sortSpecChanges_def
        lookup_operation_def contractOperationBreakingChanges_def contractOperationAdditiveChanges_def verb_operation_def)
  then show "\<exists>d. DiffSpecIndexes ascii_case [] (fixed_query_index [''cat'', ''dog'']) (fixed_query_index [''cat'']) = Inr d \<and>
      df_BreakingChanges d = [] \<and> df_AdditiveChanges d = []"
    using v by (simp add: DiffSpecIndexes_def fixed_query_index_fields(4))
  show "ValidateContractSnapshot ascii_case
      (NewContractSnapshot ascii_case contractID revisionID raw (fixed_query_index [''cat'', ''dog''])) \<noteq> None" for contractID revisionID raw
    by (simp add: snapshot_ok_def surface_unique_def fixed_query_snapshot s2)
qed

text \<open>Two parameters that share the summary of their items.\<close>

definition list_parameter :: "string \<Rightarrow> operation_parameter" where
  "list_parameter name = \<lparr>pm_Name = name, pm_In = ''query'', pm_Required = False, pm_Description = [],
     pm_Schema = SchemaSummary [] [] [] [] [] [] [] [] False False [] (Some 0) [], pm_Example = []\<rparr>"

definition shared_items_index :: spec_index where
  "shared_items_index = empty_index\<lparr>si_Operations := [(sample_operation ''GET'' ''/pets'')\<lparr>op_Parameters := [list_parameter ''a'', list_parameter ''b'']\<rparr>]\<rparr>"

theorem schema_walk_is_exact_and_charges_sharing_once_witness:
  "\<exists>v. validateSpecIndexSchemaSummaries [empty_summary] True shared_items_index = Inr v \<and> sv_nodes v \<le> 3"
proof -
  let ?roots = "schemaRoots shared_items_index"
  have roots: "map snd ?roots = [pm_Schema (list_parameter ''a''), pm_Schema (list_parameter ''b'')]"
    by (simp add: schemaRoots_def shared_items_index_def empty_index_def operationRoots_def sample_operation_def empty_operation_def)
  obtain v where v: "validateSpecIndexSchemaSummaries [empty_summary] False shared_items_index = Inr v"
    "fst ` set (sv_memoHeight v) = {0}"
    by (simp add: validateSpecIndexSchemaSummaries_def schemaRoots_def shared_items_index_def empty_index_def operationRoots_def
        sample_operation_def empty_operation_def list_parameter_def maxSpecSchemaSummaryDepth_def numeral_eq_Suc bind_res_def
        validatePointer_def newSchemaValidator_def deref_def empty_summary_def)
  have "(\<Sum>r\<leftarrow>?roots. value_nodes (snd r)) = (\<Sum>s\<leftarrow>map snd ?roots. value_nodes s)" by (simp add: comp_def)
  also have "\<dots> = 2" unfolding roots by (simp add: list_parameter_def)
  finally have n: "sv_nodes v \<le> 3"
    using schema_walk_is_exact_and_charges_sharing_once [of "[empty_summary]" shared_items_index] v
    by (auto simp: deref_def empty_summary_def)
  then have "validateSpecIndexSchemaSummaries [empty_summary] True shared_items_index = Inr v"
    using schema_walk_is_exact_and_charges_sharing_once [of "[empty_summary]" shared_items_index] v(1) by auto
  then show ?thesis using n by blast
qed

end
