(* ===== verification/Sync_Service.thy ===== *)
theory Sync_Service
  imports Store_Growth Spec_Validation
begin

text \<open>
  \<open>application/sync.go\<close> and \<open>application/identity.go\<close>: one run of the sync service, from the answer of
  the source to the committed revision and sync record. The state is that of the file store: the blob
  files and the operational state. What the source, the parser, the clock, the disk, the legacy sync
  files, the cache and the context answer is a record of ports.
\<close>

section \<open>Values at the ports\<close>

record spec_file =
  sf_SourceID :: string
  sf_Path :: string
  sf_Format :: string
  sf_Bytes :: string

definition validatePortSpecFile :: "spec_file \<Rightarrow> bool \<Rightarrow> err" where
  "validatePortSpecFile file requireComplete = check_identities
     [(''spec source id'', sf_SourceID file, True), (''spec path'', sf_Path file, \<not> requireComplete),
      (''spec format'', sf_Format file, \<not> requireComplete)]"

definition validatePortRevision :: "unicode_case \<Rightarrow> contract_revision \<Rightarrow> bool \<Rightarrow> err" where
  "validatePortRevision uc revision requireID = first_error
     [check_identities
        [(''revision id'', vr_ID revision, \<not> requireID), (''revision contract id'', vr_ContractID revision, True),
         (''revision source id'', vr_SourceID revision, True), (''revision blob key'', vr_SpecBlobKey revision, True),
         (''revision ref'', vr_Ref revision, True), (''revision commit sha'', vr_CommitSHA revision, True)],
      each (\<lambda>(name, v). fail_if (\<not> utf8_valid v) (Errorf ''%s must contain valid UTF-8'' [name]))
        [(''revision version'', vr_Version revision), (''revision author name'', vr_AuthorName revision),
         (''revision author email'', vr_AuthorEmail revision), (''revision message'', vr_Message revision)],
      (case vr_ReviewSnapshot revision of
         None \<Rightarrow> None
       | Some s \<Rightarrow> wrap_err (Wrapf ''revision review snapshot: %w'' []) (ValidateContractSnapshot uc s))]"

definition ErrorInput :: string where "ErrorInput = ''input''"
definition ErrorSource :: string where "ErrorSource = ''source''"
definition ErrorParse :: string where "ErrorParse = ''parse''"
definition ErrorEvaluation :: string where "ErrorEvaluation = ''evaluation''"
definition ErrorCache :: string where "ErrorCache = ''cache''"

section \<open>Error summaries\<close>

text \<open>\<open>strings.ToValidUTF8\<close>: a run of invalid bytes becomes one replacement.\<close>

fun to_valid_from :: "string \<Rightarrow> bool \<Rightarrow> string \<Rightarrow> string" where
  "to_valid_from replacement invalid [] = []"
| "to_valid_from replacement invalid (c # r) =
     (case decode_rune (c # r) of (rn, n) \<Rightarrow>
        if rn = RuneError \<and> n = 1 then (if invalid then [] else replacement) @ to_valid_from replacement True r
        else take n (c # r) @ to_valid_from replacement False (drop (n - 1) r))"

definition ToValidUTF8 :: "string \<Rightarrow> string \<Rightarrow> string" where
  "ToValidUTF8 s replacement = to_valid_from replacement False s"

text \<open>The loop that moves the boundary back to a complete rune.\<close>

primrec summaryBoundary :: "string \<Rightarrow> nat \<Rightarrow> nat" where
  "summaryBoundary summary 0 = 0"
| "summaryBoundary summary (Suc boundary) =
     (if utf8_valid (take (Suc boundary) summary) then Suc boundary else summaryBoundary summary boundary)"

definition errorSummary :: "string option \<Rightarrow> string" where
  "errorSummary e =
     (case e of
        None \<Rightarrow> []
      | Some text \<Rightarrow>
        (let summary = TrimSpace (ToValidUTF8 text (encode_rune 65533)) in
         if length summary > 512 then take (summaryBoundary summary 512) summary else summary))"

section \<open>The service\<close>

record sync_command =
  sy_ContractID :: string
  sy_SourceID :: string
  sy_Trigger :: string

record sync_result =
  res_Spec :: spec_file
  res_Revision :: contract_revision
  res_Index :: spec_index
  res_Record :: sync_record
  res_BlobKey :: string

text \<open>
  The answers a run receives. \<open>port_ctx\<close> is what the context reports each time the store asks it: at the
  blob, at the start of the transaction, at the two saves, at the validation and at the final read. \<open>port_heap\<close> holds the
  shared summaries of a parsed index, \<open>port_text\<close> is the message of an error, \<open>port_cache\<close> is absent when
  the service has no cache.
\<close>

record sync_ports =
  port_fetch :: "spec_file \<times> contract_revision \<times> err"
  port_parse :: "spec_file \<Rightarrow> contract_revision \<Rightarrow> spec_index result"
  port_heap :: schema_heap
  port_text :: "go_error \<Rightarrow> string"
  port_started :: gotime
  port_finished :: gotime
  port_ctx :: "nat \<Rightarrow> err"
  port_write :: write_outcome
  port_outcome :: publish_outcome
  port_legacy :: "string \<Rightarrow> sync_record result"
  port_cache :: "(string \<Rightarrow> err) option"

type_synonym sync_store = "blob_files \<times> operational_state"

fun firstNonEmpty :: "string list \<Rightarrow> string" where
  "firstNonEmpty [] = []"
| "firstNonEmpty (v # vs) = (if v \<noteq> [] then v else firstNonEmpty vs)"

definition canonicalRevisionRef :: "contract_revision \<Rightarrow> string" where
  "canonicalRevisionRef revision = (if vr_CommitSHA revision \<noteq> [] then vr_CommitSHA revision else vr_Ref revision)"

definition syncRecordID :: "sync_command \<Rightarrow> spec_file \<Rightarrow> contract_revision \<Rightarrow> string \<Rightarrow> string \<Rightarrow> string" where
  "syncRecordID command spec revision sourceRef outcome =
     ''sync-'' @ take 24 (sha256Hex (join_with nul
       [sy_ContractID command, sy_SourceID command, firstNonEmpty [sy_Trigger command, ''manual''], vr_ID revision,
        vr_CommitSHA revision, sourceRef, sf_Path spec, outcome]))"

definition validateSyncCommand :: "sync_command \<Rightarrow> err" where
  "validateSyncCommand command = check_identities
     [(''contract id'', sy_ContractID command, False), (''source id'', sy_SourceID command, False),
      (''trigger'', sy_Trigger command, True)]"

definition validateSyncSourceOutput :: "unicode_case \<Rightarrow> spec_file \<Rightarrow> contract_revision \<Rightarrow> bool \<Rightarrow> err" where
  "validateSyncSourceOutput uc spec revision requireComplete =
     first_error [validatePortSpecFile spec requireComplete, validatePortRevision uc revision requireComplete]"

definition successfulSyncRecord ::
    "sync_command \<Rightarrow> spec_file \<Rightarrow> contract_revision \<Rightarrow> string \<Rightarrow> gotime \<Rightarrow> gotime \<Rightarrow> sync_record" where
  "successfulSyncRecord command spec revision sourceRef startedAt finishedAt =
     \<lparr>sr_ID = syncRecordID command spec revision sourceRef SyncResultSuccess, sr_ProjectID = sy_ContractID command,
      sr_SourceID = firstNonEmpty [sy_SourceID command, vr_SourceID revision, sf_SourceID spec], sr_RevisionID = vr_ID revision,
      sr_Trigger = firstNonEmpty [sy_Trigger command, ''manual''], sr_Ref = sourceRef, sr_CommitSHA = vr_CommitSHA revision,
      sr_SpecPath = sf_Path spec, sr_Result = SyncResultSuccess, sr_ErrorSummary = [],
      sr_StartedAt = startedAt, sr_FinishedAt = finishedAt\<rparr>"

definition failedSyncRecord ::
    "sync_command \<Rightarrow> spec_file \<Rightarrow> contract_revision \<Rightarrow> gotime \<Rightarrow> gotime \<Rightarrow> string \<Rightarrow> sync_record" where
  "failedSyncRecord command spec revision startedAt finishedAt summary =
     \<lparr>sr_ID = syncRecordID command spec revision (vr_Ref revision) SyncResultFailure, sr_ProjectID = sy_ContractID command,
      sr_SourceID = firstNonEmpty [sy_SourceID command, vr_SourceID revision, sf_SourceID spec], sr_RevisionID = vr_ID revision,
      sr_Trigger = firstNonEmpty [sy_Trigger command, ''manual''], sr_Ref = vr_Ref revision, sr_CommitSHA = vr_CommitSHA revision,
      sr_SpecPath = sf_Path spec, sr_Result = SyncResultFailure, sr_ErrorSummary = summary,
      sr_StartedAt = startedAt, sr_FinishedAt = finishedAt\<rparr>"

definition canonicalSyncRecord :: "sync_ports \<Rightarrow> operational_state \<Rightarrow> sync_record \<Rightarrow> sync_record result" where
  "canonicalSyncRecord ports s attempted =
     bind_res (SyncRecord (port_ctx ports 5) (Inr s) (port_legacy ports) (sr_ID attempted)) (\<lambda>persisted.
       if \<not> SameSyncEvidence persisted attempted
         then Inl (Errorf ''canonical sync evidence does not match logical replay identity'' [])
       else Inr persisted)"

text \<open>\<open>errors.Join\<close> of a cause and a later error: the later one is wrapped, the cause keeps its message.\<close>

definition errors_Join :: "sync_ports \<Rightarrow> go_error \<Rightarrow> go_error \<Rightarrow> go_error" where
  "errors_Join ports cause e = Wrapf ''%s%w'' [port_text ports cause] e"

definition recordFailure ::
    "unicode_case \<Rightarrow> sync_ports \<Rightarrow> sync_command \<Rightarrow> spec_file \<Rightarrow> contract_revision \<Rightarrow> string \<Rightarrow> string \<Rightarrow> go_error \<Rightarrow> sync_store \<Rightarrow>
     sync_store \<times> app_error" where
  "recordFailure uc ports command spec revision kind operation cause store =
     (let (files, s) = store;
          record = failedSyncRecord command spec revision (time_UTC (port_started ports)) (time_UTC (port_finished ports))
            (errorSummary (Some (port_text ports cause))) in
      case Within uc (\<lambda>k. Blob_Get uc None k files) (port_ctx ports 1) (port_ctx ports 4) (port_outcome ports)
          (\<lambda>t. map_sum id (Pair ()) (tx_SaveSyncRecord (port_ctx ports 3) record t)) id s of
        (s', Inl e) \<Rightarrow> ((files, s'), wrapError ErrorTransaction ''record failed sync'' (errors_Join ports cause e))
      | (s', Inr _) \<Rightarrow>
        (case canonicalSyncRecord ports s' record of
           Inl e \<Rightarrow> ((files, s'), wrapError ErrorIntegrity ''load canonical failed sync evidence'' (errors_Join ports cause e))
         | Inr _ \<Rightarrow> ((files, s'), wrapError kind operation cause)))"

text \<open>The transaction of a successful sync.\<close>

definition commitSync ::
    "unicode_case \<Rightarrow> (nat \<Rightarrow> err) \<Rightarrow> contract_revision \<Rightarrow> sync_record \<Rightarrow> operational_transaction \<Rightarrow> go_error + unit \<times> operational_transaction" where
  "commitSync uc ctx revision record t =
     map_sum id (Pair ()) (bind_res (wrap_res (Wrapf ''save revision: %w'' []) (tx_SaveRevision uc (ctx 2) revision t)) (\<lambda>t.
       wrap_res (Wrapf ''save sync record: %w'' []) (tx_SaveSyncRecord (ctx 3) record t)))"

definition invalidateCache :: "sync_ports \<Rightarrow> string list \<Rightarrow> app_error option" where
  "invalidateCache ports keys =
     (case port_cache ports of
        None \<Rightarrow> None
      | Some delete \<Rightarrow>
        (case [Wrapf ''invalidate %s: %w'' [key] e. key \<leftarrow> keys, Some e \<leftarrow> [delete key]] of
           [] \<Rightarrow> None
         | e # es \<Rightarrow> Some (wrapError ErrorCache ''invalidate sync cache entries'' (fold (\<lambda>e' j. errors_Join ports j e') es e))))"

text \<open>The revision a sync stores: the fetched one with its owner, canonical ref, digests, snapshot and blob.\<close>

definition syncRevision :: "unicode_case \<Rightarrow> sync_command \<Rightarrow> spec_file \<Rightarrow> contract_revision \<Rightarrow> spec_index \<Rightarrow> contract_revision" where
  "syncRevision uc command spec revision index =
     (let snapshot = NewContractSnapshot uc (sy_ContractID command) (vr_ID revision) (sf_Bytes spec) index in
      revision\<lparr>vr_ContractID := sy_ContractID command, vr_SourceID := sy_SourceID command, vr_Ref := canonicalRevisionRef revision,
        vr_SpecDigest := cs_SpecDigest snapshot, vr_ContractDigest := cs_ContractDigest snapshot,
        vr_ReviewSnapshot := Some snapshot\<rparr>)"

text \<open>A run returns a result, an error, or both when only the cache could not be invalidated.\<close>

definition Sync ::
    "unicode_case \<Rightarrow> sync_ports \<Rightarrow> sync_command \<Rightarrow> sync_store \<Rightarrow> sync_store \<times> sync_result option \<times> app_error option" where
  "Sync uc ports command store =
     (let (files, s) = store; (spec, revision, fetchError) = port_fetch ports in
      case validateSyncCommand command of
        Some e \<Rightarrow> (store, None, Some (validationError ''sync'' e))
      | None \<Rightarrow>
      case validateSyncSourceOutput uc spec revision (fetchError = None) of
        Some e \<Rightarrow> (store, None, Some (validationError ''sync'' (Wrapf ''source output: %w'' [] e)))
      | None \<Rightarrow>
      case fetchError of
        Some e \<Rightarrow>
          (case recordFailure uc ports command spec revision ErrorSource ''fetch source'' e store of
             (store', e') \<Rightarrow> (store', None, Some e'))
      | None \<Rightarrow>
     (let sourceRef = vr_Ref revision;
          revision = revision\<lparr>vr_ContractID := sy_ContractID command, vr_SourceID := sy_SourceID command\<rparr>;
          spec = spec\<lparr>sf_SourceID := sy_SourceID command\<rparr> in
      case port_parse ports spec revision of
        Inl e \<Rightarrow>
          (case recordFailure uc ports command spec revision ErrorParse ''parse source'' e store of
             (store', e') \<Rightarrow> (store', None, Some e'))
      | Inr index \<Rightarrow>
      case ValidateSpecIndex uc (port_heap ports) index of
        Some e \<Rightarrow> (store, None, Some (validationError ''sync'' (Wrapf ''parser output: %w'' [] e)))
      | None \<Rightarrow>
     (let index = index\<lparr>si_ProjectID := sy_ContractID command, si_RevisionID := vr_ID revision\<rparr>;
          revision = syncRevision uc command spec revision index in
      case Blob_Put uc (port_ctx ports 0) (port_write ports) (sf_Bytes spec) files of
        (files, Inl e) \<Rightarrow> ((files, s), None, Some (wrapError ErrorIntegrity ''write spec blob'' e))
      | (files, Inr blobKey) \<Rightarrow>
      if \<not> BlobKey_Valid uc blobKey \<or> blobKey \<noteq> ContentAddressedBlobKey (sf_Bytes spec)
        then ((files, s), None, Some (wrapError ErrorIntegrity ''write spec blob''
          (Errorf ''blob store returned a non-content-addressed key'' [])))
      else
     (let revision = revision\<lparr>vr_SpecBlobKey := blobKey\<rparr>;
          record = successfulSyncRecord command spec revision sourceRef (time_UTC (port_started ports)) (time_UTC (port_finished ports)) in
      case Within uc (\<lambda>k. Blob_Get uc None k files) (port_ctx ports 1) (port_ctx ports 4) (port_outcome ports)
          (commitSync uc (port_ctx ports) revision record) id s of
        (s, Inl e) \<Rightarrow> ((files, s), None, Some (wrapError ErrorTransaction ''commit sync'' e))
      | (s, Inr _) \<Rightarrow>
      case canonicalSyncRecord ports s record of
        Inl e \<Rightarrow> ((files, s), None, Some (wrapError ErrorIntegrity ''load canonical sync evidence'' e))
      | Inr record \<Rightarrow>
          ((files, s), Some \<lparr>res_Spec = spec, res_Revision = revision, res_Index = index, res_Record = record, res_BlobKey = blobKey\<rparr>,
           invalidateCache ports [''public:'' @ sy_ContractID command, ''search:'' @ sy_ContractID command @ '':'' @ vr_ID revision])))))"

section \<open>Error summaries fit their record\<close>

lemma utf8_valid_to_valid: "utf8_valid w \<Longrightarrow> utf8_valid (to_valid_from w invalid s)"
proof (induction w invalid s rule: to_valid_from.induct)
  case (2 w invalid c r)
  obtain rn n where d: "decode_rune (c # r) = (rn, n)" by (cases "decode_rune (c # r)")
  show ?case
  proof (cases "rn = RuneError \<and> n = 1")
    case True
    then show ?thesis using 2(1) [OF d [symmetric] True] 2(3) d by (auto intro: utf8_valid_append)
  next
    case False
    have "take n (c # r) = encode_rune rn" "is_scalar rn" using decode_rune_encode [OF d False] by simp_all
    then have "utf8_valid (take n (c # r))" using utf8_valid_encode [of rn "[]"] by simp
    then show ?thesis using 2(2) [OF d [symmetric] False] 2(3) d False by (auto intro!: utf8_valid_append simp del: take_Suc_Cons)
  qed
qed simp

lemma utf8_valid_TrimSpace: "utf8_valid s \<Longrightarrow> utf8_valid (TrimSpace s)"
proof -
  assume "utf8_valid s"
  then obtain rs where rs: "\<forall>r \<in> set rs. is_scalar r" "s = encode_runes rs" by (auto simp: utf8_valid_iff)
  have "set (trim_runes rs) \<subseteq> set rs" by (auto simp: trim_runes_def dest!: set_dropWhileD)
  then have "utf8_valid (encode_runes (trim_runes rs))" using rs(1) by (intro utf8_valid_encode_runes) blast
  then show ?thesis using TrimSpace_encode [OF rs(1)] rs(2) by simp
qed

lemma length_encode_rune: "length (encode_rune r) \<le> 4"
  by (simp add: encode_rune_def encode_bytes_def)

text \<open>Every position of a valid string has a complete rune boundary less than four bytes before it.\<close>

lemma rune_boundary:
  "\<forall>r \<in> set rs. is_scalar r \<Longrightarrow> k \<le> length (encode_runes rs) \<Longrightarrow>
   \<exists>j \<le> k. k < j + 4 \<and> utf8_valid (take j (encode_runes rs))"
proof (induction rs arbitrary: k)
  case (Cons r rs)
  let ?n = "length (encode_rune r)"
  show ?case
  proof (cases "k < ?n")
    case True
    then show ?thesis using length_encode_rune [of r] by (intro exI [of _ 0]) auto
  next
    case False
    then obtain j where j: "j \<le> k - ?n" "k - ?n < j + 4" "utf8_valid (take j (encode_runes rs))"
      using Cons.IH [of "k - ?n"] Cons.prems by (auto simp: le_diff_conv)
    have "utf8_valid (take (?n + j) (encode_runes (r # rs)))" using j(3) Cons.prems(1) by (simp add: utf8_valid_encode)
    then show ?thesis using j(1,2) False by (intro exI [of _ "?n + j"]) auto
  qed
qed simp

lemma summaryBoundary_props:
  "summaryBoundary s b \<le> b" "utf8_valid (take (summaryBoundary s b) s)"
  "j \<le> b \<Longrightarrow> utf8_valid (take j s) \<Longrightarrow> j \<le> summaryBoundary s b"
  by (induction b) (auto simp: le_Suc_eq)

lemma errorSummary_props:
  "utf8_valid (errorSummary e)" "length (errorSummary e) \<le> 512"
  "length (TrimSpace (ToValidUTF8 msg (encode_rune 65533))) \<le> 512 \<Longrightarrow>
     errorSummary (Some msg) = TrimSpace (ToValidUTF8 msg (encode_rune 65533))"
  "512 < length (TrimSpace (ToValidUTF8 msg (encode_rune 65533))) \<Longrightarrow> 509 \<le> length (errorSummary (Some msg))"
proof -
  have scalar: "is_scalar 65533" by (simp add: is_scalar_def)
  have v: "utf8_valid (TrimSpace (ToValidUTF8 msg (encode_rune 65533)))" for msg
    using utf8_valid_to_valid [of "encode_rune 65533" False msg] utf8_valid_encode [OF scalar, of "[]"]
    by (simp add: ToValidUTF8_def utf8_valid_TrimSpace)
  show "utf8_valid (errorSummary e)"
    using v summaryBoundary_props(2) by (auto simp: errorSummary_def Let_def split: option.split)
  show "length (errorSummary e) \<le> 512"
    by (auto simp: errorSummary_def Let_def not_less summaryBoundary_props(1) intro: min.coboundedI2 split: option.split)
  let ?s = "TrimSpace (ToValidUTF8 msg (encode_rune 65533))"
  show "errorSummary (Some msg) = ?s" if "length ?s \<le> 512" using that by (simp add: errorSummary_def)
  show "509 \<le> length (errorSummary (Some msg))" if l: "512 < length ?s"
  proof -
    obtain rs where rs: "\<forall>r \<in> set rs. is_scalar r" "?s = encode_runes rs" using v utf8_valid_iff by metis
    obtain j where j: "j \<le> 512" "512 < j + 4" "utf8_valid (take j ?s)" using rune_boundary [OF rs(1), of 512] l rs(2) by auto
    have "j \<le> summaryBoundary ?s 512" by (rule summaryBoundary_props(3) [OF j(1,3)])
    then show ?thesis using l j(2) by (simp add: errorSummary_def Let_def)
  qed
qed

section \<open>Saving evidence\<close>

text \<open>The JSON form of a validated revision determines the revision, so equal bytes mean equal evidence.\<close>

lemma revision_strings:
  assumes "ValidateContractRevision uc r = None"
  shows "\<forall>v \<in> {vr_ID r, vr_ContractID r, vr_SourceID r, vr_SpecBlobKey r, vr_SpecDigest r, vr_ContractDigest r, vr_Ref r, vr_CommitSHA r,
      vr_Version r, vr_AuthorName r, vr_AuthorEmail r, vr_Message r}. utf8_valid v"
    and "vr_ReviewSnapshot r = Some s \<Longrightarrow> snapshot_ok uc s" and "vr_ReviewSnapshot r = Some s \<Longrightarrow> json_wf (json_snapshot s)"
proof -
  have d: "\<forall>v \<in> direct_strings (rv_revision r). utf8_valid v"
    using assms by (simp add: ValidateContractRevision_def validateUTF8Strings_direct)
  then show "\<forall>v \<in> {vr_ID r, vr_ContractID r, vr_SourceID r, vr_SpecBlobKey r, vr_SpecDigest r, vr_ContractDigest r, vr_Ref r, vr_CommitSHA r,
      vr_Version r, vr_AuthorName r, vr_AuthorEmail r, vr_Message r}. utf8_valid v"
    by (simp add: rv_revision_def)
  show ok: "snapshot_ok uc s" if "vr_ReviewSnapshot r = Some s" for s
    using assms that by (simp add: ValidateContractRevision_def)
  show "json_wf (json_snapshot s)" if s: "vr_ReviewSnapshot r = Some s"
  proof -
    have "utf8_valid (cs_ContractID s)" "utf8_valid (cs_RevisionID s)" "utf8_valid (cs_SpecDigest s)" "utf8_valid (cs_ContractDigest s)"
      using d s by (simp_all add: rv_revision_def rv_snapshot_def)
    moreover have "utf8_valid ''contractId''" "utf8_valid ''revisionId''" "utf8_valid ''specDigest''" "utf8_valid ''contractDigest''"
      by (rule utf8_valid_ascii; simp)+
    ultimately show ?thesis
      using ok [OF s] by (simp add: json_snapshot_def snapshot_ok_def surface_canonical_def json_wf_operation canonical_valid del: utf8_valid.simps)
  qed
qed

lemma json_wf_revision:
  assumes "ValidateContractRevision uc r = None" shows "json_wf (json_revision r)"
proof -
  have "utf8_valid ''ID''" "utf8_valid ''contractId''" "utf8_valid ''SourceID''" "utf8_valid ''specBlobKey''" "utf8_valid ''specDigest''"
    "utf8_valid ''contractDigest''" "utf8_valid ''reviewSnapshot''" "utf8_valid ''Ref''" "utf8_valid ''CommitSHA''" "utf8_valid ''Version''"
    "utf8_valid ''AuthorName''" "utf8_valid ''AuthorEmail''" "utf8_valid ''Message''"
    by (rule utf8_valid_ascii; simp)+
  then show ?thesis
    using revision_strings [OF assms]
    by (auto simp: json_revision_def field_def omit_str_def simp del: utf8_valid.simps split: option.splits)
qed

primrec object_field :: "json \<Rightarrow> string \<Rightarrow> json option" where
  "object_field (JObj fs) k = map_of fs k"
| "object_field JNull k = None"
| "object_field (JBool b) k = None"
| "object_field (JStr v) k = None"
| "object_field (JArr js) k = None"

lemma json_snapshot_inject:
  assumes "snapshot_ok uc s" and "snapshot_ok uc s'" and "json_snapshot s = json_snapshot s'"
  shows "s = s'"
proof -
  have "cs_Operations s = cs_Operations s' \<and> cs_Schemas s = cs_Schemas s'"
    using assms by (intro surface_bytes_inject) (simp_all add: json_snapshot_def json_surface_def)
  then show ?thesis using assms(3) by (simp add: json_snapshot_def contract_snapshot.equality)
qed

lemma lookup_fields:
  "map_of (field k' j @ fs) k = (if k = k' then Some j else map_of fs k)"
  "map_of (field k' j) k = (if k = k' then Some j else None)"
  "map_of (omit_str k' v @ fs) k = (if k = k' \<and> v \<noteq> [] then Some (JStr v) else map_of fs k)"
  "map_of ((case x of None \<Rightarrow> [] | Some y \<Rightarrow> field k' (f y)) @ fs) k = (if k = k' \<and> x \<noteq> None then Some (f (the x)) else map_of fs k)"
  by (auto simp: field_def omit_str_def split: option.split)

lemma revision_fields:
  "object_field (json_revision r) ''ID'' = Some (JStr (vr_ID r))"
  "object_field (json_revision r) ''SourceID'' = Some (JStr (vr_SourceID r))"
  "object_field (json_revision r) ''Ref'' = Some (JStr (vr_Ref r))"
  "object_field (json_revision r) ''CommitSHA'' = Some (JStr (vr_CommitSHA r))"
  "object_field (json_revision r) ''Version'' = Some (JStr (vr_Version r))"
  "object_field (json_revision r) ''AuthorName'' = Some (JStr (vr_AuthorName r))"
  "object_field (json_revision r) ''AuthorEmail'' = Some (JStr (vr_AuthorEmail r))"
  "object_field (json_revision r) ''Message'' = Some (JStr (vr_Message r))"
  "object_field (json_revision r) ''contractId'' = (if vr_ContractID r \<noteq> [] then Some (JStr (vr_ContractID r)) else None)"
  "object_field (json_revision r) ''specBlobKey'' = (if vr_SpecBlobKey r \<noteq> [] then Some (JStr (vr_SpecBlobKey r)) else None)"
  "object_field (json_revision r) ''specDigest'' = (if vr_SpecDigest r \<noteq> [] then Some (JStr (vr_SpecDigest r)) else None)"
  "object_field (json_revision r) ''contractDigest'' = (if vr_ContractDigest r \<noteq> [] then Some (JStr (vr_ContractDigest r)) else None)"
  "object_field (json_revision r) ''reviewSnapshot'' = map_option json_snapshot (vr_ReviewSnapshot r)"
  by (simp_all add: json_revision_def lookup_fields del: map_of_append) (cases "vr_ReviewSnapshot r"; simp)

lemma json_revision_inject:
  assumes r: "ValidateContractRevision uc r = None" "ValidateContractRevision uc r' = None"
    and e: "json_bytes (json_revision r) = json_bytes (json_revision r')"
  shows "r = r'"
proof -
  have j: "json_revision r = json_revision r'"
    using json_bytes_inject [OF json_wf_revision json_wf_revision, of uc r uc r' "[]" "[]"] r e by simp
  have f: "object_field (json_revision r) k = object_field (json_revision r') k" for k by (simp add: j)
  have o: "v = w" if "(if v \<noteq> [] then Some (JStr v) else None) = (if w \<noteq> [] then Some (JStr w) else None)" for v w
    using that by (simp split: if_splits)
  note keys = revision_fields [of r, unfolded f, unfolded revision_fields]
  have "vr_ReviewSnapshot r = vr_ReviewSnapshot r'"
    using keys(13) json_snapshot_inject revision_strings(2) [OF r(1)] revision_strings(2) [OF r(2)]
    by (cases "vr_ReviewSnapshot r"; cases "vr_ReviewSnapshot r'") auto
  then show ?thesis
    using keys(1-8) o [OF keys(9)] o [OF keys(10)] o [OF keys(11)] o [OF keys(12)] by (simp add: contract_revision.equality)
qed

lemma SaveRevision_stores:
  assumes save: "tx_SaveRevision uc ctx revision t = Inr t'" and owned: "vr_ContractID revision \<noteq> []"
    and valid: "\<forall>(k, r) \<in> set (os_Revisions (tx_state t)). ValidateContractRevision uc r = None"
  shows "revisionForContract (tx_state t') (vr_ContractID revision) (vr_ID revision) = Some revision"
proof -
  let ?key = "revisionStorageKey revision"
  have v: "ValidateContractRevision uc revision = None"
    using save by (simp add: tx_SaveRevision_def validateRevisionArgument_def Let_def)
  have "map_of (os_Revisions (tx_state t')) ?key = Some revision"
  proof (cases "existingRevision (tx_state t) revision")
    case None
    then show ?thesis using save by (auto simp: tx_SaveRevision_def Let_def cloneImmutableRecord_def decoded_revision_id [OF v])
  next
    case (Some p)
    obtain ek existing where p: "p = (ek, existing)" by (cases p)
    have ex: "map_of (os_Revisions (tx_state t)) ek = Some existing" "ek \<noteq> ?key \<Longrightarrow> vr_ContractID existing = []"
      using Some by (auto simp: p existingRevision_def Let_def split: option.splits if_splits)
    have "existing = revision" if "json_bytes (json_revision existing) = json_bytes (json_revision revision)"
      using map_of_SomeD [OF ex(1)] valid that v by (intro json_revision_inject) auto
    then show ?thesis
      using save Some ex owned
      by (auto simp: p tx_SaveRevision_def Let_def cloneImmutableRecord_def decoded_revision_id [OF v] immutableRecordsEqual_def marshal_def
          split: if_split_asm)
  qed
  then show ?thesis by (simp add: revisionForContract_def revisionStorageKey_def)
qed

lemma SaveSyncRecord_stores:
  assumes save: "tx_SaveSyncRecord ctx record t = Inr t'"
    and known: "sr_Result record = SyncResultSuccess \<Longrightarrow>
      revisionForContract (tx_state t) (sr_ProjectID record) (sr_RevisionID record) \<noteq> None"
  shows "t' = t\<lparr>tx_state := (tx_state t)\<lparr>os_SyncRecords := os_SyncRecords (tx_state t')\<rparr>\<rparr>"
    and "\<exists>r. map_of (os_SyncRecords (tx_state t')) (sr_ID record) = Some r \<and> SameSyncEvidence r record \<and>
      (case map_of (os_SyncRecords (tx_state t)) (sr_ID record) of None \<Rightarrow> r = record | Some r' \<Rightarrow> r = r' \<and> t' = t)"
proof -
  obtain u where b: "(if sr_Result record = SyncResultSuccess \<and> sr_RevisionID record \<noteq> []
      then tx_bindRevisionOwner (sr_ProjectID record) (sr_RevisionID record) (''sync record '' @ sr_ID record) t else Inr t) = Inr u"
    and m: "(case map_of (os_SyncRecords (tx_state u)) (sr_ID record) of
         Some existing \<Rightarrow>
           if \<not> SameSyncEvidence existing record
             then Inl (Errorf ''sync record %q conflicts with immutable persisted evidence'' [sr_ID record])
           else Inr u
       | None \<Rightarrow> Inr (u\<lparr>tx_state := (tx_state u)\<lparr>os_SyncRecords := map_put (sr_ID record) record (os_SyncRecords (tx_state u))\<rparr>\<rparr>)) = Inr t'"
    using save unfolding tx_SaveSyncRecord_def require_Inr bind_res_Inr by blast
  have u: "u = t" using if_bind_known [OF b] known by blast
  show "t' = t\<lparr>tx_state := (tx_state t)\<lparr>os_SyncRecords := os_SyncRecords (tx_state t')\<rparr>\<rparr>"
    and "\<exists>r. map_of (os_SyncRecords (tx_state t')) (sr_ID record) = Some r \<and> SameSyncEvidence r record \<and>
      (case map_of (os_SyncRecords (tx_state t)) (sr_ID record) of None \<Rightarrow> r = record | Some r' \<Rightarrow> r = r' \<and> t' = t)"
    using m unfolding u by (auto split: option.splits if_splits)
qed

lemma commitSync_Inr:
  assumes "commitSync uc ctx revision record t = Inr (v, t')"
  obtains u where "tx_SaveRevision uc (ctx 2) revision t = Inr u" "tx_SaveSyncRecord (ctx 3) record u = Inr t'"
  using assms unfolding commitSync_def
  by (cases "bind_res (wrap_res (Wrapf ''save revision: %w'' []) (tx_SaveRevision uc (ctx 2) revision t)) (\<lambda>t.
       wrap_res (Wrapf ''save sync record: %w'' []) (tx_SaveSyncRecord (ctx 3) record t))") (auto simp del: bind_res_Inr dest!: iffD1 [OF bind_res_Inr])

lemma commitSync_operations: "uses_operations uc (commitSync uc ctx revision record)"
  unfolding uses_operations_def
proof (intro allI impI)
  fix t v t'
  assume "commitSync uc ctx revision record t = Inr (v, t')"
  then obtain u where "tx_SaveRevision uc (ctx 2) revision t = Inr u" "tx_SaveSyncRecord (ctx 3) record u = Inr t'"
    by (rule commitSync_Inr)
  then have "tx_op uc t u" "tx_op uc u t'" by (auto intro: tx_op.intros)
  then show "(tx_op uc)\<^sup>*\<^sup>* t t'" by (meson converse_rtranclp_into_rtranclp r_into_rtranclp)
qed

lemma commitSync_stores:
  assumes "commitSync uc ctx revision record t = Inr (v, t')" and "vr_ContractID revision \<noteq> []"
    and "\<forall>(k, r) \<in> set (os_Revisions (tx_state t)). ValidateContractRevision uc r = None"
    and "sr_ProjectID record = vr_ContractID revision" and "sr_RevisionID record = vr_ID revision"
  shows "revisionForContract (tx_state t') (vr_ContractID revision) (vr_ID revision) = Some revision"
    and "\<exists>r. map_of (os_SyncRecords (tx_state t')) (sr_ID record) = Some r \<and> SameSyncEvidence r record"
proof -
  obtain u where u: "tx_SaveRevision uc (ctx 2) revision t = Inr u" "tx_SaveSyncRecord (ctx 3) record u = Inr t'"
    using assms(1) by (rule commitSync_Inr)
  have r: "revisionForContract (tx_state u) (vr_ContractID revision) (vr_ID revision) = Some revision"
    by (rule SaveRevision_stores [OF u(1) assms(2,3)])
  note s = SaveSyncRecord_stores [OF u(2), unfolded assms(4,5) r]
  show "revisionForContract (tx_state t') (vr_ContractID revision) (vr_ID revision) = Some revision"
    using r arg_cong [OF s(1), of "os_Revisions \<circ> tx_state"] by (simp add: revisionForContract_def)
  show "\<exists>r. map_of (os_SyncRecords (tx_state t')) (sr_ID record) = Some r \<and> SameSyncEvidence r record" using s(2) by auto
qed

section \<open>Runs that reach the store\<close>

text \<open>What a run hands to the store once the source and the parser have answered and their output was accepted.\<close>

definition bound_spec :: "sync_command \<Rightarrow> spec_file \<Rightarrow> spec_file" where
  "bound_spec command spec = spec\<lparr>sf_SourceID := sy_SourceID command\<rparr>"

definition bound_revision :: "sync_command \<Rightarrow> contract_revision \<Rightarrow> contract_revision" where
  "bound_revision command revision = revision\<lparr>vr_ContractID := sy_ContractID command, vr_SourceID := sy_SourceID command\<rparr>"

definition bound_index :: "sync_command \<Rightarrow> contract_revision \<Rightarrow> spec_index \<Rightarrow> spec_index" where
  "bound_index command revision index = index\<lparr>si_ProjectID := sy_ContractID command, si_RevisionID := vr_ID revision\<rparr>"

definition stored_revision ::
    "unicode_case \<Rightarrow> sync_command \<Rightarrow> spec_file \<Rightarrow> contract_revision \<Rightarrow> spec_index \<Rightarrow> contract_revision" where
  "stored_revision uc command spec revision index =
     (syncRevision uc command (bound_spec command spec) (bound_revision command revision) (bound_index command revision index))
       \<lparr>vr_SpecBlobKey := ContentAddressedBlobKey (sf_Bytes spec)\<rparr>"

definition attempted_record ::
    "unicode_case \<Rightarrow> sync_ports \<Rightarrow> sync_command \<Rightarrow> spec_file \<Rightarrow> contract_revision \<Rightarrow> spec_index \<Rightarrow> sync_record" where
  "attempted_record uc ports command spec revision index =
     successfulSyncRecord command (bound_spec command spec) (stored_revision uc command spec revision index) (vr_Ref revision)
       (time_UTC (port_started ports)) (time_UTC (port_finished ports))"

definition sync_accepts ::
    "unicode_case \<Rightarrow> sync_ports \<Rightarrow> sync_command \<Rightarrow> spec_file \<Rightarrow> contract_revision \<Rightarrow> spec_index \<Rightarrow> bool" where
  "sync_accepts uc ports command spec revision index \<longleftrightarrow> port_fetch ports = (spec, revision, None) \<and>
     validateSyncCommand command = None \<and> validateSyncSourceOutput uc spec revision True = None \<and>
     port_parse ports (bound_spec command spec) (bound_revision command revision) = Inr index \<and>
     ValidateSpecIndex uc (port_heap ports) index = None"

definition sync_cache_keys :: "sync_command \<Rightarrow> contract_revision \<Rightarrow> string list" where
  "sync_cache_keys command revision = [''public:'' @ sy_ContractID command, ''search:'' @ sy_ContractID command @ '':'' @ vr_ID revision]"

definition sync_result_of ::
    "unicode_case \<Rightarrow> sync_command \<Rightarrow> spec_file \<Rightarrow> contract_revision \<Rightarrow> spec_index \<Rightarrow> sync_record \<Rightarrow> sync_result" where
  "sync_result_of uc command spec revision index r =
     \<lparr>res_Spec = bound_spec command spec, res_Revision = stored_revision uc command spec revision index,
      res_Index = bound_index command revision index, res_Record = r, res_BlobKey = ContentAddressedBlobKey (sf_Bytes spec)\<rparr>"

lemma stored_revision_fields [simp]:
  "vr_ID (stored_revision uc command spec revision index) = vr_ID revision"
  "vr_ContractID (stored_revision uc command spec revision index) = sy_ContractID command"
  "vr_SpecBlobKey (stored_revision uc command spec revision index) = ContentAddressedBlobKey (sf_Bytes spec)"
  "vr_CommitSHA (stored_revision uc command spec revision index) = vr_CommitSHA revision"
  "vr_ReviewSnapshot (stored_revision uc command spec revision index) =
     Some (NewContractSnapshot uc (sy_ContractID command) (vr_ID revision) (sf_Bytes spec) index)"
  "vr_SpecDigest (stored_revision uc command spec revision index) = sha256Hex (sf_Bytes spec)"
  "vr_ContractDigest (stored_revision uc command spec revision index) =
     cs_ContractDigest (NewContractSnapshot uc (sy_ContractID command) (vr_ID revision) (sf_Bytes spec) index)"
  by (simp_all add: stored_revision_def syncRevision_def Let_def bound_revision_def bound_spec_def bound_index_def NewContractSnapshot_def)

lemma Sync_accepted:
  assumes "sync_accepts uc ports command spec revision index"
  shows "Sync uc ports command (files, s) =
    (case Blob_Put uc (port_ctx ports 0) (port_write ports) (sf_Bytes spec) files of
       (files, Inl e) \<Rightarrow> ((files, s), None, Some (wrapError ErrorIntegrity ''write spec blob'' e))
     | (files, Inr _) \<Rightarrow>
     case Within uc (\<lambda>k. Blob_Get uc None k files) (port_ctx ports 1) (port_ctx ports 4) (port_outcome ports)
         (commitSync uc (port_ctx ports) (stored_revision uc command spec revision index)
           (attempted_record uc ports command spec revision index)) id s of
       (s, Inl e) \<Rightarrow> ((files, s), None, Some (wrapError ErrorTransaction ''commit sync'' e))
     | (s, Inr _) \<Rightarrow>
     case canonicalSyncRecord ports s (attempted_record uc ports command spec revision index) of
       Inl e \<Rightarrow> ((files, s), None, Some (wrapError ErrorIntegrity ''load canonical sync evidence'' e))
     | Inr r \<Rightarrow> ((files, s), Some (sync_result_of uc command spec revision index r), invalidateCache ports (sync_cache_keys command revision)))"
proof (cases "Blob_Put uc (port_ctx ports 0) (port_write ports) (sf_Bytes spec) files")
  case (Pair files' r)
  note d = Sync_def sync_accepts_def bound_spec_def bound_revision_def
  show ?thesis
  proof (cases r)
    case (Inr key)
    have key: "key = ContentAddressedBlobKey (sf_Bytes spec)" using Pair Inr by (auto elim: Blob_Put_Inr)
    show ?thesis
      using assms Pair Inr unfolding key
      by (simp add: d Let_def stored_revision_def [unfolded d bound_index_def, symmetric]
        attempted_record_def [unfolded bound_spec_def, symmetric] sync_result_of_def bound_index_def sync_cache_keys_def
        split: prod.split sum.split)
  qed (use assms Pair in \<open>simp add: d Let_def\<close>)
qed

lemma recordFailure_error:
  assumes "recordFailure uc ports command spec revision kind operation cause store = (store', e)"
  shows "eop e \<in> {operation, ''record failed sync'', ''load canonical failed sync evidence''}"
  using assms by (auto simp: recordFailure_def Let_def wrapError_def split: prod.splits sum.splits)

lemma Sync_reached:
  assumes "Sync uc ports command (files, s) = (store, r, e)" and "r \<noteq> None \<or> (\<exists>x. e = Some (AppError ErrorTransaction ''commit sync'' x))"
  obtains spec revision index where "sync_accepts uc ports command spec revision index"
proof -
  obtain spec revision fe where f: "port_fetch ports = (spec, revision, fe)" by (cases "port_fetch ports")
  have c: "validateSyncCommand command = None" "validateSyncSourceOutput uc spec revision (fe = None) = None"
    using assms f by (auto simp: Sync_def Let_def validationError_def wrapError_def split: option.splits)
  have fe: "fe = None"
  proof (rule ccontr)
    assume "fe \<noteq> None"
    then obtain x where x: "fe = Some x" by blast
    have "e = Some (snd (recordFailure uc ports command spec revision ErrorSource ''fetch source'' x (files, s)))" "r = None"
      using assms(1) f c x by (auto simp: Sync_def split: prod.splits)
    then show False
      using assms(2) recordFailure_error [of uc ports command spec revision ErrorSource "''fetch source''" x "(files, s)"]
      by (cases "recordFailure uc ports command spec revision ErrorSource ''fetch source'' x (files, s)") force
  qed
  let ?spec = "bound_spec command spec" and ?revision = "bound_revision command revision"
  note b = bound_spec_def bound_revision_def
  show thesis
  proof (cases "port_parse ports ?spec ?revision")
    case (Inl x)
    have "e = Some (snd (recordFailure uc ports command ?spec ?revision ErrorParse ''parse source'' x (files, s)))" "r = None"
      using assms(1) f c fe Inl by (auto simp: Sync_def Let_def b split: prod.splits)
    then show thesis
      using assms(2) recordFailure_error [of uc ports command ?spec ?revision ErrorParse "''parse source''" x "(files, s)"]
      by (cases "recordFailure uc ports command ?spec ?revision ErrorParse ''parse source'' x (files, s)") force
  next
    case (Inr index)
    have "ValidateSpecIndex uc (port_heap ports) index = None"
      using assms f c fe Inr by (auto simp: Sync_def Let_def b validationError_def wrapError_def split: option.splits)
    then show thesis using that f c fe Inr by (simp add: sync_accepts_def)
  qed
qed

text \<open>A run that returned a result, or reported a failed commit after replacing the state, stored its evidence.\<close>

lemma Sync_stored:
  assumes valid: "store_valid uc s" and run: "Sync uc ports command (files, s) = ((files', s'), r, e)"
    and committed: "r \<noteq> None \<or> (\<exists>x. e = Some (AppError ErrorTransaction ''commit sync'' x)) \<and> s' \<noteq> s"
  obtains spec revision index key t where "sync_accepts uc ports command spec revision index"
    "Blob_Put uc (port_ctx ports 0) (port_write ports) (sf_Bytes spec) files = (files', Inr key)"
    "commitSync uc (port_ctx ports) (stored_revision uc command spec revision index)
       (attempted_record uc ports command spec revision index) (begin_transaction s) = Inr ((), t)"
    "s' = (tx_state t)\<lparr>os_migratedRevisions := []\<rparr>" "store_valid uc s'" "history_kept s s'"
    "r \<noteq> None \<Longrightarrow> \<exists>rec. canonicalSyncRecord ports s' (attempted_record uc ports command spec revision index) = Inr rec \<and>
       r = Some (sync_result_of uc command spec revision index rec)"
proof -
  obtain spec revision index where a: "sync_accepts uc ports command spec revision index"
    using Sync_reached [OF run] committed by blast
  let ?commit = "commitSync uc (port_ctx ports) (stored_revision uc command spec revision index)
       (attempted_record uc ports command spec revision index)"
  obtain key w where put: "Blob_Put uc (port_ctx ports 0) (port_write ports) (sf_Bytes spec) files = (files', Inr key)"
    and within: "Within uc (\<lambda>k. Blob_Get uc None k files') (port_ctx ports 1) (port_ctx ports 4) (port_outcome ports) ?commit id s = (s', w)"
    and ok: "r \<noteq> None \<Longrightarrow> \<exists>rec. canonicalSyncRecord ports s' (attempted_record uc ports command spec revision index) = Inr rec \<and>
       r = Some (sync_result_of uc command spec revision index rec)" and w: "r \<noteq> None \<Longrightarrow> w = Inr ()"
    using run committed unfolding Sync_accepted [OF a] by (auto simp: wrapError_def split: prod.splits sum.splits)
  note v = Within_step [OF valid commitSync_operations within]
  show thesis
  proof (rule Within_cases [OF within], goal_cases)
    case 1
    then show ?case using committed w by auto
  next
    case (2 v' t)
    then show ?case using that [OF a put _ 2(2) v ok] by simp
  qed
qed

lemma begin_revisions [simp]: "os_Revisions (tx_state (begin_transaction s)) = os_Revisions s"
  and begin_syncs [simp]: "os_SyncRecords (tx_state (begin_transaction s)) = os_SyncRecords s"
  by (simp_all add: begin_transaction_def cloneOperationalState_def)

lemma sync_accepts_ids:
  assumes "sync_accepts uc ports command spec revision index"
  shows "canonical (sy_ContractID command)" and "canonical (vr_ID revision)"
  using assms by (auto simp: sync_accepts_def validateSyncCommand_def validateSyncSourceOutput_def validatePortRevision_def)

lemma stored_evidence:
  assumes valid: "store_valid uc s" and a: "sync_accepts uc ports command spec revision index"
    and commit: "commitSync uc ctx (stored_revision uc command spec revision index)
       (attempted_record uc ports command spec revision index) (begin_transaction s) = Inr ((), t)"
    and s': "s' = (tx_state t)\<lparr>os_migratedRevisions := []\<rparr>"
  shows "revisionForContract s' (sy_ContractID command) (vr_ID revision) = Some (stored_revision uc command spec revision index)"
    and "\<exists>r. map_of (os_SyncRecords s') (sr_ID (attempted_record uc ports command spec revision index)) = Some r \<and>
       SameSyncEvidence r (attempted_record uc ports command spec revision index)"
proof -
  have ne: "sy_ContractID command \<noteq> []" using sync_accepts_ids [OF a] canonical_ne by auto
  have "\<forall>(k, r) \<in> set (os_Revisions (tx_state (begin_transaction s))). ValidateContractRevision uc r = None"
    using valid_entries(1) [OF valid] by (auto simp: revision_entry_ok_def)
  note c = commitSync_stores [OF commit _ this, simplified, OF ne]
  show "revisionForContract s' (sy_ContractID command) (vr_ID revision) = Some (stored_revision uc command spec revision index)"
    using c(1) by (simp add: s' attempted_record_def successfulSyncRecord_def revisionForContract_def)
  show "\<exists>r. map_of (os_SyncRecords s') (sr_ID (attempted_record uc ports command spec revision index)) = Some r \<and>
       SameSyncEvidence r (attempted_record uc ports command spec revision index)"
    using c(2) by (simp add: s' attempted_record_def successfulSyncRecord_def)
qed

section \<open>What a run leaves behind\<close>

lemma stored_revision_intact:
  assumes a: "sync_accepts uc ports command spec revision index"
    and v: "ValidateContractRevision uc (stored_revision uc command spec revision index) = None"
    and put: "Blob_Put uc ctx write (sf_Bytes spec) files = (files', Inr key)"
  shows "validateRevisionEvidence uc (\<lambda>k. Blob_Get uc None k files') None (stored_revision uc command spec revision index) = None"
    and "\<exists>data. LoadSpec uc (\<lambda>k. Blob_Get uc None k files') (stored_revision uc command spec revision index) = Inr data \<and>
      sha256Hex data = sha256Hex (sf_Bytes spec)"
proof -
  obtain data where f: "files' (''sha256/'' @ sha256Hex (sf_Bytes spec)) = Some data" and k: "sha256Hex data = sha256Hex (sf_Bytes spec)"
    by (rule Blob_Put_Inr [OF put]) (auto simp: content_key_inject)
  have get: "Blob_Get uc None (ContentAddressedBlobKey (sf_Bytes spec)) files' = Inr data" using f by (simp add: Blob_Get_def)
  have "snapshot_ok uc (NewContractSnapshot uc (sy_ContractID command) (vr_ID revision) (sf_Bytes spec) index)"
    using v by (simp add: ValidateContractRevision_def)
  moreover have "sha256Hex d \<noteq> []" for d using length_sha256Hex [of d] by (metis list.size(3) zero_neq_numeral)
  moreover have "ContentAddressedBlobKey (sf_Bytes spec) \<noteq> []" "trim_prefix ''sha256:'' (ContentAddressedBlobKey data) = sha256Hex data"
    by (simp_all add: ContentAddressedBlobKey_def trim_prefix_def)
  moreover have "TrimSpace (sy_ContractID command) \<noteq> []"
    using sync_accepts_ids(1) [OF a] canonical_trim [of "sy_ContractID command"] by auto
  ultimately show "validateRevisionEvidence uc (\<lambda>k. Blob_Get uc None k files') None (stored_revision uc command spec revision index) = None"
    using k get by (simp add: validateRevisionEvidence_def Let_def NewContractSnapshot_def content_key_inject contractSurfaceDigest_def)
  have "ValidateCanonicalIdentity ''revision id'' (vr_ID revision) False = None" using sync_accepts_ids(2) [OF a] by simp
  then have "LoadSpec uc (\<lambda>k. Blob_Get uc None k files') (stored_revision uc command spec revision index) = Inr data"
    using get k by (simp add: LoadSpec_def Let_def content_key_inject del: ValidateCanonicalIdentity_None)
  then show "\<exists>data. LoadSpec uc (\<lambda>k. Blob_Get uc None k files') (stored_revision uc command spec revision index) = Inr data \<and>
      sha256Hex data = sha256Hex (sf_Bytes spec)" using k by blast
qed

lemma commitSync_validates:
  assumes "commitSync uc ctx r y t = Inr (v, t')"
  shows "validateRevisionArgument uc None r = None" and "validateID (vr_ID r) = None" and "ValidateContractRevision uc r = None"
    and "validateID (sr_ID y) = None" and "ValidateSyncRecord y = None"
  by (rule commitSync_Inr [OF assms], simp_all add: tx_SaveRevision_def tx_SaveSyncRecord_def validateRevisionArgument_def Let_def)+

lemma SameSyncEvidence_iff:
  "SameSyncEvidence a b \<longleftrightarrow> sr_ID a = sr_ID b \<and> sr_ProjectID a = sr_ProjectID b \<and> sr_SourceID a = sr_SourceID b \<and>
     sr_RevisionID a = sr_RevisionID b \<and> sr_Trigger a = sr_Trigger b \<and> sr_Ref a = sr_Ref b \<and> sr_CommitSHA a = sr_CommitSHA b \<and>
     sr_SpecPath a = sr_SpecPath b \<and> sr_Result a = sr_Result b \<and> sr_ErrorSummary a = sr_ErrorSummary b"
  by (cases a; cases b) (simp add: SameSyncEvidence_def)

lemma canonicalSyncRecord_found:
  assumes "map_of (os_SyncRecords s) (sr_ID y) = Some r" and "SameSyncEvidence r y" and "validateID (sr_ID y) = None"
  shows "canonicalSyncRecord ports s y = (case port_ctx ports 5 of None \<Rightarrow> Inr r | Some e \<Rightarrow> Inl e)"
proof -
  have "sr_ID r = sr_ID y" using assms(2) by (simp add: SameSyncEvidence_iff)
  then show ?thesis using assms
    by (simp add: canonicalSyncRecord_def SyncRecord_def bind_res_def require_def first_error.simps split: option.split)
qed

text \<open>
  C18: A sync stores intact evidence. When a run on a valid store returns a result, the state is still
  valid and has lost nothing, no blob changed, the returned sync record is the one that is stored and
  describes the returned revision as a success, that revision is the one its contract now has under its
  id with evidence that passes validation, and the revision service hands out bytes with the digest of
  the fetched ones. The store reads the revision back exactly when the contract id is a safe file name,
  which the sync itself does not ask for.
\<close>

theorem sync_stores_intact_evidence:
  assumes "store_valid uc s" and "Sync uc ports command (files, s) = ((files', s'), Some res, e)"
  shows "store_valid uc s' \<and> history_kept s s' \<and> files \<subseteq>\<^sub>m files' \<and>
    map_of (os_SyncRecords s') (sr_ID (res_Record res)) = Some (res_Record res) \<and>
    sr_Result (res_Record res) = SyncResultSuccess \<and> sr_ProjectID (res_Record res) = sy_ContractID command \<and>
    sr_RevisionID (res_Record res) = vr_ID (res_Revision res) \<and>
    ContractRevision uc (\<lambda>k. Blob_Get uc None k files') None None (Inr s') (sy_ContractID command) (vr_ID (res_Revision res)) =
      require (validateID (sy_ContractID command)) (Inr (res_Revision res)) \<and>
    (\<exists>data. LoadSpec uc (\<lambda>k. Blob_Get uc None k files') (res_Revision res) = Inr data \<and>
      sha256Hex data = sha256Hex (sf_Bytes (res_Spec res)))"
proof (rule Sync_stored [OF assms], simp, goal_cases)
  case (1 spec revision index key t)
  let ?r = "stored_revision uc command spec revision index" and ?y = "attempted_record uc ports command spec revision index"
  note a = 1(1) and put = 1(2) and commit = 1(3)
  obtain rec where rec: "canonicalSyncRecord ports s' ?y = Inr rec" "res = sync_result_of uc command spec revision index rec"
    using 1(7) by auto
  note stored = stored_evidence [OF assms(1) a commit 1(4)] and v = commitSync_validates [OF commit]
  obtain y where y: "map_of (os_SyncRecords s') (sr_ID ?y) = Some y" "SameSyncEvidence y ?y" using stored(2) by blast
  have "rec = y" using rec(1) canonicalSyncRecord_found [OF y v(4), of ports] by (simp split: option.splits)
  moreover have "sr_ID y = sr_ID ?y" "sr_Result y = SyncResultSuccess" "sr_ProjectID y = sy_ContractID command" "sr_RevisionID y = vr_ID revision"
    using y(2) by (simp_all add: SameSyncEvidence_iff attempted_record_def successfulSyncRecord_def)
  moreover have "ContractRevision uc (\<lambda>k. Blob_Get uc None k files') None None (Inr s') (sy_ContractID command) (vr_ID revision) =
      require (validateID (sy_ContractID command)) (Inr ?r)"
    using stored(1) v(2) stored_revision_intact(1) [OF a v(3) put]
    by (simp add: ContractRevision_def bind_res_def require_def first_error.simps wrap_err_def split: option.split)
  moreover note stored_revision_intact(2) [OF a v(3) put]
  moreover have "files \<subseteq>\<^sub>m files'" by (rule Blob_Put_Inr [OF put]) (auto simp: map_le_def)
  ultimately show ?case using 1(5,6) rec(2) y(1) by (simp add: sync_result_of_def bound_spec_def)
qed

section \<open>Retries\<close>

lemma Blob_Put_again:
  assumes "Blob_Put uc ctx write data files = (files', Inr key)"
  shows "Blob_Put uc None write' data files' = (files', Inr key)"
  by (rule Blob_Put_Inr [OF assms]) (simp add: Blob_Put_def Let_def)

text \<open>Saving what is already stored changes nothing, whatever the clock says.\<close>

lemma SaveRevision_again:
  assumes "validateRevisionArgument uc None r = None" and "revisionForContract (tx_state t) (vr_ContractID r) (vr_ID r) = Some r"
  shows "tx_SaveRevision uc None r t = Inr t"
proof -
  have "existingRevision (tx_state t) r = Some (revisionStorageKey r, r)"
    using assms(2) by (auto simp: revisionForContract_def existingRevision_def revisionStorageKey_def Let_def split: option.splits if_splits)
  then show ?thesis using assms(1) by (simp add: tx_SaveRevision_def Let_def immutableRecordsEqual_def marshal_def wrap_res_def bind_res_def)
qed

lemma SaveSyncRecord_again:
  assumes y: "validateID (sr_ID y) = None" "ValidateSyncRecord y = None" and r: "map_of (os_SyncRecords (tx_state t)) (sr_ID y) = Some r"
    "SameSyncEvidence r y" and owned: "sr_ProjectID y \<noteq> []" "canonical (sr_ProjectID y)"
      "revisionForContract (tx_state t) (sr_ProjectID y) (sr_RevisionID y) = Some rv"
  shows "tx_SaveSyncRecord None y t = Inr t"
proof -
  have "TrimSpace (sr_ProjectID y) \<noteq> []" using owned(1,2) canonical_trim by auto
  then have "(if sr_Result y = SyncResultSuccess \<and> sr_RevisionID y \<noteq> []
      then tx_bindRevisionOwner (sr_ProjectID y) (sr_RevisionID y) (''sync record '' @ sr_ID y) t else Inr t) = Inr t"
    using owned(3) by (auto simp: tx_bindRevisionOwner_def bindRevisionOwner_def revisionForContract_def Let_def bind_res_def
        split: option.splits if_splits)
  moreover have "first_error [None, validateID (sr_ID y), ValidateSyncRecord y, check_identities
          [(''sync project id'', sr_ProjectID y, True), (''sync source id'', sr_SourceID y, True),
           (''sync revision id'', sr_RevisionID y, True), (''sync trigger'', sr_Trigger y, True),
           (''sync ref'', sr_Ref y, True), (''sync commit sha'', sr_CommitSHA y, True),
           (''sync spec path'', sr_SpecPath y, True)]] = None"
    using y by (simp add: ValidateSyncRecord_def)
  ultimately show ?thesis unfolding tx_SaveSyncRecord_def using r by (simp add: bind_res_def)
qed

lemma ValidateSyncRecord_same: "SameSyncEvidence r y \<Longrightarrow> ValidateSyncRecord r = ValidateSyncRecord y"
  by (simp add: SameSyncEvidence_iff ValidateSyncRecord_def rv_sync_def)

lemma Sync_again:
  assumes valid: "store_valid uc s'" and settled: "os_migratedRevisions s' = []"
    and a: "sync_accepts uc ports' command spec revision index"
    and put: "Blob_Put uc ctx write (sf_Bytes spec) files = (files', Inr key)"
    and r: "revisionForContract s' (sy_ContractID command) (vr_ID revision) = Some (stored_revision uc command spec revision index)"
      "validateRevisionArgument uc None (stored_revision uc command spec revision index) = None"
    and y: "map_of (os_SyncRecords s') (sr_ID (attempted_record uc ports' command spec revision index)) = Some y"
      "SameSyncEvidence y (attempted_record uc ports' command spec revision index)"
    and ok: "port_ctx ports' = (\<lambda>_. None)" "port_outcome ports' = PublishConfirmed"
  shows "Sync uc ports' command (files', s') =
    ((files', s'), Some (sync_result_of uc command spec revision index y), invalidateCache ports' (sync_cache_keys command revision))"
proof -
  let ?r = "stored_revision uc command spec revision index" and ?y = "attempted_record uc ports' command spec revision index"
  let ?t = "begin_transaction s'"
  have t: "tx_state ?t = s'" using valid cloned_state [of s'] by (simp add: begin_transaction_def store_valid_def)
  have "sync_entry_ok s' (sr_ID ?y) y" using valid_entries(2) [OF valid map_of_SomeD [OF y(1)]] .
  then have v: "validateID (sr_ID ?y) = None" "ValidateSyncRecord ?y = None"
    using y(2) ValidateSyncRecord_same [OF y(2)] by (simp_all add: sync_entry_ok_def SameSyncEvidence_iff)
  have f: "sr_ProjectID ?y = sy_ContractID command" "sr_RevisionID ?y = vr_ID revision"
    by (simp_all add: attempted_record_def successfulSyncRecord_def)
  have "tx_SaveRevision uc None ?r ?t = Inr ?t" using SaveRevision_again [OF r(2), of ?t] r(1) t by simp
  moreover have "tx_SaveSyncRecord None ?y ?t = Inr ?t"
    using sync_accepts_ids(1) [OF a] canonical_ne y r(1) t by (intro SaveSyncRecord_again [OF v]) (auto simp: f)
  ultimately have "commitSync uc (\<lambda>_. None) ?r ?y ?t = Inr ((), ?t)" by (simp add: commitSync_def bind_res_def wrap_res_def)
  then have "Within uc (\<lambda>k. Blob_Get uc None k files') None None PublishConfirmed (commitSync uc (\<lambda>_. None) ?r ?y) id s' = (s', Inr ())"
    by (rule commit_of_nothing [OF valid settled])
  then show ?thesis
    using canonicalSyncRecord_found [OF y v(1), of ports'] by (simp add: Sync_accepted [OF a] ok Blob_Put_again [OF put])
qed

text \<open>
  C19: An interrupted sync settles on a retry. When a run returned a result, or reported a failed commit
  although the state was replaced, running the same command again with the same answers of the source and
  the parser returns the result and leaves blobs and state untouched, whatever the clocks read. The result
  is the one of the first run, with the sync record of the first observation.
\<close>

theorem interrupted_sync_settles_on_retry:
  assumes "store_valid uc s" and "Sync uc ports command (files, s) = ((files', s'), r, e)"
    and "r \<noteq> None \<or> (\<exists>x. e = Some (AppError ErrorTransaction ''commit sync'' x)) \<and> s' \<noteq> s"
    and "port_fetch ports' = port_fetch ports" and "port_parse ports' = port_parse ports" and "port_heap ports' = port_heap ports"
    and "port_ctx ports' = (\<lambda>_. None)" and "port_outcome ports' = PublishConfirmed"
  shows "\<exists>res e'. Sync uc ports' command (files', s') = ((files', s'), Some res, e') \<and> (r = None \<or> r = Some res) \<and>
    map_of (os_SyncRecords s') (sr_ID (res_Record res)) = Some (res_Record res)"
proof (rule Sync_stored [OF assms(1-3)], goal_cases)
  case (1 spec revision index key t)
  let ?y = "attempted_record uc ports command spec revision index" and ?y' = "attempted_record uc ports' command spec revision index"
  note stored = stored_evidence [OF assms(1) 1(1,3,4)] and v = commitSync_validates [OF 1(3)]
  have a: "sync_accepts uc ports' command spec revision index" using 1(1) assms(4-6) by (simp add: sync_accepts_def)
  have same: "sr_ID ?y' = sr_ID ?y" "SameSyncEvidence ?y ?y'"
    by (simp_all add: SameSyncEvidence_iff attempted_record_def successfulSyncRecord_def)
  obtain y where y: "map_of (os_SyncRecords s') (sr_ID ?y) = Some y" "SameSyncEvidence y ?y" using stored(2) by blast
  have run: "Sync uc ports' command (files', s') =
      ((files', s'), Some (sync_result_of uc command spec revision index y), invalidateCache ports' (sync_cache_keys command revision))"
    using y same SameSyncEvidence_trans [OF y(2) same(2)] 1(4)
    by (intro Sync_again [OF 1(5) _ a 1(2) stored(1) v(1) _ _ assms(7,8)]) simp_all
  have "r = None \<or> r = Some (sync_result_of uc command spec revision index y)"
    using 1(7) canonicalSyncRecord_found [OF y v(4), of ports] by (cases "r = None") (auto split: option.splits)
  moreover have "sr_ID y = sr_ID ?y" using y(2) by (simp add: SameSyncEvidence_iff)
  ultimately show ?case using run y(1) by (auto simp: sync_result_of_def)
qed

end
