(* ===== verification/Sync_Progress.thy ===== *)
theory Sync_Progress
  imports Sync_Service
begin

text \<open>
  When a sync must succeed: a revision the store has not seen commits as soon as the source, the parser
  and the disk do their part, and a failure of the source or the parser is recorded. Then concrete runs
  for the properties of the sync service.
\<close>

section \<open>Records a run builds are valid\<close>

lemma snapshot_strings: "snapshot_ok uc s \<Longrightarrow> v \<in> direct_strings (rv_snapshot s) \<Longrightarrow> utf8_valid v"
  by (auto simp: rv_snapshot_def rv_slice_def snapshot_ok_def surface_canonical_def operation_canonical_def contractSurfaceDigest_def
      intro: canonical_valid isLowerSHA256_valid isLowerSHA256_sha256Hex)

lemma content_key_canonical: "canonical (ContentAddressedBlobKey d)"
  using sha256Hex_chars [of _ d]
  by (intro canonical_ascii) (fastforce simp: ContentAddressedBlobKey_def lower_hex_char_def)+

definition optional_id :: "string \<Rightarrow> bool" where
  "optional_id v \<longleftrightarrow> canonical v \<or> v = []"

lemma optional_id_valid: "optional_id v \<Longrightarrow> utf8_valid v"
  by (auto simp: optional_id_def canonical_valid)

lemma source_output_fields:
  assumes "validateSyncSourceOutput uc spec revision complete = None"
  shows "optional_id (sf_Path spec)" "optional_id (vr_ID revision)" "optional_id (vr_Ref revision)" "optional_id (vr_CommitSHA revision)"
    "optional_id (vr_SourceID revision)" "optional_id (sf_SourceID spec)"
    "utf8_valid (vr_Version revision)" "utf8_valid (vr_AuthorName revision)" "utf8_valid (vr_AuthorEmail revision)" "utf8_valid (vr_Message revision)"
  using assms by (auto simp: validateSyncSourceOutput_def validatePortSpecFile_def validatePortRevision_def optional_id_def)

lemma stored_revision_valid:
  assumes uc: "unicode_case_ok uc" and a: "sync_accepts uc ports command spec revision index"
    and surface: "distinct (map (spec_operation_key uc) (si_Operations index))"
  shows "ValidateContractRevision uc (stored_revision uc command spec revision index) = None"
proof -
  let ?r = "stored_revision uc command spec revision index"
  let ?s = "NewContractSnapshot uc (sy_ContractID command) (vr_ID revision) (sf_Bytes spec) index"
  have src: "validateSyncSourceOutput uc spec revision True = None" "canonical (sy_SourceID command)"
    using a by (auto simp: sync_accepts_def validateSyncCommand_def)
  note f = source_output_fields [OF src(1)] and ids = sync_accepts_ids [OF a]
  have "spec_surface_ok uc index" using a surface by (intro validated_index_surface [of uc "port_heap ports"]) (simp_all add: sync_accepts_def)
  then have ok: "snapshot_ok uc ?s" by (rule NewContractSnapshot_ok [OF uc ids])
  have digest: "isLowerSHA256 (cs_ContractDigest ?s)" by (simp add: NewContractSnapshot_def Let_def contractSurfaceDigest_def isLowerSHA256_sha256Hex)
  have r: "vr_SourceID ?r = sy_SourceID command" "vr_Ref ?r = canonicalRevisionRef revision" "vr_Version ?r = vr_Version revision"
    "vr_AuthorName ?r = vr_AuthorName revision" "vr_AuthorEmail ?r = vr_AuthorEmail revision" "vr_Message ?r = vr_Message revision"
    by (simp_all add: stored_revision_def syncRevision_def Let_def bound_revision_def canonicalRevisionRef_def)
  have ref: "optional_id (canonicalRevisionRef revision)" using f by (simp add: canonicalRevisionRef_def)
  have "utf8_valid v" if "v \<in> direct_strings (rv_revision ?r)" for v
    using that f ids src(2) ref content_key_canonical digest snapshot_strings [OF ok]
    by (auto simp: rv_revision_def r optional_id_valid intro: canonical_valid isLowerSHA256_valid isLowerSHA256_sha256Hex)
  then show ?thesis
    using f ids src(2) ref content_key_canonical digest ok isLowerSHA256_sha256Hex
    by (simp add: ValidateContractRevision_def validateUTF8Strings_direct r optional_id_def)
qed

lemma syncRecordID_plain: "plain_id (syncRecordID command spec revision ref outcome)"
  unfolding syncRecordID_def by (rule plain_id_hex) (simp add: plain_id_def)

lemma trigger_id: "optional_id v \<Longrightarrow> optional_id (firstNonEmpty [v, ''manual''])"
proof -
  have "canonical ''manual''" by (rule canonical_ascii) simp_all
  then show "optional_id v \<Longrightarrow> ?thesis" by (auto simp: optional_id_def)
qed

lemma sync_record_valid:
  assumes "canonical (sr_ID y)" "optional_id (sr_ProjectID y)" "optional_id (sr_SourceID y)" "optional_id (sr_RevisionID y)"
    "optional_id (sr_Trigger y)" "optional_id (sr_Ref y)" "optional_id (sr_CommitSHA y)" "optional_id (sr_SpecPath y)"
    "optional_id (sr_Result y)" "utf8_valid (sr_ErrorSummary y)"
  shows "ValidateSyncRecord y = None"
  using assms canonical_valid
  by (simp add: ValidateSyncRecord_def validateUTF8Strings_direct rv_sync_def optional_id_valid) (simp add: optional_id_def)

section \<open>A new revision commits\<close>

lemma attempted_record_valid:
  assumes "sync_accepts uc ports command spec revision index"
  shows "ValidateSyncRecord (attempted_record uc ports command spec revision index) = None"
    and "validateID (sr_ID (attempted_record uc ports command spec revision index)) = None"
proof -
  have src: "validateSyncSourceOutput uc spec revision True = None" "canonical (sy_SourceID command)" "optional_id (sy_Trigger command)"
    using assms by (auto simp: sync_accepts_def validateSyncCommand_def optional_id_def)
  note f = source_output_fields [OF src(1)] and ids = sync_accepts_ids [OF assms]
  have "canonical ''success''" by (rule canonical_ascii) simp_all
  then show "ValidateSyncRecord (attempted_record uc ports command spec revision index) = None"
    using f ids src(2) canonical_ne [OF src(2)] trigger_id [OF src(3)] plain_id_canonical [OF syncRecordID_plain]
    by (intro sync_record_valid)
      (simp_all add: attempted_record_def successfulSyncRecord_def bound_spec_def SyncResultSuccess_def optional_id_def)
  show "validateID (sr_ID (attempted_record uc ports command spec revision index)) = None"
    by (simp add: attempted_record_def successfulSyncRecord_def plain_id_valid [OF syncRecordID_plain])
qed

lemma commitSync_fresh:
  assumes a: "sync_accepts uc ports command spec revision index"
    and v: "ValidateContractRevision uc (stored_revision uc command spec revision index) = None" "validateID (vr_ID revision) = None"
    and fresh: "existingRevision (tx_state t) (stored_revision uc command spec revision index) = None"
      "map_of (os_SyncRecords (tx_state t)) (sr_ID (attempted_record uc ports command spec revision index)) = None"
  shows "commitSync uc (\<lambda>_. None) (stored_revision uc command spec revision index)
      (attempted_record uc ports command spec revision index) t =
    Inr ((), t\<lparr>tx_state := (tx_state t)\<lparr>
        os_Revisions := map_put (revisionKey (sy_ContractID command) (vr_ID revision)) (stored_revision uc command spec revision index)
          (os_Revisions (tx_state t)),
        os_SyncRecords := map_put (sr_ID (attempted_record uc ports command spec revision index))
          (attempted_record uc ports command spec revision index) (os_SyncRecords (tx_state t))\<rparr>,
      tx_mutatedRevisions := set_add (revisionKey (sy_ContractID command) (vr_ID revision)) (tx_mutatedRevisions t)\<rparr>)"
proof -
  let ?r = "stored_revision uc command spec revision index" and ?y = "attempted_record uc ports command spec revision index"
  let ?key = "revisionKey (sy_ContractID command) (vr_ID revision)"
  let ?u = "t\<lparr>tx_state := (tx_state t)\<lparr>os_Revisions := map_put ?key ?r (os_Revisions (tx_state t))\<rparr>,
      tx_mutatedRevisions := set_add ?key (tx_mutatedRevisions t)\<rparr>"
  have "validateRevisionArgument uc None ?r = None"
    using v by (auto simp: validateRevisionArgument_def ValidateContractRevision_def)
  then have "tx_SaveRevision uc None ?r t = Inr ?u"
    using fresh(1) by (simp add: tx_SaveRevision_def Let_def cloneImmutableRecord_def decoded_revision_id [OF v(1)] revisionStorageKey_def bind_res_def)
  moreover have "tx_SaveSyncRecord None ?y ?u = Inr (?u\<lparr>tx_state := (tx_state ?u)\<lparr>os_SyncRecords := map_put (sr_ID ?y) ?y (os_SyncRecords (tx_state ?u))\<rparr>\<rparr>)"
  proof -
    have f: "sr_ProjectID ?y = sy_ContractID command" "sr_RevisionID ?y = vr_ID revision"
      by (simp_all add: attempted_record_def successfulSyncRecord_def)
    have "TrimSpace (sy_ContractID command) \<noteq> []" using sync_accepts_ids(1) [OF a] canonical_trim [of "sy_ContractID command"] by auto
    then have "tx_bindRevisionOwner (sr_ProjectID ?y) (sr_RevisionID ?y) (''sync record '' @ sr_ID ?y) ?u = Inr ?u"
      by (simp add: f tx_bindRevisionOwner_def bindRevisionOwner_def Let_def bind_res_def)
    moreover have "first_error [None, validateID (sr_ID ?y), ValidateSyncRecord ?y, check_identities
          [(''sync project id'', sr_ProjectID ?y, True), (''sync source id'', sr_SourceID ?y, True),
           (''sync revision id'', sr_RevisionID ?y, True), (''sync trigger'', sr_Trigger ?y, True),
           (''sync ref'', sr_Ref ?y, True), (''sync commit sha'', sr_CommitSHA ?y, True),
           (''sync spec path'', sr_SpecPath ?y, True)]] = None"
      using attempted_record_valid [OF a] by (simp add: ValidateSyncRecord_def)
    ultimately show ?thesis unfolding tx_SaveSyncRecord_def using fresh(2) by (simp add: bind_res_def)
  qed
  ultimately show ?thesis by (simp add: commitSync_def bind_res_def wrap_res_def)
qed

text \<open>The blob of a specification can be written, or is already there with the right content.\<close>

definition blob_writable :: "sync_ports \<Rightarrow> string \<Rightarrow> blob_files \<Rightarrow> bool" where
  "blob_writable ports data files \<longleftrightarrow>
     (case files (''sha256/'' @ sha256Hex data) of
        None \<Rightarrow> port_write ports = WriteConfirmed | Some existing \<Rightarrow> sha256Hex existing = sha256Hex data)"

lemma Blob_Put_writable:
  assumes "blob_writable ports data files"
  obtains files' where "Blob_Put uc None (port_write ports) data files = (files', Inr (ContentAddressedBlobKey data))"
  using assms by (auto simp: blob_writable_def Blob_Put_def Let_def content_key_inject split: option.splits)

lemma sync_of_new_revision:
  assumes "store_valid uc s" and "os_migratedRevisions s = []" and "unicode_case_ok uc"
    and "sync_accepts uc ports command spec revision index" and "distinct (map (spec_operation_key uc) (si_Operations index))"
    and "validateID (vr_ID revision) = None" and "existingRevision s (stored_revision uc command spec revision index) = None"
    and "map_of (os_SyncRecords s) (sr_ID (attempted_record uc ports command spec revision index)) = None"
    and "blob_writable ports (sf_Bytes spec) files" and "port_ctx ports = (\<lambda>_. None)" and "port_outcome ports = PublishConfirmed"
  shows "\<exists>files' e. Sync uc ports command (files, s) =
    ((files', s\<lparr>
        os_Revisions := map_put (revisionKey (sy_ContractID command) (vr_ID revision)) (stored_revision uc command spec revision index) (os_Revisions s),
        os_SyncRecords := map_put (sr_ID (attempted_record uc ports command spec revision index))
          (attempted_record uc ports command spec revision index) (os_SyncRecords s)\<rparr>),
     Some (sync_result_of uc command spec revision index (attempted_record uc ports command spec revision index)), e)"
proof -
  note valid = assms(1) and a = assms(4)
  let ?r = "stored_revision uc command spec revision index" and ?y = "attempted_record uc ports command spec revision index"
  let ?key = "revisionKey (sy_ContractID command) (vr_ID revision)"
  let ?s1 = "s\<lparr>os_Revisions := map_put ?key ?r (os_Revisions s)\<rparr>"
  let ?s2 = "?s1\<lparr>os_SyncRecords := map_put (sr_ID ?y) ?y (os_SyncRecords ?s1)\<rparr>"
  have v: "ValidateContractRevision uc ?r = None" by (rule stored_revision_valid [OF assms(3) a assms(5)])
  have fresh: "map_of (os_Revisions s) ?key = None"
    using assms(7) by (auto simp: existingRevision_def revisionStorageKey_def Let_def split: option.splits)
  have entry: "revision_entry_ok uc ?key ?r" using v assms(6) by (simp add: revision_entry_ok_def revisionStorageKey_def)
  note g1 = add_revision [OF valid fresh entry refl]
  have f: "sr_ProjectID ?y = sy_ContractID command" "sr_RevisionID ?y = vr_ID revision"
    by (simp_all add: attempted_record_def successfulSyncRecord_def)
  have trim: "TrimSpace (sy_ContractID command) \<noteq> []"
    using sync_accepts_ids(1) [OF a] canonical_trim [of "sy_ContractID command"] by auto
  have g2: "grows ?s1 ?s2" "store_valid uc ?s2"
    using assms(8) attempted_record_valid [OF a] trim
    by (intro add_sync_record [OF g1(2) _ _ _ _ refl]; simp add: f revisionForContract_def)+
  obtain files' where put: "Blob_Put uc None (port_write ports) (sf_Bytes spec) files = (files', Inr (ContentAddressedBlobKey (sf_Bytes spec)))"
    by (rule Blob_Put_writable [OF assms(9)])
  have t: "tx_state (begin_transaction s) = s" "tx_mutatedRevisions (begin_transaction s) = []"
    using valid cloned_state [of s] assms(2) by (simp_all add: begin_transaction_def store_valid_def)
  have "commitSync uc (\<lambda>_. None) ?r ?y (begin_transaction s) =
      Inr ((), (begin_transaction s)\<lparr>tx_state := ?s2, tx_mutatedRevisions := [?key]\<rparr>)"
    using commitSync_fresh [OF a v assms(6), of "begin_transaction s"] assms(7,8) by (simp add: t set_add_def)
  then have "Within uc (\<lambda>k. Blob_Get uc None k files') None None PublishConfirmed (commitSync uc (\<lambda>_. None) ?r ?y) id s = (?s2, Inr ())"
    using stored_revision_intact(1) [OF a v put]
    by (intro grown_Within [OF valid g2(2) grows_trans [OF g1(1) g2(1)] assms(2)]) auto
  moreover have "canonicalSyncRecord ports ?s2 ?y = Inr ?y"
    using canonicalSyncRecord_found [of ?s2 ?y ?y ports] attempted_record_valid(2) [OF a] assms(10) by simp
  ultimately show ?thesis using put assms(10,11) by (simp add: Sync_accepted [OF a])
qed

text \<open>
  C20: A new revision commits. When the store is valid, the source and the parser answer with output that
  passes validation and names no method and path twice, the revision id is a safe file name the contract
  does not have yet, and the context, the disk and the commit do not fail, the sync returns a result; the
  state then holds exactly one revision and one sync record more than before.
\<close>

theorem new_revision_commits:
  assumes "store_valid uc s" and "os_migratedRevisions s = []" and "unicode_case_ok uc"
    and "sync_accepts uc ports command spec revision index" and "distinct (map (spec_operation_key uc) (si_Operations index))"
    and "validateID (vr_ID revision) = None" and "existingRevision s (stored_revision uc command spec revision index) = None"
    and "map_of (os_SyncRecords s) (sr_ID (attempted_record uc ports command spec revision index)) = None"
    and "blob_writable ports (sf_Bytes spec) files" and "port_ctx ports = (\<lambda>_. None)" and "port_outcome ports = PublishConfirmed"
  shows "\<exists>files' e. Sync uc ports command (files, s) =
    ((files', s\<lparr>
        os_Revisions := map_put (revisionKey (sy_ContractID command) (vr_ID revision)) (stored_revision uc command spec revision index) (os_Revisions s),
        os_SyncRecords := map_put (sr_ID (attempted_record uc ports command spec revision index))
          (attempted_record uc ports command spec revision index) (os_SyncRecords s)\<rparr>),
     Some (sync_result_of uc command spec revision index (attempted_record uc ports command spec revision index)), e)"
  by (rule sync_of_new_revision [OF assms])

section \<open>A failure is recorded\<close>

lemma failed_record_valid:
  assumes "validateSyncCommand command = None" and "optional_id (sf_Path spec)" "optional_id (vr_ID revision)" "optional_id (vr_Ref revision)"
    "optional_id (vr_CommitSHA revision)"
  shows "ValidateSyncRecord (failedSyncRecord command spec revision a b (errorSummary m)) = None"
    and "validateID (sr_ID (failedSyncRecord command spec revision a b (errorSummary m))) = None"
proof -
  have c: "canonical (sy_ContractID command)" "canonical (sy_SourceID command)" "optional_id (sy_Trigger command)"
    using assms(1) by (auto simp: validateSyncCommand_def optional_id_def)
  have "canonical ''failure''" by (rule canonical_ascii) simp_all
  then show "ValidateSyncRecord (failedSyncRecord command spec revision a b (errorSummary m)) = None"
    using assms(2-) c canonical_ne [OF c(2)] trigger_id [OF c(3)] plain_id_canonical [OF syncRecordID_plain] errorSummary_props(1) [of m]
    by (intro sync_record_valid) (simp_all add: failedSyncRecord_def SyncResultFailure_def optional_id_def)
  show "validateID (sr_ID (failedSyncRecord command spec revision a b (errorSummary m))) = None"
    by (simp add: failedSyncRecord_def plain_id_valid [OF syncRecordID_plain])
qed

lemma SaveSyncRecord_failure:
  assumes y: "validateID (sr_ID y) = None" "ValidateSyncRecord y = None" and failure: "sr_Result y \<noteq> SyncResultSuccess"
  shows "tx_SaveSyncRecord None y t =
    (case map_of (os_SyncRecords (tx_state t)) (sr_ID y) of
       None \<Rightarrow> Inr (t\<lparr>tx_state := (tx_state t)\<lparr>os_SyncRecords := map_put (sr_ID y) y (os_SyncRecords (tx_state t))\<rparr>\<rparr>)
     | Some existing \<Rightarrow> if SameSyncEvidence existing y then Inr t
         else Inl (Errorf ''sync record %q conflicts with immutable persisted evidence'' [sr_ID y]))"
proof -
  have "first_error [None, validateID (sr_ID y), ValidateSyncRecord y, check_identities
          [(''sync project id'', sr_ProjectID y, True), (''sync source id'', sr_SourceID y, True),
           (''sync revision id'', sr_RevisionID y, True), (''sync trigger'', sr_Trigger y, True),
           (''sync ref'', sr_Ref y, True), (''sync commit sha'', sr_CommitSHA y, True),
           (''sync spec path'', sr_SpecPath y, True)]] = None"
    using y by (simp add: ValidateSyncRecord_def)
  then show ?thesis unfolding tx_SaveSyncRecord_def using failure by (simp add: bind_res_def split: option.split)
qed

text \<open>The state after a failure was reported: its record is added, unless it is there already.\<close>

definition with_failure :: "operational_state \<Rightarrow> sync_record \<Rightarrow> operational_state" where
  "with_failure s y = (if map_of (os_SyncRecords s) (sr_ID y) = None then s\<lparr>os_SyncRecords := map_put (sr_ID y) y (os_SyncRecords s)\<rparr> else s)"

lemma recordFailure_result:
  assumes valid: "store_valid uc s" and settled: "os_migratedRevisions s = []"
    and y: "y = failedSyncRecord command spec revision (time_UTC (port_started ports)) (time_UTC (port_finished ports))
        (errorSummary (Some (port_text ports cause)))" "validateID (sr_ID y) = None" "ValidateSyncRecord y = None"
    and ok: "port_ctx ports = (\<lambda>_. None)" "port_outcome ports = PublishConfirmed"
  shows "\<forall>y0. map_of (os_SyncRecords s) (sr_ID y) = Some y0 \<longrightarrow> SameSyncEvidence y0 y \<Longrightarrow>
      recordFailure uc ports command spec revision kind operation cause (files, s) = ((files, with_failure s y), AppError kind operation cause)"
    and "map_of (os_SyncRecords s) (sr_ID y) = Some y0 \<Longrightarrow> \<not> SameSyncEvidence y0 y \<Longrightarrow>
      \<exists>x. recordFailure uc ports command spec revision kind operation cause (files, s) =
        ((files, s), AppError ErrorTransaction ''record failed sync'' x)"
proof -
  have t: "tx_state (begin_transaction s) = s" "tx_mutatedRevisions (begin_transaction s) = []"
    using valid cloned_state [of s] settled by (simp_all add: begin_transaction_def store_valid_def)
  have failure: "sr_Result y \<noteq> SyncResultSuccess" by (simp add: y(1) failedSyncRecord_def SyncResultFailure_def SyncResultSuccess_def)
  note save = SaveSyncRecord_failure [OF y(2,3) failure, of "begin_transaction s", unfolded t]
  let ?callback = "\<lambda>t. map_sum id (Pair ()) (tx_SaveSyncRecord None y t)"
  let ?within = "Within uc (\<lambda>k. Blob_Get uc None k files) None None PublishConfirmed ?callback id s"
  show "recordFailure uc ports command spec revision kind operation cause (files, s) = ((files, with_failure s y), AppError kind operation cause)"
    if new: "\<forall>y0. map_of (os_SyncRecords s) (sr_ID y) = Some y0 \<longrightarrow> SameSyncEvidence y0 y"
  proof -
    have "?within = (with_failure s y, Inr ()) \<and> (\<exists>y0. map_of (os_SyncRecords (with_failure s y)) (sr_ID y) = Some y0 \<and> SameSyncEvidence y0 y)"
    proof (cases "map_of (os_SyncRecords s) (sr_ID y)")
      case None
      then have g: "grows s (with_failure s y)" "store_valid uc (with_failure s y)"
        using failure by (intro add_sync_record [OF valid None y(2,3)]; simp add: with_failure_def)+
      have "?callback (begin_transaction s) = Inr ((), (begin_transaction s)\<lparr>tx_state := with_failure s y, tx_mutatedRevisions := []\<rparr>)"
        using save None t by (cases "begin_transaction s") (simp add: with_failure_def)
      then have "?within = (with_failure s y, Inr ())" by (rule grown_Within [OF valid g(2,1) settled]) simp
      then show ?thesis using None by (simp add: with_failure_def)
    next
      case (Some y0)
      then have "?callback (begin_transaction s) = Inr ((), begin_transaction s)" using save new by simp
      then have "?within = (s, Inr ())" by (rule commit_of_nothing [OF valid settled])
      then show ?thesis using Some new by (simp add: with_failure_def)
    qed
    then obtain y0 where "?within = (with_failure s y, Inr ())" "canonicalSyncRecord ports (with_failure s y) y = Inr y0"
      using canonicalSyncRecord_found [OF _ _ y(2), of "with_failure s y" _ ports] ok by auto
    then show ?thesis by (simp add: recordFailure_def Let_def ok wrapError_def flip: y(1))
  qed
  show "\<exists>x. recordFailure uc ports command spec revision kind operation cause (files, s) =
      ((files, s), AppError ErrorTransaction ''record failed sync'' x)"
    if "map_of (os_SyncRecords s) (sr_ID y) = Some y0" "\<not> SameSyncEvidence y0 y"
    using save that by (simp add: recordFailure_def Let_def ok wrapError_def Within_def flip: y(1))
qed

text \<open>
  C21: A failure is recorded and nothing else happens. When the source fails, or the parser fails on what
  the source returned, no blob and no revision is written: the state gains one failure record, whose
  message is valid UTF-8 of at most 512 bytes, cut by at most three bytes more than that to keep whole
  characters, and the caller gets the original failure. Repeating the same failure changes nothing. Another
  failure under the same identity leaves the first record in place and is reported as a failed transaction.
\<close>

theorem failed_sync_is_recorded:
  assumes "store_valid uc s" and "os_migratedRevisions s = []" and "validateSyncCommand command = None"
    and "port_fetch ports = (spec0, revision0, fetchError)" and "validateSyncSourceOutput uc spec0 revision0 (fetchError = None) = None"
    and "fetchError = Some cause \<and> (kind, operation, spec, revision) = (ErrorSource, ''fetch source'', spec0, revision0) \<or>
      fetchError = None \<and> port_parse ports spec revision = Inl cause \<and>
        (kind, operation, spec, revision) = (ErrorParse, ''parse source'', bound_spec command spec0, bound_revision command revision0)"
    and "port_ctx ports = (\<lambda>_. None)" and "port_outcome ports = PublishConfirmed"
    and "y = failedSyncRecord command spec revision (time_UTC (port_started ports)) (time_UTC (port_finished ports))
        (errorSummary (Some (port_text ports cause)))"
  shows "(case map_of (os_SyncRecords s) (sr_ID y) of
      None \<Rightarrow> Sync uc ports command (files, s) =
        ((files, s\<lparr>os_SyncRecords := map_put (sr_ID y) y (os_SyncRecords s)\<rparr>), None, Some (AppError kind operation cause))
    | Some y0 \<Rightarrow> \<exists>e. Sync uc ports command (files, s) = ((files, s), None, Some e) \<and>
        (if SameSyncEvidence y0 y then e = AppError kind operation cause else ek e = ErrorTransaction)) \<and>
    utf8_valid (sr_ErrorSummary y) \<and> length (sr_ErrorSummary y) \<le> 512 \<and>
    (509 \<le> length (sr_ErrorSummary y) \<or> sr_ErrorSummary y = TrimSpace (ToValidUTF8 (port_text ports cause) (encode_rune 65533)))"
proof -
  note f = source_output_fields [OF assms(5)]
  have "optional_id (sf_Path spec)" "optional_id (vr_ID revision)" "optional_id (vr_Ref revision)" "optional_id (vr_CommitSHA revision)"
    using f assms(6) by (auto simp: bound_spec_def bound_revision_def)
  then have v: "ValidateSyncRecord y = None" "validateID (sr_ID y) = None"
    unfolding assms(9) by (rule failed_record_valid [OF assms(3)])+
  have run: "Sync uc ports command (files, s) =
      (case recordFailure uc ports command spec revision kind operation cause (files, s) of (store', e) \<Rightarrow> (store', None, Some e))"
    using assms(3-6) by (auto simp: Sync_def Let_def bound_spec_def bound_revision_def)
  note r = recordFailure_result [OF assms(1,2,9) v(2,1) assms(7,8), where files = files]
  have "case map_of (os_SyncRecords s) (sr_ID y) of
      None \<Rightarrow> Sync uc ports command (files, s) =
        ((files, s\<lparr>os_SyncRecords := map_put (sr_ID y) y (os_SyncRecords s)\<rparr>), None, Some (AppError kind operation cause))
    | Some y0 \<Rightarrow> \<exists>e. Sync uc ports command (files, s) = ((files, s), None, Some e) \<and>
        (if SameSyncEvidence y0 y then e = AppError kind operation cause else ek e = ErrorTransaction)"
  proof (cases "map_of (os_SyncRecords s) (sr_ID y)")
    case (Some y0)
    then show ?thesis
      using r(1) [of kind operation] r(2) [of y0 kind operation] by (cases "SameSyncEvidence y0 y") (auto simp: run with_failure_def)
  qed (use r(1) [of kind operation] in \<open>simp add: run with_failure_def\<close>)
  moreover have "sr_ErrorSummary y = errorSummary (Some (port_text ports cause))" by (simp add: assms(9) failedSyncRecord_def)
  ultimately show ?thesis
    using errorSummary_props(1,2) errorSummary_props(3,4) [of "port_text ports cause"] by (metis not_le)
qed

section \<open>Concrete runs\<close>

definition sync_sample_command :: sync_command where
  "sync_sample_command = \<lparr>sy_ContractID = ''petstore'', sy_SourceID = ''git'', sy_Trigger = []\<rparr>"

definition sync_sample_spec :: spec_file where
  "sync_sample_spec = \<lparr>sf_SourceID = [], sf_Path = ''openapi'', sf_Format = ''json'', sf_Bytes = ''{}''\<rparr>"

definition sync_sample_revision :: contract_revision where
  "sync_sample_revision = \<lparr>vr_ID = ''rev-1'', vr_ContractID = [], vr_SourceID = [], vr_SpecBlobKey = [], vr_SpecDigest = [],
     vr_ContractDigest = [], vr_ReviewSnapshot = None, vr_Ref = ''main'', vr_CommitSHA = ''abc'', vr_Version = [],
     vr_AuthorName = [], vr_AuthorEmail = [], vr_Message = []\<rparr>"

definition sync_sample_ports :: "err \<Rightarrow> publish_outcome \<Rightarrow> gotime \<Rightarrow> sync_ports" where
  "sync_sample_ports fetchError outcome now =
     \<lparr>port_fetch = (sync_sample_spec, sync_sample_revision, fetchError), port_parse = (\<lambda>_ _. Inr (fixed_query_index [''cat''])),
      port_heap = [], port_text = (\<lambda>_. ''unreachable''), port_started = now, port_finished = now, port_ctx = (\<lambda>_. None),
      port_write = WriteConfirmed, port_outcome = outcome, port_legacy = (\<lambda>_. Inl ErrNotExist), port_cache = None\<rparr>"

abbreviation sync_sample_record :: "gotime \<Rightarrow> sync_record" where
  "sync_sample_record now \<equiv> attempted_record ascii_case (sync_sample_ports None PublishConfirmed now) sync_sample_command sync_sample_spec
     sync_sample_revision (fixed_query_index [''cat''])"

lemma sync_sample_ids: "canonical ''petstore''" "canonical ''git''" "canonical ''openapi''" "canonical ''json''" "canonical ''rev-1''"
    "canonical ''main''" "canonical ''abc''"
  by (rule canonical_ascii; simp)+

lemma sync_sample_inputs: "validateSyncCommand sync_sample_command = None"
    "validateSyncSourceOutput ascii_case sync_sample_spec sync_sample_revision complete = None"
  using sync_sample_ids
  by (simp_all add: validateSyncCommand_def sync_sample_command_def validateSyncSourceOutput_def validatePortSpecFile_def
      validatePortRevision_def sync_sample_spec_def sync_sample_revision_def)

lemma sync_sample_accepts:
  "sync_accepts ascii_case (sync_sample_ports None outcome now) sync_sample_command sync_sample_spec sync_sample_revision (fixed_query_index [''cat''])"
  using sync_sample_inputs fixed_query_validates [of "[''cat'']"] by (simp add: sync_accepts_def sync_sample_ports_def)

lemma sync_sample_fresh: "os_migratedRevisions newOperationalState = []"
    "distinct (map (spec_operation_key uc) (si_Operations (fixed_query_index [''cat''])))"
    "validateID (vr_ID sync_sample_revision) = None" "existingRevision newOperationalState r = None"
    "map_of (os_SyncRecords newOperationalState) k = None" "blob_writable (sync_sample_ports fe outcome now) data Map.empty"
    "port_ctx (sync_sample_ports fe outcome now) = (\<lambda>_. None)" "port_outcome (sync_sample_ports fe outcome now) = outcome"
  using sample_valid_ids(3)
  by (simp_all add: newOperationalState_def existingRevision_def Let_def blob_writable_def fixed_query_index_fields sync_sample_ports_def
      sync_sample_revision_def)

lemma sync_sample_run:
  "\<exists>files' s' e. Sync ascii_case (sync_sample_ports None PublishConfirmed now) sync_sample_command (Map.empty, newOperationalState) =
     ((files', s'), Some (sync_result_of ascii_case sync_sample_command sync_sample_spec sync_sample_revision (fixed_query_index [''cat''])
       (sync_sample_record now)), e)"
  using sync_of_new_revision [OF store_valid_new sync_sample_fresh(1) ascii_case_ok sync_sample_accepts sync_sample_fresh(2-)] by blast

theorem new_revision_commits_witness:
  "\<exists>files' s' e. Sync ascii_case (sync_sample_ports None PublishConfirmed unix_epoch) sync_sample_command (Map.empty, newOperationalState) =
     ((files', s'), Some (sync_result_of ascii_case sync_sample_command sync_sample_spec sync_sample_revision (fixed_query_index [''cat''])
       (sync_sample_record unix_epoch)), e)"
  using new_revision_commits [OF store_valid_new sync_sample_fresh(1) ascii_case_ok sync_sample_accepts sync_sample_fresh(2-)] by blast

theorem sync_stores_intact_evidence_witness:
  "\<exists>files' s' res. store_valid ascii_case s' \<and>
     ContractRevision ascii_case (\<lambda>k. Blob_Get ascii_case None k files') None None (Inr s') ''petstore'' ''rev-1'' = Inr res \<and>
     vr_Ref res = ''abc''"
proof -
  obtain files' s' e where run: "Sync ascii_case (sync_sample_ports None PublishConfirmed unix_epoch) sync_sample_command
      (Map.empty, newOperationalState) = ((files', s'), Some (sync_result_of ascii_case sync_sample_command sync_sample_spec
        sync_sample_revision (fixed_query_index [''cat'']) (sync_sample_record unix_epoch)), e)"
    using sync_sample_run by blast
  have "validateID ''petstore'' = None" using sample_valid_ids by simp
  moreover have "sy_ContractID sync_sample_command = ''petstore''" "vr_ID sync_sample_revision = ''rev-1''"
    by (simp_all add: sync_sample_command_def sync_sample_revision_def)
  moreover have "vr_Ref (stored_revision ascii_case sync_sample_command sync_sample_spec sync_sample_revision (fixed_query_index [''cat''])) = ''abc''"
    by (simp add: stored_revision_def syncRevision_def Let_def bound_revision_def canonicalRevisionRef_def sync_sample_revision_def)
  ultimately show ?thesis
    using sync_stores_intact_evidence [OF store_valid_new run]
    by (intro exI [of _ files'] exI [of _ s'] exI [of _ "stored_revision ascii_case sync_sample_command sync_sample_spec
        sync_sample_revision (fixed_query_index [''cat''])"]) (simp add: sync_result_of_def)
qed

text \<open>The retry runs a day later and still returns the record of the first run.\<close>

theorem interrupted_sync_settles_on_retry_witness:
  "\<exists>files' s' res e'. Sync ascii_case (sync_sample_ports None PublishConfirmed (time_Add unix_epoch 86400000000000)) sync_sample_command (files', s') =
     ((files', s'), Some res, e') \<and> res_Record res = sync_sample_record unix_epoch"
proof -
  obtain files' s' e where run: "Sync ascii_case (sync_sample_ports None PublishConfirmed unix_epoch) sync_sample_command
      (Map.empty, newOperationalState) = ((files', s'), Some (sync_result_of ascii_case sync_sample_command sync_sample_spec
        sync_sample_revision (fixed_query_index [''cat'']) (sync_sample_record unix_epoch)), e)"
    using sync_sample_run by blast
  let ?later = "sync_sample_ports None PublishConfirmed (time_Add unix_epoch 86400000000000)"
  have p: "port_fetch ?later = port_fetch (sync_sample_ports None PublishConfirmed unix_epoch)"
    "port_parse ?later = port_parse (sync_sample_ports None PublishConfirmed unix_epoch)"
    "port_heap ?later = port_heap (sync_sample_ports None PublishConfirmed unix_epoch)"
    "port_ctx ?later = (\<lambda>_. None)" "port_outcome ?later = PublishConfirmed"
    by (simp_all add: sync_sample_ports_def)
  obtain res e' where "Sync ascii_case ?later sync_sample_command (files', s') = ((files', s'), Some res, e')"
    "res = sync_result_of ascii_case sync_sample_command sync_sample_spec sync_sample_revision (fixed_query_index [''cat''])
        (sync_sample_record unix_epoch)"
    using interrupted_sync_settles_on_retry [OF store_valid_new run _ p] by blast
  moreover from this have "res_Record res = sync_sample_record unix_epoch" by (simp add: sync_result_of_def)
  ultimately show ?thesis by blast
qed

theorem failed_sync_is_recorded_witness:
  "\<exists>s'. Sync ascii_case (sync_sample_ports (Some ErrNotExist) PublishConfirmed unix_epoch) sync_sample_command (Map.empty, newOperationalState) =
     ((Map.empty, s'), None, Some (AppError ErrorSource ''fetch source'' ErrNotExist)) \<and> length (os_SyncRecords s') = 1"
  using failed_sync_is_recorded [OF store_valid_new _ sync_sample_inputs(1) _ sync_sample_inputs(2),
      of "sync_sample_ports (Some ErrNotExist) PublishConfirmed unix_epoch" "Some ErrNotExist" ErrNotExist ErrorSource "''fetch source''"
        sync_sample_spec sync_sample_revision _ Map.empty]
  by (simp add: sync_sample_ports_def newOperationalState_def)

end
