(* ===== verification/Check_Service.thy ===== *)
theory Check_Service
  imports Sync_Service
begin

text \<open>
  \<open>application/check.go\<close>: the offline review of a candidate against a target and, when asked for, a
  released baseline. The loader of inputs and the builder of snapshots are ports; a service whose port
  is missing is represented with \<open>None\<close>.
\<close>

record review_input_locator =
  loc_File :: string
  loc_GitRef :: string

record check_request =
  ck_ContractID :: string
  ck_SpecPath :: string
  ck_Target :: review_input_locator
  ck_Candidate :: review_input_locator
  ck_Release :: "review_input_locator option"
  ck_Policy :: effective_policy
  ck_EvaluatedAt :: gotime
  ck_EngineVersion :: string

record check_service =
  cks_Inputs :: "(string \<Rightarrow> review_input_locator \<Rightarrow> (spec_file \<times> contract_revision) result) option"
  cks_Snapshots :: "(string \<Rightarrow> spec_file \<Rightarrow> contract_revision \<Rightarrow> contract_snapshot result) option"

definition NewCheckService :: "check_service \<Rightarrow> app_error + check_service" where
  "NewCheckService dependencies =
     (if cks_Inputs dependencies = None
        then Inl (wrapError ErrorDependency ''construct check service'' (Errorf ''input loader is required'' []))
      else if cks_Snapshots dependencies = None
        then Inl (wrapError ErrorDependency ''construct check service'' (Errorf ''snapshot builder is required'' []))
      else Inr dependencies)"

definition validateCheckLocator :: "string \<Rightarrow> review_input_locator \<Rightarrow> err" where
  "validateCheckLocator role locator =
     (let hasFile = (loc_File locator \<noteq> []); hasRef = (loc_GitRef locator \<noteq> []) in
      if \<not> hasFile \<and> \<not> hasRef then Some (Errorf ''%s locator is required'' [role])
      else if hasFile \<and> hasRef then Some (Errorf ''%s locator must set exactly one of file or git ref'' [role])
      else if hasFile then ValidateCanonicalIdentity (role @ '' file'') (loc_File locator) False
      else if hasRef then ValidateCanonicalIdentity (role @ '' git ref'') (loc_GitRef locator) False
      else None)"

definition validateCheck :: "check_service \<Rightarrow> check_request \<Rightarrow> err" where
  "validateCheck service request = first_error
     [fail_if (cks_Inputs service = None) (Errorf ''input loader is required'' []),
      fail_if (cks_Snapshots service = None) (Errorf ''snapshot builder is required'' []),
      ValidateCanonicalIdentity ''contract id'' (ck_ContractID request) False,
      ValidateCanonicalIdentity ''spec path'' (ck_SpecPath request) False,
      validateCheckLocator ''target'' (ck_Target request),
      validateCheckLocator ''candidate'' (ck_Candidate request),
      (case ck_Release request of None \<Rightarrow> None | Some locator \<Rightarrow> validateCheckLocator ''release'' locator),
      fail_if (ep_Layers (ck_Policy request) = []) (Errorf ''policy is required'' []),
      fail_if (time_IsZero (ck_EvaluatedAt request)) (Errorf ''evaluation time is required'' []),
      ValidateCanonicalIdentity ''engine version'' (ck_EngineVersion request) False]"

text \<open>\<open>wrapped\<close> gives the error of a step the kind and the operation that \<open>wrapError\<close> adds.\<close>

definition wrapped :: "string \<Rightarrow> string \<Rightarrow> 'a result \<Rightarrow> app_error + 'a" where
  "wrapped kind operation r = map_sum (wrapError kind operation) id r"

definition checked :: "string \<Rightarrow> string \<Rightarrow> err \<Rightarrow> app_error + 'a \<Rightarrow> app_error + 'a" where
  "checked kind operation e k = (case e of None \<Rightarrow> k | Some x \<Rightarrow> Inl (wrapError kind operation x))"

definition loadSnapshot ::
    "unicode_case \<Rightarrow> check_service \<Rightarrow> check_request \<Rightarrow> string \<Rightarrow> review_input_locator \<Rightarrow> app_error + contract_snapshot" where
  "loadSnapshot uc service request role locator =
     (case wrapped ErrorInput (''load '' @ role) (the (cks_Inputs service) (ck_SpecPath request) locator) of
        Inl e \<Rightarrow> Inl e
      | Inr (file, revision) \<Rightarrow>
        checked ErrorInput (''validate '' @ role @ '' input'') (validatePortSpecFile file False)
        (checked ErrorInput (''validate '' @ role @ '' revision'') (validatePortRevision uc revision True)
        (checked ErrorInput (''validate '' @ role @ '' revision'')
          (fail_if (vr_ContractID revision \<noteq> [] \<and> vr_ContractID revision \<noteq> ck_ContractID request)
            (Errorf ''revision contract id does not match review contract id'' []))
        (case wrapped ErrorEvaluation (''build '' @ role) (the (cks_Snapshots service) (ck_ContractID request) file revision) of
           Inl e \<Rightarrow> Inl e
         | Inr snapshot \<Rightarrow>
           checked ErrorEvaluation (''validate '' @ role @ '' snapshot'') (ValidateContractSnapshot uc snapshot)
           (checked ErrorEvaluation (''validate '' @ role @ '' snapshot'')
             (fail_if (cs_ContractID snapshot \<noteq> ck_ContractID request \<or> cs_RevisionID snapshot \<noteq> vr_ID revision)
               (Errorf ''snapshot identity does not match its review input'' []))
           (Inr snapshot))))))"

definition Run :: "unicode_case \<Rightarrow> check_service \<Rightarrow> check_request \<Rightarrow> (go_error + app_error) + review_report" where
  "Run uc service request =
     (case validateCheck service request of
        Some e \<Rightarrow> Inl (Inl e)
      | None \<Rightarrow>
     (case loadSnapshot uc service request ''target'' (ck_Target request) of
        Inl e \<Rightarrow> Inl (Inr e)
      | Inr target \<Rightarrow>
     (case loadSnapshot uc service request ''candidate'' (ck_Candidate request) of
        Inl e \<Rightarrow> Inl (Inr e)
      | Inr candidate \<Rightarrow>
     (case (case ck_Release request of
              None \<Rightarrow> Inr None
            | Some locator \<Rightarrow> map_sum id Some (loadSnapshot uc service request ''release'' locator)) of
        Inl e \<Rightarrow> Inl (Inr e)
      | Inr release \<Rightarrow>
        map_sum (\<lambda>e. Inr (wrapError ErrorEvaluation ''evaluate review'' e)) id
          (EvaluateReview uc \<lparr>rq_ContractID = ck_ContractID request, rq_Target = target, rq_Candidate = candidate,
             rq_Release = release, rq_Policy = ck_Policy request, rq_EvaluatedAt = ck_EvaluatedAt request,
             rq_EngineVersion = ck_EngineVersion request\<rparr>)))))"

section \<open>What a passing check shows\<close>

lemma wrapped_Inr [simp]: "wrapped kind operation r = Inr x \<longleftrightarrow> r = Inr x"
  by (cases r) (simp_all add: wrapped_def)

lemma checked_Inr [simp]: "checked kind operation e k = Inr x \<longleftrightarrow> e = None \<and> k = Inr x"
  by (cases e) (simp_all add: checked_def)

lemma case_sum_Inr: "(case r of Inl e \<Rightarrow> Inl e | Inr y \<Rightarrow> g y) = Inr x \<longleftrightarrow> (\<exists>y. r = Inr y \<and> g y = Inr x)"
  by (cases r) simp_all

lemma loadSnapshot_Inr:
  assumes "loadSnapshot uc service request role locator = Inr snapshot"
  shows "snapshot_ok uc snapshot" and "cs_ContractID snapshot = ck_ContractID request"
    and "\<exists>file revision. the (cks_Inputs service) (ck_SpecPath request) locator = Inr (file, revision) \<and>
      the (cks_Snapshots service) (ck_ContractID request) file revision = Inr snapshot \<and> cs_RevisionID snapshot = vr_ID revision"
  using assms by (auto simp: loadSnapshot_def case_sum_Inr)

lemma Run_Inr:
  assumes "Run uc service request = Inr report"
  obtains target candidate release where "validateCheck service request = None"
    "loadSnapshot uc service request ''target'' (ck_Target request) = Inr target"
    "loadSnapshot uc service request ''candidate'' (ck_Candidate request) = Inr candidate"
    "ck_Release request = None \<and> release = None \<or>
     (\<exists>locator r. ck_Release request = Some locator \<and> release = Some r \<and> loadSnapshot uc service request ''release'' locator = Inr r)"
    "EvaluateReview uc \<lparr>rq_ContractID = ck_ContractID request, rq_Target = target, rq_Candidate = candidate,
       rq_Release = release, rq_Policy = ck_Policy request, rq_EvaluatedAt = ck_EvaluatedAt request,
       rq_EngineVersion = ck_EngineVersion request\<rparr> = Inr report"
proof -
  obtain target candidate release where l: "validateCheck service request = None"
    "loadSnapshot uc service request ''target'' (ck_Target request) = Inr target"
    "loadSnapshot uc service request ''candidate'' (ck_Candidate request) = Inr candidate"
    "(case ck_Release request of None \<Rightarrow> Inr None
      | Some locator \<Rightarrow> map_sum id Some (loadSnapshot uc service request ''release'' locator)) = (Inr release :: app_error + contract_snapshot option)"
    "map_sum (\<lambda>e. Inr (wrapError ErrorEvaluation ''evaluate review'' e) :: go_error + app_error) id
      (EvaluateReview uc \<lparr>rq_ContractID = ck_ContractID request, rq_Target = target, rq_Candidate = candidate,
       rq_Release = release, rq_Policy = ck_Policy request, rq_EvaluatedAt = ck_EvaluatedAt request,
       rq_EngineVersion = ck_EngineVersion request\<rparr>) = Inr report"
    using assms unfolding Run_def by (auto split: option.splits sum.splits)
  have "ck_Release request = None \<and> release = None \<or>
     (\<exists>locator r. ck_Release request = Some locator \<and> release = Some r \<and> loadSnapshot uc service request ''release'' locator = Inr r)"
    using l(4) by (cases "ck_Release request") (auto split: sum.splits simp: map_sum_def)
  moreover have "EvaluateReview uc \<lparr>rq_ContractID = ck_ContractID request, rq_Target = target, rq_Candidate = candidate,
       rq_Release = release, rq_Policy = ck_Policy request, rq_EvaluatedAt = ck_EvaluatedAt request,
       rq_EngineVersion = ck_EngineVersion request\<rparr> = Inr report"
    using l(5) by (auto split: sum.splits simp: map_sum_def)
  ultimately show thesis using that l(1-3) by blast
qed

text \<open>
  C22: A passing check proves compatibility of what was loaded. If every breaking rule is at level fail in
  some layer of the reported policy that grants no exceptions, and the snapshots loaded for the target, the
  candidate and the named release are plain, that is no path of an operation contains a space and no location
  of a parameter a colon, a report that passes means that the snapshot built from the candidate input keeps
  every promise of the snapshot built from the target input and, when a release was named, of the one built
  from the release input; each snapshot is valid and belongs to the requested contract; and a policy that
  requires a release baseline was given one. The condition on the snapshots is needed: see
  \<open>ambiguous_key_hides_removal\<close>.
\<close>

theorem passing_check_means_compatible:
  assumes "Run uc service request = Inr report" and "rr_Verdict report = VerdictPass"
    and "\<forall>s. loadSnapshot uc service request ''target'' (ck_Target request) = Inr s \<or>
      loadSnapshot uc service request ''candidate'' (ck_Candidate request) = Inr s \<or>
      (\<exists>locator. ck_Release request = Some locator \<and> loadSnapshot uc service request ''release'' locator = Inr s) \<longrightarrow>
      plain_surface s"
    and "\<forall>rule \<in> set breaking_rules. \<exists>layer \<in> set (elems (pp_Layers (rr_EffectivePolicy report))).
      elems (lp_Exceptions layer) = [] \<and> \<lparr>rp_RuleID = rule, rp_Level = RuleLevelFail\<rparr> \<in> set (elems (lp_Rules layer))"
  shows "\<exists>target candidate. loadSnapshot uc service request ''target'' (ck_Target request) = Inr target \<and>
    loadSnapshot uc service request ''candidate'' (ck_Candidate request) = Inr candidate \<and>
    surface_compatible target candidate \<and>
    (\<forall>locator. ck_Release request = Some locator \<longrightarrow>
      (\<exists>release. loadSnapshot uc service request ''release'' locator = Inr release \<and> surface_compatible release candidate \<and>
         ValidateContractSnapshot uc release = None \<and> cs_ContractID release = ck_ContractID request)) \<and>
    (ep_RequireReleaseBaseline (ck_Policy request) \<longrightarrow> ck_Release request \<noteq> None) \<and>
    (\<forall>s \<in> {target, candidate}. ValidateContractSnapshot uc s = None \<and> cs_ContractID s = ck_ContractID request)"
proof (rule Run_Inr [OF assms(1)], goal_cases)
  case (1 target candidate release)
  obtain merged policy projection digest where e: "canonicalReviewPolicy merged = Inr (policy, projection, digest)"
    "ep_RequireReleaseBaseline merged = ep_RequireReleaseBaseline (ck_Policy request)" "ep_RequireReleaseBaseline merged \<longrightarrow> release \<noteq> None"
    "rr_EffectivePolicy report = projection"
    "rr_Comparisons report = Slice (evaluateComparison ComparisonPullRequest target candidate policy (time_UTC (ck_EvaluatedAt request)) #
       (case release of None \<Rightarrow> []
        | Some r \<Rightarrow> [evaluateComparison ComparisonReleaseImpact r candidate policy (time_UTC (ck_EvaluatedAt request))]))"
    "rr_Verdict report = (if \<exists>c \<in> set (elems (rr_Comparisons report)). po_Verdict (cr_Policy c) = VerdictFail then VerdictFail else VerdictPass)"
    by (rule EvaluateReview_Inr [OF 1(5), unfolded review_request.select_convs]) blast
  have layers: "elems (pp_Layers (rr_EffectivePolicy report)) = map projectPolicyLayer (ep_Layers policy)"
    using e(1,4) by (auto simp: canonicalReviewPolicy_Inr Let_def)
  have nofail: "\<forall>c \<in> set (elems (rr_Comparisons report)). po_Verdict (cr_Policy c) \<noteq> VerdictFail"
    using assms(2) unfolding e(6) by (auto simp: VerdictPass_def VerdictFail_def split: if_splits)
  have compatible: "surface_compatible b candidate"
    if "evaluateComparison kind b candidate policy (time_UTC (ck_EvaluatedAt request)) \<in> set (elems (rr_Comparisons report))"
      "loadSnapshot uc service request role locator = Inr b" "plain_surface b" for kind b role locator
    using that assms(3,4) nofail 1(3) unfolding layers
    by (intro passing_comparison_compatible [OF loadSnapshot_Inr(1) loadSnapshot_Inr(1)]) auto
  have "surface_compatible target candidate" using compatible [OF _ 1(2), of ComparisonPullRequest] e(5) assms(3) 1(2) by simp
  moreover have "\<exists>r. loadSnapshot uc service request ''release'' locator = Inr r \<and> surface_compatible r candidate \<and>
      ValidateContractSnapshot uc r = None \<and> cs_ContractID r = ck_ContractID request"
    if l: "ck_Release request = Some locator" for locator
  proof -
    obtain r where r: "release = Some r" "loadSnapshot uc service request ''release'' locator = Inr r" using 1(4) l by auto
    then show ?thesis using compatible [OF _ r(2), of ComparisonReleaseImpact] e(5) assms(3) l loadSnapshot_Inr(1,2) [OF r(2)] by auto
  qed
  moreover have "ep_RequireReleaseBaseline (ck_Policy request) \<longrightarrow> ck_Release request \<noteq> None" using e(2,3) 1(4) by auto
  ultimately show ?case using 1(2,3) loadSnapshot_Inr(1,2) by fastforce
qed

text \<open>A check of \<open>POST /pets\<close> being added, against the target and the release.\<close>

definition check_sample_service :: check_service where
  "check_sample_service = \<lparr>cks_Inputs = Some (\<lambda>path locator. Inr
       (\<lparr>sf_SourceID = [], sf_Path = path, sf_Format = [], sf_Bytes = loc_File locator\<rparr>,
        \<lparr>vr_ID = ''rev-1'', vr_ContractID = [], vr_SourceID = [], vr_SpecBlobKey = [], vr_SpecDigest = [], vr_ContractDigest = [],
         vr_ReviewSnapshot = None, vr_Ref = [], vr_CommitSHA = [], vr_Version = [], vr_AuthorName = [], vr_AuthorEmail = [], vr_Message = []\<rparr>)),
     cks_Snapshots = Some (\<lambda>_ file _. Inr (if sf_Bytes file = ''head'' then plain_baseline else plain_candidate))\<rparr>"

definition check_sample_request :: check_request where
  "check_sample_request = \<lparr>ck_ContractID = ''petstore'', ck_SpecPath = ''openapi'', ck_Target = \<lparr>loc_File = ''base'', loc_GitRef = []\<rparr>,
     ck_Candidate = \<lparr>loc_File = ''head'', loc_GitRef = []\<rparr>, ck_Release = Some \<lparr>loc_File = ''released'', loc_GitRef = []\<rparr>,
     ck_Policy = \<lparr>ep_Layers = [default_layer ''local''], ep_RequireReleaseBaseline = False\<rparr>,
     ck_EvaluatedAt = unix_epoch, ck_EngineVersion = ''v1''\<rparr>"

lemma check_sample_fields:
  "ck_ContractID check_sample_request = ''petstore''" "ck_Target check_sample_request = \<lparr>loc_File = ''base'', loc_GitRef = []\<rparr>"
  "ck_Candidate check_sample_request = \<lparr>loc_File = ''head'', loc_GitRef = []\<rparr>"
  "ck_Release check_sample_request = Some \<lparr>loc_File = ''released'', loc_GitRef = []\<rparr>"
  "ck_Policy check_sample_request = \<lparr>ep_Layers = [default_layer ''local''], ep_RequireReleaseBaseline = False\<rparr>"
  "ck_EvaluatedAt check_sample_request = unix_epoch" "ck_EngineVersion check_sample_request = ''v1''"
  by (simp_all add: check_sample_request_def)

lemma check_sample_load:
  "loadSnapshot ascii_case check_sample_service check_sample_request role locator =
     Inr (if loc_File locator = ''head'' then plain_baseline else plain_candidate)"
proof -
  have "canonical ''rev-1''" "canonical ''openapi''" by (rule canonical_ascii; simp)+
  moreover have "cs_RevisionID plain_baseline = ''rev-1''" "cs_RevisionID plain_candidate = ''rev-1''"
    by (simp_all add: plain_baseline_def plain_candidate_def verbs_snapshot_def NewContractSnapshot_def Let_def)
  ultimately show ?thesis
    using plain_props(1,2) sample_contract_ids
    by (simp add: loadSnapshot_def wrapped_def checked_def check_sample_service_def check_sample_request_def fail_if_def
        option.case_eq_if validatePortSpecFile_def validatePortRevision_def)
qed

lemma check_sample_valid: "validateCheck check_sample_service check_sample_request = None"
proof -
  have "canonical ''petstore''" "canonical ''openapi''" "canonical ''base''" "canonical ''head''" "canonical ''released''" "canonical ''v1''"
    by (rule canonical_ascii; simp)+
  then show ?thesis
    by (simp add: validateCheck_def check_sample_service_def check_sample_request_def validateCheckLocator_def Let_def
        unix_epoch_def time_IsZero_def default_layer_def)
qed

theorem passing_check_means_compatible_witness:
  "\<exists>report. Run ascii_case check_sample_service check_sample_request = Inr report \<and> rr_Verdict report = VerdictPass \<and>
     surface_compatible plain_candidate plain_baseline"
proof -
  obtain report where r: "EvaluateReview ascii_case sample_request = Inr report"
    "\<forall>c \<in> set (elems (rr_Comparisons report)). po_Verdict (cr_Policy c) = VerdictPass"
    "elems (pp_Layers (rr_EffectivePolicy report)) = [projectPolicyLayer (canon_layer default_repository)]"
    using sample_review sample_comparison_passes by fastforce
  have run: "Run ascii_case check_sample_service check_sample_request = Inr report"
    using r(1) unfolding sample_request_of_def by (simp add: Run_def check_sample_valid check_sample_load check_sample_fields)
  have pass: "rr_Verdict report = VerdictPass"
    by (rule EvaluateReview_Inr [OF r(1)]) (use r(2) in \<open>auto simp: VerdictPass_def VerdictFail_def\<close>)
  have "surface_compatible plain_candidate plain_baseline"
    using passing_check_means_compatible [OF run pass] plain_props(5,6) r(3) sample_layer_exceptions default_repository_rules
    by (auto simp: check_sample_load) (auto simp: check_sample_request_def)
  then show ?thesis using run pass by blast
qed

end
