(* ===== verification/Catalog_Identity.thy ===== *)
theory Catalog_Identity
  imports Spec_Validation
begin

text \<open>
  The index of a catalog (\<open>domain/catalog.go\<close>), its keys and paths, the identities of its operations
  and schemas (\<open>domain/catalog_identity.go\<close>) and the validator that admits an index
  (\<open>domain/catalog_validation.go\<close>). A detail identity is a digest of length-prefixed fields; the
  validator keeps the preimage of every identity it has seen and refuses a collision.
\<close>

section \<open>Data\<close>

definition maxCatalogDocuments :: nat where "maxCatalogDocuments = 256"

record catalog_document_index =
  cx_Key :: string
  cx_SourcePath :: string
  cx_Index :: spec_index

record catalog_index =
  ci_CatalogID :: string
  ci_RevisionID :: string
  ci_Title :: string
  ci_Branding :: docs_branding
  ci_ProfileID :: string
  ci_Documents :: "catalog_document_index list"

definition rv_catalog_document_index :: "catalog_document_index \<Rightarrow> rvalue" where
  "rv_catalog_document_index x = RStruct
     [(''Key'', RStr (cx_Key x)), (''SourcePath'', RStr (cx_SourcePath x)), (''Index'', rv_spec_index (cx_Index x))]"

definition rv_catalog_index :: "catalog_index \<Rightarrow> rvalue" where
  "rv_catalog_index x = RStruct
     [(''CatalogID'', RStr (ci_CatalogID x)), (''RevisionID'', RStr (ci_RevisionID x)), (''Title'', RStr (ci_Title x)),
      (''Branding'', rv_docs_branding (ci_Branding x)), (''ProfileID'', RStr (ci_ProfileID x)),
      (''Documents'', RSeq (map rv_catalog_document_index (ci_Documents x)))]"

section \<open>Keys and source paths\<close>

definition isLowerCatalogKeyCharacter :: "char \<Rightarrow> bool" where
  "isLowerCatalogKeyCharacter c \<longleftrightarrow> (97 \<le> bv c \<and> bv c \<le> 122) \<or> (48 \<le> bv c \<and> bv c \<le> 57)"

definition validateCatalogKey :: "string \<Rightarrow> string \<Rightarrow> err" where
  "validateCatalogKey name v = and_then (ValidateCanonicalIdentity name v False)
     (if 64 < length v \<or> \<not> isLowerCatalogKeyCharacter (hd v) \<or> \<not> isLowerCatalogKeyCharacter (last v)
        then Some (Errorf ''%s is invalid'' [name])
      else fail_if (list_ex (\<lambda>r. (r < 97 \<or> 122 < r) \<and> (r < 48 \<or> 57 < r) \<and> r \<noteq> 46 \<and> r \<noteq> 95 \<and> r \<noteq> 45) (runes v))
        (Errorf ''%s is invalid'' [name]))"

definition ValidateCatalogID :: "string \<Rightarrow> err" where
  "ValidateCatalogID v = validateCatalogKey ''catalog id'' v"

definition ValidateCatalogDocumentKey :: "string \<Rightarrow> err" where
  "ValidateCatalogDocumentKey v = validateCatalogKey ''catalog document key'' v"

definition ValidateCatalogPublicationKey :: "string \<Rightarrow> err" where
  "ValidateCatalogPublicationKey v = validateCatalogKey ''catalog publication key'' v"

definition validateCatalogSourcePath :: "string \<Rightarrow> string \<Rightarrow> err" where
  "validateCatalogSourcePath name v = and_then (ValidateCanonicalIdentity name v False)
     (fail_if (has_prefix ''/'' v \<or> contains_char v (CHR 0x5C) \<or> v = ''.'' \<or> path_clean v \<noteq> v \<or> has_prefix ''../'' v)
        (Errorf ''%s is invalid'' [name]))"

section \<open>Detail identities\<close>

definition detailIdentityDomain :: string where
  "detailIdentityDomain = ''manja.renderer.detail.v1''"

text \<open>\<open>uint32(len(field))\<close> keeps the length modulo \<open>2\<^sup>3\<^sup>2\<close>.\<close>

definition detailPreimage :: "string list \<Rightarrow> string" where
  "detailPreimage parts = concat (map (\<lambda>part. be_bytes 4 (length part mod 2 ^ 32) @ part) parts)"

definition detailIDFromPreimage :: "string \<Rightarrow> (string \<Rightarrow> string) \<Rightarrow> string" where
  "detailIDFromPreimage preimage hasher = ''detail-sha256-'' @ hex_encode (hasher preimage)"

definition newOperationDetailIdentity ::
    "unicode_case \<Rightarrow> string \<Rightarrow> string \<Rightarrow> string \<Rightarrow> string \<Rightarrow> string \<Rightarrow> fixed_query_parameter list \<Rightarrow> (string \<Rightarrow> string) \<Rightarrow>
     (string \<times> string) result" where
  "newOperationDetailIdentity uc catalogID documentKey givenMethod literalPath requestTarget fixed hasher =
     require (first_error [validateCatalogKey ''catalog id'' catalogID, validateCatalogKey ''document key'' documentKey])
      (let method = ToUpper uc givenMethod in
       require (first_error
         [fail_if (method = []) (Errorf ''operation method is required'' []),
          fail_if (list_ex (\<lambda>r. r < 65 \<or> 90 < r) (runes method)) (Errorf ''operation method is invalid'' []),
          ValidateOperationRequestTarget literalPath requestTarget fixed])
        (let identityTarget = (if requestTarget \<noteq> [] then requestTarget else literalPath);
             preimage = detailPreimage [detailIdentityDomain, catalogID, documentKey, ''operation'', method, identityTarget]
         in Inr (detailIDFromPreimage preimage hasher, preimage)))"

definition newSchemaDetailIdentity :: "string \<Rightarrow> string \<Rightarrow> string \<Rightarrow> (string \<Rightarrow> string) \<Rightarrow> (string \<times> string) result" where
  "newSchemaDetailIdentity catalogID documentKey literalName hasher =
     require (first_error
       [validateCatalogKey ''catalog id'' catalogID, validateCatalogKey ''document key'' documentKey,
        ValidateCanonicalIdentity ''schema name'' literalName False])
      (let preimage = detailPreimage [detailIdentityDomain, catalogID, documentKey, ''schema'', literalName]
       in Inr (detailIDFromPreimage preimage hasher, preimage))"

definition NewOperationDetailIDWithRequestTarget ::
    "unicode_case \<Rightarrow> string \<Rightarrow> string \<Rightarrow> string \<Rightarrow> string \<Rightarrow> string \<Rightarrow> fixed_query_parameter list \<Rightarrow> string result" where
  "NewOperationDetailIDWithRequestTarget uc catalogID documentKey method literalPath requestTarget fixed =
     bind_res (newOperationDetailIdentity uc catalogID documentKey method literalPath requestTarget fixed Sum256)
       (\<lambda>(identity, _). Inr identity)"

definition NewOperationDetailID :: "unicode_case \<Rightarrow> string \<Rightarrow> string \<Rightarrow> string \<Rightarrow> string \<Rightarrow> string result" where
  "NewOperationDetailID uc catalogID documentKey method literalPath =
     bind_res (newOperationDetailIdentity uc catalogID documentKey method literalPath [] [] Sum256) (\<lambda>(identity, _). Inr identity)"

definition NewSchemaDetailID :: "string \<Rightarrow> string \<Rightarrow> string \<Rightarrow> string result" where
  "NewSchemaDetailID catalogID documentKey literalName =
     bind_res (newSchemaDetailIdentity catalogID documentKey literalName Sum256) (\<lambda>(identity, _). Inr identity)"

section \<open>Validation of an index\<close>

definition registerDetailIdentity :: "(string, string) go_map \<Rightarrow> string \<Rightarrow> string \<Rightarrow> (string, string) go_map result" where
  "registerDetailIdentity identities identity preimage =
     (if (case map_of identities identity of None \<Rightarrow> False | Some existing \<Rightarrow> existing \<noteq> preimage)
        then Inl (Errorf ''detail identity collision for %s'' [identity])
      else Inr (map_put identity preimage identities))"

text \<open>The loops over operations and schemas: each computes an identity and registers it.\<close>

fun registerDetails :: "(string \<times> string) result list \<Rightarrow> (string, string) go_map \<Rightarrow> (string, string) go_map result" where
  "registerDetails [] identities = Inr identities"
| "registerDetails (detail # rest) identities =
     bind_res detail (\<lambda>(identity, preimage).
     bind_res (registerDetailIdentity identities identity preimage) (registerDetails rest))"

definition documentDetails ::
    "unicode_case \<Rightarrow> string \<Rightarrow> (string \<Rightarrow> string) \<Rightarrow> catalog_document_index \<Rightarrow> (string \<times> string) result list" where
  "documentDetails uc catalogID hasher document =
     map (\<lambda>operation. newOperationDetailIdentity uc catalogID (cx_Key document) (op_Method operation) (op_Path operation)
       (op_RequestTarget operation) (op_FixedQuery operation) hasher) (si_Operations (cx_Index document)) @
     map (\<lambda>schema. newSchemaDetailIdentity catalogID (cx_Key document) (sm_Name schema) hasher) (si_Schemas (cx_Index document))"

fun validateCatalogIndexDocuments ::
    "unicode_case \<Rightarrow> schema_heap \<Rightarrow> (string \<Rightarrow> string) \<Rightarrow> bool \<Rightarrow> string \<Rightarrow> nat \<Rightarrow> string list \<Rightarrow> string list \<Rightarrow>
     (string, string) go_map \<Rightarrow> catalog_document_index list \<Rightarrow> (string, string) go_map result" where
  "validateCatalogIndexDocuments uc hp hasher limits catalogID i keys paths identities [] = Inr identities"
| "validateCatalogIndexDocuments uc hp hasher limits catalogID i keys paths identities (document # rest) =
     require (first_error
       [validateCatalogKey (''catalog index document '' @ itoa i @ '' key'') (cx_Key document),
        validateCatalogSourcePath (''catalog index document '' @ itoa i @ '' source path'') (cx_SourcePath document),
        fail_if (cx_Key document \<in> set keys) (Errorf ''catalog index document key %q is duplicated'' [cx_Key document]),
        fail_if (cx_SourcePath document \<in> set paths) (Errorf ''catalog index source path %q is duplicated'' [cx_SourcePath document]),
        wrap_err (Wrapf ''catalog document %q: %w'' [cx_Key document]) (ValidateSpecIndexWithOptions uc hp limits (cx_Index document))])
      (bind_res (registerDetails (documentDetails uc catalogID hasher document) identities)
        (\<lambda>identities. validateCatalogIndexDocuments uc hp hasher limits catalogID (Suc i) (cx_Key document # keys)
           (cx_SourcePath document # paths) identities rest))"

definition validateCatalogIndexWithDetailHasher ::
    "unicode_case \<Rightarrow> schema_heap \<Rightarrow> catalog_index \<Rightarrow> (string \<Rightarrow> string) \<Rightarrow> bool \<Rightarrow> err" where
  "validateCatalogIndexWithDetailHasher uc hp index hasher limits = first_error
     [validateUTF8Strings (rv_heap hp) ''catalog index'' (rv_catalog_index index),
      validateCatalogKey ''catalog index id'' (ci_CatalogID index),
      ValidateCanonicalIdentity ''catalog index revision id'' (ci_RevisionID index) False,
      ValidateCanonicalIdentity ''catalog index profile'' (ci_ProfileID index) False,
      fail_if (ci_Documents index = [] \<or> limits \<and> maxCatalogDocuments < length (ci_Documents index))
        (Errorf ''catalog index document count is invalid'' []),
      to_err (validateCatalogIndexDocuments uc hp hasher limits (ci_CatalogID index) 0 [] [] [] (ci_Documents index))]"

definition ValidateCatalogIndexWithOptions :: "unicode_case \<Rightarrow> schema_heap \<Rightarrow> catalog_index \<Rightarrow> bool \<Rightarrow> err" where
  "ValidateCatalogIndexWithOptions uc hp index limits = validateCatalogIndexWithDetailHasher uc hp index Sum256 limits"

definition ValidateCatalogIndex :: "unicode_case \<Rightarrow> schema_heap \<Rightarrow> catalog_index \<Rightarrow> err" where
  "ValidateCatalogIndex uc hp index = ValidateCatalogIndexWithOptions uc hp index True"

section \<open>Keys and paths that are accepted\<close>

lemma validateCatalogKey_None: "validateCatalogKey name v = None \<Longrightarrow> canonical v \<and> length v \<le> 64"
  by (simp add: validateCatalogKey_def split: if_splits)

section \<open>Preimages identify their fields\<close>

lemma be_bytes_Suc: "be_bytes (Suc k) n = char_of (n div 256 ^ k mod 256) # be_bytes k n"
  by (simp add: be_bytes_def)

lemma be_bytes_mod: "be_bytes k (n mod 256 ^ k) = be_bytes k n"
proof -
  have "n mod 256 ^ k div 256 ^ i mod 256 = n div 256 ^ i mod (256 :: nat)" if i: "i < k" for i
  proof -
    have "(256 :: nat) ^ k = 256 ^ i * 256 ^ (k - i)" "(256 :: nat) dvd 256 ^ (k - i)"
      using i by (simp_all add: power_add [symmetric])
    then have "n mod 256 ^ k = 256 ^ i * (n div 256 ^ i mod 256 ^ (k - i)) + n mod 256 ^ i"
      by (simp add: mod_mult2_eq)
    then have "n mod 256 ^ k div 256 ^ i = n div 256 ^ i mod 256 ^ (k - i)" by simp
    then show ?thesis using \<open>256 dvd 256 ^ (k - i)\<close> by (simp add: mod_mod_cancel)
  qed
  then show ?thesis by (simp add: be_bytes_def)
qed

lemma be_bytes_inject:
  assumes "n < 256 ^ k" and "m < 256 ^ k" and "be_bytes k n = be_bytes k m"
  shows "n = m"
  using assms
proof (induction k arbitrary: n m)
  case (Suc k)
  have "n div 256 ^ k < 256" "m div 256 ^ k < 256"
    using Suc.prems(1,2) by (simp_all add: less_mult_imp_div_less)
  moreover have "bv (char_of (n div 256 ^ k mod 256)) = bv (char_of (m div 256 ^ k mod 256))"
    using Suc.prems(3) by (simp add: be_bytes_Suc)
  ultimately have "n div 256 ^ k = m div 256 ^ k" by (simp add: bv_char_of)
  moreover have "n mod 256 ^ k = m mod 256 ^ k"
    using Suc.prems(3) by (intro Suc.IH) (simp_all add: be_bytes_Suc be_bytes_mod)
  ultimately show ?case by (metis div_mult_mod_eq)
qed simp

definition fits_uint32 :: "string \<Rightarrow> bool" where
  "fits_uint32 s \<longleftrightarrow> length s < 2 ^ 32"

lemma detailPreimage_simps [simp]:
  "detailPreimage [] = []" "detailPreimage (x # xs) = be_bytes 4 (length x mod 2 ^ 32) @ x @ detailPreimage xs"
  by (simp_all add: detailPreimage_def)

lemma detailPreimage_Nil: "detailPreimage xs = [] \<longleftrightarrow> xs = []"
proof (cases xs)
  case (Cons y ys)
  have "length (be_bytes 4 n) \<noteq> 0" for n by simp
  then show ?thesis using Cons by (metis append_is_Nil_conv detailPreimage_simps(2) list.size(3) neq_Nil_conv)
qed simp

lemma detailPreimage_inject:
  assumes "detailPreimage xs = detailPreimage ys" and "list_all fits_uint32 xs" and "list_all fits_uint32 ys"
  shows "xs = ys"
  using assms
proof (induction xs arbitrary: ys)
  case Nil
  then show ?case using detailPreimage_Nil [of ys] by simp
next
  case (Cons x xs)
  then obtain y ys' where ys: "ys = y # ys'"
    using detailPreimage_Nil [of "x # xs"] by (cases ys) auto
  have b: "length x < 256 ^ 4" "length y < 256 ^ 4" using Cons.prems(2,3) ys by (simp_all add: fits_uint32_def)
  have e: "be_bytes 4 (length x) @ x @ detailPreimage xs = be_bytes 4 (length y) @ y @ detailPreimage ys'"
    using Cons.prems b by (simp add: ys)
  then have "length x = length y" by (intro be_bytes_inject [OF b]) simp
  then have "x = y" "detailPreimage xs = detailPreimage ys'" using e by simp_all
  then show ?case using Cons.IH [of ys'] Cons.prems(2,3) ys by simp
qed

section \<open>Registered identities do not collide\<close>

lemma registerDetails_Inr:
  assumes "registerDetails details m = Inr m'"
  shows "\<exists>ds. details = map Inr ds \<and> (\<forall>(identity, preimage) \<in> set ds. map_of m' identity = Some preimage) \<and>
    map_of m \<subseteq>\<^sub>m map_of m'"
  using assms
proof (induction details m rule: registerDetails.induct)
  case (2 detail rest m)
  then obtain i p m1 where d: "detail = Inr (i, p)" and r: "registerDetailIdentity m i p = Inr m1" and t: "registerDetails rest m1 = Inr m'"
    by auto
  obtain ds where ds: "rest = map Inr ds" "\<forall>(identity, preimage) \<in> set ds. map_of m' identity = Some preimage" "map_of m1 \<subseteq>\<^sub>m map_of m'"
    using "2.IH" [OF t] by auto
  have "map_of m1 i = Some p" "map_of m \<subseteq>\<^sub>m map_of m1"
    using r by (auto simp: registerDetailIdentity_def map_le_def split: option.splits if_splits)
  then have "map_of m' i = Some p" "map_of m \<subseteq>\<^sub>m map_of m'"
    using ds(3) by (auto simp: map_le_def dom_def intro: map_le_trans)
  then show ?case using d ds by (intro exI [of _ "(i, p) # ds"]) auto
qed auto

definition catalogDetails :: "unicode_case \<Rightarrow> string \<Rightarrow> (string \<Rightarrow> string) \<Rightarrow> catalog_document_index list \<Rightarrow> (string \<times> string) result list" where
  "catalogDetails uc catalogID hasher documents = concat (map (documentDetails uc catalogID hasher) documents)"

lemma validateCatalogIndexDocuments_Inr:
  assumes "validateCatalogIndexDocuments uc hp hasher limits cid i keys paths m docs = Inr m'"
  shows "(\<exists>ds. catalogDetails uc cid hasher docs = map Inr ds \<and>
      (\<forall>(identity, preimage) \<in> set ds. map_of m' identity = Some preimage)) \<and> map_of m \<subseteq>\<^sub>m map_of m' \<and>
    distinct (map cx_Key docs) \<and> set (map cx_Key docs) \<inter> set keys = {} \<and>
    distinct (map cx_SourcePath docs) \<and> set (map cx_SourcePath docs) \<inter> set paths = {} \<and>
    (\<forall>d \<in> set docs. validateCatalogKey ''key'' (cx_Key d) = None \<and> validateCatalogSourcePath ''source path'' (cx_SourcePath d) = None \<and>
       ValidateSpecIndexWithOptions uc hp limits (cx_Index d) = None)"
  using assms
proof (induction uc hp hasher limits cid i keys paths m docs rule: validateCatalogIndexDocuments.induct)
  case (2 uc hp hasher limits cid i keys paths m d rest)
  obtain m1 where v: "validateCatalogKey (''catalog index document '' @ itoa i @ '' key'') (cx_Key d) = None"
      "validateCatalogSourcePath (''catalog index document '' @ itoa i @ '' source path'') (cx_SourcePath d) = None"
      "cx_Key d \<notin> set keys" "cx_SourcePath d \<notin> set paths" "ValidateSpecIndexWithOptions uc hp limits (cx_Index d) = None"
    and r: "registerDetails (documentDetails uc cid hasher d) m = Inr m1"
    and t: "validateCatalogIndexDocuments uc hp hasher limits cid (Suc i) (cx_Key d # keys) (cx_SourcePath d # paths) m1 rest = Inr m'"
    using "2.prems" by auto
  obtain ds where ds: "documentDetails uc cid hasher d = map Inr ds" "\<forall>(identity, preimage) \<in> set ds. map_of m1 identity = Some preimage"
      "map_of m \<subseteq>\<^sub>m map_of m1"
    using registerDetails_Inr [OF r] by blast
  note ih = "2.IH" [OF t]
  then obtain es where es: "catalogDetails uc cid hasher rest = map Inr es" "\<forall>(identity, preimage) \<in> set es. map_of m' identity = Some preimage"
    by blast
  have le: "map_of m1 \<subseteq>\<^sub>m map_of m'" using ih by blast
  have "\<forall>(identity, preimage) \<in> set ds. map_of m' identity = Some preimage" using ds(2) le by (fastforce simp: map_le_def dom_def)
  then have "\<exists>fs. catalogDetails uc cid hasher (d # rest) = map Inr fs \<and> (\<forall>(identity, preimage) \<in> set fs. map_of m' identity = Some preimage)"
    using ds(1) es by (intro exI [of _ "ds @ es"]) (auto simp: catalogDetails_def)
  moreover have "validateCatalogKey ''key'' (cx_Key d) = None" "validateCatalogSourcePath ''source path'' (cx_SourcePath d) = None"
    using v(1,2) by (simp_all add: validateCatalogKey_def validateCatalogSourcePath_def)
  ultimately show ?case using ih v(3-5) map_le_trans [OF ds(3) le] by auto
qed (auto simp: catalogDetails_def)

section \<open>Different details have different preimages\<close>

text \<open>What a detail is identified by.\<close>

datatype detail = OperationDetail string string string | SchemaDetail string string

fun detail_fields :: "string \<Rightarrow> detail \<Rightarrow> string list" where
  "detail_fields cid (OperationDetail key method target) = [detailIdentityDomain, cid, key, ''operation'', method, target]"
| "detail_fields cid (SchemaDetail key name) = [detailIdentityDomain, cid, key, ''schema'', name]"

definition document_details :: "unicode_case \<Rightarrow> catalog_document_index \<Rightarrow> detail list" where
  "document_details uc d =
     map (\<lambda>a. OperationDetail (cx_Key d) (ToUpper uc (op_Method a)) (EffectiveOperationRequestTarget a)) (si_Operations (cx_Index d)) @
     map (\<lambda>s. SchemaDetail (cx_Key d) (sm_Name s)) (si_Schemas (cx_Index d))"

lemma newOperationDetailIdentity_Inr:
  "newOperationDetailIdentity uc cid key method path target fixed hasher = Inr x \<Longrightarrow>
     x = (let p = detailPreimage [detailIdentityDomain, cid, key, ''operation'', ToUpper uc method, if target \<noteq> [] then target else path]
          in (detailIDFromPreimage p hasher, p))"
  by (simp add: newOperationDetailIdentity_def Let_def del: detailPreimage_simps)

lemma newSchemaDetailIdentity_Inr:
  "newSchemaDetailIdentity cid key name hasher = Inr x \<Longrightarrow>
     x = (let p = detailPreimage [detailIdentityDomain, cid, key, ''schema'', name] in (detailIDFromPreimage p hasher, p))"
  by (simp add: newSchemaDetailIdentity_def Let_def del: detailPreimage_simps)

definition identified :: "string \<Rightarrow> (string \<Rightarrow> string) \<Rightarrow> detail \<Rightarrow> string \<times> string" where
  "identified cid hasher x = (let p = detailPreimage (detail_fields cid x) in (detailIDFromPreimage p hasher, p))"

lemma documentDetails_Inr:
  assumes "documentDetails uc cid hasher d = map Inr ds"
  shows "ds = map (identified cid hasher) (document_details uc d)"
proof -
  have i: "x \<in> range Inr" if "x \<in> set (documentDetails uc cid hasher d)" for x using that by (auto simp: assms)
  have "map projr (documentDetails uc cid hasher d) = map (identified cid hasher) (document_details uc d)"
    unfolding documentDetails_def document_details_def map_append map_map
  proof (intro arg_cong2 [where f = append] map_cong refl; unfold comp_def)
    fix a assume "a \<in> set (si_Operations (cx_Index d))"
    then obtain x where "newOperationDetailIdentity uc cid (cx_Key d) (op_Method a) (op_Path a) (op_RequestTarget a) (op_FixedQuery a) hasher = Inr x"
      using i by (fastforce simp: documentDetails_def)
    then show "projr (newOperationDetailIdentity uc cid (cx_Key d) (op_Method a) (op_Path a) (op_RequestTarget a) (op_FixedQuery a) hasher) =
        identified cid hasher (OperationDetail (cx_Key d) (ToUpper uc (op_Method a)) (EffectiveOperationRequestTarget a))"
      using newOperationDetailIdentity_Inr [of uc cid "cx_Key d" "op_Method a" "op_Path a" "op_RequestTarget a" "op_FixedQuery a" hasher x]
      by (simp add: identified_def EffectiveOperationRequestTarget_def Let_def del: detailPreimage_simps)
  next
    fix s assume "s \<in> set (si_Schemas (cx_Index d))"
    then obtain x where "newSchemaDetailIdentity cid (cx_Key d) (sm_Name s) hasher = Inr x"
      using i by (fastforce simp: documentDetails_def)
    then show "projr (newSchemaDetailIdentity cid (cx_Key d) (sm_Name s) hasher) = identified cid hasher (SchemaDetail (cx_Key d) (sm_Name s))"
      using newSchemaDetailIdentity_Inr [of cid "cx_Key d" "sm_Name s" hasher x]
      by (simp add: identified_def Let_def del: detailPreimage_simps)
  qed
  then show ?thesis by (simp add: assms comp_def)
qed

lemma catalogDetails_Inr:
  "catalogDetails uc cid hasher docs = map Inr ds \<Longrightarrow> ds = map (identified cid hasher) (concat (map (document_details uc) docs))"
proof (induction docs arbitrary: ds)
  case (Cons d docs)
  then have e: "documentDetails uc cid hasher d @ catalogDetails uc cid hasher docs = map Inr ds" by (simp add: catalogDetails_def)
  then obtain as bs where "ds = as @ bs" "documentDetails uc cid hasher d = map Inr as" "catalogDetails uc cid hasher docs = map Inr bs"
    by (auto simp: append_eq_map_conv)
  then show ?case using documentDetails_Inr Cons.IH by simp
qed (simp add: catalogDetails_def)

lemma has_prefix_append: "has_prefix p s \<longleftrightarrow> (\<exists>r. s = p @ r)"
  by (induction p s rule: has_prefix.induct) auto

text \<open>The path of an accepted operation is what its target has before the query.\<close>

lemma path_of_target:
  assumes "ValidateOperationRequestTarget path target fixed = None"
  shows "takeWhile (\<lambda>c. c \<noteq> CHR ''?'') (if target \<noteq> [] then target else path) = path"
proof -
  have p: "CHR ''?'' \<notin> set path"
    using assms by (auto simp: ValidateOperationRequestTarget_def validateOperationPath_def Let_def contains_any_def list_ex_iff)
  have t: "takeWhile (\<lambda>c. c \<noteq> CHR ''?'') (path @ r) = path @ takeWhile (\<lambda>c. c \<noteq> CHR ''?'') r" for r
    by (rule takeWhile_append2) (use p in \<open>intro notI, simp\<close>)
  show ?thesis
  proof (cases "target = []")
    case True
    then show ?thesis using t [of "[]"] by simp
  next
    case False
    then have "has_prefix (path @ ''?'') target" using assms by (simp add: ValidateOperationRequestTarget_def Let_def split: if_splits)
    then obtain r where "target = path @ CHR ''?'' # r" by (auto simp: has_prefix_append)
    then show ?thesis using t [of "CHR ''?'' # r"] by simp
  qed
qed

lemma distinct_map_finer:
  assumes "distinct (map f xs)" and "\<And>x y. x \<in> set xs \<Longrightarrow> y \<in> set xs \<Longrightarrow> g x = g y \<Longrightarrow> f x = f y"
  shows "distinct (map g xs)"
proof -
  have "distinct xs" "inj_on f (set xs)" using assms(1) by (simp_all add: distinct_map)
  moreover have "inj_on g (set xs)"
    by (rule inj_onI, rule inj_onD [OF \<open>inj_on f (set xs)\<close>], rule assms(2))
  ultimately show ?thesis by (simp add: distinct_map)
qed

lemma validated_details_distinct:
  assumes "ValidateSpecIndexWithOptions uc hp limits (cx_Index d) = None"
  shows "distinct (document_details uc d)"
proof -
  define ops where "ops = si_Operations (cx_Index d)"
  have v: "each_index validateIndexOperation ops = None"
    "each_index (\<lambda>i schema. ValidateCanonicalIdentity (''spec schema '' @ itoa i @ '' name'') (sm_Name schema) False) (si_Schemas (cx_Index d)) = None"
    "validateSpecIndexSurfaceUniqueness uc (cx_Index d) = None"
    using assms unfolding ValidateSpecIndexWithOptions_def ops_def by (simp_all del: each_index_None)
  have op: "canonical (op_Method a) \<and> ValidateOperationRequestTarget (op_Path a) (op_RequestTarget a) (op_FixedQuery a) = None"
    if a: "a \<in> set ops" for a
  proof -
    obtain i where "validateIndexOperation i a = None" using v(1) a by (auto simp: in_set_conv_nth)
    then show ?thesis by (auto simp: validateIndexOperation_def Let_def)
  qed
  have schemas: "\<forall>s \<in> set (si_Schemas (cx_Index d)). canonical (sm_Name s)" using v(2) by (auto simp: in_set_conv_nth)
  have "distinct (map (\<lambda>a. (canonicalUpperSurfaceText uc (op_Method a), TrimSpace (op_Path a), TrimSpace (EffectiveOperationRequestTarget a))) ops)"
    by (rule validateIndexOperationsUnique_None [THEN conjunct1, of uc 0 "[]"])
      (use v(3) in \<open>simp add: validateSpecIndexSurfaceUniqueness_def ops_def\<close>)
  then have "distinct (map (\<lambda>a. OperationDetail (cx_Key d) (ToUpper uc (op_Method a)) (EffectiveOperationRequestTarget a)) ops)"
  proof (rule distinct_map_finer)
    fix a b
    assume ab: "a \<in> set ops" "b \<in> set ops" and e: "OperationDetail (cx_Key d) (ToUpper uc (op_Method a)) (EffectiveOperationRequestTarget a) =
      OperationDetail (cx_Key d) (ToUpper uc (op_Method b)) (EffectiveOperationRequestTarget b)"
    have "op_Path x = takeWhile (\<lambda>c. c \<noteq> CHR ''?'') (EffectiveOperationRequestTarget x)" if "x \<in> set ops" for x
      using path_of_target [OF op [OF that, THEN conjunct2]] by (simp only: EffectiveOperationRequestTarget_def)
    then have "op_Path a = op_Path b" using ab e by simp
    moreover have "canonicalUpperSurfaceText uc (op_Method x) = ToUpper uc (op_Method x)" if "x \<in> set ops" for x
      using op [OF that] by (simp add: canonicalUpperSurfaceText_def canonical_trim canonical_valid)
    ultimately show "(canonicalUpperSurfaceText uc (op_Method a), TrimSpace (op_Path a), TrimSpace (EffectiveOperationRequestTarget a)) =
      (canonicalUpperSurfaceText uc (op_Method b), TrimSpace (op_Path b), TrimSpace (EffectiveOperationRequestTarget b))"
      using ab e by simp
  qed
  moreover have "distinct (map (\<lambda>s. TrimSpace (sm_Name s)) (si_Schemas (cx_Index d)))"
    using v(3) by (simp add: validateSpecIndexSurfaceUniqueness_def)
  then have "distinct (map (\<lambda>s. SchemaDetail (cx_Key d) (sm_Name s)) (si_Schemas (cx_Index d)))"
    by (rule distinct_map_finer) simp
  ultimately show ?thesis by (auto simp: document_details_def ops_def)
qed

lemma catalog_details_distinct:
  assumes "\<forall>d \<in> set docs. ValidateSpecIndexWithOptions uc hp limits (cx_Index d) = None" and "distinct (map cx_Key docs)"
  shows "distinct (concat (map (document_details uc) docs))"
  using assms
proof (induction docs)
  case (Cons d docs)
  have "cx_Key d \<noteq> cx_Key e" if "e \<in> set docs" for e using Cons.prems(2) that by force
  then have "set (document_details uc d) \<inter> set (document_details uc e) = {}" if "e \<in> set docs" for e
    using that by (fastforce simp: document_details_def)
  then show ?case using Cons validated_details_distinct [of uc hp limits d] by auto
qed simp

lemma identified_distinct:
  assumes "distinct xs" and "\<forall>x \<in> set xs. list_all fits_uint32 (detail_fields cid x)"
    and "\<forall>(identity, preimage) \<in> set (map (identified cid hasher) xs). map_of m identity = Some preimage"
  shows "distinct (map fst (map (identified cid hasher) xs))"
proof -
  have "detail_fields cid x \<noteq> detail_fields cid y" if "x \<noteq> y" for x y using that by (cases x; cases y) auto
  then have inj: "detailPreimage (detail_fields cid x) = detailPreimage (detail_fields cid y) \<Longrightarrow> x = y" if "x \<in> set xs" "y \<in> set xs" for x y
    using detailPreimage_inject assms(2) that by blast
  have m: "map_of m (fst (identified cid hasher x)) = Some (detailPreimage (detail_fields cid x))" if "x \<in> set xs" for x
    using assms(3) that by (auto simp: identified_def Let_def)
  have "distinct (map (\<lambda>x. fst (identified cid hasher x)) xs)"
  proof (rule distinct_map_finer [where f = id])
    fix x y assume "x \<in> set xs" "y \<in> set xs" "fst (identified cid hasher x) = fst (identified cid hasher y)"
    then show "id x = id y" using m inj by (metis id_apply option.inject)
  qed (use assms(1) in simp)
  then show ?thesis by (simp add: comp_def)
qed

definition catalog_strings_fit :: "unicode_case \<Rightarrow> catalog_index \<Rightarrow> bool" where
  "catalog_strings_fit uc index \<longleftrightarrow> (\<forall>d \<in> set (ci_Documents index).
     (\<forall>a \<in> set (si_Operations (cx_Index d)). fits_uint32 (ToUpper uc (op_Method a)) \<and> fits_uint32 (EffectiveOperationRequestTarget a)) \<and>
     (\<forall>s \<in> set (si_Schemas (cx_Index d)). fits_uint32 (sm_Name s)))"

lemma details_fit:
  assumes "catalog_strings_fit uc index" and "validateCatalogKey n cid = None" and "d \<in> set (ci_Documents index)"
    and "validateCatalogKey n' (cx_Key d) = None" and "x \<in> set (document_details uc d)"
  shows "list_all fits_uint32 (detail_fields cid x)"
proof -
  have "fits_uint32 cid" "fits_uint32 (cx_Key d)" "fits_uint32 detailIdentityDomain" "fits_uint32 ''operation''" "fits_uint32 ''schema''"
    using validateCatalogKey_None [OF assms(2)] validateCatalogKey_None [OF assms(4)] by (simp_all add: fits_uint32_def detailIdentityDomain_def)
  then show ?thesis using assms(1,3,5) by (auto simp: document_details_def catalog_strings_fit_def)
qed

section \<open>Properties\<close>

text \<open>
  C32: the digest function cannot make two details of a catalog share an identity. Whatever function of
  the preimage is used as the hash, an index that the validator accepts gives every operation and
  every schema of every document its own detail identity; a collision of the hash is refused rather
  than served under one identity. The strings that are hashed must be shorter than 4 GiB, because
  their lengths are kept in 32 bits.
\<close>

theorem accepted_details_have_own_identity:
  assumes "validateCatalogIndexWithDetailHasher uc hp index hasher limits = None" and "catalog_strings_fit uc index"
  shows "\<exists>ids. catalogDetails uc (ci_CatalogID index) hasher (ci_Documents index) = map Inr ids \<and> distinct (map fst ids)"
proof -
  let ?cid = "ci_CatalogID index" and ?docs = "ci_Documents index"
  obtain m where k: "validateCatalogKey ''catalog index id'' ?cid = None"
    and m: "validateCatalogIndexDocuments uc hp hasher limits ?cid 0 [] [] [] ?docs = Inr m"
    using assms(1) by (auto simp: validateCatalogIndexWithDetailHasher_def)
  note v = validateCatalogIndexDocuments_Inr [OF m]
  then obtain ids where ids: "catalogDetails uc ?cid hasher ?docs = map Inr ids" "\<forall>(identity, preimage) \<in> set ids. map_of m identity = Some preimage"
    by blast
  let ?xs = "concat (map (document_details uc) ?docs)"
  have "distinct ?xs" by (rule catalog_details_distinct) (use v in auto)
  moreover have "\<forall>x \<in> set ?xs. list_all fits_uint32 (detail_fields ?cid x)"
    using v details_fit [OF assms(2) k] by auto
  ultimately have "distinct (map fst ids)"
    using identified_distinct ids(2) catalogDetails_Inr [OF ids(1)] by metis
  then show ?thesis using ids(1) by blast
qed

text \<open>
  C40: a source path the validator accepts is relative and stays below the source root, with one
  exception: the path that consists of a single parent element is accepted as well, because the check
  looks for a leading parent element only when a slash follows it.
\<close>

theorem source_path_contained_but_for_the_parent:
  "validateCatalogSourcePath name ''..'' = None \<and>
   (validateCatalogSourcePath name v = None \<and> v \<noteq> ''..'' \<longrightarrow> \<not> has_prefix ''/'' v \<and> ''..'' \<notin> set (split_char slash v))"
proof (intro conjI impI)
  have "path_clean ''..'' = ''..''" by code_simp
  moreover have "canonical ''..''" by (simp add: canonical_def utf8_valid_ascii runes_ascii is_control_def is_space_def)
  ultimately show "validateCatalogSourcePath name ''..'' = None"
    by (simp add: validateCatalogSourcePath_def contains_char_def)
qed (use clean_relative_no_parent [of v] in \<open>auto simp: validateCatalogSourcePath_def\<close>)

section \<open>A sample catalog\<close>

text \<open>One document with two operations that differ in their fixed query, hashed by their last 32 bytes.\<close>

definition sample_catalog_index :: catalog_index where
  "sample_catalog_index = \<lparr>ci_CatalogID = ''shop'', ci_RevisionID = ''r1'', ci_Title = [],
     ci_Branding = si_Branding empty_index, ci_ProfileID = ''strict-v1'',
     ci_Documents = [\<lparr>cx_Key = ''pets'', cx_SourcePath = ''api/pets.yaml'', cx_Index = fixed_query_index [''cat'', ''dog'']\<rparr>]\<rparr>"

definition last_bytes :: "string \<Rightarrow> string" where
  "last_bytes p = drop (length p - 32) p"

lemma sample_catalog_keys: "validateCatalogKey n ''shop'' = None" "validateCatalogKey n ''pets'' = None"
  by (simp_all add: validateCatalogKey_def isLowerCatalogKeyCharacter_def canonical_def utf8_valid_ascii runes_ascii is_control_def is_space_def)

lemma sample_catalog_path: "validateCatalogSourcePath n ''api/pets.yaml'' = None"
proof -
  have "path_clean ''api/pets.yaml'' = ''api/pets.yaml''" by code_simp
  then show ?thesis
    by (simp add: validateCatalogSourcePath_def contains_char_def canonical_def utf8_valid_ascii runes_ascii is_control_def is_space_def)
qed

lemma sample_operation_identity:
  assumes "x = ''cat'' \<or> x = ''dog''"
  shows "newOperationDetailIdentity uc ''shop'' ''pets'' ''GET'' ''/pets'' (''/pets?kind='' @ x) [\<lparr>fq_Name = ''kind'', fq_Value = x\<rparr>] hasher =
    Inr (identified ''shop'' hasher (OperationDetail ''pets'' ''GET'' (''/pets?kind='' @ x)))"
proof -
  have "ToUpper uc ''GET'' = ''GET''" by (rule ToUpper_ascii) simp
  then show ?thesis using sample_catalog_keys fixed_query_targets [OF assms]
    by (simp add: newOperationDetailIdentity_def identified_def Let_def runes_ascii del: detailPreimage_simps)
qed

lemma last_bytes_identity:
  assumes "s \<noteq> []" and "t \<noteq> []" and "last s \<noteq> last t"
  shows "fst (identified cid last_bytes (OperationDetail key method s)) \<noteq> fst (identified cid last_bytes (OperationDetail key method t))"
proof
  define p where "p = (\<lambda>target. detailPreimage (detail_fields cid (OperationDetail key method target)))"
  have l: "last (last_bytes q) = last q" if "q \<noteq> []" for q using that by (simp add: last_bytes_def last_drop)
  have n: "last (p u) = last u" "p u \<noteq> []" if "u \<noteq> []" for u using that by (simp_all add: p_def)
  assume "fst (identified cid last_bytes (OperationDetail key method s)) = fst (identified cid last_bytes (OperationDetail key method t))"
  then have "hex_encode (last_bytes (p s)) = hex_encode (last_bytes (p t))"
    by (simp add: identified_def detailIDFromPreimage_def Let_def p_def del: detailPreimage_simps detail_fields.simps)
  then have "last (last_bytes (p s)) = last (last_bytes (p t))" using hex_encode_inject by metis
  then show False using l [OF n(2)] n(1) assms by simp
qed

lemma sample_identities_differ:
  "fst (identified ''shop'' last_bytes (OperationDetail ''pets'' ''GET'' ''/pets?kind=cat'')) \<noteq>
   fst (identified ''shop'' last_bytes (OperationDetail ''pets'' ''GET'' ''/pets?kind=dog''))"
  by (rule last_bytes_identity) simp_all

lemma sample_details_register:
  assumes "fst (identified cid hasher x) \<noteq> fst (identified cid hasher y)"
  shows "\<exists>m. registerDetails [Inr (identified cid hasher x), Inr (identified cid hasher y)] [] = Inr m"
  using assms by (cases "identified cid hasher x"; cases "identified cid hasher y") (simp add: registerDetailIdentity_def)

lemma sample_document_details:
  "documentDetails ascii_case ''shop'' last_bytes
     \<lparr>cx_Key = ''pets'', cx_SourcePath = ''api/pets.yaml'', cx_Index = fixed_query_index [''cat'', ''dog'']\<rparr> =
   [Inr (identified ''shop'' last_bytes (OperationDetail ''pets'' ''GET'' ''/pets?kind=cat'')),
    Inr (identified ''shop'' last_bytes (OperationDetail ''pets'' ''GET'' ''/pets?kind=dog''))]"
  using sample_operation_identity [of "''cat''"] sample_operation_identity [of "''dog''"]
  by (simp add: documentDetails_def fixed_query_index_fields fixed_query_fields)

lemma sample_documents_validate:
  "\<exists>m. validateCatalogIndexDocuments ascii_case [] last_bytes True ''shop'' 0 [] [] [] (ci_Documents sample_catalog_index) = Inr m"
proof -
  obtain m where "registerDetails (documentDetails ascii_case ''shop'' last_bytes
      \<lparr>cx_Key = ''pets'', cx_SourcePath = ''api/pets.yaml'', cx_Index = fixed_query_index [''cat'', ''dog'']\<rparr>) [] = Inr m"
    unfolding sample_document_details using sample_details_register [OF sample_identities_differ] by blast
  moreover have "ValidateSpecIndexWithOptions ascii_case [] True (fixed_query_index [''cat'', ''dog'']) = None"
    using fixed_query_validates [of "[''cat'', ''dog'']"] by (simp add: ValidateSpecIndex_def)
  ultimately show ?thesis using sample_catalog_keys sample_catalog_path
    by (simp add: sample_catalog_index_def)
qed

lemma sample_catalog_accepted: "validateCatalogIndexWithDetailHasher ascii_case [] sample_catalog_index last_bytes True = None"
proof -
  have c: "canonical ''shop''" "canonical ''pets''" "canonical ''r1''" "canonical ''strict-v1''" "canonical ''api/pets.yaml''"
    by (simp_all add: canonical_def utf8_valid_ascii runes_ascii is_control_def is_space_def)
  have "direct_strings (rv_catalog_index sample_catalog_index) \<subseteq> {[], ''shop'', ''r1'', ''strict-v1'', ''pets'', ''api/pets.yaml''} \<union>
      direct_strings (rv_spec_index (fixed_query_index [''cat'', ''dog'']))"
    by (auto simp: rv_catalog_index_def sample_catalog_index_def rv_catalog_document_index_def empty_index_def rv_docs_branding_def rv_docs_branding_logo_def)
  then have "validateUTF8Strings (rv_heap []) ''catalog index'' (rv_catalog_index sample_catalog_index) = None"
    using fixed_query_strings [of "[''cat'', ''dog'']"] c [THEN canonical_valid] by (auto simp: rv_heap_def validateUTF8Strings_direct)
  then show ?thesis
    using sample_documents_validate sample_catalog_keys c
    by (simp add: validateCatalogIndexWithDetailHasher_def sample_catalog_index_def maxCatalogDocuments_def)
qed

theorem accepted_details_have_own_identity_witness:
  "\<exists>ids. catalogDetails ascii_case ''shop'' last_bytes (ci_Documents sample_catalog_index) = map Inr ids \<and> distinct (map fst ids)"
proof -
  have "ToUpper ascii_case ''GET'' = ''GET''" by (rule ToUpper_ascii) simp
  then have "catalog_strings_fit ascii_case sample_catalog_index"
    by (auto simp: catalog_strings_fit_def sample_catalog_index_def fixed_query_index_fields fixed_query_fields EffectiveOperationRequestTarget_def fits_uint32_def)
  then show ?thesis
    using accepted_details_have_own_identity [OF sample_catalog_accepted] by (simp add: sample_catalog_index_def)
qed

theorem source_path_contained_but_for_the_parent_witness:
  "validateCatalogSourcePath ''path'' ''..'' = None \<and> ''..'' \<notin> set (split_char slash ''api/pets.yaml'')"
  using source_path_contained_but_for_the_parent [of "''path''" "''api/pets.yaml''"] sample_catalog_path by simp

end
