(* ===== verification/Catalog_Publication.thy ===== *)
theory Catalog_Publication
  imports Catalog_Identity
begin

text \<open>
  \<open>domain/catalog_publication.go\<close>: the upstream publication a catalog document represents, and the
  comparison of release versions by SemVer precedence. The regular expression of a version is a parser
  that cuts at the first plus and then at the first minus sign; \<open>publicationVersionPattern_iff\<close> shows
  that it matches exactly the strings of the expression, with the same groups. \<open>url.Parse\<close> is an
  argument.
\<close>

section \<open>Data\<close>

record catalog_publication =
  pn_API :: string
  pn_Audience :: string
  pn_Channel :: string
  pn_ChannelName :: string
  pn_Version :: string
  pn_Latest :: bool
  pn_RepositoryURL :: string
  pn_Ref :: string
  pn_Commit :: string
  pn_SourcePath :: string

text \<open>What the validator reads of a parsed URL.\<close>

record url_parts =
  url_Scheme :: string
  url_Host :: string
  url_HasUser :: bool
  url_RawQuery :: string
  url_Fragment :: string

section \<open>Versions\<close>

definition digit_char :: "char \<Rightarrow> bool" where
  "digit_char c \<longleftrightarrow> 48 \<le> bv c \<and> bv c \<le> 57"

text \<open>\<open>(0|[1-9][0-9]*)\<close>\<close>

definition version_number :: "string \<Rightarrow> bool" where
  "version_number s \<longleftrightarrow> s \<noteq> [] \<and> list_all digit_char s \<and> (hd s = CHR ''0'' \<longrightarrow> s = ''0'')"

text \<open>\<open>[0-9A-Za-z-]+(?:\.[0-9A-Za-z-]+)*\<close>\<close>

definition identifier_char :: "char \<Rightarrow> bool" where
  "identifier_char c \<longleftrightarrow> digit_char c \<or> (65 \<le> bv c \<and> bv c \<le> 90) \<or> (97 \<le> bv c \<and> bv c \<le> 122) \<or> c = CHR ''-''"

definition version_identifiers :: "string \<Rightarrow> bool" where
  "version_identifiers s \<longleftrightarrow> list_all (\<lambda>w. w \<noteq> [] \<and> list_all identifier_char w) (split_char (CHR ''.'') s)"

type_synonym version_groups = "string \<times> string \<times> string \<times> string"

definition publicationVersionPattern :: "string \<Rightarrow> version_groups option" where
  "publicationVersionPattern v =
     (case cut_char (CHR ''+'') v of (release, build, hasBuild) \<Rightarrow>
      case cut_char (CHR ''-'') release of (core, pre, hasPre) \<Rightarrow>
      if hasBuild \<and> \<not> version_identifiers build \<or> hasPre \<and> \<not> version_identifiers pre then None
      else (case split_char (CHR ''.'') core of
          [major, minor, patch] \<Rightarrow>
            if version_number major \<and> version_number minor \<and> version_number patch then Some (major, minor, patch, pre) else None
        | _ \<Rightarrow> None))"

definition publicationCommitPattern :: "string \<Rightarrow> bool" where
  "publicationCommitPattern v \<longleftrightarrow> (length v = 40 \<or> length v = 64) \<and> list_all lower_hex_char v"

definition numericPublicationIdentifier :: "string \<Rightarrow> bool" where
  "numericPublicationIdentifier s \<longleftrightarrow> s \<noteq> [] \<and> list_all (\<lambda>r. 48 \<le> r \<and> r \<le> 57) (runes s)"

definition comparePublicationNumber :: "string \<Rightarrow> string \<Rightarrow> int" where
  "comparePublicationNumber a b =
     (if length a < length b then - 1 else if length b < length a then 1 else compare_strings a b)"

text \<open>The loop over the identifiers of two pre-releases, and the comparison of their numbers behind it.\<close>

fun comparePrereleases :: "string list \<Rightarrow> string list \<Rightarrow> int" where
  "comparePrereleases (x # xs) (y # ys) =
     (let xn = numericPublicationIdentifier x; yn = numericPublicationIdentifier y in
      if xn \<noteq> yn then (if xn then - 1 else 1)
      else (let c = (if xn then comparePublicationNumber x y else compare_strings x y) in
        if c \<noteq> 0 then c else comparePrereleases xs ys))"
| "comparePrereleases xs ys = (if length xs < length ys then - 1 else 1)"

definition ComparePublicationVersions :: "string \<Rightarrow> string \<Rightarrow> int" where
  "ComparePublicationVersions a b =
     (case (publicationVersionPattern a, publicationVersionPattern b) of
        (Some (x1, x2, x3, x4), Some (y1, y2, y3, y4)) \<Rightarrow>
          (let c1 = comparePublicationNumber x1 y1; c2 = comparePublicationNumber x2 y2; c3 = comparePublicationNumber x3 y3 in
           if c1 \<noteq> 0 then c1 else if c2 \<noteq> 0 then c2 else if c3 \<noteq> 0 then c3
           else if x4 = y4 then 0 else if x4 = [] then 1 else if y4 = [] then - 1
           else comparePrereleases (split_char (CHR ''.'') x4) (split_char (CHR ''.'') y4))
      | _ \<Rightarrow> compare_strings a b)"

section \<open>Publications\<close>

definition IsBranch :: "catalog_publication \<Rightarrow> bool" where
  "IsBranch p \<longleftrightarrow> pn_Channel p = ''branch'' \<or> pn_Channel p = ''next''"

definition BranchName :: "catalog_publication \<Rightarrow> string" where
  "BranchName p = (if pn_ChannelName p \<noteq> [] then pn_ChannelName p else trim_prefix ''refs/heads/'' (pn_Ref p))"

definition stable_version :: "string \<Rightarrow> bool" where
  "stable_version v \<longleftrightarrow> \<not> contains_str ''-'' (hd (split_char (CHR ''+'') v))"

text \<open>The middle dot of a label is the two bytes of its UTF-8 encoding.\<close>

definition middle_dot :: string where
  "middle_dot = [CHR 0x20, CHR 0xC2, CHR 0xB7, CHR 0x20]"

definition Label :: "catalog_publication \<Rightarrow> string \<Rightarrow> string" where
  "Label p apiVersion =
     (if IsBranch p then BranchName p @ middle_dot @ ''API '' @ apiVersion
      else (if stable_version (pn_Version p) then ''release '' else ''pre-release '') @ pn_Version p @
        (if pn_Latest p then middle_dot @ ''latest stable'' else []))"

definition validatePublicationChannel :: "catalog_publication \<Rightarrow> err" where
  "validatePublicationChannel p =
     (if pn_Channel p = ''branch'' \<or> pn_Channel p = ''next'' then
        fail_if (\<not> has_prefix ''refs/heads/'' (pn_Ref p) \<or> length (pn_Ref p) = length ''refs/heads/'' \<or> pn_Version p \<noteq> [] \<or> pn_Latest p)
          (Errorf ''branch publication requires a branch ref and cannot declare a release version or latest'' [])
      else if pn_Channel p = ''release'' then
        (case publicationVersionPattern (pn_Version p) of
           None \<Rightarrow> Some (Errorf ''release publication requires a tag and a SemVer version'' [])
         | Some (_, _, _, pre) \<Rightarrow> first_error
             [fail_if (\<not> has_prefix ''refs/tags/'' (pn_Ref p) \<or> length (pn_Ref p) = length ''refs/tags/'')
                (Errorf ''release publication requires a tag and a SemVer version'' []),
              each (\<lambda>identifier. fail_if (numericPublicationIdentifier identifier \<and> 1 < length identifier \<and> hd identifier = CHR ''0'')
                (Errorf ''release prerelease identifiers cannot have leading zeroes'' [])) (split_char (CHR ''.'') pre),
              fail_if (pn_Latest p \<and> pre \<noteq> []) (Errorf ''latest publication must be a stable release'' [])])
      else Some (Errorf ''publication channel must be branch or release (next is a legacy branch alias)'' []))"

text \<open>
  The three texts are the values of a map literal: their order only selects which of several errors is
  reported.
\<close>

definition ValidateCatalogPublication :: "(string \<Rightarrow> url_parts option) \<Rightarrow> catalog_publication option \<Rightarrow> err" where
  "ValidateCatalogPublication parse_url publication =
     (case publication of None \<Rightarrow> None | Some p \<Rightarrow> first_error
       [fail_if (128 < length (pn_Version p) \<or> 2048 < length (pn_RepositoryURL p))
          (Errorf ''publication version or repository URL is too long'' []),
        wrap_err (Wrapf ''publication API: %w'' []) (ValidateCatalogDocumentKey (pn_API p)),
        fail_if (128 < length (pn_ChannelName p)) (Errorf ''publication channelName is too long'' []),
        (if pn_ChannelName p \<noteq> [] then first_error
           [ValidateCanonicalIdentity ''publication channelName'' (pn_ChannelName p) False,
            fail_if (\<not> IsBranch p) (Errorf ''publication channelName is only supported for branch publications'' [])]
         else None),
        each (\<lambda>(name, v). if name = ''audience'' \<and> v = [] then None
            else first_error
              [fail_if (512 < length v) (Errorf ''publication %s is too long'' [name]),
               ValidateCanonicalIdentity (''publication '' @ name) v False])
          [(''audience'', pn_Audience p), (''ref'', pn_Ref p), (''source path'', pn_SourcePath p)],
        validateCatalogSourcePath ''publication source path'' (pn_SourcePath p),
        fail_if (\<not> publicationCommitPattern (pn_Commit p)) (Errorf ''publication commit must be a full lowercase Git object ID'' []),
        fail_if (contains_any (pn_Ref p) ('' ~^:?*['' @ [CHR 0x5C]) \<or> contains_str ''..'' (pn_Ref p) \<or> has_suffix ''/'' (pn_Ref p))
          (Errorf ''invalid publication ref'' []),
        validatePublicationChannel p,
        (if pn_RepositoryURL p \<noteq> [] then
           fail_if (case parse_url (pn_RepositoryURL p) of
               None \<Rightarrow> True
             | Some u \<Rightarrow> url_Scheme u \<noteq> ''https'' \<or> url_Host u = [] \<or> url_HasUser u \<or> url_RawQuery u \<noteq> [] \<or> url_Fragment u \<noteq> [])
             (Errorf ''publication repositoryURL must be a public HTTPS URL without credentials, query or fragment'' [])
         else None)])"

definition CloneCatalogPublication :: "catalog_publication option \<Rightarrow> catalog_publication option" where
  "CloneCatalogPublication p = map_option (\<lambda>p. p) p"

section \<open>Sets of publications\<close>

definition publicationIdentity :: "catalog_publication \<Rightarrow> string" where
  "publicationIdentity p =
     (let channel = (if IsBranch p then ''branch'' else pn_Channel p) in
      pn_API p @ [CHR 0x00] @ channel @ [CHR 0x00] @ pn_Version p)"

fun scanPublications ::
    "(string \<Rightarrow> url_parts option) \<Rightarrow> string list \<Rightarrow> (string, catalog_publication) go_map \<Rightarrow> catalog_publication option list \<Rightarrow>
     (string, catalog_publication) go_map result" where
  "scanPublications parse_url seen latest [] = Inr latest"
| "scanPublications parse_url seen latest (publication # rest) =
     require (ValidateCatalogPublication parse_url publication)
      (case publication of
         None \<Rightarrow> scanPublications parse_url seen latest rest
       | Some p \<Rightarrow>
           (let identity = publicationIdentity p in
            if identity \<in> set seen then Inl (Errorf ''duplicate publication for API %q'' [pn_API p])
            else if pn_Latest p then
              (if map_of latest (pn_API p) \<noteq> None then Inl (Errorf ''multiple latest publications for API %q'' [pn_API p])
               else scanPublications parse_url (identity # seen) (map_put (pn_API p) p latest) rest)
            else scanPublications parse_url (identity # seen) latest rest))"

definition ValidateCatalogPublicationSet :: "(string \<Rightarrow> url_parts option) \<Rightarrow> catalog_publication option list \<Rightarrow> err" where
  "ValidateCatalogPublicationSet parse_url publications =
     (case scanPublications parse_url [] [] publications of
        Inl e \<Rightarrow> Some e
      | Inr latest \<Rightarrow> each (\<lambda>publication. case publication of
            None \<Rightarrow> None
          | Some p \<Rightarrow>
              if pn_Channel p = ''release'' \<and> stable_version (pn_Version p) then
                (case map_of latest (pn_API p) of
                   None \<Rightarrow> None
                 | Some l \<Rightarrow> fail_if (ComparePublicationVersions (pn_Version p) (pn_Version l) > 0)
                     (Errorf ''latest publication is not the highest stable version for API %q'' [pn_API p]))
              else None) publications)"

end
