(* ===== verification/Version_Precedence.thy ===== *)
theory Version_Precedence
  imports Catalog_Publication
begin

text \<open>
  The order of publication versions. The reference is the precedence of Semantic Versioning 2.0.0, as
  the order of a tuple of numbers, a flag for stable releases and the list of pre-release identifiers;
  the comparison of the code, which never converts a numeric component, is the sign of that order.
\<close>

section \<open>Precedence\<close>

datatype version_identifier = NumericIdentifier nat | TextIdentifier string

instantiation version_identifier :: linorder
begin

fun less_version_identifier :: "version_identifier \<Rightarrow> version_identifier \<Rightarrow> bool" where
  "less_version_identifier (NumericIdentifier m) (NumericIdentifier n) = (m < n)"
| "less_version_identifier (NumericIdentifier m) (TextIdentifier t) = True"
| "less_version_identifier (TextIdentifier s) (NumericIdentifier n) = False"
| "less_version_identifier (TextIdentifier s) (TextIdentifier t) = (s < t)"

definition less_eq_version_identifier :: "version_identifier \<Rightarrow> version_identifier \<Rightarrow> bool" where
  "less_eq_version_identifier x y \<longleftrightarrow> x < y \<or> x = y"

instance
proof
  fix x y z :: version_identifier
  show "(x < y) = (x \<le> y \<and> \<not> y \<le> x)" by (cases x; cases y) (auto simp: less_eq_version_identifier_def)
  show "x \<le> x" by (simp add: less_eq_version_identifier_def)
  show "x \<le> y \<Longrightarrow> y \<le> z \<Longrightarrow> x \<le> z" by (cases x; cases y; cases z) (auto simp: less_eq_version_identifier_def)
  show "x \<le> y \<Longrightarrow> y \<le> x \<Longrightarrow> x = y" by (cases x; cases y) (auto simp: less_eq_version_identifier_def)
  show "x \<le> y \<or> y \<le> x" by (cases x; cases y) (auto simp: less_eq_version_identifier_def)
qed

end

definition decimal :: "string \<Rightarrow> nat" where
  "decimal s = foldl (\<lambda>n c. 10 * n + (bv c - 48)) 0 s"

definition identifier_of :: "string \<Rightarrow> version_identifier" where
  "identifier_of s = (if s \<noteq> [] \<and> list_all digit_char s then NumericIdentifier (decimal s) else TextIdentifier s)"

fun precedence :: "version_groups \<Rightarrow> nat \<times> nat \<times> nat \<times> bool \<times> version_identifier list" where
  "precedence (major, minor, patch, pre) =
     (decimal major, decimal minor, decimal patch, pre = [], map identifier_of (split_char (CHR ''.'') pre))"

definition order_sign :: "'a::linorder \<Rightarrow> 'a \<Rightarrow> int" where
  "order_sign x y = (if x < y then - 1 else if x = y then 0 else 1)"

section \<open>Numbers\<close>

lemma foldl_decimal: "foldl (\<lambda>n c. 10 * n + (bv c - 48)) k s = k * 10 ^ length s + decimal s"
proof (induction s arbitrary: k)
  case (Cons c s)
  have "decimal (c # s) = foldl (\<lambda>n c. 10 * n + (bv c - 48)) (bv c - 48) s" by (simp add: decimal_def)
  then show ?case using Cons [of "bv c - 48"] Cons [of "10 * k + (bv c - 48)"] by (simp add: algebra_simps)
qed (simp add: decimal_def)

lemma decimal_Cons: "decimal (c # s) = (bv c - 48) * 10 ^ length s + decimal s"
  using foldl_decimal [of "bv c - 48" s] by (simp add: decimal_def)

lemma decimal_less: "list_all digit_char s \<Longrightarrow> decimal s < 10 ^ length s"
proof (induction s)
  case (Cons c s)
  then have "bv c - 48 \<le> 9" "decimal s < 10 ^ length s" by (auto simp: digit_char_def)
  then have "(bv c - 48) * 10 ^ length s + decimal s < 9 * 10 ^ length s + 10 ^ length s"
    by (intro add_le_less_mono mult_le_mono1)
  then show ?case by (simp add: decimal_Cons)
qed (simp add: decimal_def)

lemma bv_less_iff: "bv c < bv d \<longleftrightarrow> c < d"
  by (simp add: less_char_def)

lemma digits_less_decimal:
  "length s = length t \<Longrightarrow> list_all digit_char s \<Longrightarrow> list_all digit_char t \<Longrightarrow> s < t \<longleftrightarrow> decimal s < decimal t"
proof (induction s t rule: list_induct2)
  case (Cons c s d t)
  let ?B = "10 ^ length s :: nat"
  have b: "decimal s < ?B" "decimal t < ?B" using Cons decimal_less [of s] decimal_less [of t] by auto
  have ge: "48 \<le> bv c" "48 \<le> bv d" using Cons.prems by (simp_all add: digit_char_def)
  have lt: "x * ?B + decimal u < y * ?B + decimal v" if "x < y" "decimal u < ?B" for x y u v
  proof -
    have "x * ?B + decimal u < Suc x * ?B" using that by simp
    also have "\<dots> \<le> y * ?B + decimal v" using that(1) by (metis Suc_leI mult_le_mono1 trans_le_add1)
    finally show ?thesis .
  qed
  consider "c = d" | "c < d" | "d < c" by fastforce
  then show ?case
  proof cases
    case 1
    then show ?thesis using Cons by (simp add: decimal_Cons)
  next
    case 2
    then have "bv c - 48 < bv d - 48" using ge bv_less_iff [of c d] by simp
    then show ?thesis using lt [of "bv c - 48" "bv d - 48" s t] b 2 Cons.hyps by (simp add: decimal_Cons)
  next
    case 3
    then have "bv d - 48 < bv c - 48" using ge bv_less_iff [of d c] by simp
    then show ?thesis using lt [of "bv d - 48" "bv c - 48" t s] b 3 Cons.hyps by (auto simp: decimal_Cons)
  qed
qed simp

lemma decimal_lower:
  assumes "version_number s" and "1 < length s"
  shows "10 ^ (length s - 1) \<le> decimal s"
proof -
  obtain c r where s: "s = c # r" using assms by (cases s) auto
  then have "c \<noteq> CHR ''0''" "48 \<le> bv c" using assms by (auto simp: version_number_def digit_char_def)
  moreover have "char_of (48 :: nat) = CHR ''0''" by code_simp
  ultimately have "bv c \<noteq> 48" by (metis char_of_bv)
  then have "1 \<le> bv c - 48" using \<open>48 \<le> bv c\<close> by simp
  then have "1 * 10 ^ length r \<le> (bv c - 48) * 10 ^ length r" by (rule mult_le_mono1)
  then have "10 ^ length r \<le> (bv c - 48) * 10 ^ length r + decimal r" by linarith
  then show ?thesis using s by (simp add: decimal_Cons)
qed

lemma shorter_number_less:
  assumes "version_number s" and "version_number t" and "length s < length t"
  shows "decimal s < decimal t"
proof -
  have "decimal s < 10 ^ length s" using assms(1) decimal_less by (simp add: version_number_def)
  also have "\<dots> \<le> 10 ^ (length t - 1)" using assms(3) by (intro power_increasing) simp_all
  also have "\<dots> \<le> decimal t"
  proof (rule decimal_lower [OF assms(2)])
    show "1 < length t" using assms(1,3) by (cases s) (auto simp: version_number_def)
  qed
  finally show ?thesis .
qed

lemma comparePublicationNumber_sign:
  assumes "version_number s" and "version_number t"
  shows "comparePublicationNumber s t = order_sign (decimal s) (decimal t) \<and> (decimal s = decimal t \<longleftrightarrow> s = t)"
proof -
  consider "length s < length t" | "length t < length s" | "length s = length t" by linarith
  then show ?thesis
  proof cases
    case 3
    then have "s < t \<longleftrightarrow> decimal s < decimal t" "t < s \<longleftrightarrow> decimal t < decimal s"
      using digits_less_decimal [of s t] digits_less_decimal [of t s] assms by (simp_all add: version_number_def)
    moreover from this have "decimal s = decimal t \<longleftrightarrow> s = t" by (metis less_irrefl linorder_neqE)
    ultimately show ?thesis using 3 by (auto simp: comparePublicationNumber_def compare_strings_def order_sign_def)
  qed (use shorter_number_less assms in \<open>fastforce simp: comparePublicationNumber_def order_sign_def\<close>)+
qed

section \<open>The version pattern\<close>

lemma cut_char_eq: "cut_char d s = (a, b, h) \<longleftrightarrow> d \<notin> set a \<and> (if h then s = a @ d # b else b = [] \<and> s = a)"
proof (cases "d \<in> set s")
  case True
  then obtain x y where s: "s = x @ d # y" "d \<notin> set x" by (metis split_list_first)
  have cut: "takeWhile (\<lambda>c. c \<noteq> d) s = u" "dropWhile (\<lambda>c. c \<noteq> d) s = d # w" if "s = u @ d # w" "d \<notin> set u" for u w
    using that by (auto simp: takeWhile_tail dropWhile_append3 takeWhile_eq_all_conv [THEN iffD2])
  have c: "cut_char d s = (x, y, True)" using True cut [OF s] by (simp add: cut_char_def)
  have "x = a \<and> y = b" if "d \<notin> set a" "s = a @ d # b"
    using cut [OF s] cut [OF that(2,1)] by simp
  then show ?thesis using c s True by auto
qed (auto simp: cut_char_def)

lemma version_number_chars: "version_number s \<Longrightarrow> c \<in> set s \<Longrightarrow> digit_char c"
  by (simp add: version_number_def list_all_iff)

lemma not_digits: "\<not> digit_char (CHR ''.'')" "\<not> digit_char (CHR ''-'')" "\<not> digit_char (CHR ''+'')"
  by (simp_all add: digit_char_def)

lemma set_split_char: "c \<in> set s \<Longrightarrow> c = d \<or> (\<exists>w \<in> set (split_char d s). c \<in> set w)"
  by (induction d s rule: split_char.induct) (auto split: list.splits)

lemma version_identifiers_no_plus: "version_identifiers s \<Longrightarrow> CHR ''+'' \<notin> set s"
proof
  have p: "\<not> identifier_char (CHR ''+'')" by (simp add: identifier_char_def digit_char_def)
  assume "version_identifiers s" "CHR ''+'' \<in> set s"
  then show False using set_split_char [of "CHR ''+''" s "CHR ''.''"] p by (auto simp: version_identifiers_def list_all_iff)
qed

lemma version_identifiers_Nil: "\<not> version_identifiers []"
  by (simp add: version_identifiers_def)

definition version_suffix :: "string \<Rightarrow> bool" where
  "version_suffix s \<longleftrightarrow> s = [] \<or> (\<exists>build. s = CHR ''+'' # build \<and> version_identifiers build)"

definition version_core :: "string \<Rightarrow> string \<Rightarrow> string \<Rightarrow> string" where
  "version_core x y z = x @ CHR ''.'' # y @ CHR ''.'' # z"

lemma version_core_split:
  assumes "version_number x" and "version_number y" and "version_number z"
  shows "split_char (CHR ''.'') (version_core x y z) = [x, y, z]"
proof -
  have "CHR ''.'' \<notin> set x" "CHR ''.'' \<notin> set y" "CHR ''.'' \<notin> set z" using assms version_number_chars not_digits by metis+
  then show ?thesis by (simp add: version_core_def split_char_sep split_char_word)
qed

lemma version_core_chars:
  assumes "version_number x" and "version_number y" and "version_number z" and "c \<in> set (version_core x y z)"
  shows "digit_char c \<or> c = CHR ''.''"
  using assms version_number_chars by (auto simp: version_core_def)

lemma publicationVersionPattern_iff:
  "publicationVersionPattern v = Some (x, y, z, pre) \<longleftrightarrow>
     version_number x \<and> version_number y \<and> version_number z \<and> (pre = [] \<or> version_identifiers pre) \<and>
     (\<exists>suffix. version_suffix suffix \<and> v = version_core x y z @ (if pre = [] then [] else CHR ''-'' # pre) @ suffix)"
proof
  assume l: "publicationVersionPattern v = Some (x, y, z, pre)"
  obtain release build hasBuild where c1: "cut_char (CHR ''+'') v = (release, build, hasBuild)" by (metis prod_cases3)
  obtain core pre' hasPre where c2: "cut_char (CHR ''-'') release = (core, pre', hasPre)" by (metis prod_cases3)
  have n: "split_char (CHR ''.'') core = [x, y, z]" "pre' = pre" "version_number x" "version_number y" "version_number z"
      "hasBuild \<Longrightarrow> version_identifiers build" "hasPre \<Longrightarrow> version_identifiers pre"
    using l by (auto simp: publicationVersionPattern_def c1 c2 split: if_splits list.splits)
  have "core = version_core x y z" using n(1) join_split [of "CHR ''.''" core] by (simp add: version_core_def)
  moreover have "release = core @ (if pre = [] then [] else CHR ''-'' # pre)"
    using c2 n(2,7) version_identifiers_Nil by (auto simp: cut_char_eq split: if_splits)
  moreover have "\<exists>suffix. version_suffix suffix \<and> v = release @ suffix"
    using c1 n(6) by (auto simp: cut_char_eq version_suffix_def split: if_splits)
  moreover have "pre = [] \<or> version_identifiers pre" using c2 n(2,7) by (auto simp: cut_char_eq split: if_splits)
  ultimately show "version_number x \<and> version_number y \<and> version_number z \<and> (pre = [] \<or> version_identifiers pre) \<and>
     (\<exists>suffix. version_suffix suffix \<and> v = version_core x y z @ (if pre = [] then [] else CHR ''-'' # pre) @ suffix)"
    using n(3-5) by auto
next
  assume r: "version_number x \<and> version_number y \<and> version_number z \<and> (pre = [] \<or> version_identifiers pre) \<and>
     (\<exists>suffix. version_suffix suffix \<and> v = version_core x y z @ (if pre = [] then [] else CHR ''-'' # pre) @ suffix)"
  define release where "release = version_core x y z @ (if pre = [] then [] else CHR ''-'' # pre)"
  obtain suffix where s: "version_suffix suffix" "v = release @ suffix" using r by (auto simp: release_def)
  have core: "CHR ''-'' \<notin> set (version_core x y z)" "CHR ''+'' \<notin> set (version_core x y z)"
    using r version_core_chars [of x y z] not_digits by fastforce+
  then have "CHR ''+'' \<notin> set release" using r version_identifiers_no_plus by (auto simp: release_def)
  then obtain build hasBuild where c1: "cut_char (CHR ''+'') v = (release, build, hasBuild)" "hasBuild \<Longrightarrow> version_identifiers build"
    using s unfolding cut_char_eq version_suffix_def by (metis append_Nil2)
  have c2: "cut_char (CHR ''-'') release = (version_core x y z, pre, pre \<noteq> [])"
    using core by (auto simp: cut_char_eq release_def)
  show "publicationVersionPattern v = Some (x, y, z, pre)"
    using r c1(2) by (simp add: publicationVersionPattern_def c1(1) c2 version_core_split)
qed

section \<open>The comparison is the sign of the precedence\<close>

lemma order_sign_zero [simp]: "order_sign x y = 0 \<longleftrightarrow> x = y"
  by (simp add: order_sign_def)

lemma order_sign_Nil: "order_sign [] ys = (if ys = [] then 0 else - 1)" "order_sign xs [] = (if xs = [] then 0 else 1)"
  by (cases ys) (simp_all add: order_sign_def)

lemma order_sign_Cons: "order_sign (x # xs) (y # ys) = (if order_sign x y \<noteq> 0 then order_sign x y else order_sign xs ys)"
  by (auto simp: order_sign_def)

lemma order_sign_Pair: "order_sign (x, u) (y, w) = (if order_sign x y \<noteq> 0 then order_sign x y else order_sign u w)"
  by (auto simp: order_sign_def less_prod_def)

definition good_identifier :: "string \<Rightarrow> bool" where
  "good_identifier w \<longleftrightarrow> w \<noteq> [] \<and> list_all identifier_char w \<and> (list_all digit_char w \<longrightarrow> version_number w)"

lemma numericPublicationIdentifier_iff:
  assumes "list_all identifier_char s"
  shows "numericPublicationIdentifier s \<longleftrightarrow> s \<noteq> [] \<and> list_all digit_char s"
proof -
  have "bv c < 128" if "identifier_char c" for c using that by (auto simp: identifier_char_def digit_char_def)
  then have "\<forall>c \<in> set s. bv c < 128" using assms by (auto simp: list_all_iff)
  then show ?thesis by (simp add: numericPublicationIdentifier_def runes_ascii digit_char_def list_all_iff)
qed

lemma identifier_sign:
  assumes "good_identifier x" and "good_identifier y"
  shows "order_sign (identifier_of x) (identifier_of y) =
      (let xn = numericPublicationIdentifier x; yn = numericPublicationIdentifier y in
       if xn \<noteq> yn then (if xn then - 1 else 1) else if xn then comparePublicationNumber x y else compare_strings x y) \<and>
    (identifier_of x = identifier_of y \<longleftrightarrow> x = y)"
proof -
  have n: "numericPublicationIdentifier w \<longleftrightarrow> list_all digit_char w"
      "identifier_of w = (if list_all digit_char w then NumericIdentifier (decimal w) else TextIdentifier w)" if "good_identifier w" for w
    using that by (simp_all add: good_identifier_def numericPublicationIdentifier_iff identifier_of_def)
  have c: "comparePublicationNumber x y = order_sign (decimal x) (decimal y) \<and> (decimal x = decimal y \<longleftrightarrow> x = y)"
    if "list_all digit_char x" "list_all digit_char y"
    using that assms by (intro comparePublicationNumber_sign) (simp_all add: good_identifier_def)
  show ?thesis
    using c n [OF assms(1)] n [OF assms(2)] by (auto simp: order_sign_def compare_strings_def Let_def)
qed

lemma comparePrereleases_sign:
  assumes "list_all good_identifier xs" and "list_all good_identifier ys"
  shows "comparePrereleases xs ys = (if xs = ys then 1 else order_sign (map identifier_of xs) (map identifier_of ys)) \<and>
    (map identifier_of xs = map identifier_of ys \<longleftrightarrow> xs = ys)"
  using assms
proof (induction xs ys rule: comparePrereleases.induct)
  case (1 x xs y ys)
  let ?c = "order_sign (identifier_of x) (identifier_of y)"
  have s: "?c = (let xn = numericPublicationIdentifier x; yn = numericPublicationIdentifier y in
       if xn \<noteq> yn then (if xn then - 1 else 1) else if xn then comparePublicationNumber x y else compare_strings x y)"
    and e: "identifier_of x = identifier_of y \<longleftrightarrow> x = y"
    using identifier_sign [of x y] "1.prems" by simp_all
  have r: "comparePrereleases (x # xs) (y # ys) = (if ?c \<noteq> 0 then ?c else comparePrereleases xs ys)"
    by (simp add: s Let_def del: order_sign_zero)
  show ?case
  proof (cases "x = y")
    case True
    then have z: "?c = 0" by simp
    from True have "numericPublicationIdentifier x = numericPublicationIdentifier y" by simp
    moreover have "(if numericPublicationIdentifier x then comparePublicationNumber x y else compare_strings x y) = 0"
      using True by (simp add: comparePublicationNumber_def compare_strings_def)
    ultimately have "comparePrereleases xs ys = (if xs = ys then 1 else order_sign (map identifier_of xs) (map identifier_of ys)) \<and>
      (map identifier_of xs = map identifier_of ys \<longleftrightarrow> xs = ys)"
      using "1.IH" "1.prems" by simp
    then show ?thesis using True r z by (simp add: order_sign_Cons)
  next
    case False
    then show ?thesis using r e by (simp add: order_sign_Cons)
  qed
qed (simp_all add: order_sign_Nil)

definition version_accepted :: "version_groups \<Rightarrow> bool" where
  "version_accepted g \<longleftrightarrow> (case g of (_, _, _, pre) \<Rightarrow>
     \<forall>w \<in> set (split_char (CHR ''.'') pre). \<not> (numericPublicationIdentifier w \<and> 1 < length w \<and> hd w = CHR ''0''))"

lemma accepted_identifiers:
  assumes "version_identifiers pre" and "version_accepted (x, y, z, pre)"
  shows "list_all good_identifier (split_char (CHR ''.'') pre)"
proof -
  have "good_identifier w" if w: "w \<in> set (split_char (CHR ''.'') pre)" for w
  proof -
    have i: "w \<noteq> []" "list_all identifier_char w" using assms(1) w by (auto simp: version_identifiers_def list_all_iff)
    have "version_number w" if "list_all digit_char w"
    proof -
      have "length w = 1" if "hd w = CHR ''0''"
        using assms(2) w i numericPublicationIdentifier_iff [OF i(2)] \<open>list_all digit_char w\<close> that
        by (cases w) (auto simp: version_accepted_def)
      then show ?thesis using i(1) that by (cases w) (auto simp: version_number_def)
    qed
    then show ?thesis using i by (simp add: good_identifier_def)
  qed
  then show ?thesis by (simp add: list_all_iff)
qed

lemma ComparePublicationVersions_sign:
  assumes "publicationVersionPattern a = Some g" and "publicationVersionPattern b = Some h" and "version_accepted g" and "version_accepted h"
  shows "ComparePublicationVersions a b = order_sign (precedence g) (precedence h)"
proof -
  obtain x1 x2 x3 x4 y1 y2 y3 y4 where g: "g = (x1, x2, x3, x4)" and h: "h = (y1, y2, y3, y4)" by (cases g; cases h) auto
  have n: "version_number x1" "version_number x2" "version_number x3" "x4 = [] \<or> version_identifiers x4"
      "version_number y1" "version_number y2" "version_number y3" "y4 = [] \<or> version_identifiers y4"
    using assms(1,2) by (simp_all add: g h publicationVersionPattern_iff)
  note c = comparePublicationNumber_sign [OF n(1,5), THEN conjunct1] comparePublicationNumber_sign [OF n(2,6), THEN conjunct1]
    comparePublicationNumber_sign [OF n(3,7), THEN conjunct1]
  have p: "(if x4 = y4 then 0 else if x4 = [] then 1 else if y4 = [] then - 1
      else comparePrereleases (split_char (CHR ''.'') x4) (split_char (CHR ''.'') y4)) =
      order_sign (x4 = [], map identifier_of (split_char (CHR ''.'') x4)) (y4 = [], map identifier_of (split_char (CHR ''.'') y4))"
  proof (cases "x4 = y4 \<or> x4 = [] \<or> y4 = []")
    case True
    then show ?thesis by (auto simp: order_sign_def less_prod_def)
  next
    case False
    have "split_char (CHR ''.'') x4 \<noteq> split_char (CHR ''.'') y4" using False join_split by metis
    moreover have "list_all good_identifier (split_char (CHR ''.'') x4)" "list_all good_identifier (split_char (CHR ''.'') y4)"
      using False n accepted_identifiers assms(3,4) unfolding g h by blast+
    ultimately show ?thesis using False comparePrereleases_sign by (auto simp: order_sign_Pair)
  qed
  show ?thesis
    unfolding ComparePublicationVersions_def assms(1,2) g h
    by (simp add: c p Let_def order_sign_Pair del: order_sign_zero)
qed

section \<open>Accepted publications\<close>

lemma accepted_publication:
  assumes "ValidateCatalogPublication parse_url (Some p) = None"
  shows "(IsBranch p \<longrightarrow> pn_Version p = [] \<and> \<not> pn_Latest p) \<and>
    (\<not> IsBranch p \<longrightarrow> pn_Channel p = ''release'' \<and> (\<exists>x y z pre. publicationVersionPattern (pn_Version p) = Some (x, y, z, pre) \<and>
       version_accepted (x, y, z, pre) \<and> (pn_Latest p \<longrightarrow> pre = [])))"
proof -
  have "validatePublicationChannel p = None"
    using assms by (simp add: ValidateCatalogPublication_def del: each_None)
  then show ?thesis
    by (auto simp: validatePublicationChannel_def IsBranch_def version_accepted_def split: if_splits option.splits)
qed

lemma stable_version_iff:
  assumes "publicationVersionPattern v = Some (x, y, z, pre)"
  shows "stable_version v \<longleftrightarrow> pre = []"
proof -
  obtain suffix where n: "version_number x" "version_number y" "version_number z" "pre = [] \<or> version_identifiers pre"
    and s: "version_suffix suffix" "v = version_core x y z @ (if pre = [] then [] else CHR ''-'' # pre) @ suffix"
    using assms by (auto simp: publicationVersionPattern_iff)
  define release where "release = version_core x y z @ (if pre = [] then [] else CHR ''-'' # pre)"
  have core: "CHR ''-'' \<notin> set (version_core x y z)" "CHR ''+'' \<notin> set (version_core x y z)"
    using version_core_chars [OF n(1-3)] not_digits by fastforce+
  then have "CHR ''+'' \<notin> set release" using n(4) version_identifiers_no_plus by (auto simp: release_def)
  then have "hd (split_char (CHR ''+'') v) = release"
    using s split_char_word [of "CHR ''+''" release] split_char_sep [of "CHR ''+''" release]
    by (auto simp: version_suffix_def simp flip: release_def append_assoc)
  moreover have "contains_str ''-'' t \<longleftrightarrow> CHR ''-'' \<in> set t" for t by (induction t) auto
  ultimately show ?thesis using core(1) by (simp add: stable_version_def release_def)
qed

fun published :: "catalog_publication option list \<Rightarrow> catalog_publication list" where
  "published [] = []"
| "published (None # rest) = published rest"
| "published (Some p # rest) = p # published rest"

lemma set_published: "p \<in> set (published ps) \<longleftrightarrow> Some p \<in> set ps"
  by (induction ps rule: published.induct) auto

lemma scanPublications_Inr:
  assumes "scanPublications parse_url seen latest ps = Inr latest'"
  shows "(\<forall>p \<in> set (published ps). ValidateCatalogPublication parse_url (Some p) = None) \<and>
    distinct (map publicationIdentity (published ps)) \<and> set (map publicationIdentity (published ps)) \<inter> set seen = {} \<and>
    map_of latest \<subseteq>\<^sub>m map_of latest' \<and> (\<forall>p \<in> set (published ps). pn_Latest p \<longrightarrow> map_of latest' (pn_API p) = Some p)"
  using assms
proof (induction parse_url seen latest ps rule: scanPublications.induct)
  case (2 parse_url seen latest publication rest)
  show ?case
  proof (cases publication)
    case None
    then show ?thesis using 2 by simp
  next
    case (Some p)
    let ?i = "publicationIdentity p" and ?l = "if pn_Latest p then map_put (pn_API p) p latest else latest"
    have v: "ValidateCatalogPublication parse_url (Some p) = None" "?i \<notin> set seen" "pn_Latest p \<Longrightarrow> map_of latest (pn_API p) = None"
      and r: "scanPublications parse_url (?i # seen) ?l rest = Inr latest'"
      using "2.prems" Some by (auto simp: Let_def split: if_splits)
    have ih: "(\<forall>q \<in> set (published rest). ValidateCatalogPublication parse_url (Some q) = None) \<and>
        distinct (map publicationIdentity (published rest)) \<and> set (map publicationIdentity (published rest)) \<inter> set (?i # seen) = {} \<and>
        map_of ?l \<subseteq>\<^sub>m map_of latest' \<and> (\<forall>q \<in> set (published rest). pn_Latest q \<longrightarrow> map_of latest' (pn_API q) = Some q)"
      using "2.IH" Some v r by (cases "pn_Latest p") (simp_all add: Let_def fun_upd_def)
    have "map_of latest \<subseteq>\<^sub>m map_of ?l" using v(3) by (auto simp: map_le_def)
    moreover have "pn_Latest p \<Longrightarrow> map_of latest' (pn_API p) = Some p" using ih by (auto simp: map_le_def)
    ultimately show ?thesis using ih v Some by (auto intro: map_le_trans)
  qed
qed simp

lemma ValidateCatalogPublicationSet_None:
  assumes "ValidateCatalogPublicationSet parse_url ps = None"
  obtains latest where "scanPublications parse_url [] [] ps = Inr latest"
    "\<And>p l. Some p \<in> set ps \<Longrightarrow> pn_Channel p = ''release'' \<Longrightarrow> stable_version (pn_Version p) \<Longrightarrow> map_of latest (pn_API p) = Some l \<Longrightarrow>
      ComparePublicationVersions (pn_Version p) (pn_Version l) \<le> 0"
proof -
  obtain latest where s: "scanPublications parse_url [] [] ps = Inr latest"
    using assms by (auto simp: ValidateCatalogPublicationSet_def split: sum.splits)
  have "ComparePublicationVersions (pn_Version p) (pn_Version l) \<le> 0"
    if "Some p \<in> set ps" "pn_Channel p = ''release''" "stable_version (pn_Version p)" "map_of latest (pn_API p) = Some l" for p l
    using assms that by (auto simp: ValidateCatalogPublicationSet_def s)
  then show ?thesis by (rule that [OF s])
qed

lemma publicationIdentity_eq:
  assumes "ValidateCatalogPublication parse_url (Some p) = None" and "ValidateCatalogPublication parse_url (Some q) = None"
    and "pn_API p = pn_API q" and "IsBranch p = IsBranch q" and "IsBranch p \<or> pn_Version p = pn_Version q"
  shows "publicationIdentity p = publicationIdentity q"
  using accepted_publication [OF assms(1)] accepted_publication [OF assms(2)] assms(3-5) by (auto simp: publicationIdentity_def)

lemma latest_is_highest:
  assumes "ValidateCatalogPublicationSet parse_url ps = None" and "Some l \<in> set ps" and "pn_Latest l"
    and "Some p \<in> set ps" and "pn_API p = pn_API l" and "publicationVersionPattern (pn_Version p) = Some (x, y, z, [])"
  shows "\<exists>x' y' z'. publicationVersionPattern (pn_Version l) = Some (x', y', z', []) \<and> precedence (x, y, z, []) \<le> precedence (x', y', z', [])"
proof -
  obtain latest where s: "scanPublications parse_url [] [] ps = Inr latest"
    and c: "\<And>q m. Some q \<in> set ps \<Longrightarrow> pn_Channel q = ''release'' \<Longrightarrow> stable_version (pn_Version q) \<Longrightarrow> map_of latest (pn_API q) = Some m \<Longrightarrow>
      ComparePublicationVersions (pn_Version q) (pn_Version m) \<le> 0"
    by (rule ValidateCatalogPublicationSet_None [OF assms(1)]) blast
  note scan = scanPublications_Inr [OF s]
  have v: "ValidateCatalogPublication parse_url (Some l) = None" "ValidateCatalogPublication parse_url (Some p) = None"
    and m: "map_of latest (pn_API p) = Some l"
    using scan assms(2-5) by (auto simp: set_published)
  have "publicationVersionPattern [] = None" by code_simp
  then have "\<not> IsBranch p" using accepted_publication [OF v(2)] assms(6) by auto
  then have p: "pn_Channel p = ''release''" "version_accepted (x, y, z, [])" using accepted_publication [OF v(2)] assms(6) by auto
  obtain x' y' z' where l: "publicationVersionPattern (pn_Version l) = Some (x', y', z', [])" "version_accepted (x', y', z', [])"
    using accepted_publication [OF v(1)] assms(3) by auto
  have "ComparePublicationVersions (pn_Version p) (pn_Version l) \<le> 0"
    using c assms(4) p(1) m stable_version_iff [OF assms(6)] by blast
  then have "order_sign (precedence (x, y, z, [])) (precedence (x', y', z', [])) \<le> 0"
    using ComparePublicationVersions_sign [OF assms(6) l(1) p(2) l(2)] by simp
  then have "precedence (x, y, z, []) \<le> precedence (x', y', z', [])" by (auto simp: order_sign_def not_less split: if_splits)
  then show ?thesis using l(1) by blast
qed

section \<open>Properties\<close>

text \<open>
  C33: the comparison of publication versions is SemVer precedence. For versions of any length, and
  without ever converting a component to a machine integer, the result is the sign of the order that
  compares major, minor and patch as numbers, puts a pre-release before its release, compares
  pre-release identifiers one by one (numeric ones as numbers and before textual ones, textual ones
  bytewise, a prefix first) and ignores build metadata. The versions are those that the validator of a
  release accepts.
\<close>

theorem version_comparison_is_precedence:
  assumes "publicationVersionPattern a = Some g" and "publicationVersionPattern b = Some h" and "version_accepted g" and "version_accepted h"
  shows "ComparePublicationVersions a b = order_sign (precedence g) (precedence h)"
  by (rule ComparePublicationVersions_sign [OF assms])

text \<open>
  C34: in an accepted set of publications each API has at most one publication per branch channel and
  per release version, at most one of them is marked latest, the latest one is a stable release, and no
  stable release of the API has a higher precedence.
\<close>

theorem latest_publication_is_unique_and_highest:
  assumes "ValidateCatalogPublicationSet parse_url ps = None" and "l \<in> set (published ps)" and "pn_Latest l"
  shows "distinct (published ps) \<and>
    (\<forall>p q. p \<in> set (published ps) \<and> q \<in> set (published ps) \<and> pn_API p = pn_API q \<and>
      (IsBranch p \<and> IsBranch q \<or> \<not> IsBranch p \<and> \<not> IsBranch q \<and> pn_Version p = pn_Version q) \<longrightarrow> p = q) \<and>
    (\<forall>p. p \<in> set (published ps) \<and> pn_API p = pn_API l \<and> pn_Latest p \<longrightarrow> p = l) \<and>
    (\<forall>p x y z. p \<in> set (published ps) \<and> pn_API p = pn_API l \<and> publicationVersionPattern (pn_Version p) = Some (x, y, z, []) \<longrightarrow>
      (\<exists>x' y' z'. publicationVersionPattern (pn_Version l) = Some (x', y', z', []) \<and> precedence (x, y, z, []) \<le> precedence (x', y', z', [])))"
proof -
  obtain latest where s: "scanPublications parse_url [] [] ps = Inr latest"
    by (rule ValidateCatalogPublicationSet_None [OF assms(1)])
  note scan = scanPublications_Inr [OF s]
  have d: "distinct (published ps)" using scan by (simp add: distinct_map)
  have "p = q" if a: "p \<in> set (published ps)" "q \<in> set (published ps)" "pn_API p = pn_API q"
      "IsBranch p \<and> IsBranch q \<or> \<not> IsBranch p \<and> \<not> IsBranch q \<and> pn_Version p = pn_Version q" for p q
  proof -
    have "publicationIdentity p = publicationIdentity q"
      by (rule publicationIdentity_eq [of parse_url]) (use a scan in auto)
    then show "p = q" using a scan by (auto simp: distinct_map dest: inj_onD)
  qed
  moreover have "p = l" if "p \<in> set (published ps)" "pn_API p = pn_API l" "pn_Latest p" for p
    using scan assms(2,3) that by (metis option.inject)
  moreover note latest_is_highest [OF assms(1) _ assms(3), of p x y z for p x y z]
  ultimately show ?thesis using d assms(2) by (auto simp: set_published)
qed

section \<open>Sample publications\<close>

theorem version_comparison_is_precedence_witness:
  "ComparePublicationVersions ''1.10.0-rc.9'' ''1.10.0-rc.10+b1'' =
     order_sign (precedence (''1'', ''10'', ''0'', ''rc.9'')) (precedence (''1'', ''10'', ''0'', ''rc.10'')) \<and>
   order_sign (precedence (''1'', ''10'', ''0'', ''rc.9'')) (precedence (''1'', ''10'', ''0'', ''rc.10'')) = - 1"
proof
  have "publicationVersionPattern ''1.10.0-rc.9'' = Some (''1'', ''10'', ''0'', ''rc.9'')" by code_simp
  moreover have "publicationVersionPattern ''1.10.0-rc.10+b1'' = Some (''1'', ''10'', ''0'', ''rc.10'')" by code_simp
  moreover have "version_accepted (''1'', ''10'', ''0'', ''rc.9'')" "version_accepted (''1'', ''10'', ''0'', ''rc.10'')" by code_simp+
  ultimately show "ComparePublicationVersions ''1.10.0-rc.9'' ''1.10.0-rc.10+b1'' =
     order_sign (precedence (''1'', ''10'', ''0'', ''rc.9'')) (precedence (''1'', ''10'', ''0'', ''rc.10''))"
    by (rule version_comparison_is_precedence)
qed code_simp

definition sample_publication :: "string \<Rightarrow> bool \<Rightarrow> catalog_publication" where
  "sample_publication version isLatest = \<lparr>pn_API = ''pets'', pn_Audience = [], pn_Channel = ''release'', pn_ChannelName = [],
     pn_Version = version, pn_Latest = isLatest, pn_RepositoryURL = [], pn_Ref = ''refs/tags/v1'',
     pn_Commit = replicate 40 (CHR ''a''), pn_SourcePath = ''api/pets.yaml''\<rparr>"

lemma sample_publication_accepted:
  assumes "publicationVersionPattern version = Some (x, y, z, [])" and "length version \<le> 128"
  shows "ValidateCatalogPublication parse_url (Some (sample_publication version isLatest)) = None"
proof -
  have "canonical ''refs/tags/v1''" "canonical ''api/pets.yaml''"
    by (simp_all add: canonical_def utf8_valid_ascii runes_ascii is_control_def is_space_def)
  moreover have "publicationCommitPattern (replicate 40 (CHR ''a''))"
    by (simp add: publicationCommitPattern_def list_all_iff lower_hex_char_def)
  moreover have "validatePublicationChannel (sample_publication version isLatest) = None"
    using assms(1) by (simp add: validatePublicationChannel_def sample_publication_def numericPublicationIdentifier_def)
  moreover have "\<not> contains_any ''refs/tags/v1'' ('' ~^:?*['' @ [CHR 0x5C])" "\<not> contains_str ''..'' ''refs/tags/v1''" "\<not> has_suffix ''/'' ''refs/tags/v1''"
    by (simp_all add: contains_any_def has_suffix_def)
  ultimately show ?thesis
    using assms(2) sample_catalog_keys(2) sample_catalog_path unfolding ValidateCatalogPublication_def option.case first_error_None
    by (simp add: sample_publication_def ValidateCatalogDocumentKey_def del: append.simps)
qed

lemma sample_publication_fields [simp]:
  "pn_API (sample_publication v b) = ''pets''" "pn_Version (sample_publication v b) = v" "pn_Latest (sample_publication v b) = b"
  "pn_Channel (sample_publication v b) = ''release''"
  by (simp_all add: sample_publication_def)

lemma sample_publication_identity: "publicationIdentity (sample_publication v b) = publicationIdentity (sample_publication w c) \<longleftrightarrow> v = w"
  by (simp add: publicationIdentity_def IsBranch_def)

lemma sample_versions:
  "publicationVersionPattern ''1.9.0'' = Some (''1'', ''9'', ''0'', [])" "publicationVersionPattern ''1.10.0'' = Some (''1'', ''10'', ''0'', [])"
  "ComparePublicationVersions ''1.9.0'' ''1.10.0'' = - 1" "ComparePublicationVersions ''1.10.0'' ''1.10.0'' = 0"
  by code_simp+

lemma sample_publications_accepted:
  "ValidateCatalogPublicationSet (\<lambda>_. None) [Some (sample_publication ''1.9.0'' False), None, Some (sample_publication ''1.10.0'' True)] = None"
proof -
  have "ValidateCatalogPublication (\<lambda>_. None) (Some (sample_publication ''1.9.0'' False)) = None"
    "ValidateCatalogPublication (\<lambda>_. None) (Some (sample_publication ''1.10.0'' True)) = None"
    "ValidateCatalogPublication (\<lambda>_. None) None = None"
    by (simp_all add: sample_publication_accepted [OF sample_versions(1)] sample_publication_accepted [OF sample_versions(2)]
        ValidateCatalogPublication_def [of _ None])
  then show ?thesis
    by (simp add: ValidateCatalogPublicationSet_def Let_def sample_publication_identity sample_versions)
qed

theorem latest_publication_is_unique_and_highest_witness:
  "precedence (''1'', ''9'', ''0'', []) \<le> precedence (''1'', ''10'', ''0'', [])"
proof -
  define old new where "old = sample_publication ''1.9.0'' False" and "new = sample_publication ''1.10.0'' True"
  have n: "new \<in> set (published [Some old, None, Some new])" "pn_Latest new" by (simp_all add: new_def)
  have o: "old \<in> set (published [Some old, None, Some new]) \<and> pn_API old = pn_API new \<and>
      publicationVersionPattern (pn_Version old) = Some (''1'', ''9'', ''0'', [])"
    by (simp add: old_def new_def sample_versions)
  obtain x y z where g: "publicationVersionPattern (pn_Version new) = Some (x, y, z, [])"
      and le: "precedence (''1'', ''9'', ''0'', []) \<le> precedence (x, y, z, [])"
    using latest_publication_is_unique_and_highest [OF sample_publications_accepted [folded old_def new_def] n,
      THEN conjunct2, THEN conjunct2, THEN conjunct2, rule_format, OF o] by blast
  have "x = ''1''" "y = ''10''" "z = ''0''" using g by (auto simp: new_def sample_versions)
  then show ?thesis using le by (simp only:)
qed

end
