(* ===== verification/Catalog_Candidate.thy ===== *)
theory Catalog_Candidate
  imports Catalog_Publication
begin

text \<open>
  Candidates of a catalog revision (\<open>domain/catalog.go\<close>) and the validator that admits them
  (\<open>domain/catalog_validation.go\<close>): counts and sizes, unique keys and paths, the revision and the
  publications of the documents.
\<close>

section \<open>Data\<close>

definition maxCatalogSupportFiles :: nat where "maxCatalogSupportFiles = 1024"
definition maxCatalogDocumentBytes :: nat where "maxCatalogDocumentBytes = 8 * 2 ^ 20"
definition maxCatalogSourceBytes :: nat where "maxCatalogSourceBytes = 64 * 2 ^ 20"
definition maxKubernetesSourceBytes :: nat where "maxKubernetesSourceBytes = 16 * 2 ^ 20"

definition CompatibilityProfileStrict :: string where "CompatibilityProfileStrict = ''strict-v1''"
definition CompatibilityProfileKubernetes :: string where "CompatibilityProfileKubernetes = ''kubernetes-v3-v1''"
definition CompatibilityProfileVMware :: string where "CompatibilityProfileVMware = ''vmware-vsphere-v1''"
definition CatalogRevisionFiles :: string where "CatalogRevisionFiles = ''files''"
definition CatalogRevisionGit :: string where "CatalogRevisionGit = ''git''"
definition CatalogFormatJSON :: string where "CatalogFormatJSON = ''json''"
definition CatalogFormatYAML :: string where "CatalogFormatYAML = ''yaml''"

record catalog_revision =
  cv_Kind :: string
  cv_ID :: string
  cv_CommitSHA :: string
  cv_ManifestDigest :: string

record catalog_document =
  cd_Publication :: "catalog_publication option"
  cd_Key :: string
  cd_SourcePath :: string
  cd_Format :: string
  cd_Bytes :: string

record catalog_support_file =
  sf_SourcePath :: string
  sf_Bytes :: string

record catalog_candidate =
  cc_ID :: string
  cc_Title :: string
  cc_Branding :: docs_branding
  cc_DefaultDocumentKey :: string
  cc_ProfileID :: string
  cc_Revision :: catalog_revision
  cc_Documents :: "catalog_document list"
  cc_SupportFiles :: "catalog_support_file list"

text \<open>The reflective view; byte slices hold no strings.\<close>

definition rv_catalog_publication :: "catalog_publication \<Rightarrow> rvalue" where
  "rv_catalog_publication p = RStruct
     [(''API'', RStr (pn_API p)), (''Audience'', RStr (pn_Audience p)), (''Channel'', RStr (pn_Channel p)),
      (''ChannelName'', RStr (pn_ChannelName p)), (''Version'', RStr (pn_Version p)), (''Latest'', ROther),
      (''RepositoryURL'', RStr (pn_RepositoryURL p)), (''Ref'', RStr (pn_Ref p)), (''Commit'', RStr (pn_Commit p)),
      (''SourcePath'', RStr (pn_SourcePath p))]"

definition rv_catalog_document :: "catalog_document \<Rightarrow> rvalue" where
  "rv_catalog_document d = RStruct
     [(''Publication'', case cd_Publication d of None \<Rightarrow> RNil | Some p \<Rightarrow> rv_catalog_publication p),
      (''Key'', RStr (cd_Key d)), (''SourcePath'', RStr (cd_SourcePath d)), (''Format'', RStr (cd_Format d)), (''Bytes'', ROther)]"

definition rv_catalog_revision :: "catalog_revision \<Rightarrow> rvalue" where
  "rv_catalog_revision r = RStruct
     [(''Kind'', RStr (cv_Kind r)), (''ID'', RStr (cv_ID r)), (''CommitSHA'', RStr (cv_CommitSHA r)),
      (''ManifestDigest'', RStr (cv_ManifestDigest r))]"

definition rv_catalog_support_file :: "catalog_support_file \<Rightarrow> rvalue" where
  "rv_catalog_support_file f = RStruct [(''SourcePath'', RStr (sf_SourcePath f)), (''Bytes'', ROther)]"

definition rv_catalog_candidate :: "catalog_candidate \<Rightarrow> rvalue" where
  "rv_catalog_candidate c = RStruct
     [(''ID'', RStr (cc_ID c)), (''Title'', RStr (cc_Title c)), (''Branding'', rv_docs_branding (cc_Branding c)),
      (''DefaultDocumentKey'', RStr (cc_DefaultDocumentKey c)), (''ProfileID'', RStr (cc_ProfileID c)),
      (''Revision'', rv_catalog_revision (cc_Revision c)),
      (''Documents'', RSeq (map rv_catalog_document (cc_Documents c))),
      (''SupportFiles'', RSeq (map rv_catalog_support_file (cc_SupportFiles c)))]"

section \<open>Validation\<close>

definition validateCatalogRevision :: "catalog_revision \<Rightarrow> err" where
  "validateCatalogRevision revision = first_error
     [ValidateCanonicalIdentity ''catalog revision id'' (cv_ID revision) False,
      fail_if (\<not> isLowerSHA256 (cv_ManifestDigest revision)) (Errorf ''catalog revision manifest digest must be lowercase SHA-256'' []),
      (if cv_Kind revision = CatalogRevisionFiles then
         fail_if (cv_CommitSHA revision \<noteq> []) (Errorf ''file catalog revision must not contain a commit SHA'' [])
       else if cv_Kind revision = CatalogRevisionGit then
         fail_if (\<not> isLowerHex (cv_CommitSHA revision) 40 \<and> \<not> isLowerHex (cv_CommitSHA revision) 64)
           (Errorf ''Git catalog revision commit SHA must be a full lowercase object ID'' [])
       else Some (Errorf ''catalog revision kind %q is unsupported'' [cv_Kind revision]))]"

definition validateCatalogDocument :: "nat \<Rightarrow> catalog_document \<Rightarrow> bool \<Rightarrow> err" where
  "validateCatalogDocument i document limits = first_error
     [validateCatalogKey (''catalog document '' @ itoa i @ '' key'') (cd_Key document),
      validateCatalogSourcePath (''catalog document '' @ itoa i @ '' source path'') (cd_SourcePath document),
      fail_if (cd_Format document \<noteq> CatalogFormatJSON \<and> cd_Format document \<noteq> CatalogFormatYAML)
        (Errorf ''catalog document %d format %q is unsupported'' [itoa i, cd_Format document]),
      fail_if (cd_Bytes document = []) (Errorf ''catalog document %d bytes are required'' [itoa i]),
      fail_if (limits \<and> maxCatalogDocumentBytes < length (cd_Bytes document))
        (Errorf ''catalog document %d exceeds %d bytes'' [itoa i, itoa maxCatalogDocumentBytes])]"

text \<open>The loops over documents and support files, with the keys, the paths and the bytes seen so far.\<close>

fun validateCandidateDocuments ::
    "(string \<Rightarrow> url_parts option) \<Rightarrow> bool \<Rightarrow> nat \<Rightarrow> string list \<times> string list \<times> nat \<Rightarrow> catalog_document list \<Rightarrow>
     (string list \<times> string list \<times> nat) result" where
  "validateCandidateDocuments parse_url limits i seen [] = Inr seen"
| "validateCandidateDocuments parse_url limits i (keys, paths, totalBytes) (document # rest) =
     require (first_error
       [wrap_err (Wrapf ''document %q: %w'' [cd_Key document]) (ValidateCatalogPublication parse_url (cd_Publication document)),
        validateCatalogDocument i document limits,
        fail_if (cd_Key document \<in> set keys) (Errorf ''catalog document key %q is duplicated'' [cd_Key document]),
        fail_if (cd_SourcePath document \<in> set paths) (Errorf ''catalog document source path %q is duplicated'' [cd_SourcePath document])])
      (validateCandidateDocuments parse_url limits (Suc i)
        (cd_Key document # keys, cd_SourcePath document # paths, totalBytes + length (cd_Bytes document)) rest)"

fun validateCandidateSupport :: "bool \<Rightarrow> nat \<Rightarrow> string list \<times> nat \<Rightarrow> catalog_support_file list \<Rightarrow> nat result" where
  "validateCandidateSupport limits i (paths, totalBytes) [] = Inr totalBytes"
| "validateCandidateSupport limits i (paths, totalBytes) (support # rest) =
     require (first_error
       [validateCatalogSourcePath (''catalog support file '' @ itoa i @ '' source path'') (sf_SourcePath support),
        fail_if (sf_Bytes support = []) (Errorf ''catalog support file %d bytes are required'' [itoa i]),
        fail_if (limits \<and> maxCatalogDocumentBytes < length (sf_Bytes support))
          (Errorf ''catalog support file %d exceeds %d bytes'' [itoa i, itoa maxCatalogDocumentBytes]),
        fail_if (sf_SourcePath support \<in> set paths) (Errorf ''catalog source path %q is duplicated'' [sf_SourcePath support])])
      (validateCandidateSupport limits (Suc i) (sf_SourcePath support # paths, totalBytes + length (sf_Bytes support)) rest)"

definition sourceBytesLimit :: "string \<Rightarrow> nat" where
  "sourceBytesLimit profileID =
     (if profileID = CompatibilityProfileKubernetes then maxKubernetesSourceBytes else maxCatalogSourceBytes)"

definition ValidateCatalogCandidateWithOptions :: "(string \<Rightarrow> url_parts option) \<Rightarrow> catalog_candidate \<Rightarrow> bool \<Rightarrow> err" where
  "ValidateCatalogCandidateWithOptions parse_url candidate limits = to_err
     (require (first_error
        [validateUTF8Strings [] ''catalog candidate'' (rv_catalog_candidate candidate),
         validateCatalogKey ''catalog id'' (cc_ID candidate),
         ValidateCanonicalIdentity ''catalog profile'' (cc_ProfileID candidate) False,
         validateCatalogRevision (cc_Revision candidate),
         fail_if (cc_Documents candidate = []) (Errorf ''catalog requires at least one document'' []),
         fail_if (limits \<and> maxCatalogDocuments < length (cc_Documents candidate))
           (Errorf ''catalog documents exceed %d'' [itoa maxCatalogDocuments])])
      (bind_res (validateCandidateDocuments parse_url limits 0 ([], [], 0) (cc_Documents candidate)) (\<lambda>(keys, paths, totalBytes).
       require (first_error
         [fail_if (limits \<and> maxCatalogSupportFiles < length (cc_SupportFiles candidate))
            (Errorf ''catalog support files exceed %d'' [itoa maxCatalogSupportFiles]),
          ValidateCatalogPublicationSet parse_url (map cd_Publication (cc_Documents candidate))])
       (bind_res (validateCandidateSupport limits 0 (paths, totalBytes) (cc_SupportFiles candidate)) (\<lambda>totalBytes.
        require (first_error
          [fail_if (limits \<and> sourceBytesLimit (cc_ProfileID candidate) < totalBytes)
             (Errorf ''catalog source bytes %d exceed %d'' [itoa totalBytes, itoa (sourceBytesLimit (cc_ProfileID candidate))]),
           (if cc_DefaultDocumentKey candidate \<noteq> [] then first_error
              [validateCatalogKey ''default document key'' (cc_DefaultDocumentKey candidate),
               fail_if (cc_DefaultDocumentKey candidate \<notin> set keys)
                 (Errorf ''default document key %q does not exist'' [cc_DefaultDocumentKey candidate])]
            else None)])
        (Inr ()))))))"

definition ValidateCatalogCandidate :: "(string \<Rightarrow> url_parts option) \<Rightarrow> catalog_candidate \<Rightarrow> err" where
  "ValidateCatalogCandidate parse_url candidate = ValidateCatalogCandidateWithOptions parse_url candidate True"

section \<open>What is accepted\<close>

lemma validateCandidateDocuments_Inr:
  assumes "validateCandidateDocuments parse_url limits i (keys, paths, n0) docs = Inr (keys', paths', n1)"
  shows "distinct (map cd_Key docs) \<and> set (map cd_Key docs) \<inter> set keys = {} \<and> set keys' = set (map cd_Key docs) \<union> set keys \<and>
    distinct (map cd_SourcePath docs) \<and> set (map cd_SourcePath docs) \<inter> set paths = {} \<and>
    set paths' = set (map cd_SourcePath docs) \<union> set paths \<and>
    n1 = n0 + sum_list (map (\<lambda>d. length (cd_Bytes d)) docs) \<and>
    (\<forall>d \<in> set docs. cd_Bytes d \<noteq> [] \<and> (limits \<longrightarrow> length (cd_Bytes d) \<le> maxCatalogDocumentBytes))"
  using assms
proof (induction docs arbitrary: i keys paths n0)
  case (Cons d docs)
  have r: "validateCandidateDocuments parse_url limits (Suc i) (cd_Key d # keys, cd_SourcePath d # paths, n0 + length (cd_Bytes d)) docs =
      Inr (keys', paths', n1)"
    and v: "validateCatalogDocument i d limits = None" "cd_Key d \<notin> set keys" "cd_SourcePath d \<notin> set paths"
    using Cons.prems by auto
  have "cd_Bytes d \<noteq> []" "limits \<Longrightarrow> length (cd_Bytes d) \<le> maxCatalogDocumentBytes"
    using v(1) by (auto simp: validateCatalogDocument_def)
  then show ?case using Cons.IH [OF r] v by auto
qed simp

lemma validateCandidateSupport_Inr:
  assumes "validateCandidateSupport limits i (paths, n0) files = Inr n1"
  shows "distinct (map sf_SourcePath files) \<and> set (map sf_SourcePath files) \<inter> set paths = {} \<and>
    n1 = n0 + sum_list (map (\<lambda>f. length (sf_Bytes f)) files) \<and>
    (\<forall>f \<in> set files. sf_Bytes f \<noteq> [] \<and> (limits \<longrightarrow> length (sf_Bytes f) \<le> maxCatalogDocumentBytes))"
  using assms
proof (induction files arbitrary: i paths n0)
  case (Cons f files)
  have r: "validateCandidateSupport limits (Suc i) (sf_SourcePath f # paths, n0 + length (sf_Bytes f)) files = Inr n1"
    and v: "sf_Bytes f \<noteq> []" "limits \<Longrightarrow> length (sf_Bytes f) \<le> maxCatalogDocumentBytes" "sf_SourcePath f \<notin> set paths"
    using Cons.prems by auto
  then show ?case using Cons.IH [OF r] by auto
qed simp

section \<open>Properties\<close>

definition candidate_bytes :: "catalog_candidate \<Rightarrow> nat" where
  "candidate_bytes c = sum_list (map (\<lambda>d. length (cd_Bytes d)) (cc_Documents c)) + sum_list (map (\<lambda>f. length (sf_Bytes f)) (cc_SupportFiles c))"

text \<open>
  C35: an accepted candidate is bounded and unambiguous. It has between 1 and 256 documents and at most
  1024 support files, none of them empty or larger than 8 MiB, and at most 64 MiB together (16 MiB under
  the Kubernetes profile); no two documents share a key, no two files of either kind share a source
  path, and a default document key names one of the documents.
\<close>

theorem accepted_candidate_is_bounded:
  assumes "ValidateCatalogCandidate parse_url c = None"
  shows "1 \<le> length (cc_Documents c) \<and> length (cc_Documents c) \<le> 256 \<and> length (cc_SupportFiles c) \<le> 1024 \<and>
    (\<forall>b \<in> set (map cd_Bytes (cc_Documents c) @ map sf_Bytes (cc_SupportFiles c)). 1 \<le> length b \<and> length b \<le> 8388608) \<and>
    candidate_bytes c \<le> (if cc_ProfileID c = ''kubernetes-v3-v1'' then 16777216 else 67108864) \<and>
    distinct (map cd_Key (cc_Documents c)) \<and>
    distinct (map cd_SourcePath (cc_Documents c) @ map sf_SourcePath (cc_SupportFiles c)) \<and>
    (cc_DefaultDocumentKey c = [] \<or> cc_DefaultDocumentKey c \<in> cd_Key ` set (cc_Documents c))"
proof -
  obtain keys paths n0 n1 where n: "cc_Documents c \<noteq> []" "length (cc_Documents c) \<le> maxCatalogDocuments"
      "length (cc_SupportFiles c) \<le> maxCatalogSupportFiles" "n1 \<le> sourceBytesLimit (cc_ProfileID c)"
      "cc_DefaultDocumentKey c = [] \<or> cc_DefaultDocumentKey c \<in> set keys"
    and d: "validateCandidateDocuments parse_url True 0 ([], [], 0) (cc_Documents c) = Inr (keys, paths, n0)"
    and s: "validateCandidateSupport True 0 (paths, n0) (cc_SupportFiles c) = Inr n1"
    using assms unfolding ValidateCatalogCandidate_def ValidateCatalogCandidateWithOptions_def to_err_None
    by (auto simp del: each_None split: if_splits) blast
  note dd = validateCandidateDocuments_Inr [OF d] and ss = validateCandidateSupport_Inr [OF s]
  have "1 \<le> length (cc_Documents c)" using n(1) by (cases "cc_Documents c") auto
  moreover have "candidate_bytes c = n1" using dd ss by (simp add: candidate_bytes_def)
  moreover have "1 \<le> length b" if "b \<noteq> []" for b :: string using that by (cases b) auto
  ultimately show ?thesis
    using n dd ss by (auto simp: maxCatalogDocuments_def maxCatalogSupportFiles_def maxCatalogDocumentBytes_def sourceBytesLimit_def
        maxCatalogSourceBytes_def maxKubernetesSourceBytes_def CompatibilityProfileKubernetes_def)
qed

section \<open>A sample candidate\<close>

definition sample_candidate :: catalog_candidate where
  "sample_candidate = \<lparr>cc_ID = ''shop'', cc_Title = [], cc_Branding = si_Branding empty_index, cc_DefaultDocumentKey = ''pets'',
     cc_ProfileID = ''strict-v1'',
     cc_Revision = \<lparr>cv_Kind = ''files'', cv_ID = ''r1'', cv_CommitSHA = [], cv_ManifestDigest = replicate 64 (CHR ''a'')\<rparr>,
     cc_Documents = [\<lparr>cd_Publication = None, cd_Key = ''pets'', cd_SourcePath = ''api/pets.yaml'', cd_Format = ''yaml'', cd_Bytes = ''{}''\<rparr>],
     cc_SupportFiles = []\<rparr>"

lemma sample_candidate_accepted: "ValidateCatalogCandidate (\<lambda>_. None) sample_candidate = None"
proof -
  have c: "canonical ''shop''" "canonical ''pets''" "canonical ''r1''" "canonical ''strict-v1''" "canonical ''api/pets.yaml''" "canonical ''files''" "canonical ''yaml''"
    by (simp_all add: canonical_def utf8_valid_ascii runes_ascii is_control_def is_space_def)
  have d: "isLowerSHA256 (replicate 64 (CHR ''a''))" by (rule isLowerSHA256_hex) (simp_all add: lower_hex_char_def)
  have "direct_strings (rv_catalog_candidate sample_candidate) \<subseteq>
      {[], ''shop'', ''pets'', ''r1'', ''strict-v1'', ''api/pets.yaml'', ''files'', ''yaml'', replicate 64 (CHR ''a'')}"
    by (auto simp: rv_catalog_candidate_def sample_candidate_def rv_catalog_document_def rv_catalog_revision_def empty_index_def
        rv_docs_branding_def rv_docs_branding_logo_def)
  then have u: "validateUTF8Strings [] ''catalog candidate'' (rv_catalog_candidate sample_candidate) = None"
    using c [THEN canonical_valid] isLowerSHA256_valid [OF d] by (auto simp: validateUTF8Strings_direct)
  have r: "validateCatalogRevision (cc_Revision sample_candidate) = None"
    using c d by (simp add: validateCatalogRevision_def sample_candidate_def CatalogRevisionFiles_def)
  have p: "ValidateCatalogPublication (\<lambda>_. None) None = None" "ValidateCatalogPublicationSet (\<lambda>_. None) [None] = None"
    by (simp_all add: ValidateCatalogPublication_def ValidateCatalogPublicationSet_def)
  have "validateCandidateDocuments (\<lambda>_. None) True 0 ([], [], 0) (cc_Documents sample_candidate) = Inr ([''pets''], [''api/pets.yaml''], 2)"
    using sample_catalog_keys sample_catalog_path p(1)
    by (simp add: sample_candidate_def validateCatalogDocument_def CatalogFormatYAML_def maxCatalogDocumentBytes_def)
  then show ?thesis
    unfolding ValidateCatalogCandidate_def ValidateCatalogCandidateWithOptions_def to_err_None
    using u r p sample_catalog_keys c
    by (simp add: sample_candidate_def maxCatalogDocuments_def sourceBytesLimit_def maxCatalogSourceBytes_def maxKubernetesSourceBytes_def)
qed

theorem accepted_candidate_is_bounded_witness: "candidate_bytes sample_candidate \<le> 67108864 \<and> candidate_bytes sample_candidate = 2"
  using accepted_candidate_is_bounded [OF sample_candidate_accepted] by (simp add: candidate_bytes_def sample_candidate_def)

end
