(* ===== verification/Byte_Cache.thy ===== *)
theory Byte_Cache
  imports Digests
begin

text \<open>
  \<open>application/catalog/cache.go\<close>: the cache of decoded children of catalog snapshots. Concurrent loads
  of one key share a flight; flights reserve their bytes before they run, waiters of a flight and
  callers that wait for capacity may give up at any time, and a snapshot can be evicted while its
  children are loading. Every critical section under the cache's mutex is a definition; the threads
  between them are a step relation in which loads, flights, cancellations and evictions interleave
  freely. A flight is an address of a heap of flights, as its pointer is compared. The channel
  \<open>capacityChanged\<close> is a number that grows when the channel is closed and replaced. The map of
  elements is the lookup in the list of entries, whose front is the most recently used one.
\<close>

type_synonym w64 = "64 word"

section \<open>Data\<close>

record cache_key =
  key_SnapshotID :: string
  key_Digest :: string

record cache_limits =
  lim_Entries :: w64
  lim_Bytes :: w64
  lim_FlightEntries :: w64
  lim_FlightBytes :: w64

record 'v cache_entry =
  en_key :: cache_key
  en_value :: 'v
  en_weight :: w64

record 'v cache_flight =
  fl_done :: bool
  fl_cancelled :: bool
  fl_waiters :: w64
  fl_reservation :: w64
  fl_value :: "'v option"
  fl_err :: err

record 'v byte_cache =
  bc_limits :: cache_limits
  bc_lru :: "'v cache_entry list"
  bc_flights :: "(cache_key, nat) go_map"
  bc_heap :: "'v cache_flight list"
  bc_bytes :: w64
  bc_hits :: w64
  bc_misses :: w64
  bc_bypass :: w64
  bc_waiters :: w64
  bc_flightEntries :: w64
  bc_flightBytes :: w64
  bc_peakFlightEntries :: w64
  bc_peakFlightBytes :: w64
  bc_capacityChanged :: nat

record cache_stats =
  st_Entries :: w64
  st_Bytes :: w64
  st_Hits :: w64
  st_Misses :: w64
  st_Bypassed :: w64
  st_Waiters :: w64
  st_InFlightEntries :: w64
  st_InFlightBytes :: w64
  st_PeakInFlightEntries :: w64
  st_PeakInFlightBytes :: w64

text \<open>What a loader and a decoder may do; both may panic.\<close>

datatype load_answer = LoadData string | LoadError go_error | LoadPanic
datatype 'v decode_answer = Decoded 'v w64 | DecodeError go_error | DecodePanic

definition MaxUint64 :: w64 where "MaxUint64 = - 1"

section \<open>Construction\<close>

definition NewByteCache :: "cache_limits \<Rightarrow> 'v byte_cache" where
  "NewByteCache limits =
     (let limits = limits\<lparr>lim_FlightEntries := if lim_FlightEntries limits = 0 then lim_Entries limits else lim_FlightEntries limits,
        lim_FlightBytes := if lim_FlightBytes limits = 0 then lim_Bytes limits else lim_FlightBytes limits\<rparr> in
      \<lparr>bc_limits = limits, bc_lru = [], bc_flights = [], bc_heap = [], bc_bytes = 0, bc_hits = 0, bc_misses = 0, bc_bypass = 0,
       bc_waiters = 0, bc_flightEntries = 0, bc_flightBytes = 0, bc_peakFlightEntries = 0, bc_peakFlightBytes = 0, bc_capacityChanged = 0\<rparr>)"

definition NewDetailCache :: "'v byte_cache" where
  "NewDetailCache = NewByteCache \<lparr>lim_Entries = 128, lim_Bytes = 67108864, lim_FlightEntries = 8, lim_FlightBytes = 67108864\<rparr>"

definition NewSearchCache :: "'v byte_cache" where
  "NewSearchCache = NewByteCache \<lparr>lim_Entries = 64, lim_Bytes = 8388608, lim_FlightEntries = 8, lim_FlightBytes = 8388608\<rparr>"

definition DecodedWeightV1 :: "w64 \<Rightarrow> w64 \<Rightarrow> w64 \<Rightarrow> w64 result" where
  "DecodedWeightV1 stringBytes sliceCapacityBytes fixedDTOBytes =
     (if stringBytes > MaxUint64 - sliceCapacityBytes \<or> stringBytes + sliceCapacityBytes > MaxUint64 - fixedDTOBytes
        then Inl (Errorf ''catalog: decoded cache weight overflow'' [])
      else Inr (stringBytes + sliceCapacityBytes + fixedDTOBytes))"

section \<open>Loading\<close>

definition loadStart :: "cache_key \<Rightarrow> w64 \<Rightarrow> w64 \<Rightarrow> w64 result" where
  "loadStart key expectedLength maximumDecodedWeight =
     (if key_SnapshotID key = [] \<or> expectedLength = 0 then Inl (Errorf ''catalog: cache load contract is incomplete'' [])
      else if maximumDecodedWeight > MaxUint64 - expectedLength then Inl (Errorf ''catalog: cache flight reservation overflow'' [])
      else Inr (expectedLength + maximumDecodedWeight))"

definition cached :: "cache_key \<Rightarrow> 'v byte_cache \<Rightarrow> 'v cache_entry option" where
  "cached key c = find (\<lambda>e. en_key e = key) (bc_lru c)"

definition without_key :: "cache_key \<Rightarrow> 'v cache_entry list \<Rightarrow> 'v cache_entry list" where
  "without_key key es = filter (\<lambda>e. en_key e \<noteq> key) es"

definition flight_at :: "nat \<Rightarrow> ('v cache_flight \<Rightarrow> 'v cache_flight) \<Rightarrow> 'v byte_cache \<Rightarrow> 'v byte_cache" where
  "flight_at a f c = c\<lparr>bc_heap := (bc_heap c)[a := f (bc_heap c ! a)]\<rparr>"

definition joinFlight :: "nat \<Rightarrow> 'v byte_cache \<Rightarrow> 'v byte_cache" where
  "joinFlight a c = (flight_at a (\<lambda>f. f\<lparr>fl_waiters := fl_waiters f + 1\<rparr>) c)\<lparr>bc_waiters := bc_waiters c + 1\<rparr>"

definition startFlight :: "cache_key \<Rightarrow> w64 \<Rightarrow> 'v byte_cache \<Rightarrow> 'v byte_cache" where
  "startFlight key reservation c =
     (let entries = bc_flightEntries c + 1; bytes = bc_flightBytes c + reservation in
      c\<lparr>bc_heap := bc_heap c @ [\<lparr>fl_done = False, fl_cancelled = False, fl_waiters = 0, fl_reservation = reservation,
           fl_value = None, fl_err = None\<rparr>],
        bc_flights := map_put key (length (bc_heap c)) (bc_flights c),
        bc_flightEntries := entries, bc_flightBytes := bytes,
        bc_peakFlightEntries := (if entries > bc_peakFlightEntries c then entries else bc_peakFlightEntries c),
        bc_peakFlightBytes := (if bytes > bc_peakFlightBytes c then bytes else bc_peakFlightBytes c)\<rparr>)"

datatype 'v load_section = LoadHit 'v | LoadRefused go_error | LoadCapacity nat | LoadJoined nat

text \<open>One pass through the critical section of the loop of \<open>Load\<close>.\<close>

definition loadSection :: "cache_key \<Rightarrow> w64 \<Rightarrow> bool \<Rightarrow> 'v byte_cache \<Rightarrow> 'v load_section \<times> 'v byte_cache" where
  "loadSection key reservation missRecorded c =
     (case cached key c of
        Some e \<Rightarrow> (LoadHit (en_value e), c\<lparr>bc_hits := bc_hits c + 1, bc_lru := e # without_key key (bc_lru c)\<rparr>)
      | None \<Rightarrow>
          (let c = (if missRecorded then c else c\<lparr>bc_misses := bc_misses c + 1\<rparr>); limits = bc_limits c in
           case map_of (bc_flights c) key of
             Some a \<Rightarrow> (LoadJoined a, joinFlight a c)
           | None \<Rightarrow>
               if reservation > lim_FlightBytes limits \<or> lim_FlightEntries limits = 0 \<or> lim_FlightBytes limits = 0
                 then (LoadRefused (Errorf ''cache flight reservation exceeds limit'' []), c)
               else if bc_flightEntries c \<ge> lim_FlightEntries limits \<or> bc_flightBytes c > lim_FlightBytes limits - reservation
                 then (LoadCapacity (bc_capacityChanged c), c)
               else (LoadJoined (length (bc_heap c)), joinFlight (length (bc_heap c)) (startFlight key reservation c))))"

section \<open>Flights\<close>

text \<open>
  The body of \<open>execute\<close> up to the deferred \<open>complete\<close>: value, weight and error of the flight. The loader and the
  decoder return or panic; one that ends its goroutine by \<open>runtime.Goexit\<close> is not represented.
\<close>

definition execute :: "cache_key \<Rightarrow> w64 \<Rightarrow> w64 \<Rightarrow> load_answer \<Rightarrow> (string \<Rightarrow> 'v decode_answer) \<Rightarrow> 'v option \<times> w64 \<times> err" where
  "execute key expectedLength maximumDecodedWeight answer decoder =
     (case answer of
        LoadPanic \<Rightarrow> (None, 0, Some (Errorf ''cache flight panicked'' []))
      | LoadError e \<Rightarrow> (None, 0, Some e)
      | LoadData bytes \<Rightarrow>
          if word_of_nat (length bytes) \<noteq> expectedLength then (None, 0, Some (Errorf ''child length mismatch'' []))
          else if Sum256 bytes \<noteq> key_Digest key then (None, 0, Some (Errorf ''child digest mismatch'' []))
          else (case decoder bytes of
              DecodePanic \<Rightarrow> (None, 0, Some (Errorf ''cache flight panicked'' []))
            | DecodeError e \<Rightarrow> (None, 0, Some e)
            | Decoded v decodedWeight \<Rightarrow>
                if decodedWeight > maximumDecodedWeight then (Some v, 0, Some (Errorf ''child decoded weight exceeds reservation'' []))
                else if decodedWeight > MaxUint64 - word_of_nat (length bytes)
                  then (Some v, 0, Some (Errorf ''catalog: decoded cache weight overflow'' []))
                else (Some v, word_of_nat (length bytes) + decodedWeight, None)))"

text \<open>The loop of \<open>admit\<close> that drops the least recently used entries.\<close>

function evictOldest :: "cache_limits \<Rightarrow> 'v cache_entry list \<Rightarrow> w64 \<Rightarrow> 'v cache_entry list \<times> w64" where
  "evictOldest limits es bytes =
     (if es \<noteq> [] \<and> (word_of_nat (length es) > lim_Entries limits \<or> bytes > lim_Bytes limits)
        then evictOldest limits (butlast es) (bytes - en_weight (last es))
      else (es, bytes))"
  by pat_completeness auto
termination by (relation "measure (\<lambda>(limits, es, bytes). length es)") auto

declare evictOldest.simps [simp del]

definition admit :: "'v cache_entry \<Rightarrow> 'v byte_cache \<Rightarrow> 'v byte_cache" where
  "admit entry c =
     (let bytes = (case cached (en_key entry) c of
            Some prior \<Rightarrow> bc_bytes c - en_weight prior + en_weight entry
          | None \<Rightarrow> bc_bytes c + en_weight entry);
          (es, bytes) = evictOldest (bc_limits c) (entry # without_key (en_key entry) (bc_lru c)) bytes in
      c\<lparr>bc_lru := es, bc_bytes := bytes\<rparr>)"

definition drop_flight :: "cache_key \<Rightarrow> 'v byte_cache \<Rightarrow> 'v byte_cache" where
  "drop_flight key c = c\<lparr>bc_flights := filter (\<lambda>(k, a). k \<noteq> key) (bc_flights c)\<rparr>"

definition leaveFlights :: "cache_key \<Rightarrow> nat \<Rightarrow> 'v byte_cache \<Rightarrow> 'v byte_cache" where
  "leaveFlights key a c =
     (let c = (if map_of (bc_flights c) key = Some a then drop_flight key c else c) in
      c\<lparr>bc_flightEntries := bc_flightEntries c - 1, bc_flightBytes := bc_flightBytes c - fl_reservation (bc_heap c ! a),
        bc_capacityChanged := Suc (bc_capacityChanged c)\<rparr>)"

definition admitResult :: "cache_key \<Rightarrow> 'v option \<Rightarrow> w64 \<Rightarrow> 'v byte_cache \<Rightarrow> 'v byte_cache" where
  "admitResult key v weight c =
     (case v of
        None \<Rightarrow> c
      | Some x \<Rightarrow>
          if weight > lim_Bytes (bc_limits c) \<or> lim_Entries (bc_limits c) = 0 \<or> lim_Bytes (bc_limits c) = 0
            then c\<lparr>bc_bypass := bc_bypass c + 1\<rparr>
          else admit \<lparr>en_key = key, en_value = x, en_weight = weight\<rparr> c)"

definition complete :: "cache_key \<Rightarrow> nat \<Rightarrow> 'v option \<times> w64 \<times> err \<Rightarrow> 'v byte_cache \<Rightarrow> 'v byte_cache" where
  "complete key a result c =
     (case result of (givenValue, givenWeight, e) \<Rightarrow>
      let v = (if e \<noteq> None then None else givenValue); weight = (if e \<noteq> None then 0 else givenWeight);
          ownsFlight = (map_of (bc_flights c) key = Some a); c = leaveFlights key a c in
      flight_at a (\<lambda>f. f\<lparr>fl_value := v, fl_err := e, fl_cancelled := True, fl_done := True\<rparr>)
        (if e = None \<and> ownsFlight then admitResult key v weight c else c))"

section \<open>Waiters and eviction\<close>

definition releaseWaiter :: "cache_key \<Rightarrow> nat \<Rightarrow> 'v byte_cache \<Rightarrow> 'v byte_cache" where
  "releaseWaiter key a c =
     (let c = (if bc_waiters c > 0 then c\<lparr>bc_waiters := bc_waiters c - 1\<rparr> else c);
          c = flight_at a (\<lambda>f. if fl_waiters f > 0 then f\<lparr>fl_waiters := fl_waiters f - 1\<rparr> else f) c in
      if fl_waiters (bc_heap c ! a) = 0 \<and> map_of (bc_flights c) key = Some a
        then flight_at a (\<lambda>f. f\<lparr>fl_cancelled := True\<rparr>) (drop_flight key c)
      else c)"

definition EvictSnapshot :: "string \<Rightarrow> 'v byte_cache \<Rightarrow> 'v byte_cache" where
  "EvictSnapshot snapshot c =
     (let evicted = filter (\<lambda>e. key_SnapshotID (en_key e) = snapshot) (bc_lru c);
          cancelled = map snd (filter (\<lambda>(k, a). key_SnapshotID k = snapshot) (bc_flights c)) in
      c\<lparr>bc_bytes := fold (\<lambda>e bytes. bytes - en_weight e) evicted (bc_bytes c),
        bc_lru := filter (\<lambda>e. key_SnapshotID (en_key e) \<noteq> snapshot) (bc_lru c),
        bc_flights := filter (\<lambda>(k, a). key_SnapshotID k \<noteq> snapshot) (bc_flights c),
        bc_heap := fold (\<lambda>a fs. fs[a := (fs ! a)\<lparr>fl_cancelled := True\<rparr>]) cancelled (bc_heap c)\<rparr>)"

definition Stats :: "'v byte_cache \<Rightarrow> cache_stats" where
  "Stats c = \<lparr>st_Entries = word_of_nat (length (bc_lru c)), st_Bytes = bc_bytes c, st_Hits = bc_hits c, st_Misses = bc_misses c,
     st_Bypassed = bc_bypass c, st_Waiters = bc_waiters c, st_InFlightEntries = bc_flightEntries c, st_InFlightBytes = bc_flightBytes c,
     st_PeakInFlightEntries = bc_peakFlightEntries c, st_PeakInFlightBytes = bc_peakFlightBytes c\<rparr>"

section \<open>Threads\<close>

text \<open>A call of \<open>Load\<close>, where it stands, and the goroutine of a flight with the call that started it.\<close>

record 'v load_call =
  lc_key :: cache_key
  lc_expectedLength :: w64
  lc_maximum :: w64
  lc_decoder :: "string \<Rightarrow> 'v decode_answer"

datatype 'v load_pc = AtLoop bool | AtCapacity nat | AtFlight nat | Returned "'v result"

record 'v cache_system =
  sys_cache :: "'v byte_cache"
  sys_tasks :: "'v load_call list"
  sys_callers :: "('v load_call \<times> 'v load_pc) list"

definition reservation :: "'v load_call \<Rightarrow> w64" where
  "reservation call = lc_expectedLength call + lc_maximum call"

definition flightResult :: "'v cache_flight \<Rightarrow> 'v result \<Rightarrow> bool" where
  "flightResult f r \<longleftrightarrow> (case fl_err f of Some e \<Rightarrow> r = Inl e | None \<Rightarrow> (case fl_value f of Some v \<Rightarrow> r = Inr v | None \<Rightarrow> False))"

definition set_pc :: "nat \<Rightarrow> 'v load_pc \<Rightarrow> 'v cache_system \<Rightarrow> 'v cache_system" where
  "set_pc i pc s = s\<lparr>sys_callers := (sys_callers s)[i := (fst (sys_callers s ! i), pc)]\<rparr>"

definition lookupStep :: "nat \<Rightarrow> 'v load_call \<Rightarrow> bool \<Rightarrow> 'v cache_system \<Rightarrow> 'v cache_system" where
  "lookupStep i call missRecorded s =
     (case loadSection (lc_key call) (reservation call) missRecorded (sys_cache s) of (outcome, c) \<Rightarrow>
      let s' = s\<lparr>sys_cache := c\<rparr> in
      (case outcome of
         LoadHit v \<Rightarrow> set_pc i (Returned (Inr v)) s'
       | LoadRefused e \<Rightarrow> set_pc i (Returned (Inl e)) s'
       | LoadCapacity g \<Rightarrow> set_pc i (AtCapacity g) s'
       | LoadJoined a \<Rightarrow> set_pc i (AtFlight a)
           (if a = length (bc_heap (sys_cache s)) then s'\<lparr>sys_tasks := sys_tasks s @ [call]\<rparr> else s')))"

definition finishFlight :: "nat \<Rightarrow> load_answer \<Rightarrow> 'v cache_system \<Rightarrow> 'v cache_system" where
  "finishFlight a answer s =
     (let task = sys_tasks s ! a in
      s\<lparr>sys_cache := complete (lc_key task) a
          (execute (lc_key task) (lc_expectedLength task) (lc_maximum task) answer (lc_decoder task)) (sys_cache s)\<rparr>)"

definition releaseCaller :: "nat \<Rightarrow> 'v load_call \<Rightarrow> nat \<Rightarrow> 'v result \<Rightarrow> 'v cache_system \<Rightarrow> 'v cache_system" where
  "releaseCaller i call a r s = set_pc i (Returned r) (s\<lparr>sys_cache := releaseWaiter (lc_key call) a (sys_cache s)\<rparr>)"

inductive cache_step :: "'v load_call set \<Rightarrow> 'v cache_system \<Rightarrow> 'v cache_system \<Rightarrow> bool" for calls where
  begin_load: "call \<in> calls \<Longrightarrow> loadStart (lc_key call) (lc_expectedLength call) (lc_maximum call) = Inr r \<Longrightarrow>
     cache_step calls s (s\<lparr>sys_callers := sys_callers s @ [(call, AtLoop False)]\<rparr>)"
| lookup: "i < length (sys_callers s) \<Longrightarrow> sys_callers s ! i = (call, AtLoop missRecorded) \<Longrightarrow>
     cache_step calls s (lookupStep i call missRecorded s)"
| loop_cancelled: "i < length (sys_callers s) \<Longrightarrow> sys_callers s ! i = (call, AtLoop missRecorded) \<Longrightarrow>
     cache_step calls s (set_pc i (Returned (Inl e)) s)"
| capacity_changed: "i < length (sys_callers s) \<Longrightarrow> sys_callers s ! i = (call, AtCapacity g) \<Longrightarrow>
     g \<noteq> bc_capacityChanged (sys_cache s) \<Longrightarrow> cache_step calls s (set_pc i (AtLoop True) s)"
| capacity_cancelled: "i < length (sys_callers s) \<Longrightarrow> sys_callers s ! i = (call, AtCapacity g) \<Longrightarrow>
     cache_step calls s (set_pc i (Returned (Inl e)) s)"
| flight_cancelled: "i < length (sys_callers s) \<Longrightarrow> sys_callers s ! i = (call, AtFlight a) \<Longrightarrow>
     cache_step calls s (releaseCaller i call a (Inl e) s)"
| flight_done: "i < length (sys_callers s) \<Longrightarrow> sys_callers s ! i = (call, AtFlight a) \<Longrightarrow>
     fl_done (bc_heap (sys_cache s) ! a) \<Longrightarrow> flightResult (bc_heap (sys_cache s) ! a) r \<Longrightarrow>
     cache_step calls s (releaseCaller i call a r s)"
| finish: "a < length (bc_heap (sys_cache s)) \<Longrightarrow> \<not> fl_done (bc_heap (sys_cache s) ! a) \<Longrightarrow>
     cache_step calls s (finishFlight a answer s)"
| evict: "cache_step calls s (s\<lparr>sys_cache := EvictSnapshot snapshot (sys_cache s)\<rparr>)"

definition idle_system :: "cache_limits \<Rightarrow> 'v cache_system" where
  "idle_system limits = \<lparr>sys_cache = NewByteCache limits, sys_tasks = [], sys_callers = []\<rparr>"

section \<open>The entries\<close>

lemmas word_order = word_less_nat_alt word_le_nat_alt

definition weight_sum :: "'v cache_entry list \<Rightarrow> nat" where
  "weight_sum es = sum_list (map (\<lambda>e. unat (en_weight e)) es)"

lemma weight_sum_simps [simp]:
  "weight_sum [] = 0" "weight_sum (e # es) = unat (en_weight e) + weight_sum es"
  "weight_sum (es @ fs) = weight_sum es + weight_sum fs"
  by (simp_all add: weight_sum_def)

lemma weight_sum_split: "weight_sum es = weight_sum (filter P es) + weight_sum (filter (\<lambda>e. \<not> P e) es)"
  by (induction es) auto

lemma weight_sum_butlast: "es \<noteq> [] \<Longrightarrow> weight_sum es = weight_sum (butlast es) + unat (en_weight (last es))"
  using weight_sum_simps(3) [of "butlast es" "[last es]"] by (simp del: weight_sum_simps(3))

definition limits_small :: "cache_limits \<Rightarrow> bool" where
  "limits_small limits \<longleftrightarrow> unat (lim_Entries limits) < 2 ^ 63 \<and> unat (lim_Bytes limits) < 2 ^ 63"

definition entries_ok :: "'v byte_cache \<Rightarrow> bool" where
  "entries_ok c \<longleftrightarrow> distinct (map en_key (bc_lru c)) \<and> unat (bc_bytes c) = weight_sum (bc_lru c) \<and>
     length (bc_lru c) \<le> unat (lim_Entries (bc_limits c)) \<and> bc_bytes c \<le> lim_Bytes (bc_limits c)"

lemma evictOldest_fits:
  assumes "unat bytes = weight_sum es" and "length es < 2 ^ 64" and "evictOldest limits es bytes = (es', bytes')"
  shows "(\<exists>fs. es = es' @ fs) \<and> unat bytes' = weight_sum es' \<and> length es' \<le> unat (lim_Entries limits) \<and> bytes' \<le> lim_Bytes limits"
  using assms
proof (induction limits es bytes rule: evictOldest.induct)
  case (1 limits es bytes)
  have n: "unat (word_of_nat (length es) :: w64) = length es" using "1.prems"(2) by (simp add: unat_of_nat)
  show ?case
  proof (cases "es \<noteq> [] \<and> (word_of_nat (length es) > lim_Entries limits \<or> bytes > lim_Bytes limits)")
    case True
    then have e: "evictOldest limits (butlast es) (bytes - en_weight (last es)) = (es', bytes')"
      using "1.prems"(3) by (subst (asm) evictOldest.simps) simp
    have w: "weight_sum es = weight_sum (butlast es) + unat (en_weight (last es))" using True weight_sum_butlast by blast
    then have "en_weight (last es) \<le> bytes" using "1.prems"(1) by (simp add: word_order)
    then have "unat (bytes - en_weight (last es)) = weight_sum (butlast es)" using w "1.prems"(1) by (simp add: unat_sub)
    then have r: "(\<exists>fs. butlast es = es' @ fs) \<and> unat bytes' = weight_sum es' \<and> length es' \<le> unat (lim_Entries limits) \<and> bytes' \<le> lim_Bytes limits"
      using "1.IH" [OF True _ _ e] "1.prems"(2) by simp
    then obtain fs where "butlast es = es' @ fs" by blast
    then have "es = es' @ fs @ [last es]" using True by (metis append_assoc append_butlast_last_id)
    then show ?thesis using r by blast
  next
    case False
    then have "es' = es" "bytes' = bytes" using "1.prems"(3) by (auto simp: evictOldest.simps [of limits es bytes] split: if_splits)
    then show ?thesis using False n "1.prems"(1) by (cases es) (auto simp: word_order)
  qed
qed

lemma cached_Some: "cached key c = Some e \<Longrightarrow> e \<in> set (bc_lru c) \<and> en_key e = key"
  by (auto simp: cached_def find_Some_iff)

lemma cached_None: "cached key c = None \<Longrightarrow> without_key key (bc_lru c) = bc_lru c"
  by (simp add: cached_def find_None_iff without_key_def filter_id_conv)

lemma weight_without:
  assumes "distinct (map en_key es)" and "e \<in> set es"
  shows "weight_sum es = unat (en_weight e) + weight_sum (without_key (en_key e) es) \<and> length es = Suc (length (without_key (en_key e) es))"
  using assms
proof (induction es)
  case (Cons x es)
  show ?case
  proof (cases "x = e")
    case True
    then have "\<forall>y \<in> set es. en_key y \<noteq> en_key e" using Cons.prems(1) imageI [of _ "set es" en_key] by (metis distinct.simps(2) list.set_map list.simps(9))
    then have "without_key (en_key e) es = es" by (simp add: without_key_def filter_id_conv)
    then show ?thesis using True by (simp add: without_key_def)
  next
    case False
    then have "e \<in> set es" "en_key x \<noteq> en_key e" using Cons.prems by force+
    then show ?thesis using Cons by (simp add: without_key_def)
  qed
qed simp

lemma distinct_without: "distinct (map en_key es) \<Longrightarrow> distinct (map en_key (e # without_key (en_key e) es))"
  by (auto simp: without_key_def distinct_map_filter)

lemma admit_entries_ok:
  assumes "entries_ok c" and "limits_small (bc_limits c)" and "en_weight e \<le> lim_Bytes (bc_limits c)"
  shows "entries_ok (admit e c)"
proof -
  let ?es = "e # without_key (en_key e) (bc_lru c)"
  define bytes where "bytes = (case cached (en_key e) c of
      Some prior \<Rightarrow> bc_bytes c - en_weight prior + en_weight e | None \<Rightarrow> bc_bytes c + en_weight e)"
  have ok: "distinct (map en_key (bc_lru c))" "unat (bc_bytes c) = weight_sum (bc_lru c)"
      "length (bc_lru c) \<le> unat (lim_Entries (bc_limits c))" "unat (bc_bytes c) \<le> unat (lim_Bytes (bc_limits c))"
    using assms(1) by (simp_all add: entries_ok_def word_order)
  have small: "unat (bc_bytes c) < 2 ^ 63" "unat (en_weight e) < 2 ^ 63" "length (bc_lru c) < 2 ^ 63"
    using ok assms(2,3) by (auto simp: limits_small_def word_order)
  have plus: "unat (u + en_weight e) = unat u + unat (en_weight e)" if "unat u < 2 ^ 63" for u :: w64
    using that small(2) by (simp add: unat_plus_if')
  have b: "unat bytes = weight_sum ?es \<and> length ?es < 2 ^ 64"
  proof (cases "cached (en_key e) c")
    case None
    then show ?thesis using cached_None [OF None] plus small ok(2) by (simp add: bytes_def)
  next
    case (Some prior)
    note p = cached_Some [OF Some]
    have w: "weight_sum (bc_lru c) = unat (en_weight prior) + weight_sum (without_key (en_key e) (bc_lru c))"
        "length (bc_lru c) = Suc (length (without_key (en_key e) (bc_lru c)))"
      using weight_without [OF ok(1), of prior] p by simp_all
    have "en_weight prior \<le> bc_bytes c" using w(1) ok(2) by (simp add: word_order)
    then have "unat (bc_bytes c - en_weight prior) = weight_sum (without_key (en_key e) (bc_lru c))" using w(1) ok(2) by (simp add: unat_sub)
    then show ?thesis using Some plus [of "bc_bytes c - en_weight prior"] w small ok(2) by (simp add: bytes_def)
  qed
  obtain es' bytes' where r: "evictOldest (bc_limits c) ?es bytes = (es', bytes')" by fastforce
  note fits = evictOldest_fits [OF b [THEN conjunct1] b [THEN conjunct2] r]
  then obtain fs where "?es = es' @ fs" by blast
  then have "distinct (map en_key es')" using distinct_without [OF ok(1), of e] by (metis distinct_append map_append)
  moreover have "admit e c = c\<lparr>bc_lru := es', bc_bytes := bytes'\<rparr>" using r by (simp add: admit_def bytes_def [symmetric] Let_def)
  ultimately show ?thesis using fits by (simp add: entries_ok_def)
qed

lemma evict_bytes: "weight_sum es \<le> unat b \<Longrightarrow> unat (fold (\<lambda>e bytes. bytes - en_weight e) es b) = unat b - weight_sum es"
proof (induction es arbitrary: b)
  case (Cons e es)
  then have "unat (b - en_weight e) = unat b - unat (en_weight e)" by (simp add: unat_sub word_order)
  then show ?case using Cons by simp
qed simp

lemma EvictSnapshot_entries_ok: "entries_ok c \<Longrightarrow> entries_ok (EvictSnapshot snapshot c)"
proof -
  let ?P = "\<lambda>e. key_SnapshotID (en_key e) = snapshot"
  assume ok: "entries_ok c"
  have s: "weight_sum (bc_lru c) = weight_sum (filter ?P (bc_lru c)) + weight_sum (filter (\<lambda>e. \<not> ?P e) (bc_lru c))"
    by (rule weight_sum_split)
  then have b: "unat (fold (\<lambda>e bytes. bytes - en_weight e) (filter ?P (bc_lru c)) (bc_bytes c)) = weight_sum (filter (\<lambda>e. \<not> ?P e) (bc_lru c))"
    using ok by (simp add: entries_ok_def evict_bytes)
  then show ?thesis
    using ok s le_trans [OF length_filter_le]
    by (auto simp: entries_ok_def EvictSnapshot_def Let_def word_order distinct_map_filter)
qed

section \<open>The flights\<close>

definition profile :: "'v cache_flight list \<Rightarrow> (bool \<times> w64) list" where
  "profile fs = map (\<lambda>f. (fl_done f, fl_reservation f)) fs"

definition running :: "(bool \<times> w64) list \<Rightarrow> w64 list" where
  "running ps = map snd (filter (\<lambda>p. \<not> fst p) ps)"

abbreviation in_flight :: "'v byte_cache \<Rightarrow> w64 list" where
  "in_flight c \<equiv> running (profile (bc_heap c))"

definition flights_ok :: "'v byte_cache \<Rightarrow> bool" where
  "flights_ok c \<longleftrightarrow> unat (bc_flightEntries c) = length (in_flight c) \<and> unat (bc_flightBytes c) = sum_list (map unat (in_flight c)) \<and>
     bc_flightEntries c \<le> lim_FlightEntries (bc_limits c) \<and> bc_flightBytes c \<le> lim_FlightBytes (bc_limits c) \<and>
     bc_peakFlightEntries c \<le> lim_FlightEntries (bc_limits c) \<and> bc_peakFlightBytes c \<le> lim_FlightBytes (bc_limits c) \<and>
     (\<forall>k a. map_of (bc_flights c) k = Some a \<longrightarrow> a < length (bc_heap c) \<and> \<not> fl_done (bc_heap c ! a))"

lemma running_simps [simp]:
  "running [] = []" "running (p # ps) = (if fst p then running ps else snd p # running ps)" "running (ps @ qs) = running ps @ running qs"
  by (simp_all add: running_def)

lemma profile_update [simp]: "profile (fs[a := f]) = (profile fs)[a := (fl_done f, fl_reservation f)]"
  by (simp add: profile_def map_update)

lemma profile_simps [simp]: "length (profile fs) = length fs" "profile (fs @ gs) = profile fs @ profile gs"
    "profile [f] = [(fl_done f, fl_reservation f)]" "a < length fs \<Longrightarrow> profile fs ! a = (fl_done (fs ! a), fl_reservation (fs ! a))"
  by (simp_all add: profile_def)

text \<open>An update that keeps what the counters depend on.\<close>

lemma profile_same:
  "fl_done (f (fs ! a)) = fl_done (fs ! a) \<Longrightarrow> fl_reservation (f (fs ! a)) = fl_reservation (fs ! a) \<Longrightarrow>
     profile (fs[a := f (fs ! a)]) = profile fs"
  by (cases "a < length fs") (auto simp: list_update_same_conv list_update_beyond)

lemma profile_flight_at:
  "(\<And>f. fl_done (g f) = fl_done f) \<Longrightarrow> (\<And>f. fl_reservation (g f) = fl_reservation f) \<Longrightarrow>
     profile (bc_heap (flight_at a g c)) = profile (bc_heap c)"
  unfolding flight_at_def by (simp add: profile_same del: profile_update)

lemma running_split:
  "\<not> fst p \<Longrightarrow> length (running (xs @ p # ys)) = Suc (length (running (xs @ (True, r) # ys))) \<and>
     sum_list (map unat (running (xs @ p # ys))) = unat (snd p) + sum_list (map unat (running (xs @ (True, r) # ys)))"
  by simp

lemma running_finish:
  assumes "a < length ps" and "\<not> fst (ps ! a)"
  shows "length (running ps) = Suc (length (running (ps[a := (True, r)]))) \<and>
    sum_list (map unat (running ps)) = unat (snd (ps ! a)) + sum_list (map unat (running (ps[a := (True, r)])))"
  using running_split [of "ps ! a" "take a ps" "drop (Suc a) ps" r] assms(2)
  unfolding upd_conv_take_nth_drop [OF assms(1), symmetric] list_update_id by blast

lemma map_of_drop: "map_of (bc_flights (drop_flight key c)) = (map_of (bc_flights c))(key := None)"
proof -
  have "map_of (filter (\<lambda>(k, a). k \<noteq> key) m) = (map_of m)(key := None)" for m :: "(cache_key \<times> nat) list"
    by (induction m) (auto simp: fun_eq_iff)
  then show ?thesis by (simp add: drop_flight_def)
qed

lemma drop_flight_fields [simp]:
  "bc_limits (drop_flight key c) = bc_limits c" "bc_lru (drop_flight key c) = bc_lru c" "bc_heap (drop_flight key c) = bc_heap c"
  "bc_bytes (drop_flight key c) = bc_bytes c" "bc_waiters (drop_flight key c) = bc_waiters c"
  "bc_flightEntries (drop_flight key c) = bc_flightEntries c" "bc_flightBytes (drop_flight key c) = bc_flightBytes c"
  "bc_peakFlightEntries (drop_flight key c) = bc_peakFlightEntries c" "bc_peakFlightBytes (drop_flight key c) = bc_peakFlightBytes c"
  "bc_capacityChanged (drop_flight key c) = bc_capacityChanged c" "bc_bypass (drop_flight key c) = bc_bypass c"
  by (simp_all add: drop_flight_def)

lemma flight_at_fields [simp]:
  "bc_limits (flight_at a f c) = bc_limits c" "bc_lru (flight_at a f c) = bc_lru c" "bc_heap (flight_at a f c) = (bc_heap c)[a := f (bc_heap c ! a)]"
  "bc_flights (flight_at a f c) = bc_flights c" "bc_bytes (flight_at a f c) = bc_bytes c" "bc_waiters (flight_at a f c) = bc_waiters c"
  "bc_flightEntries (flight_at a f c) = bc_flightEntries c" "bc_flightBytes (flight_at a f c) = bc_flightBytes c"
  "bc_peakFlightEntries (flight_at a f c) = bc_peakFlightEntries c" "bc_peakFlightBytes (flight_at a f c) = bc_peakFlightBytes c"
  "bc_capacityChanged (flight_at a f c) = bc_capacityChanged c" "bc_bypass (flight_at a f c) = bc_bypass c"
  by (simp_all add: flight_at_def)

lemma admit_fields [simp]:
  "bc_limits (admit e c) = bc_limits c" "bc_heap (admit e c) = bc_heap c" "bc_flights (admit e c) = bc_flights c"
  "bc_flightEntries (admit e c) = bc_flightEntries c" "bc_flightBytes (admit e c) = bc_flightBytes c"
  "bc_peakFlightEntries (admit e c) = bc_peakFlightEntries c" "bc_peakFlightBytes (admit e c) = bc_peakFlightBytes c"
  "bc_capacityChanged (admit e c) = bc_capacityChanged c"
  by (simp_all add: admit_def Let_def split: prod.split option.split)

text \<open>Only these parts of a cache matter to the two invariants.\<close>

lemma entries_ok_cong:
  "bc_lru c' = bc_lru c \<Longrightarrow> bc_bytes c' = bc_bytes c \<Longrightarrow> bc_limits c' = bc_limits c \<Longrightarrow> entries_ok c' = entries_ok c"
  by (simp add: entries_ok_def)

lemma flights_ok_mono:
  assumes "flights_ok c" and "profile (bc_heap c') = profile (bc_heap c)" and "map_of (bc_flights c') \<subseteq>\<^sub>m map_of (bc_flights c)"
    and "bc_limits c' = bc_limits c" "bc_flightEntries c' = bc_flightEntries c" "bc_flightBytes c' = bc_flightBytes c"
    and "bc_peakFlightEntries c' = bc_peakFlightEntries c" "bc_peakFlightBytes c' = bc_peakFlightBytes c"
  shows "flights_ok c'"
proof -
  have l: "length (bc_heap c') = length (bc_heap c)" using assms(2) by (metis profile_simps(1))
  have d: "fl_done (bc_heap c' ! a) = fl_done (bc_heap c ! a)" if "a < length (bc_heap c)" for a
    using assms(2) that l profile_simps(4) [of a "bc_heap c"] profile_simps(4) [of a "bc_heap c'"] by simp
  have "map_of (bc_flights c) k = Some a" if "map_of (bc_flights c') k = Some a" for k a
    using assms(3) that by (auto simp: map_le_def dom_def)
  then have "\<forall>k a. map_of (bc_flights c') k = Some a \<longrightarrow> a < length (bc_heap c') \<and> \<not> fl_done (bc_heap c' ! a)"
    using assms(1) l d unfolding flights_ok_def by metis
  then show ?thesis using assms by (simp add: flights_ok_def)
qed

section \<open>Every critical section keeps the invariants\<close>

definition cache_ok :: "'v byte_cache \<Rightarrow> bool" where
  "cache_ok c \<longleftrightarrow> limits_small (bc_limits c) \<and> entries_ok c \<and> flights_ok c"

lemma joinFlight_ok: "cache_ok c \<Longrightarrow> cache_ok (joinFlight a c)"
  unfolding cache_ok_def joinFlight_def
  by (auto simp: entries_ok_def profile_same simp del: profile_update intro: flights_ok_mono)

lemma startFlight_ok:
  assumes "cache_ok c" and "\<not> r > lim_FlightBytes (bc_limits c)" and "\<not> bc_flightEntries c \<ge> lim_FlightEntries (bc_limits c)"
    and "\<not> bc_flightBytes c > lim_FlightBytes (bc_limits c) - r"
  shows "cache_ok (startFlight key r c)"
proof -
  have ok: "unat (bc_flightEntries c) = length (in_flight c)" "unat (bc_flightBytes c) = sum_list (map unat (in_flight c))"
      "bc_peakFlightEntries c \<le> lim_FlightEntries (bc_limits c)" "bc_peakFlightBytes c \<le> lim_FlightBytes (bc_limits c)"
      "\<forall>k a. map_of (bc_flights c) k = Some a \<longrightarrow> a < length (bc_heap c) \<and> \<not> fl_done (bc_heap c ! a)"
    using assms(1) by (simp_all add: cache_ok_def flights_ok_def)
  have "unat (bc_flightEntries c) < unat (lim_FlightEntries (bc_limits c))" using assms(3) by (simp add: word_order not_le)
  moreover from this have "unat (bc_flightEntries c) + 1 < 2 ^ 64" using unsigned_less [of "lim_FlightEntries (bc_limits c)", where ?'a = nat] by simp
  ultimately have e: "unat (bc_flightEntries c + 1) = unat (bc_flightEntries c) + 1" "bc_flightEntries c + 1 \<le> lim_FlightEntries (bc_limits c)"
    by (simp_all add: unat_plus_if' word_order)
  have "unat (lim_FlightBytes (bc_limits c) - r) = unat (lim_FlightBytes (bc_limits c)) - unat r" using assms(2) by (simp add: unat_sub)
  then have "unat (bc_flightBytes c) + unat r \<le> unat (lim_FlightBytes (bc_limits c))" using assms(2,4) by (simp add: word_order)
  moreover from this have "unat (bc_flightBytes c) + unat r < 2 ^ 64" using unsigned_less [of "lim_FlightBytes (bc_limits c)", where ?'a = nat] by simp
  ultimately have b: "unat (bc_flightBytes c + r) = unat (bc_flightBytes c) + unat r" "bc_flightBytes c + r \<le> lim_FlightBytes (bc_limits c)"
    by (simp_all add: unat_plus_if' word_order)
  have "flights_ok (startFlight key r c)"
    using ok e b by (auto simp: flights_ok_def startFlight_def Let_def nth_append less_Suc_eq)
  then show ?thesis using assms(1) by (simp add: cache_ok_def startFlight_def Let_def entries_ok_def)
qed

lemma loadSection_ok:
  assumes "cache_ok c" and "loadSection key r miss c = (outcome, c')"
  shows "cache_ok c'"
proof (cases "cached key c")
  case (Some e)
  note k = cached_Some [OF Some]
  have c': "c' = c\<lparr>bc_hits := bc_hits c + 1, bc_lru := e # without_key key (bc_lru c)\<rparr>" using assms(2) Some by (simp add: loadSection_def)
  have "distinct (map en_key (bc_lru c))" using assms(1) by (simp add: cache_ok_def entries_ok_def)
  then have "distinct (map en_key (bc_lru c'))" "weight_sum (bc_lru c') = weight_sum (bc_lru c)" "length (bc_lru c') = length (bc_lru c)"
    using weight_without [of "bc_lru c" e] distinct_without [of "bc_lru c" e] k c' by simp_all
  then show ?thesis using assms(1) c' by (simp add: cache_ok_def entries_ok_def flights_ok_def)
next
  case None
  define d where "d = (if miss then c else c\<lparr>bc_misses := bc_misses c + 1\<rparr>)"
  have d: "cache_ok d" using assms(1) by (simp add: d_def cache_ok_def entries_ok_def flights_ok_def)
  show ?thesis
    using assms(2) d joinFlight_ok startFlight_ok [OF d] unfolding loadSection_def None d_def [symmetric]
    by (auto simp: Let_def not_le not_less split: option.splits if_splits)
qed

lemma leaveFlights_fields [simp]:
  "bc_limits (leaveFlights key a c) = bc_limits c" "bc_lru (leaveFlights key a c) = bc_lru c" "bc_bytes (leaveFlights key a c) = bc_bytes c"
  "bc_heap (leaveFlights key a c) = bc_heap c" "bc_flightEntries (leaveFlights key a c) = bc_flightEntries c - 1"
  "bc_flightBytes (leaveFlights key a c) = bc_flightBytes c - fl_reservation (bc_heap c ! a)"
  "bc_peakFlightEntries (leaveFlights key a c) = bc_peakFlightEntries c" "bc_peakFlightBytes (leaveFlights key a c) = bc_peakFlightBytes c"
  "bc_capacityChanged (leaveFlights key a c) = Suc (bc_capacityChanged c)"
  by (simp_all add: leaveFlights_def Let_def)

lemma map_of_leave:
  "map_of (bc_flights (leaveFlights key a c)) = (if map_of (bc_flights c) key = Some a then (map_of (bc_flights c))(key := None) else map_of (bc_flights c))"
  by (simp add: leaveFlights_def Let_def map_of_drop)

lemma admitResult_fields [simp]:
  "bc_limits (admitResult key v w c) = bc_limits c" "bc_heap (admitResult key v w c) = bc_heap c" "bc_flights (admitResult key v w c) = bc_flights c"
  "bc_flightEntries (admitResult key v w c) = bc_flightEntries c" "bc_flightBytes (admitResult key v w c) = bc_flightBytes c"
  "bc_peakFlightEntries (admitResult key v w c) = bc_peakFlightEntries c" "bc_peakFlightBytes (admitResult key v w c) = bc_peakFlightBytes c"
  "bc_capacityChanged (admitResult key v w c) = bc_capacityChanged c"
  by (simp_all add: admitResult_def split: option.split)

lemma admitResult_entries_ok: "entries_ok c \<Longrightarrow> limits_small (bc_limits c) \<Longrightarrow> entries_ok (admitResult key v w c)"
  using entries_ok_cong [of "c\<lparr>bc_bypass := bc_bypass c + 1\<rparr>" c]
  by (auto simp: admitResult_def not_less intro!: admit_entries_ok split: option.split)

lemma complete_fields [simp]:
  "bc_limits (complete key a r c) = bc_limits c"
  "bc_capacityChanged (complete key a r c) = Suc (bc_capacityChanged c)"
  "length (bc_heap (complete key a r c)) = length (bc_heap c)"
  "map_of (bc_flights (complete key a r c)) = (if map_of (bc_flights c) key = Some a then (map_of (bc_flights c))(key := None) else map_of (bc_flights c))"
  by (simp_all add: complete_def Let_def map_of_leave split: prod.split)

lemma complete_heap:
  "bc_heap (complete key a (v, w, e) c) =
     (bc_heap c)[a := (bc_heap c ! a)\<lparr>fl_value := if e \<noteq> None then None else v, fl_err := e, fl_cancelled := True, fl_done := True\<rparr>]"
  by (simp add: complete_def Let_def)

lemma complete_lru:
  "bc_lru (complete key a (v, w, e) c) =
     (if e = None \<and> map_of (bc_flights c) key = Some a then bc_lru (admitResult key v w (leaveFlights key a c)) else bc_lru c)"
  by (simp add: complete_def Let_def)

lemma complete_entries_ok:
  assumes "cache_ok c"
  shows "entries_ok (complete key a (v, w, e) c)"
proof -
  have "entries_ok (leaveFlights key a c)" using assms entries_ok_cong [of "leaveFlights key a c" c] by (simp add: cache_ok_def)
  moreover from this have "entries_ok (admitResult key v w (leaveFlights key a c))"
    using assms by (intro admitResult_entries_ok) (simp_all add: cache_ok_def)
  ultimately show ?thesis by (simp add: complete_def Let_def entries_ok_def)
qed

lemma complete_flights_ok:
  assumes "flights_ok c" and "a < length (bc_heap c)" and "\<not> fl_done (bc_heap c ! a)"
    and "\<And>k. map_of (bc_flights c) k = Some a \<Longrightarrow> k = key"
  shows "flights_ok (complete key a (v, w, e) c)"
proof -
  let ?c = "complete key a (v, w, e) c"
  have p: "profile (bc_heap ?c) = (profile (bc_heap c))[a := (True, fl_reservation (bc_heap c ! a))]" by (simp add: complete_heap)
  note n = running_finish [of a "profile (bc_heap c)" "fl_reservation (bc_heap c ! a)", unfolded profile_simps(1), OF assms(2)]
  have e: "unat (bc_flightEntries c) = Suc (length (in_flight ?c))"
      "unat (bc_flightBytes c) = unat (fl_reservation (bc_heap c ! a)) + sum_list (map unat (in_flight ?c))"
    using n assms(1-3) unfolding p by (simp_all add: flights_ok_def)
  then have "1 \<le> bc_flightEntries c" "fl_reservation (bc_heap c ! a) \<le> bc_flightBytes c" by (simp_all add: word_order)
  then have u: "unat (bc_flightEntries c - 1) = length (in_flight ?c)"
      "unat (bc_flightBytes c - fl_reservation (bc_heap c ! a)) = sum_list (map unat (in_flight ?c))"
    using e by (simp_all add: unat_sub)
  have f: "bc_flightEntries ?c = bc_flightEntries c - 1" "bc_flightBytes ?c = bc_flightBytes c - fl_reservation (bc_heap c ! a)"
      "bc_peakFlightEntries ?c = bc_peakFlightEntries c" "bc_peakFlightBytes ?c = bc_peakFlightBytes c"
    by (simp_all add: complete_def Let_def)
  have m: "x < length (bc_heap ?c) \<and> \<not> fl_done (bc_heap ?c ! x)" if "map_of (bc_flights ?c) k = Some x" for k x
  proof -
    have "map_of (bc_flights c) k = Some x \<and> x \<noteq> a"
      using that assms(4) [of k] by (auto split: if_splits)
    moreover from this have "x < length (bc_heap c) \<and> \<not> fl_done (bc_heap c ! x)" using assms(1) unfolding flights_ok_def by blast
    ultimately show ?thesis by (simp add: complete_heap)
  qed
  have "unat (bc_flightEntries c - 1) \<le> unat (bc_flightEntries c)" "unat (bc_flightBytes c - fl_reservation (bc_heap c ! a)) \<le> unat (bc_flightBytes c)"
    using e u by simp_all
  then show ?thesis using assms(1) u m unfolding flights_ok_def f complete_fields(1) by (simp add: word_order)
qed

lemma releaseWaiter_facts:
  "bc_limits (releaseWaiter key a c) = bc_limits c \<and> bc_lru (releaseWaiter key a c) = bc_lru c \<and> bc_bytes (releaseWaiter key a c) = bc_bytes c \<and>
   bc_capacityChanged (releaseWaiter key a c) = bc_capacityChanged c \<and> profile (bc_heap (releaseWaiter key a c)) = profile (bc_heap c) \<and>
   map_of (bc_flights (releaseWaiter key a c)) \<subseteq>\<^sub>m map_of (bc_flights c) \<and>
   bc_flightEntries (releaseWaiter key a c) = bc_flightEntries c \<and> bc_flightBytes (releaseWaiter key a c) = bc_flightBytes c \<and>
   bc_peakFlightEntries (releaseWaiter key a c) = bc_peakFlightEntries c \<and> bc_peakFlightBytes (releaseWaiter key a c) = bc_peakFlightBytes c"
  by (auto simp: releaseWaiter_def Let_def map_of_drop map_le_def profile_flight_at simp del: flight_at_fields(3))

lemma releaseWaiter_ok: "cache_ok c \<Longrightarrow> cache_ok (releaseWaiter key a c)"
  using releaseWaiter_facts [of key a c] entries_ok_cong [of "releaseWaiter key a c" c] flights_ok_mono [of c "releaseWaiter key a c"]
  by (simp add: cache_ok_def)

lemma EvictSnapshot_fields [simp]:
  "bc_limits (EvictSnapshot sn c) = bc_limits c" "bc_capacityChanged (EvictSnapshot sn c) = bc_capacityChanged c"
  "bc_lru (EvictSnapshot sn c) = filter (\<lambda>e. key_SnapshotID (en_key e) \<noteq> sn) (bc_lru c)"
  by (simp_all add: EvictSnapshot_def Let_def)

lemma map_of_evict: "map_of (bc_flights (EvictSnapshot sn c)) k = (if key_SnapshotID k = sn then None else map_of (bc_flights c) k)"
proof -
  have "map_of (filter (\<lambda>(k, a). key_SnapshotID k \<noteq> sn) m) k = (if key_SnapshotID k = sn then None else map_of m k)" for m :: "(cache_key \<times> nat) list"
    by (induction m) auto
  then show ?thesis by (simp add: EvictSnapshot_def Let_def)
qed

lemma EvictSnapshot_flight:
  "length (bc_heap (EvictSnapshot sn c)) = length (bc_heap c) \<and> fl_done (bc_heap (EvictSnapshot sn c) ! a) = fl_done (bc_heap c ! a) \<and>
   fl_reservation (bc_heap (EvictSnapshot sn c) ! a) = fl_reservation (bc_heap c ! a) \<and>
   fl_value (bc_heap (EvictSnapshot sn c) ! a) = fl_value (bc_heap c ! a) \<and> fl_err (bc_heap (EvictSnapshot sn c) ! a) = fl_err (bc_heap c ! a)"
proof -
  have "length (fold (\<lambda>a fs. fs[a := (fs ! a)\<lparr>fl_cancelled := True\<rparr>]) as fs) = length fs \<and>
      fl_done (fold (\<lambda>a fs. fs[a := (fs ! a)\<lparr>fl_cancelled := True\<rparr>]) as fs ! a) = fl_done (fs ! a) \<and>
      fl_reservation (fold (\<lambda>a fs. fs[a := (fs ! a)\<lparr>fl_cancelled := True\<rparr>]) as fs ! a) = fl_reservation (fs ! a) \<and>
      fl_value (fold (\<lambda>a fs. fs[a := (fs ! a)\<lparr>fl_cancelled := True\<rparr>]) as fs ! a) = fl_value (fs ! a) \<and>
      fl_err (fold (\<lambda>a fs. fs[a := (fs ! a)\<lparr>fl_cancelled := True\<rparr>]) as fs ! a) = fl_err (fs ! a)" for as and fs :: "'a cache_flight list"
  proof (induction as arbitrary: fs)
    case (Cons b as)
    have "fs[b := (fs ! b)\<lparr>fl_cancelled := True\<rparr>] ! a = (if b = a \<and> a < length fs then (fs ! a)\<lparr>fl_cancelled := True\<rparr> else fs ! a)"
      by (cases "b = a") (simp_all add: list_update_beyond not_less)
    then show ?case using Cons [of "fs[b := (fs ! b)\<lparr>fl_cancelled := True\<rparr>]"] by simp
  qed simp
  then show ?thesis by (simp add: EvictSnapshot_def Let_def)
qed

lemma EvictSnapshot_profile: "profile (bc_heap (EvictSnapshot sn c)) = profile (bc_heap c)"
  using EvictSnapshot_flight [of sn c] by (intro nth_equalityI) simp_all

lemma EvictSnapshot_ok: "cache_ok c \<Longrightarrow> cache_ok (EvictSnapshot sn c)"
proof -
  assume ok: "cache_ok c"
  have "flights_ok (EvictSnapshot sn c)"
  proof (rule flights_ok_mono [of c])
    show "flights_ok c" using ok by (simp add: cache_ok_def)
    show "map_of (bc_flights (EvictSnapshot sn c)) \<subseteq>\<^sub>m map_of (bc_flights c)" by (auto simp: map_le_def map_of_evict dom_def)
  qed (simp_all add: EvictSnapshot_profile, simp_all add: EvictSnapshot_def Let_def)
  then show ?thesis using ok EvictSnapshot_entries_ok [of c sn] by (simp add: cache_ok_def)
qed

lemma NewByteCache_ok: "limits_small limits \<Longrightarrow> cache_ok (NewByteCache limits)"
  by (auto simp: cache_ok_def NewByteCache_def Let_def limits_small_def entries_ok_def flights_ok_def profile_def)

end
