(* ===== verification/Cache_Threads.thy ===== *)
theory Cache_Threads
  imports Byte_Cache
begin

text \<open>
  The threads of \<open>Byte_Cache\<close> together: an invariant of every interleaving of loads, flights,
  cancellations and evictions, and what it gives: the limits, the integrity of returned content, no
  lost wake-up, and that evicted snapshots do not come back.
\<close>

section \<open>The invariant\<close>

text \<open>A value some call's decoder gave for bytes of the length and digest that the call asked for.\<close>

definition genuine :: "'v load_call set \<Rightarrow> cache_key \<Rightarrow> 'v \<Rightarrow> bool" where
  "genuine calls key v \<longleftrightarrow> (\<exists>call \<in> calls. lc_key call = key \<and> (\<exists>bytes w. word_of_nat (length bytes) = lc_expectedLength call \<and>
     Sum256 bytes = key_Digest key \<and> lc_decoder call bytes = Decoded v w \<and> w \<le> lc_maximum call))"

lemma execute_genuine:
  assumes "execute (lc_key call) (lc_expectedLength call) (lc_maximum call) answer (lc_decoder call) = (v, w, None)" and "call \<in> calls"
  shows "\<exists>x. v = Some x \<and> genuine calls (lc_key call) x"
proof -
  obtain bytes where b: "answer = LoadData bytes" "word_of_nat (length bytes) = lc_expectedLength call" "Sum256 bytes = key_Digest (lc_key call)"
    and d: "(case lc_decoder call bytes of DecodePanic \<Rightarrow> (None, 0, Some (Errorf ''cache flight panicked'' []))
      | DecodeError e \<Rightarrow> (None, 0, Some e)
      | Decoded v decodedWeight \<Rightarrow>
          if decodedWeight > lc_maximum call then (Some v, 0, Some (Errorf ''child decoded weight exceeds reservation'' []))
          else if decodedWeight > MaxUint64 - word_of_nat (length bytes) then (Some v, 0, Some (Errorf ''catalog: decoded cache weight overflow'' []))
          else (Some v, word_of_nat (length bytes) + decodedWeight, None)) = (v, w, None)"
    using assms(1) by (auto simp: execute_def split: load_answer.splits if_splits)
  obtain x u where "lc_decoder call bytes = Decoded x u" "u \<le> lc_maximum call" "v = Some x"
    using d by (auto simp: not_less split: decode_answer.splits if_splits)
  then show ?thesis using b assms(2) by (auto simp: genuine_def)
qed

definition tasks_ok :: "'v load_call set \<Rightarrow> 'v cache_system \<Rightarrow> bool" where
  "tasks_ok calls s \<longleftrightarrow> length (sys_tasks s) = length (bc_heap (sys_cache s)) \<and> set (sys_tasks s) \<subseteq> calls \<and>
     (\<forall>k a. map_of (bc_flights (sys_cache s)) k = Some a \<longrightarrow> lc_key (sys_tasks s ! a) = k)"

definition values_ok :: "'v load_call set \<Rightarrow> 'v cache_system \<Rightarrow> bool" where
  "values_ok calls s \<longleftrightarrow> (\<forall>e \<in> set (bc_lru (sys_cache s)). genuine calls (en_key e) (en_value e)) \<and>
     (\<forall>a < length (bc_heap (sys_cache s)). fl_done (bc_heap (sys_cache s) ! a) \<and> fl_err (bc_heap (sys_cache s) ! a) = None \<longrightarrow>
        (\<exists>v. fl_value (bc_heap (sys_cache s) ! a) = Some v \<and> genuine calls (lc_key (sys_tasks s ! a)) v))"

fun pc_ok :: "'v load_call set \<Rightarrow> 'v cache_system \<Rightarrow> 'v load_call \<times> 'v load_pc \<Rightarrow> bool" where
  "pc_ok calls s (call, AtLoop m) \<longleftrightarrow> call \<in> calls"
| "pc_ok calls s (call, AtCapacity g) \<longleftrightarrow> call \<in> calls \<and> g \<le> bc_capacityChanged (sys_cache s) \<and>
     (g = bc_capacityChanged (sys_cache s) \<longrightarrow> in_flight (sys_cache s) \<noteq> [])"
| "pc_ok calls s (call, AtFlight a) \<longleftrightarrow> call \<in> calls \<and> a < length (bc_heap (sys_cache s)) \<and> lc_key (sys_tasks s ! a) = lc_key call"
| "pc_ok calls s (call, Returned r) \<longleftrightarrow> call \<in> calls \<and> (\<forall>v. r = Inr v \<longrightarrow> genuine calls (lc_key call) v)"

definition system_ok :: "'v load_call set \<Rightarrow> 'v cache_system \<Rightarrow> bool" where
  "system_ok calls s \<longleftrightarrow> cache_ok (sys_cache s) \<and> tasks_ok calls s \<and> values_ok calls s \<and> list_all (pc_ok calls s) (sys_callers s)"

section \<open>Steps keep the invariant\<close>

lemma update_nth_if: "xs[a := f (xs ! a)] ! b = (if a = b \<and> a < length xs then f (xs ! b) else xs ! b)"
  by (cases "a = b") (simp_all add: list_update_beyond not_less)

lemma joinFlight_flight:
  "length (bc_heap (joinFlight a c)) = length (bc_heap c)" "fl_done (bc_heap (joinFlight a c) ! b) = fl_done (bc_heap c ! b)"
  "fl_value (bc_heap (joinFlight a c) ! b) = fl_value (bc_heap c ! b)" "fl_err (bc_heap (joinFlight a c) ! b) = fl_err (bc_heap c ! b)"
  "bc_lru (joinFlight a c) = bc_lru c" "bc_flights (joinFlight a c) = bc_flights c" "bc_capacityChanged (joinFlight a c) = bc_capacityChanged c"
  by (simp_all add: joinFlight_def update_nth_if)

text \<open>What a pass through the critical section of a load may do.\<close>

definition same_flights :: "'v byte_cache \<Rightarrow> 'v byte_cache \<Rightarrow> bool" where
  "same_flights c c' \<longleftrightarrow> length (bc_heap c') = length (bc_heap c) \<and> bc_flights c' = bc_flights c \<and>
     (\<forall>a. fl_done (bc_heap c' ! a) = fl_done (bc_heap c ! a) \<and> fl_value (bc_heap c' ! a) = fl_value (bc_heap c ! a) \<and>
       fl_err (bc_heap c' ! a) = fl_err (bc_heap c ! a))"

lemma loadSection_cases:
  assumes "cache_ok c" and "loadSection key r miss c = (outcome, c')"
  obtains (hit) e where "outcome = LoadHit (en_value e)" "e \<in> set (bc_lru c)" "en_key e = key" "same_flights c c'"
      "set (bc_lru c') = set (bc_lru c)" "bc_capacityChanged c' = bc_capacityChanged c"
    | (refused) e where "outcome = LoadRefused e" "same_flights c c'" "bc_lru c' = bc_lru c" "bc_capacityChanged c' = bc_capacityChanged c"
    | (capacity) "outcome = LoadCapacity (bc_capacityChanged c)" "in_flight c' \<noteq> []" "same_flights c c'" "bc_lru c' = bc_lru c"
      "bc_capacityChanged c' = bc_capacityChanged c"
    | (joined) a where "outcome = LoadJoined a" "map_of (bc_flights c) key = Some a" "same_flights c c'" "bc_lru c' = bc_lru c"
      "bc_capacityChanged c' = bc_capacityChanged c"
    | (started) "outcome = LoadJoined (length (bc_heap c))" "map_of (bc_flights c) key = None" "bc_lru c' = bc_lru c"
      "bc_capacityChanged c' = bc_capacityChanged c" "length (bc_heap c') = Suc (length (bc_heap c))"
      "map_of (bc_flights c') = (map_of (bc_flights c))(key \<mapsto> length (bc_heap c))" "\<not> fl_done (bc_heap c' ! length (bc_heap c))"
      "\<forall>a < length (bc_heap c). fl_done (bc_heap c' ! a) = fl_done (bc_heap c ! a) \<and> fl_value (bc_heap c' ! a) = fl_value (bc_heap c ! a) \<and>
         fl_err (bc_heap c' ! a) = fl_err (bc_heap c ! a)"
proof (cases "cached key c")
  case (Some e)
  note k = cached_Some [OF Some]
  have "set (e # without_key key (bc_lru c)) = set (bc_lru c)"
  proof -
    have "x = e" if "x \<in> set (bc_lru c)" "en_key x = key" for x
      using that k assms(1) by (auto simp: cache_ok_def entries_ok_def distinct_map dest: inj_onD)
    then show ?thesis using k by (auto simp: without_key_def)
  qed
  moreover have "outcome = LoadHit (en_value e)" "c' = c\<lparr>bc_hits := bc_hits c + 1, bc_lru := e # without_key key (bc_lru c)\<rparr>"
    using assms(2) by (simp_all add: loadSection_def Some)
  ultimately show ?thesis using k by (intro hit [of e]) (simp_all add: same_flights_def)
next
  case None
  define d where "d = (if miss then c else c\<lparr>bc_misses := bc_misses c + 1\<rparr>)"
  have d: "bc_heap d = bc_heap c" "bc_flights d = bc_flights c" "bc_lru d = bc_lru c" "bc_limits d = bc_limits c" "bc_flightEntries d = bc_flightEntries c"
      "bc_flightBytes d = bc_flightBytes c" "bc_capacityChanged d = bc_capacityChanged c"
    by (simp_all add: d_def)
  note s = assms(2) [unfolded loadSection_def None option.case d_def [symmetric] Let_def d]
  show ?thesis
  proof (cases "map_of (bc_flights c) key")
    case (Some a)
    then have "outcome = LoadJoined a" "c' = joinFlight a d" using s by simp_all
    then show ?thesis using d Some by (intro joined [of a]) (simp_all add: same_flights_def joinFlight_flight)
  next
    case none: None
    note s = s [unfolded none option.case]
    show ?thesis
    proof (cases "r > lim_FlightBytes (bc_limits c) \<or> lim_FlightEntries (bc_limits c) = 0 \<or> lim_FlightBytes (bc_limits c) = 0")
      case True
      then have "outcome = LoadRefused (Errorf ''cache flight reservation exceeds limit'' [])" "c' = d" using s by auto
      then show ?thesis using d by (intro refused) (simp_all add: same_flights_def)
    next
      case small: False
      show ?thesis
      proof (cases "bc_flightEntries c \<ge> lim_FlightEntries (bc_limits c) \<or> bc_flightBytes c > lim_FlightBytes (bc_limits c) - r")
        case True
        have "in_flight c \<noteq> []"
        proof
          assume "in_flight c = []"
          then have "bc_flightEntries c = 0" "bc_flightBytes c = 0"
            using assms(1) by (simp_all add: cache_ok_def flights_ok_def unat_eq_0)
          then show False using True small by simp
        qed
        moreover have "outcome = LoadCapacity (bc_capacityChanged c)" "c' = d" using True small s by auto
        ultimately show ?thesis using d by (intro capacity) (simp_all add: same_flights_def)
      next
        case False
        then have "c' = joinFlight (length (bc_heap c)) (startFlight key r d)" "outcome = LoadJoined (length (bc_heap c))" using small s by auto
        then show ?thesis using none d by (intro started) (simp_all add: joinFlight_flight startFlight_def Let_def nth_append)
      qed
    qed
  qed
qed

lemma in_flight_iff: "in_flight c \<noteq> [] \<longleftrightarrow> (\<exists>a < length (bc_heap c). \<not> fl_done (bc_heap c ! a))"
  by (auto simp: running_def profile_def filter_empty_conv in_set_conv_nth intro: nth_mem)

lemma pc_ok_mono:
  assumes "pc_ok calls s p" and "bc_capacityChanged (sys_cache s) \<le> bc_capacityChanged (sys_cache s')"
    and "bc_capacityChanged (sys_cache s') = bc_capacityChanged (sys_cache s) \<Longrightarrow> in_flight (sys_cache s) \<noteq> [] \<Longrightarrow> in_flight (sys_cache s') \<noteq> []"
    and "length (bc_heap (sys_cache s)) \<le> length (bc_heap (sys_cache s'))"
    and "\<And>a. a < length (bc_heap (sys_cache s)) \<Longrightarrow> sys_tasks s' ! a = sys_tasks s ! a"
  shows "pc_ok calls s' p"
  using assms by (cases "(calls, s, p)" rule: pc_ok.cases) (auto simp: le_antisym)

lemma set_pc_ok:
  assumes "system_ok calls s" and "i < length (sys_callers s)" and "pc_ok calls s (fst (sys_callers s ! i), pc)"
  shows "system_ok calls (set_pc i pc s)"
proof -
  have "pc_ok calls (set_pc i pc s) p \<longleftrightarrow> pc_ok calls s p" for p
    by (cases "(calls, s, p)" rule: pc_ok.cases) (simp_all add: set_pc_def)
  then show ?thesis using assms unfolding system_ok_def tasks_ok_def values_ok_def
    by (auto simp: set_pc_def list_all_iff dest: set_update_subset_insert [THEN subsetD])
qed

text \<open>A step whose effect on the flights is invisible to the other threads.\<close>

lemma same_flights_ok:
  assumes "system_ok calls s" and "cache_ok c'" and "same_flights (sys_cache s) c'"
    and "set (bc_lru c') \<subseteq> set (bc_lru (sys_cache s))" and "bc_capacityChanged c' = bc_capacityChanged (sys_cache s)"
  shows "system_ok calls (s\<lparr>sys_cache := c'\<rparr>)"
proof -
  have f: "in_flight c' \<noteq> [] \<longleftrightarrow> in_flight (sys_cache s) \<noteq> []" using assms(3) by (simp add: in_flight_iff same_flights_def)
  have "pc_ok calls (s\<lparr>sys_cache := c'\<rparr>) p" if "pc_ok calls s p" for p
    by (rule pc_ok_mono [OF that]) (use assms(3,5) f in \<open>simp_all add: same_flights_def\<close>)
  then have "list_all (pc_ok calls (s\<lparr>sys_cache := c'\<rparr>)) (sys_callers s)" using assms(1) by (simp add: system_ok_def list_all_iff)
  moreover have "tasks_ok calls (s\<lparr>sys_cache := c'\<rparr>)"
    using assms(1,3) by (simp add: system_ok_def tasks_ok_def same_flights_def)
  moreover have "values_ok calls (s\<lparr>sys_cache := c'\<rparr>)"
    using assms(1,3,4) unfolding system_ok_def values_ok_def same_flights_def by (simp add: subset_iff)
  ultimately show ?thesis using assms(2) by (simp add: system_ok_def)
qed

text \<open>The five ways out of the critical section of a load.\<close>

lemma same_lookup_ok:
  assumes "system_ok calls s" and "i < length (sys_callers s)" and "cache_ok c'" and "same_flights (sys_cache s) c'"
    and "set (bc_lru c') \<subseteq> set (bc_lru (sys_cache s))" and "bc_capacityChanged c' = bc_capacityChanged (sys_cache s)"
    and "pc_ok calls (s\<lparr>sys_cache := c'\<rparr>) (fst (sys_callers s ! i), pc)"
  shows "system_ok calls (set_pc i pc (s\<lparr>sys_cache := c'\<rparr>))"
  by (rule set_pc_ok [OF same_flights_ok [OF assms(1,3-6)]]) (use assms(2,7) in simp_all)

lemma started_ok:
  assumes "system_ok calls s" and "call \<in> calls" and "cache_ok c'"
    and h: "bc_lru c' = bc_lru (sys_cache s)" "bc_capacityChanged c' = bc_capacityChanged (sys_cache s)"
      "length (bc_heap c') = Suc (length (bc_heap (sys_cache s)))"
      "map_of (bc_flights c') = (map_of (bc_flights (sys_cache s)))(lc_key call \<mapsto> length (bc_heap (sys_cache s)))"
      "\<not> fl_done (bc_heap c' ! length (bc_heap (sys_cache s)))"
      "\<forall>a < length (bc_heap (sys_cache s)). fl_done (bc_heap c' ! a) = fl_done (bc_heap (sys_cache s) ! a) \<and>
         fl_value (bc_heap c' ! a) = fl_value (bc_heap (sys_cache s) ! a) \<and> fl_err (bc_heap c' ! a) = fl_err (bc_heap (sys_cache s) ! a)"
  shows "system_ok calls (s\<lparr>sys_cache := c', sys_tasks := sys_tasks s @ [call]\<rparr>)"
proof -
  define s' where "s' = s\<lparr>sys_cache := c', sys_tasks := sys_tasks s @ [call]\<rparr>"
  have f: "sys_cache s' = c'" "sys_tasks s' = sys_tasks s @ [call]" "sys_callers s' = sys_callers s" by (simp_all add: s'_def)
  have t: "length (sys_tasks s) = length (bc_heap (sys_cache s))" "set (sys_tasks s) \<subseteq> calls"
      "\<forall>k a. map_of (bc_flights (sys_cache s)) k = Some a \<longrightarrow> lc_key (sys_tasks s ! a) = k"
      "\<forall>k a. map_of (bc_flights (sys_cache s)) k = Some a \<longrightarrow> a < length (bc_heap (sys_cache s))"
    using assms(1) unfolding system_ok_def tasks_ok_def cache_ok_def flights_ok_def by blast+
  have n: "in_flight c' \<noteq> []" using h(3,5) by (auto simp: in_flight_iff)
  have "pc_ok calls s' p" if "pc_ok calls s p" for p
    by (rule pc_ok_mono [OF that]) (use h t(1) n in \<open>simp_all add: f nth_append\<close>)
  then have "list_all (pc_ok calls s') (sys_callers s')" using assms(1) by (simp add: system_ok_def list_all_iff f)
  moreover have "tasks_ok calls s'"
    unfolding tasks_ok_def f h(3,4) using t(1,2) assms(2) t(3,4) by (simp add: nth_append)
  moreover have "values_ok calls s'"
    using assms(1) h(1,3,5,6) t(1) unfolding system_ok_def values_ok_def f by (simp add: nth_append less_Suc_eq)
  ultimately have "system_ok calls s'" using assms(3) by (simp add: system_ok_def f)
  then show ?thesis by (simp add: s'_def)
qed

lemma lookup_ok:
  assumes "system_ok calls s" and "i < length (sys_callers s)" and "sys_callers s ! i = (call, AtLoop miss)"
  shows "system_ok calls (lookupStep i call miss s)"
proof -
  let ?c = "sys_cache s"
  obtain outcome c' where l: "loadSection (lc_key call) (reservation call) miss ?c = (outcome, c')" by fastforce
  have ok: "cache_ok ?c" and call: "call \<in> calls"
    using assms by (auto simp: system_ok_def list_all_length)
  have ok': "cache_ok c'" by (rule loadSection_ok [OF ok l])
  have i: "fst (sys_callers s ! i) = call" using assms(3) by simp
  show ?thesis
  proof (rule loadSection_cases [OF ok l])
    fix e assume h: "outcome = LoadHit (en_value e)" "e \<in> set (bc_lru ?c)" "en_key e = lc_key call" "same_flights ?c c'"
      "set (bc_lru c') = set (bc_lru ?c)" "bc_capacityChanged c' = bc_capacityChanged ?c"
    have "genuine calls (lc_key call) (en_value e)" using assms(1) h(2,3) by (auto simp: system_ok_def values_ok_def)
    then have "system_ok calls (set_pc i (Returned (Inr (en_value e))) (s\<lparr>sys_cache := c'\<rparr>))"
      by (intro same_lookup_ok [OF assms(1,2) ok' h(4)]) (simp_all add: h i call)
    then show ?thesis by (simp add: lookupStep_def l h(1))
  next
    fix e assume h: "outcome = LoadRefused e" "same_flights ?c c'" "bc_lru c' = bc_lru ?c" "bc_capacityChanged c' = bc_capacityChanged ?c"
    have "system_ok calls (set_pc i (Returned (Inl e)) (s\<lparr>sys_cache := c'\<rparr>))"
      by (intro same_lookup_ok [OF assms(1,2) ok' h(2)]) (simp_all add: h i call)
    then show ?thesis by (simp add: lookupStep_def l h(1))
  next
    assume h: "outcome = LoadCapacity (bc_capacityChanged ?c)" "in_flight c' \<noteq> []" "same_flights ?c c'" "bc_lru c' = bc_lru ?c"
      "bc_capacityChanged c' = bc_capacityChanged ?c"
    have "system_ok calls (set_pc i (AtCapacity (bc_capacityChanged ?c)) (s\<lparr>sys_cache := c'\<rparr>))"
      by (intro same_lookup_ok [OF assms(1,2) ok' h(3)]) (simp_all add: h i call)
    then show ?thesis by (simp add: lookupStep_def l h(1))
  next
    fix a assume h: "outcome = LoadJoined a" "map_of (bc_flights ?c) (lc_key call) = Some a" "same_flights ?c c'" "bc_lru c' = bc_lru ?c"
      "bc_capacityChanged c' = bc_capacityChanged ?c"
    have a: "a < length (bc_heap ?c)" "lc_key (sys_tasks s ! a) = lc_key call"
      using h(2) assms(1) unfolding system_ok_def tasks_ok_def cache_ok_def flights_ok_def by blast+
    have "length (bc_heap c') = length (bc_heap ?c)" using h(3) by (simp add: same_flights_def)
    then have "system_ok calls (set_pc i (AtFlight a) (s\<lparr>sys_cache := c'\<rparr>))"
      by (intro same_lookup_ok [OF assms(1,2) ok' h(3)]) (simp_all add: h i call a)
    then show ?thesis using a(1) by (simp add: lookupStep_def l h(1))
  next
    assume h: "outcome = LoadJoined (length (bc_heap ?c))" "bc_lru c' = bc_lru ?c"
      "bc_capacityChanged c' = bc_capacityChanged ?c" "length (bc_heap c') = Suc (length (bc_heap ?c))"
      "map_of (bc_flights c') = (map_of (bc_flights ?c))(lc_key call \<mapsto> length (bc_heap ?c))" "\<not> fl_done (bc_heap c' ! length (bc_heap ?c))"
      "\<forall>a < length (bc_heap ?c). fl_done (bc_heap c' ! a) = fl_done (bc_heap ?c ! a) \<and> fl_value (bc_heap c' ! a) = fl_value (bc_heap ?c ! a) \<and>
         fl_err (bc_heap c' ! a) = fl_err (bc_heap ?c ! a)"
    have t: "length (sys_tasks s) = length (bc_heap ?c)" using assms(1) by (simp add: system_ok_def tasks_ok_def)
    have "system_ok calls (set_pc i (AtFlight (length (bc_heap ?c))) (s\<lparr>sys_cache := c', sys_tasks := sys_tasks s @ [call]\<rparr>))"
      by (rule set_pc_ok [OF started_ok [OF assms(1) call ok' h(2-7)]]) (use assms(2) in \<open>simp_all add: i call h(4) nth_append t\<close>)
    then show ?thesis by (simp add: lookupStep_def l h(1))
  qed
qed

lemma admit_entries: "set (bc_lru (admit e c)) \<subseteq> insert e (set (bc_lru c))"
proof -
  have "set es' \<subseteq> set es" if "evictOldest limits es b = (es', b')" for limits es b es' b'
    using that
  proof (induction limits es b rule: evictOldest.induct)
    case (1 limits es b)
    then show ?case using evictOldest.simps [of limits es b] by (auto split: if_splits dest: in_set_butlastD)
  qed
  then show ?thesis by (fastforce simp: admit_def Let_def without_key_def split: prod.splits)
qed

lemma admitResult_entries:
  "e \<in> set (bc_lru (admitResult key v w c)) \<Longrightarrow> e \<in> set (bc_lru c) \<or> en_key e = key \<and> v = Some (en_value e)"
  using admit_entries [of "\<lparr>en_key = key, en_value = the v, en_weight = w\<rparr>" c]
  by (auto simp: admitResult_def split: option.splits if_splits)

lemma finish_ok:
  assumes "system_ok calls s" and "a < length (bc_heap (sys_cache s))" and "\<not> fl_done (bc_heap (sys_cache s) ! a)"
  shows "system_ok calls (finishFlight a answer s)"
proof -
  let ?c = "sys_cache s"
  define task where "task = sys_tasks s ! a"
  obtain v w e where x: "execute (lc_key task) (lc_expectedLength task) (lc_maximum task) answer (lc_decoder task) = (v, w, e)" by (metis prod_cases3)
  define c' where "c' = complete (lc_key task) a (v, w, e) ?c"
  have s': "finishFlight a answer s = s\<lparr>sys_cache := c'\<rparr>" by (simp add: finishFlight_def task_def [symmetric] x c'_def)
  have t: "length (sys_tasks s) = length (bc_heap ?c)" "set (sys_tasks s) \<subseteq> calls" "\<And>k b. map_of (bc_flights ?c) k = Some b \<Longrightarrow> lc_key (sys_tasks s ! b) = k"
    using assms(1) by (auto simp: system_ok_def tasks_ok_def)
  have task: "task \<in> calls" using t(1,2) assms(2) by (auto simp: task_def)
  have ok: "cache_ok c'"
    using assms t(3) complete_entries_ok [of ?c "lc_key task" a v w e] complete_flights_ok [of ?c a "lc_key task" v w e]
    by (auto simp: system_ok_def cache_ok_def c'_def task_def)
  have g: "\<exists>y. v = Some y \<and> genuine calls (lc_key task) y" if "e = None" using execute_genuine [OF x [unfolded that] task] .
  have h: "bc_heap c' ! b = (if a = b then (bc_heap ?c ! b)\<lparr>fl_value := if e \<noteq> None then None else v, fl_err := e, fl_cancelled := True, fl_done := True\<rparr>
      else bc_heap ?c ! b)" for b
    using assms(2) by (auto simp: c'_def complete_heap)
  have lru: "genuine calls (en_key y) (en_value y)" if "y \<in> set (bc_lru c')" for y
    using that assms(1) g admitResult_entries [of y "lc_key task" v w "leaveFlights (lc_key task) a ?c"]
    by (auto simp: c'_def complete_lru system_ok_def values_ok_def split: if_splits)
  have "\<exists>y. fl_value (bc_heap c' ! b) = Some y \<and> genuine calls (lc_key (sys_tasks s ! b)) y"
    if b: "b < length (bc_heap c')" "fl_done (bc_heap c' ! b)" "fl_err (bc_heap c' ! b) = None" for b
  proof (cases "a = b")
    case True
    then have "e = None" using b(3) by (simp add: h)
    then show ?thesis using g True by (simp add: h task_def)
  next
    case False
    have "length (bc_heap c') = length (bc_heap ?c)" by (simp add: c'_def)
    then show ?thesis using False b assms(1) unfolding system_ok_def values_ok_def by (simp add: h)
  qed
  then have "values_ok calls (s\<lparr>sys_cache := c'\<rparr>)" using lru by (simp add: values_ok_def)
  moreover have "tasks_ok calls (s\<lparr>sys_cache := c'\<rparr>)" using t by (auto simp: tasks_ok_def c'_def split: if_splits)
  moreover have "pc_ok calls (s\<lparr>sys_cache := c'\<rparr>) p" if "pc_ok calls s p" for p
    by (rule pc_ok_mono [OF that]) (simp_all add: c'_def)
  ultimately show ?thesis using assms(1) ok by (auto simp: s' system_ok_def list_all_iff)
qed

lemma releaseWaiter_flight:
  "length (bc_heap (releaseWaiter key b c)) = length (bc_heap c) \<and> fl_done (bc_heap (releaseWaiter key b c) ! a) = fl_done (bc_heap c ! a) \<and>
   fl_value (bc_heap (releaseWaiter key b c) ! a) = fl_value (bc_heap c ! a) \<and> fl_err (bc_heap (releaseWaiter key b c) ! a) = fl_err (bc_heap c ! a)"
  by (simp add: releaseWaiter_def Let_def update_nth_if)

text \<open>Steps that only forget flights of the map: a waiter leaves, or a snapshot is evicted.\<close>

lemma fewer_flights_ok:
  assumes "system_ok calls s" and "cache_ok c'" and "map_of (bc_flights c') \<subseteq>\<^sub>m map_of (bc_flights (sys_cache s))"
    and "set (bc_lru c') \<subseteq> set (bc_lru (sys_cache s))" and "bc_capacityChanged c' = bc_capacityChanged (sys_cache s)"
    and "length (bc_heap c') = length (bc_heap (sys_cache s))"
    and "\<And>a. fl_done (bc_heap c' ! a) = fl_done (bc_heap (sys_cache s) ! a) \<and> fl_value (bc_heap c' ! a) = fl_value (bc_heap (sys_cache s) ! a) \<and>
      fl_err (bc_heap c' ! a) = fl_err (bc_heap (sys_cache s) ! a)"
  shows "system_ok calls (s\<lparr>sys_cache := c'\<rparr>)"
proof -
  have f: "in_flight c' \<noteq> [] \<longleftrightarrow> in_flight (sys_cache s) \<noteq> []" using assms(6,7) by (simp add: in_flight_iff)
  have "pc_ok calls (s\<lparr>sys_cache := c'\<rparr>) p" if "pc_ok calls s p" for p
    by (rule pc_ok_mono [OF that]) (use assms(5,6) f in simp_all)
  then have "list_all (pc_ok calls (s\<lparr>sys_cache := c'\<rparr>)) (sys_callers s)" using assms(1) by (simp add: system_ok_def list_all_iff)
  moreover have "map_of (bc_flights (sys_cache s)) k = Some a" if "map_of (bc_flights c') k = Some a" for k a
    using assms(3) that by (auto simp: map_le_def dom_def)
  then have "tasks_ok calls (s\<lparr>sys_cache := c'\<rparr>)"
    using assms(1,6) by (simp add: system_ok_def tasks_ok_def)
  moreover have "values_ok calls (s\<lparr>sys_cache := c'\<rparr>)"
    using assms(1,4,6,7) unfolding system_ok_def values_ok_def by (simp add: subset_iff)
  ultimately show ?thesis using assms(2) by (simp add: system_ok_def)
qed

lemma releaseCaller_ok:
  assumes "system_ok calls s" and "i < length (sys_callers s)" and "sys_callers s ! i = (call, AtFlight a)"
    and "\<And>v. r = Inr v \<Longrightarrow> genuine calls (lc_key call) v"
  shows "system_ok calls (releaseCaller i call a r s)"
proof -
  have "cache_ok (releaseWaiter (lc_key call) a (sys_cache s))" using assms(1) by (simp add: system_ok_def releaseWaiter_ok)
  then have "system_ok calls (s\<lparr>sys_cache := releaseWaiter (lc_key call) a (sys_cache s)\<rparr>)"
    by (rule fewer_flights_ok [OF assms(1)]) (simp_all add: releaseWaiter_facts releaseWaiter_flight)
  moreover have "call \<in> calls" using assms(1-3) by (auto simp: system_ok_def list_all_length)
  ultimately show ?thesis unfolding releaseCaller_def by (intro set_pc_ok) (use assms in simp_all)
qed

lemma done_result_genuine:
  assumes "system_ok calls s" and "i < length (sys_callers s)" and "sys_callers s ! i = (call, AtFlight a)"
    and "fl_done (bc_heap (sys_cache s) ! a)" and "flightResult (bc_heap (sys_cache s) ! a) (Inr v)"
  shows "genuine calls (lc_key call) v"
proof -
  have "pc_ok calls s (call, AtFlight a)" using assms(1-3) by (metis list_all_length system_ok_def)
  then have a: "a < length (bc_heap (sys_cache s))" "lc_key (sys_tasks s ! a) = lc_key call" by simp_all
  have f: "fl_err (bc_heap (sys_cache s) ! a) = None" "fl_value (bc_heap (sys_cache s) ! a) = Some v"
    using assms(5) by (simp_all add: flightResult_def split: option.splits)
  then show ?thesis using assms(1,4) a unfolding system_ok_def values_ok_def by (metis option.inject)
qed

lemma cache_step_ok: "cache_step calls s s' \<Longrightarrow> system_ok calls s \<Longrightarrow> system_ok calls s'"
proof (induction rule: cache_step.induct)
  case (begin_load call r s)
  have "pc_ok calls (s\<lparr>sys_callers := sys_callers s @ [(call, AtLoop False)]\<rparr>) p = pc_ok calls s p" for p
    by (cases "(calls, s, p)" rule: pc_ok.cases) simp_all
  then have "pc_ok calls (s\<lparr>sys_callers := sys_callers s @ [(call, AtLoop False)]\<rparr>) = pc_ok calls s" ..
  then show ?case using begin_load by (simp add: system_ok_def tasks_ok_def values_ok_def)
next
  case (lookup i s call miss)
  then show ?case by (intro lookup_ok)
next
  case (loop_cancelled i s call miss e)
  then have "call \<in> calls" by (auto simp: system_ok_def list_all_length)
  then show ?case using loop_cancelled by (intro set_pc_ok) simp_all
next
  case (capacity_changed i s call g)
  then have "call \<in> calls" by (auto simp: system_ok_def list_all_length)
  then show ?case using capacity_changed by (intro set_pc_ok) simp_all
next
  case (capacity_cancelled i s call g e)
  then have "call \<in> calls" by (auto simp: system_ok_def list_all_length)
  then show ?case using capacity_cancelled by (intro set_pc_ok) simp_all
next
  case (flight_cancelled i s call a e)
  then show ?case by (intro releaseCaller_ok) simp_all
next
  case (flight_done i s call a r)
  then show ?case by (intro releaseCaller_ok) (simp_all add: done_result_genuine)
next
  case (finish a s answer)
  then show ?case by (intro finish_ok)
next
  case (evict s sn)
  have "cache_ok (EvictSnapshot sn (sys_cache s))" using evict by (simp add: system_ok_def EvictSnapshot_ok)
  then show ?case by (rule fewer_flights_ok [OF evict]) (auto simp: EvictSnapshot_flight map_of_evict map_le_def)
qed

interpretation cache_machine: invariant_system "cache_step calls" "system_ok calls" for calls
  by unfold_locales (rule cache_step_ok)

lemma idle_ok: "limits_small limits \<Longrightarrow> system_ok calls (idle_system limits)"
  using NewByteCache_ok [of limits]
  by (simp add: system_ok_def idle_system_def tasks_ok_def values_ok_def NewByteCache_def Let_def)

lemma reachable_ok: "(cache_step calls)\<^sup>*\<^sup>* (idle_system limits) s \<Longrightarrow> limits_small limits \<Longrightarrow> system_ok calls s"
  using cache_machine.reach_inv [of calls "idle_system limits" s] idle_ok by blast

section \<open>Properties\<close>

text \<open>
  C36: whatever the interleaving of loads, cancellations, flight completions and evictions, the cache
  keeps its limits: the entries and their bytes, the flights and the bytes they reserve, and the peaks
  recorded of both stay within the configured limits, no entry is counted twice, and the byte counters
  are exactly the sums over the entries and over the flights that still run, so none of them wraps. The
  limits on entries and bytes must be below \<open>2\<^sup>6\<^sup>3\<close>; the limits of both caches the program creates are.
\<close>

theorem cache_stays_within_limits:
  assumes "(cache_step calls)\<^sup>*\<^sup>* (idle_system limits) s" and "limits_small limits"
  shows "st_Entries (Stats (sys_cache s)) \<le> lim_Entries (bc_limits (sys_cache s)) \<and>
    st_Bytes (Stats (sys_cache s)) \<le> lim_Bytes (bc_limits (sys_cache s)) \<and>
    st_InFlightEntries (Stats (sys_cache s)) \<le> lim_FlightEntries (bc_limits (sys_cache s)) \<and>
    st_InFlightBytes (Stats (sys_cache s)) \<le> lim_FlightBytes (bc_limits (sys_cache s)) \<and>
    st_PeakInFlightEntries (Stats (sys_cache s)) \<le> lim_FlightEntries (bc_limits (sys_cache s)) \<and>
    st_PeakInFlightBytes (Stats (sys_cache s)) \<le> lim_FlightBytes (bc_limits (sys_cache s)) \<and>
    distinct (map en_key (bc_lru (sys_cache s))) \<and>
    unat (bc_bytes (sys_cache s)) = weight_sum (bc_lru (sys_cache s)) \<and>
    unat (bc_flightEntries (sys_cache s)) = length (in_flight (sys_cache s)) \<and>
    unat (bc_flightBytes (sys_cache s)) = sum_list (map unat (in_flight (sys_cache s)))"
proof -
  have ok: "limits_small (bc_limits (sys_cache s))" "entries_ok (sys_cache s)" "flights_ok (sys_cache s)"
    using reachable_ok [OF assms] by (simp_all add: system_ok_def cache_ok_def)
  have "length (bc_lru (sys_cache s)) \<le> unat (lim_Entries (bc_limits (sys_cache s)))" using ok(2) by (simp add: entries_ok_def)
  then have "(word_of_nat (length (bc_lru (sys_cache s))) :: w64) \<le> lim_Entries (bc_limits (sys_cache s))"
    using le_trans [OF mod_less_eq_dividend] by (simp add: word_order unat_of_nat)
  then show ?thesis using ok(2,3) by (simp add: Stats_def entries_ok_def flights_ok_def)
qed

text \<open>
  C37: a load never returns content that was not verified. A value that any load returns, whether from
  the cache, from its own flight or from a flight that it joined, is what the decoder of some load of
  the same key gave for bytes whose SHA-256 digest is the digest of the key and whose length is the one
  asked for, within the decoded weight that was reserved.
\<close>

theorem loaded_content_is_verified:
  assumes "(cache_step calls)\<^sup>*\<^sup>* (idle_system limits) s" and "limits_small limits"
    and "(call, Returned (Inr v)) \<in> set (sys_callers s)"
  shows "\<exists>origin \<in> calls. lc_key origin = lc_key call \<and> (\<exists>bytes w. Sum256 bytes = key_Digest (lc_key call) \<and>
    word_of_nat (length bytes) = lc_expectedLength origin \<and> lc_decoder origin bytes = Decoded v w \<and> w \<le> lc_maximum origin)"
proof -
  have "pc_ok calls s (call, Returned (Inr v))" using reachable_ok [OF assms(1,2)] assms(3) unfolding system_ok_def list_all_iff by blast
  then have "genuine calls (lc_key call) v" by simp
  then show ?thesis unfolding genuine_def by metis
qed

text \<open>A caller that no step of its own, other than giving up, can move.\<close>

definition blocked :: "'v cache_system \<Rightarrow> nat \<Rightarrow> bool" where
  "blocked s i \<longleftrightarrow> (case snd (sys_callers s ! i) of
     AtCapacity g \<Rightarrow> g = bc_capacityChanged (sys_cache s)
   | AtFlight a \<Rightarrow> \<not> fl_done (bc_heap (sys_cache s) ! a)
   | _ \<Rightarrow> False)"

text \<open>
  C38: no wake-up is lost. A load that is blocked, on its flight or on capacity, waits for a flight that
  is still running, and the completion of that flight, whatever its loader and decoder do (return,
  fail or panic), unblocks it. So the cache cannot deadlock: when no flight runs, no load is blocked.
\<close>

theorem blocked_load_is_woken:
  assumes "(cache_step calls)\<^sup>*\<^sup>* (idle_system limits) s" and "limits_small limits" and "i < length (sys_callers s)" and "blocked s i"
  shows "\<exists>a < length (bc_heap (sys_cache s)). \<not> fl_done (bc_heap (sys_cache s) ! a) \<and>
    (\<forall>answer. cache_step calls s (finishFlight a answer s) \<and> \<not> blocked (finishFlight a answer s) i)"
proof -
  obtain call pc where c: "sys_callers s ! i = (call, pc)" by fastforce
  have p: "pc_ok calls s (call, pc)" using reachable_ok [OF assms(1,2)] assms(3) c by (metis list_all_length system_ok_def)
  have f: "sys_callers (finishFlight a answer s) = sys_callers s"
      "bc_capacityChanged (sys_cache (finishFlight a answer s)) = Suc (bc_capacityChanged (sys_cache s))" for a answer
    by (simp_all add: finishFlight_def Let_def)
  have d: "fl_done (bc_heap (sys_cache (finishFlight a answer s)) ! a)" if "a < length (bc_heap (sys_cache s))" for a answer
    using that by (cases "execute (lc_key (sys_tasks s ! a)) (lc_expectedLength (sys_tasks s ! a)) (lc_maximum (sys_tasks s ! a)) answer (lc_decoder (sys_tasks s ! a))")
      (simp add: finishFlight_def Let_def complete_heap)
  show ?thesis
  proof (cases pc)
    case (AtCapacity g)
    then have "in_flight (sys_cache s) \<noteq> []" using p assms(4) c by (simp add: blocked_def)
    then obtain a where a: "a < length (bc_heap (sys_cache s))" "\<not> fl_done (bc_heap (sys_cache s) ! a)" by (auto simp: in_flight_iff)
    have "\<not> blocked (finishFlight a answer s) i" for answer using AtCapacity p c f by (simp add: blocked_def)
    then show ?thesis using a cache_step.finish by blast
  next
    case (AtFlight a)
    then have a: "a < length (bc_heap (sys_cache s))" "\<not> fl_done (bc_heap (sys_cache s) ! a)" using p assms(4) c by (simp_all add: blocked_def)
    have "\<not> blocked (finishFlight a answer s) i" for answer using AtFlight c f d [OF a(1)] by (simp add: blocked_def)
    then show ?thesis using a cache_step.finish by blast
  qed (use assms(4) c in \<open>simp_all add: blocked_def\<close>)
qed

section \<open>Eviction\<close>

lemma step_flights:
  assumes "cache_step calls s s'" and "system_ok calls s"
  shows "(\<forall>k a. map_of (bc_flights (sys_cache s')) k = Some a \<longrightarrow>
      map_of (bc_flights (sys_cache s)) k = Some a \<or> a = length (bc_heap (sys_cache s))) \<and>
    length (bc_heap (sys_cache s)) \<le> length (bc_heap (sys_cache s')) \<and>
    (\<forall>a < length (bc_heap (sys_cache s)). sys_tasks s' ! a = sys_tasks s ! a)"
  using assms
proof (induction rule: cache_step.induct)
  case (lookup i s call miss)
  let ?c = "sys_cache s"
  obtain outcome c' where l: "loadSection (lc_key call) (reservation call) miss ?c = (outcome, c')" by fastforce
  have ok: "cache_ok ?c" and t: "length (sys_tasks s) = length (bc_heap ?c)" using lookup.prems by (simp_all add: system_ok_def tasks_ok_def)
  have c: "sys_cache (lookupStep i call miss s) = c'"
    by (simp add: lookupStep_def l set_pc_def Let_def split: load_section.split)
  have "\<forall>a < length (bc_heap ?c). sys_tasks (lookupStep i call miss s) ! a = sys_tasks s ! a"
    using t by (simp add: lookupStep_def l set_pc_def Let_def nth_append split: load_section.split)
  moreover have "(\<forall>k a. map_of (bc_flights c') k = Some a \<longrightarrow> map_of (bc_flights ?c) k = Some a \<or> a = length (bc_heap ?c)) \<and>
      length (bc_heap ?c) \<le> length (bc_heap c')"
    by (rule loadSection_cases [OF ok l]) (auto simp: same_flights_def)
  ultimately show ?case by (simp add: c)
next
  case (flight_cancelled i s call a e)
  show ?case using releaseWaiter_facts [of "lc_key call" a "sys_cache s"] releaseWaiter_flight [of "lc_key call" a "sys_cache s"]
    by (auto simp: releaseCaller_def set_pc_def map_le_def dom_def)
next
  case (flight_done i s call a r)
  show ?case using releaseWaiter_facts [of "lc_key call" a "sys_cache s"] releaseWaiter_flight [of "lc_key call" a "sys_cache s"]
    by (auto simp: releaseCaller_def set_pc_def map_le_def dom_def)
next
  case (finish a s answer)
  show ?case by (auto simp: finishFlight_def Let_def split: if_splits)
next
  case (evict s sn)
  show ?case by (auto simp: map_of_evict EvictSnapshot_flight split: if_splits)
qed (auto simp: set_pc_def)

lemma evicted_flights_stay_out:
  assumes "(cache_step calls)\<^sup>*\<^sup>* s1 s2" and "system_ok calls s1"
    and "\<And>k a. map_of (bc_flights (sys_cache s1)) k = Some a \<Longrightarrow> key_SnapshotID k \<noteq> sn"
  shows "(\<forall>k a. map_of (bc_flights (sys_cache s2)) k = Some a \<and> key_SnapshotID k = sn \<longrightarrow> length (bc_heap (sys_cache s1)) \<le> a) \<and>
    length (bc_heap (sys_cache s1)) \<le> length (bc_heap (sys_cache s2)) \<and>
    (\<forall>a < length (bc_heap (sys_cache s1)). sys_tasks s2 ! a = sys_tasks s1 ! a)"
  using assms(1)
proof (induction rule: rtranclp_induct)
  case base
  then show ?case using assms(3) by blast
next
  case (step u w)
  have "system_ok calls u" using cache_machine.reach_inv step.hyps(1) assms(2) .
  from step_flights [OF step.hyps(2) this] step.IH show ?case
    by (metis (no_types, lifting) le_trans less_le_trans)
qed

text \<open>
  C39: an evicted snapshot does not come back through a flight that was already running. Eviction leaves
  no entry of the snapshot, and whatever happens afterwards, the completion of a flight that was
  started for one of its keys before the eviction leaves the entries of the cache as they are; only a
  load that starts a new flight can cache its content again.
\<close>

theorem evicted_flight_never_fills_the_cache:
  assumes "(cache_step calls)\<^sup>*\<^sup>* (idle_system limits) s" and "limits_small limits"
    and "(cache_step calls)\<^sup>*\<^sup>* (s\<lparr>sys_cache := EvictSnapshot sn (sys_cache s)\<rparr>) s'"
    and "a < length (bc_heap (sys_cache s))" and "key_SnapshotID (lc_key (sys_tasks s ! a)) = sn"
  shows "(\<forall>e \<in> set (bc_lru (EvictSnapshot sn (sys_cache s))). key_SnapshotID (en_key e) \<noteq> sn) \<and>
    bc_lru (sys_cache (finishFlight a answer s')) = bc_lru (sys_cache s')"
proof
  let ?s1 = "s\<lparr>sys_cache := EvictSnapshot sn (sys_cache s)\<rparr>" and ?key = "lc_key (sys_tasks s' ! a)"
  have "system_ok calls ?s1" using reachable_ok [OF assms(1,2)] cache_step_ok [OF cache_step.evict] by blast
  moreover have "key_SnapshotID k \<noteq> sn" if "map_of (bc_flights (sys_cache ?s1)) k = Some b" for k b
    using that by (auto simp: map_of_evict split: if_splits)
  ultimately have "(\<forall>k b. map_of (bc_flights (sys_cache s')) k = Some b \<and> key_SnapshotID k = sn \<longrightarrow> length (bc_heap (sys_cache ?s1)) \<le> b) \<and>
      length (bc_heap (sys_cache ?s1)) \<le> length (bc_heap (sys_cache s')) \<and> (\<forall>b < length (bc_heap (sys_cache ?s1)). sys_tasks s' ! b = sys_tasks ?s1 ! b)"
    by (rule evicted_flights_stay_out [OF assms(3)])
  then have o: "\<forall>k b. map_of (bc_flights (sys_cache s')) k = Some b \<and> key_SnapshotID k = sn \<longrightarrow> length (bc_heap (sys_cache s)) \<le> b"
    and t: "sys_tasks s' ! a = sys_tasks s ! a"
    using assms(4) by (simp_all add: EvictSnapshot_flight)
  have "map_of (bc_flights (sys_cache s')) ?key \<noteq> Some a" using o t assms(4,5) by (metis not_le)
  then show "bc_lru (sys_cache (finishFlight a answer s')) = bc_lru (sys_cache s')"
    by (cases "execute ?key (lc_expectedLength (sys_tasks s' ! a)) (lc_maximum (sys_tasks s' ! a)) answer (lc_decoder (sys_tasks s' ! a))")
      (simp add: finishFlight_def Let_def complete_lru)
qed simp

section \<open>A sample run\<close>

text \<open>One load that starts a flight and waits; its flight then finishes and the load returns.\<close>

definition sample_call :: "string load_call" where
  "sample_call = \<lparr>lc_key = \<lparr>key_SnapshotID = ''s1'', key_Digest = Sum256 ''abc''\<rparr>, lc_expectedLength = 3, lc_maximum = 10,
     lc_decoder = (\<lambda>bytes. Decoded bytes 5)\<rparr>"

definition sample_limits :: cache_limits where
  "sample_limits = \<lparr>lim_Entries = 2, lim_Bytes = 64, lim_FlightEntries = 1, lim_FlightBytes = 64\<rparr>"

definition sample_waiting :: "string cache_system" where
  "sample_waiting = lookupStep 0 sample_call False ((idle_system sample_limits)\<lparr>sys_callers := [(sample_call, AtLoop False)]\<rparr>)"

definition sample_finished :: "string cache_system" where
  "sample_finished = finishFlight 0 (LoadData ''abc'') sample_waiting"

definition sample_returned :: "string cache_system" where
  "sample_returned = releaseCaller 0 sample_call 0 (Inr ''abc'') sample_finished"

lemma sample_limits_small: "limits_small sample_limits"
  by (simp add: limits_small_def sample_limits_def)

lemma sample_waiting_eq:
  "sys_callers sample_waiting = [(sample_call, AtFlight 0)]" "sys_tasks sample_waiting = [sample_call]"
  "bc_heap (sys_cache sample_waiting) =
     [\<lparr>fl_done = False, fl_cancelled = False, fl_waiters = 1, fl_reservation = 13, fl_value = None, fl_err = None\<rparr>]"
  "bc_flights (sys_cache sample_waiting) = [(lc_key sample_call, 0)]" "bc_lru (sys_cache sample_waiting) = []"
  by (simp_all add: sample_waiting_def lookupStep_def loadSection_def idle_system_def NewByteCache_def sample_limits_def sample_call_def
      reservation_def cached_def set_pc_def joinFlight_def startFlight_def flight_at_def Let_def)

lemma sample_waiting_reached: "(cache_step {sample_call})\<^sup>*\<^sup>* (idle_system sample_limits) sample_waiting"
proof -
  let ?s = "(idle_system sample_limits)\<lparr>sys_callers := [(sample_call, AtLoop False)]\<rparr> :: string cache_system"
  have "loadStart (lc_key sample_call) (lc_expectedLength sample_call) (lc_maximum sample_call) = Inr 13"
    by (simp add: loadStart_def sample_call_def MaxUint64_def)
  then have "cache_step {sample_call} (idle_system sample_limits) ?s"
    using cache_step.begin_load [of sample_call "{sample_call}" 13 "idle_system sample_limits"] by (simp add: idle_system_def)
  moreover have "cache_step {sample_call} ?s sample_waiting"
    unfolding sample_waiting_def by (rule cache_step.lookup) simp_all
  ultimately show ?thesis by (meson rtranclp.simps)
qed

lemma sample_finished_flight: "fl_done (bc_heap (sys_cache sample_finished) ! 0)" "flightResult (bc_heap (sys_cache sample_finished) ! 0) (Inr ''abc'')"
proof -
  have "execute (lc_key sample_call) (lc_expectedLength sample_call) (lc_maximum sample_call) (LoadData ''abc'') (lc_decoder sample_call) =
      (Some ''abc'', 8, None)"
    by (simp add: execute_def sample_call_def MaxUint64_def)
  then have "bc_heap (sys_cache sample_finished) = [\<lparr>fl_done = True, fl_cancelled = True, fl_waiters = 1, fl_reservation = 13, fl_value = Some ''abc'', fl_err = None\<rparr>]"
    by (simp add: sample_finished_def finishFlight_def sample_waiting_eq complete_heap)
  then show "fl_done (bc_heap (sys_cache sample_finished) ! 0)" "flightResult (bc_heap (sys_cache sample_finished) ! 0) (Inr ''abc'')"
    by (simp_all add: flightResult_def)
qed

lemma sample_returned_reached: "(cache_step {sample_call})\<^sup>*\<^sup>* (idle_system sample_limits) sample_returned"
proof -
  have "cache_step {sample_call} sample_waiting sample_finished"
    unfolding sample_finished_def by (rule cache_step.finish) (simp_all add: sample_waiting_eq)
  moreover have c: "sys_callers sample_finished = [(sample_call, AtFlight 0)]"
    by (simp add: sample_finished_def finishFlight_def Let_def sample_waiting_eq)
  have "cache_step {sample_call} sample_finished sample_returned"
    unfolding sample_returned_def by (rule cache_step.flight_done [of 0 _ sample_call 0]) (simp_all add: c sample_finished_flight)
  ultimately show ?thesis using sample_waiting_reached by (meson rtranclp.rtrancl_into_rtrancl)
qed

theorem cache_stays_within_limits_witness:
  "st_PeakInFlightEntries (Stats (sys_cache sample_waiting)) \<le> lim_FlightEntries (bc_limits (sys_cache sample_waiting))"
  using cache_stays_within_limits [OF sample_waiting_reached sample_limits_small] by blast

theorem loaded_content_is_verified_witness:
  "\<exists>bytes w. Sum256 bytes = Sum256 ''abc'' \<and> lc_decoder sample_call bytes = Decoded ''abc'' w"
proof -
  have "(sample_call, Returned (Inr ''abc'')) \<in> set (sys_callers sample_returned)"
    by (simp add: sample_returned_def releaseCaller_def set_pc_def sample_finished_def finishFlight_def Let_def sample_waiting_eq)
  from loaded_content_is_verified [OF sample_returned_reached sample_limits_small this] show ?thesis
    by (auto simp: sample_call_def)
qed

theorem blocked_load_is_woken_witness:
  "\<exists>a < length (bc_heap (sys_cache sample_waiting)). \<forall>answer. \<not> blocked (finishFlight a answer sample_waiting) 0"
proof -
  have "blocked sample_waiting 0" "0 < length (sys_callers sample_waiting)" by (simp_all add: blocked_def sample_waiting_eq)
  then show ?thesis using blocked_load_is_woken [OF sample_waiting_reached sample_limits_small, of 0] by blast
qed

theorem evicted_flight_never_fills_the_cache_witness:
  "bc_lru (sys_cache (finishFlight 0 (LoadData ''abc'')
     (sample_waiting\<lparr>sys_cache := EvictSnapshot ''s1'' (sys_cache sample_waiting)\<rparr>))) = []"
proof -
  have "key_SnapshotID (lc_key (sys_tasks sample_waiting ! 0)) = ''s1''" "0 < length (bc_heap (sys_cache sample_waiting))"
    by (simp_all add: sample_waiting_eq sample_call_def)
  then have "bc_lru (sys_cache (finishFlight 0 (LoadData ''abc'') (sample_waiting\<lparr>sys_cache := EvictSnapshot ''s1'' (sys_cache sample_waiting)\<rparr>))) =
      bc_lru (sys_cache (sample_waiting\<lparr>sys_cache := EvictSnapshot ''s1'' (sys_cache sample_waiting)\<rparr>))"
    using evicted_flight_never_fills_the_cache [OF sample_waiting_reached sample_limits_small rtranclp.rtrancl_refl, of 0 "''s1''"] by blast
  then show ?thesis by (simp add: sample_waiting_eq)
qed

end
