(* ===== verification/Spec2Isabelle.thy ===== *)
theory Spec2Isabelle
  imports Migration_Samples Sync_Progress Check_Service Version_Precedence Catalog_Candidate Cache_Threads
begin

text \<open>
  Manja publishes API documentation from OpenAPI contracts and decides which revision of a contract is
  live. This library models the part of the Go program that takes and keeps those decisions, and
  proves that a revision becomes live only on evidence that survives in the store.

  \<^bold>\<open>How the program works.\<close> A source is fetched and parsed into an index; the sync service stores the
  document as a content-addressed blob, builds a normalised snapshot of the contract and commits an
  immutable revision with a sync record. A review compares the snapshot of a candidate with the
  snapshots of a target and of the released revision under a layered policy and yields a verdict. The
  release service turns a passing review and an authorization into a transition of a release track and
  commits track, decision, review, audit event and outbox message in one transaction. The file store
  runs a transaction on a copy of its state, validates the copy as a whole and replaces the state file
  atomically. The public resolver reads publications, tracks and revisions back. The offline check
  runs the same review on files and Git references, without a store.

  \<^bold>\<open>Foundations.\<close>
  \<^item> \<open>Manja_Prelude\<close>: error values, sequencing of validations, slices with nil, comparator sorts.
  \<^item> \<open>Go_Utf8\<close>, \<open>Go_Strings\<close>, \<open>Go_Path\<close>, \<open>Go_Time\<close>, \<open>Go_Sha256\<close>, \<open>Go_Json\<close>: what the sources use of
    the Go library, executable. \<open>Json_Inject\<close> proves that the JSON encoding of values with valid
    UTF-8 is injective, so equal encodings mean equal records.
  \<^item> \<open>Digests\<close>: digests in lowercase hexadecimal.

  \<^bold>\<open>Domain\<close> (\<open>src/domain\<close>).
  \<^item> \<open>Identity\<close> (\<open>identity.go\<close>): canonical identities, public paths and the reflective UTF-8 walk,
    which accepts a value exactly when every string in it is valid.
  \<^item> \<open>Project_Records\<close> (\<open>project.go\<close>, \<open>publication.go\<close>, \<open>sync.go\<close>, \<open>resource_limits.go\<close>).
  \<^item> \<open>Spec_Model\<close>, \<open>Spec_Validation\<close> (\<open>spec.go\<close>, \<open>spec_validation.go\<close>, \<open>schema.go\<close>): the index of a
    document and its validators. Schema nodes live in a heap of addresses because Go shares and may
    cycle pointers; the walk is proved exact and charges a shared node once.
  \<^item> \<open>Contract_Snapshot\<close> (\<open>contractsnapshot.go\<close>): construction, canonical order and digest of a
    contract surface; an equal digest means an equal surface, up to a SHA-256 collision which the
    statement exhibits.
  \<^item> \<open>Spec_Diff\<close> (\<open>specdiff.go\<close>): the diff, and that it decides compatibility of two plain surfaces, those in
    which no path of an operation contains a space and no location of a parameter a colon. The joined
    keys of other surfaces may coincide, and a removal that the diff then misses is proved beside it. Every
    theorem that concludes compatibility from a passing review has this condition on its snapshots.
  \<^item> \<open>Policy\<close> (\<open>policy.go\<close>): layers, merging, exceptions and the verdict.
  \<^item> \<open>Review\<close>, \<open>Review_Evidence\<close> (\<open>review.go\<close>): evaluation of a review, its canonical encoding, and
    the revalidation of a stored review against the snapshots it names.
  \<^item> \<open>Release\<close> (\<open>release.go\<close>): release tracks as a state machine with 64-bit generations. The three
    transitions are proved to be the steps that the validator of a persisted mutation accepts, and
    the reachable tracks to be safe by rule induction.

  \<^bold>\<open>Store\<close> (\<open>src/internal/adapters/store\<close>).
  \<^item> \<open>Operational_Records\<close>, \<open>Operational_State\<close>: stored records, the maps of the state, every operation
    of a transaction.
  \<^item> \<open>Operational_Store\<close>: the validators of a state and \<open>Within\<close>.
  \<^item> \<open>Store_History\<close>: committed history only grows; \<open>Store_Growth\<close>: a valid state stays valid when a
    revision or a sync record is added.
  \<^item> \<open>Store_Readers\<close>: readers, blobs, public resolver and revision service; \<open>Sample_Store\<close>: a concrete
    valid store for witnesses.
  \<^item> \<open>Durable_Write\<close>: atomic replacement of a file. A write is the list of directory contents it passes
    through, so a crash leaves one of them.
  \<^item> \<open>Store_Migration\<close>, \<open>Migration_Samples\<close>: the schema marker, migration of older versions, import of
    flat legacy records, that a load leaves the state it returns on the disk, that transactions on files
    refine transactions on states, and that a publication which was imported and then withdrawn is still
    served from its flat file.

  \<^bold>\<open>Services\<close> (\<open>src/application\<close>).
  \<^item> \<open>Release_Service\<close>, \<open>Release_Safety\<close>, \<open>Release_Coordination\<close> (\<open>release.go\<close>): the service over the
    interface of a transaction, as a locale which the file store interprets; what a live revision
    rests on; refinement of the domain transition; replay and failure.
  \<^item> \<open>Sync_Service\<close>, \<open>Sync_Progress\<close> (\<open>sync.go\<close>, \<open>identity.go\<close>): a run of a sync over its ports, the
    evidence it leaves, that it commits when its ports answer with an index that names no method and path
    twice and a revision id that is a safe file name, and that it records failures.
  \<^item> \<open>Check_Service\<close> (\<open>check.go\<close>): the offline review.

  \<^bold>\<open>Catalogs.\<close> A catalog publishes several documents together; its snapshots are immutable and its readers
  load their children through a cache.
  \<^item> \<open>Catalog_Identity\<close> (\<open>domain/catalog_identity.go\<close>, \<open>domain/catalog_validation.go\<close>): keys, source paths,
    detail identities and the validator of an index; no two details of an accepted index share an
    identity, whatever the hash.
  \<^item> \<open>Catalog_Publication\<close>, \<open>Version_Precedence\<close> (\<open>domain/catalog_publication.go\<close>): publications, and the
    comparison of versions as the sign of SemVer precedence.
  \<^item> \<open>Catalog_Candidate\<close> (\<open>domain/catalog_validation.go\<close>): candidates and their limits.
  \<^item> \<open>Byte_Cache\<close>, \<open>Cache_Threads\<close> (\<open>application/catalog/cache.go\<close>): the critical sections of the cache
    and a step relation in which concurrent loads, flights, cancellations and evictions interleave:
    limits, integrity of returned content, no lost wake-up, and the finality of eviction.

  \<^bold>\<open>Conventions.\<close>
  \<^item> Strings and byte slices are byte lists. A Go map is an association list with distinct keys whose
    order stands for any iteration order. \<open>sort.Slice\<close> is insertion sort.
  \<^item> Errors are values that keep format and arguments; no decision reads their text. \<open>errors.Join\<close>
    wraps the later error. Missing pointers are \<open>None\<close>; fallible functions return a sum.
  \<^item> A context is the error it would report at the call; a service that asks several times has one
    answer per question. Store operations return no state on an error, as the transaction's copy is
    discarded then.
  \<^item> Answers from outside are parameters: blob and legacy file reads, the Unicode case tables, the
    clock, admission and lock outcomes, the operating system's answers to each call of a write,
    \<open>url.Parse\<close>, sources, parsers, loaders, decoders and snapshot builders.
  \<^item> A lock makes a critical section one step; a channel that is closed and replaced is a counter; a
    pointer that is compared is an address of a heap.
  \<^item> The state file holds the decoded state. The field \<open>migratedRevisions\<close> is not exported in Go, so
    publishing clears it. \<open>cloneOperationalState\<close> shares some maps by reference, which is harmless
    because every transaction starts from a freshly loaded state.
  \<^item> \<open>filepath.Rel\<close> of a clean relative name is that name. The two comparisons of a review are reduced
    to the release comparison before a release, a proved round trip.

  \<^bold>\<open>Bounds.\<close> Recursion is structural or has a termination proof. The schema walk recurses on the room
  left under the depth limit (65 minus the depth), which is the code's own limit and so never ends a
  walk the code continues. Generations wrap as 64-bit words. Instants are unbounded integers.

  \<^bold>\<open>Simplified.\<close> Publishing keeps the decoded state instead of encoding and decoding it. A blob file that
  exists is readable. Slices and maps are finite values, so the UTF-8 walk is not run on one that contains
  itself. A loader or decoder of the cache returns or panics and does not end its goroutine.

  \<^bold>\<open>Not modelled.\<close> Decoding of JSON (\<open>encoding/json\<close>; decoded values are inputs); the third-party OpenAPI
  parser and the git command behind the adapters; polling of the inter-process lock and the Windows
  variants of file replacement; nil checks of constructors whose ports are records here; compilation
  and search of catalogs; rendering models, HTTP handlers, generated templates, exports,
  packaging of the program and command-line wiring, on which no stored decision depends.
\<close>

end
